(* ===== verification/NaCl_Prelude.thy ===== *)
theory NaCl_Prelude
  imports Main "HOL-Library.Word"
begin

text \<open>
  Shared ground of the development: the machine types of the 32-bit build
  (\<open>size_t\<close>, \<open>uintptr_t\<close> and \<open>uint32_t\<close> are all \<open>u32\<close>), host memory as a function from
  byte addresses, the C library's \<open>memset\<close>, little-endian reads, C's counting \<open>for\<close> loop
  over an unsigned 32-bit variable, and the generic lemmas on lists and words that several
  components use. The collections \<open>nacl_consts\<close> and \<open>bounds\<close> are filled by the component theories.
\<close>

unbundle bit_operations_syntax

named_theorems nacl_consts \<open>the values of the constants defined by macros\<close>
named_theorems bounds \<open>bounds on values the code computes\<close>

type_synonym u8 = "8 word"
type_synonym u32 = "32 word"
type_synonym u64 = "64 word"

type_synonym memory = "nat \<Rightarrow> u8"

subsection \<open>C library functions\<close>

definition memset :: "memory \<Rightarrow> nat \<Rightarrow> u8 \<Rightarrow> nat \<Rightarrow> memory" where
  "memset mem p b n = (\<lambda>a. if p \<le> a \<and> a < p + n then b else mem a)"

definition read32 :: "memory \<Rightarrow> nat \<Rightarrow> u32" where
  "read32 mem p =
     ucast (mem p) OR push_bit 8 (ucast (mem (p + 1)))
     OR push_bit 16 (ucast (mem (p + 2))) OR push_bit 24 (ucast (mem (p + 3)))"

text \<open>
  \<open>for (i = start; i < n; i += step) body\<close> with an unsigned 32-bit \<open>i\<close>: the increment wraps,
  so the loop may run forever; running out of fuel is \<open>None\<close>.
\<close>

fun for_u32 :: "nat \<Rightarrow> u32 \<Rightarrow> u32 \<Rightarrow> u32 \<Rightarrow> (u32 \<Rightarrow> 'v \<Rightarrow> 'v) \<Rightarrow> 'v \<Rightarrow> 'v option" where
  "for_u32 0 n step i body v = None"
| "for_u32 (Suc fuel) n step i body v =
     (if i < n then for_u32 fuel n step (i + step) body (body i v) else Some v)"

subsection \<open>Memory\<close>

lemma memset_outside [simp]: "a < p \<or> p + n \<le> a \<Longrightarrow> memset mem p b n a = mem a"
  by (auto simp: memset_def)

lemma memset_inside [simp]: "p \<le> a \<Longrightarrow> a < p + n \<Longrightarrow> memset mem p b n a = b"
  by (simp add: memset_def)

lemma memset_cases: "memset mem p b n a = mem a \<or> memset mem p b n a = b"
  by (simp add: memset_def)

lemma read32_cong:
  "(\<And>a. p \<le> a \<Longrightarrow> mem a = mem' a) \<Longrightarrow> read32 mem p = read32 mem' p"
  by (simp add: read32_def)

subsection \<open>Words\<close>

lemma unat_add_no_wrap:
  "unat (a :: 'w::len word) + unat b < 2 ^ LENGTH('w) \<Longrightarrow> unat (a + b) = unat a + unat b"
  by (simp add: unat_word_ariths)

lemma unat_sub_le: "b \<le> (a :: 'w::len word) \<Longrightarrow> unat (a - b) = unat a - unat b"
  by (simp add: unat_sub)

lemma unat_ucast_u8: "unat (ucast (l :: u8) :: u32) = unat l"
proof -
  have "unat l < 2 ^ 8" using unsigned_less [of l] by simp
  then show ?thesis by (simp add: unsigned_ucast_eq take_bit_nat_eq_self)
qed

lemma ucast_u8_inject: "(ucast (a :: u8) :: u32) = ucast b \<longleftrightarrow> a = b"
  by (metis unat_ucast_u8 word_unat_eq_iff)

lemma unat_add_u8:
  "unat (a :: u32) + unat (l :: u8) < 2 ^ 32 \<Longrightarrow> unat (a + ucast l) = unat a + unat l"
  by (simp add: unat_add_no_wrap unat_ucast_u8)

subsection \<open>The counting loop\<close>

text \<open>
  When the loop variable cannot wrap (the bound plus one step fits in 32 bits), enough fuel
  makes the loop return, and its result is the fold of the body over the offsets it visits.
\<close>

definition for_offsets :: "u32 \<Rightarrow> u32 \<Rightarrow> u32 \<Rightarrow> u32 list" where
  "for_offsets n step i =
     map (\<lambda>k. i + of_nat k * step)
       [0..<(unat n - unat i + unat step - 1) div unat step]"

lemma for_u32_fold:
  assumes "0 < step" and "unat n + unat step \<le> 2 ^ 32" and "unat n - unat i < fuel"
  shows "for_u32 fuel n step i body v = Some (fold body (for_offsets n step i) v)"
  using assms
proof (induction fuel arbitrary: i v)
  case 0
  then show ?case by simp
next
  case (Suc fuel)
  show ?case
  proof (cases "i < n")
    case False
    then have "unat n \<le> unat i" by (simp add: word_le_nat_alt not_less)
    moreover have "0 < unat step" using Suc.prems(1) by (simp add: word_less_nat_alt)
    ultimately have "for_offsets n step i = []" by (simp add: for_offsets_def)
    with False show ?thesis by simp
  next
    case True
    let ?s = "unat step"
    have s: "0 < ?s" using Suc.prems(1) by (simp add: word_less_nat_alt)
    have lt: "unat i < unat n" using True by (simp add: word_less_nat_alt)
    have add: "unat (i + step) = unat i + ?s"
      using lt Suc.prems(2) by (intro unat_add_no_wrap) simp
    have len: "(unat n - unat i + ?s - 1) div ?s = Suc ((unat n - (unat i + ?s) + ?s - 1) div ?s)"
    proof (cases "unat i + ?s \<le> unat n")
      case True
      then obtain e where e: "unat n = unat i + ?s + e" using le_Suc_ex by blast
      have "unat n - unat i + ?s - 1 = (e + ?s - 1) + ?s" using e s by simp
      moreover have "unat n - (unat i + ?s) + ?s - 1 = e + ?s - 1" using e by simp
      ultimately show ?thesis using s by (simp only: div_add_self2)
    next
      case False
      then have 1: "unat n - (unat i + ?s) + ?s - 1 = ?s - 1" using s by simp
      obtain d where d: "unat n = unat i + Suc d" using lt less_iff_Suc_add by auto
      with False have "d < ?s" by simp
      moreover have "unat n - unat i + ?s - 1 = d + ?s" using d s by simp
      ultimately show ?thesis using s 1 by (simp only: div_add_self2 div_less)
    qed
    have off: "for_offsets n step i = i # for_offsets n step (i + step)"
    proof -
      have "[0..<Suc m] = 0 # map Suc [0..<m]" for m by (simp add: upt_conv_Cons map_Suc_upt)
      then show ?thesis
        unfolding for_offsets_def add len by (simp add: algebra_simps)
    qed
    have "for_u32 fuel n step (i + step) body (body i v)
        = Some (fold body (for_offsets n step (i + step)) (body i v))"
      using Suc.prems add s lt by (intro Suc.IH) auto
    with True off show ?thesis by simp
  qed
qed

lemma set_for_offsets:
  assumes "0 < step" and "unat n + unat step \<le> 2 ^ 32"
  shows "set (for_offsets n step 0) = {i. i < n \<and> unat step dvd unat i}"
proof -
  let ?s = "unat step" and ?n = "unat n"
  let ?c = "(?n + ?s - 1) div ?s"
  have s: "0 < ?s" using assms(1) by (simp add: word_less_nat_alt)
  have lt: "k < ?c \<longleftrightarrow> k * ?s < ?n" for k
  proof -
    have "k < ?c \<longleftrightarrow> Suc k * ?s \<le> ?n + ?s - 1"
      using s by (simp only: Suc_le_eq [symmetric] less_eq_div_iff_mult_less_eq)
    also have "\<dots> \<longleftrightarrow> k * ?s < ?n" using s by auto
    finally show ?thesis .
  qed
  have u: "unat (of_nat k * step) = k * ?s" if "k * ?s < ?n" for k
  proof -
    have "k * ?s < 2 ^ 32" using less_trans [OF that unsigned_less] by simp
    moreover have "of_nat k * step = of_nat (k * ?s)" by simp
    ultimately show ?thesis by (simp only: unat_of_nat) simp
  qed
  have "i \<in> set (for_offsets n step 0) \<longleftrightarrow> i < n \<and> ?s dvd unat i" for i
  proof
    assume "i \<in> set (for_offsets n step 0)"
    then obtain k where "k < ?c" and i: "i = of_nat k * step" by (auto simp: for_offsets_def)
    with lt u show "i < n \<and> ?s dvd unat i" by (simp add: word_less_nat_alt)
  next
    assume a: "i < n \<and> ?s dvd unat i"
    then obtain k where k: "unat i = k * ?s" by (auto simp: dvd_def mult.commute)
    with a lt [of k] have "k < ?c" by (simp add: word_less_nat_alt)
    moreover have "i = of_nat k * step"
    proof -
      have "i = of_nat (unat i)" by simp
      then show ?thesis unfolding k by simp
    qed
    ultimately show "i \<in> set (for_offsets n step 0)" by (auto simp: for_offsets_def)
  qed
  then show ?thesis by blast
qed

end
