(* ===== verification/Runtime_Prelude.thy ===== *)
theory Runtime_Prelude
  imports NaCl_Prelude
begin

text \<open>
  What the components of the service runtime share: how a C call can end, the C library's
  \<open>calloc\<close> and \<open>realloc\<close> on arrays and \<open>ffs\<close>, and generic lemmas on lists and words.
\<close>

subsection \<open>How a call ends\<close>

text \<open>
  A call returns a value, aborts the process (a failed \<open>CHECK\<close>, or \<open>NaClLog(LOG_FATAL, ...)\<close>), accesses
  memory that is not its own (a null pointer, an index outside its block), or never returns.
\<close>

datatype 'a outcome = Returns 'a | Aborts | Faults | Diverges

fun obind :: "'a outcome \<Rightarrow> ('a \<Rightarrow> 'b outcome) \<Rightarrow> 'b outcome" where
  "obind (Returns x) f = f x"
| "obind Aborts f = Aborts"
| "obind Faults f = Faults"
| "obind Diverges f = Diverges"

lemma obind_Returns_iff [simp]: "obind r f = Returns y \<longleftrightarrow> (\<exists>x. r = Returns x \<and> f x = Returns y)"
  by (cases r) simp_all

lemma obind_assoc: "obind (obind r f) g = obind r (\<lambda>x. obind (f x) g)"
  by (cases r) simp_all

lemma obind_cong [fundef_cong]: "r = r' \<Longrightarrow> (\<And>x. r' = Returns x \<Longrightarrow> f x = g x) \<Longrightarrow> obind r f = obind r' g"
  by (cases r') simp_all

subsection \<open>Blocks of words\<close>

text \<open>
  A block on the heap is a list of its words. \<open>realloc\<close> to a number of bytes keeps the words that
  fit; the words it adds are undefined in C and \<open>u\<close> here. \<open>memset\<close> to zero of \<open>n\<close> words from word \<open>i\<close> on faults when it
  leaves the block.
\<close>

definition resize :: "'a \<Rightarrow> nat \<Rightarrow> 'a list \<Rightarrow> 'a list" where
  "resize u n xs = take n xs @ replicate (n - length xs) u"

definition clear_words :: "'a \<Rightarrow> nat \<Rightarrow> nat \<Rightarrow> 'a list \<Rightarrow> 'a list outcome" where
  "clear_words z i n xs =
     (if i + n \<le> length xs then Returns (take i xs @ replicate n z @ drop (i + n) xs) else Faults)"

lemma length_resize [simp]: "length (resize u n xs) = n"
  by (simp add: resize_def)

lemma nth_resize: "i < n \<Longrightarrow> resize u n xs ! i = (if i < length xs then xs ! i else u)"
  by (simp add: resize_def nth_append)

lemma clear_words_Returns:
  assumes "clear_words z i n xs = Returns ys"
  shows "length ys = length xs" and "j < length xs \<Longrightarrow> ys ! j = (if i \<le> j \<and> j < i + n then z else xs ! j)"
  using assms by (auto simp: clear_words_def nth_append min_def split: if_splits)

subsection \<open>Find first set\<close>

text \<open>\<open>ffs\<close>: one plus the index of the lowest set bit, 0 when there is none.\<close>

definition ffs :: "u32 \<Rightarrow> nat" where
  "ffs w = (case find (bit w) [0..<32] of None \<Rightarrow> 0 | Some k \<Rightarrow> k + 1)"

lemma ffs_spec:
  assumes "w \<noteq> 0"
  shows "\<exists>k<32. ffs w = k + 1 \<and> bit w k \<and> (\<forall>j<k. \<not> bit w j)"
proof -
  obtain b where b: "bit w b" using assms by (auto simp: bit_eq_iff)
  then have "b < 32" using bit_imp_le_length by fastforce
  with b have "find (bit w) [0..<32] \<noteq> None" by (auto simp: find_None_iff)
  then obtain k where f: "find (bit w) [0..<32] = Some k" by blast
  then have "k < 32" "bit w k" "\<forall>j<k. \<not> bit w j" by (auto simp: find_Some_iff)
  with f show ?thesis by (auto simp: ffs_def)
qed

subsection \<open>Sizes and sums of words\<close>

lemma unat_push_1:
  assumes "k < 32"
  shows "unat (push_bit k 1 :: u32) = 2 ^ k"
proof -
  have "(2 :: nat) ^ k < 2 ^ 32" by (rule power_strict_increasing [OF assms]) simp
  moreover have "(push_bit k 1 :: u32) = of_nat (2 ^ k)" by (simp add: push_bit_of_1)
  ultimately show ?thesis by (simp only: unat_of_nat) simp
qed

lemma no_wrap_words:
  assumes "\<not> (a + b :: u32) < a"
  shows "unat (a + b) = unat a + unat b"
proof (rule unat_add_no_wrap, rule ccontr)
  assume "\<not> unat a + unat b < 2 ^ LENGTH(32)"
  then have "unat (a + b) = unat a + unat b - 2 ^ 32"
    using unsigned_less [of a, where ?'a = nat] unsigned_less [of b, where ?'a = nat]
    by (simp add: unat_word_ariths mod_if)
  then have "unat (a + b) < unat a"
    using unsigned_less [of b, where ?'a = nat] \<open>\<not> unat a + unat b < 2 ^ LENGTH(32)\<close> by simp
  then show False using assms by (simp add: word_less_nat_alt)
qed

lemma unat_and_not_mask: "unat ((a :: 'w::len word) AND NOT (mask k)) = unat a div 2 ^ k * 2 ^ k"
proof -
  have "a AND NOT (mask k) = push_bit k (drop_bit k a)" by (rule bit_eqI) (auto simp: bit_simps)
  moreover have "unat (push_bit k (drop_bit k a)) = take_bit LENGTH('w) (push_bit k (unat (drop_bit k a)))"
    by (simp only: unsigned_push_bit_eq)
  moreover have "unat (drop_bit k a) = unat a div 2 ^ k" by (metis drop_bit_eq_div unat_drop_bit_eq)
  moreover have "take_bit LENGTH('w) (unat a div 2 ^ k * 2 ^ k) = unat a div 2 ^ k * 2 ^ k"
  proof (rule take_bit_nat_eq_self)
    have "unat a div 2 ^ k * 2 ^ k \<le> unat a" by simp
    also have "\<dots> < 2 ^ LENGTH('w)" by (rule unsigned_less)
    finally show "unat a div 2 ^ k * 2 ^ k < 2 ^ LENGTH('w)" .
  qed
  ultimately show ?thesis by (simp only: push_bit_eq_mult [where ?'a = nat])
qed

lemma unat_and_mask: "unat ((a :: 'w::len word) AND mask k) = unat a mod 2 ^ k"
  by (metis take_bit_eq_mask take_bit_eq_mod unsigned_take_bit_eq)

lemma masks: "(0xffff :: u32) = mask 16" "(0xffff :: u64) = mask 16" "(0xfff :: u32) = mask 12" "(15 :: u32) = mask 4" "(31 :: u32) = mask 5" "(3 :: u32) = mask 2"
  by (simp_all add: mask_eq_exp_minus_1)

end
