(* ===== verification/Dyn_Array.thy ===== *)
theory Dyn_Array
  imports Runtime_Prelude
begin

text \<open>
  The growable pointer array of \<open>dyn_array.c\<close>: its operations, the representation invariant
  \<open>dyn_ok\<close> that ties the bitmap of used slots and the search hint to the slots, and the abstract view
  \<open>dyn_map\<close> (a map from indices) that the operations implement. A pointer is an option, \<open>None\<close>
  for the null pointer; a null array pointer is the empty block. The \<open>k\<close>-th allocation of a call succeeds when
  \<open>alloc k\<close> holds.
\<close>

subsection \<open>State\<close>

record 'a DynArray =
  num_entries :: u32
  ptr_array :: "'a option list"
  ptr_array_space :: u32
  available :: "u32 list"
  avail_ix :: u32

definition kBitsPerWord :: u32 where [nacl_consts]: "kBitsPerWord = 32"
definition kWordIndexShift :: nat where [nacl_consts]: "kWordIndexShift = 5"

definition BitsToAllocWords :: "u32 \<Rightarrow> u32" where
  "BitsToAllocWords nbits = drop_bit kWordIndexShift (nbits + kBitsPerWord - 1)"

definition BitsToIndex :: "u32 \<Rightarrow> u32" where
  "BitsToIndex nbits = drop_bit kWordIndexShift nbits"

definition BitsToOffset :: "u32 \<Rightarrow> u32" where
  "BitsToOffset nbits = nbits AND (kBitsPerWord - 1)"

subsection \<open>Operations\<close>

text \<open>\<open>calloc\<close> of \<open>n\<close> four-byte words also fails when the number of bytes does not fit \<open>size_t\<close>.\<close>

definition calloc_ok :: "(nat \<Rightarrow> bool) \<Rightarrow> nat \<Rightarrow> u32 \<Rightarrow> bool" where
  "calloc_ok alloc k n \<longleftrightarrow> alloc k \<and> 4 * unat n < 2 ^ 32"

definition DynArrayCtor :: "(nat \<Rightarrow> bool) \<Rightarrow> u32 \<Rightarrow> 'a DynArray \<Rightarrow> bool \<times> 'a DynArray" where
  "DynArrayCtor alloc initial_size dap =
     (let initial_size = (if initial_size = 0 then 32 else initial_size);
          dap = dap\<lparr>num_entries := 0\<rparr>
      in if \<not> calloc_ok alloc 0 initial_size then (False, dap\<lparr>ptr_array := []\<rparr>)
         else
           let dap = dap\<lparr>ptr_array := replicate (unat initial_size) None\<rparr>;
               nwords = BitsToAllocWords initial_size
           in if \<not> calloc_ok alloc 1 nwords then (False, dap\<lparr>available := [], ptr_array := []\<rparr>)
              else (True, dap\<lparr>available := replicate (unat nwords) 0, avail_ix := 0,
                              ptr_array_space := initial_size\<rparr>))"

definition DynArrayDtor :: "'a DynArray \<Rightarrow> 'a DynArray" where
  "DynArrayDtor dap = dap\<lparr>num_entries := 0, ptr_array := [], ptr_array_space := 0, available := []\<rparr>"

definition DynArrayGet :: "'a DynArray \<Rightarrow> u32 \<Rightarrow> 'a option outcome" where
  "DynArrayGet dap idx =
     (if idx < num_entries dap then
        if unat idx < length (ptr_array dap) then Returns (ptr_array dap ! unat idx) else Faults
      else Returns None)"

text \<open>
  The doubling loop of \<open>DynArraySet\<close>: the new size, or \<open>None\<close> when doubling overflows. From a size of 0 it
  never ends; from any other, 33 turns are enough.
\<close>

fun DynArraySet_desired :: "nat \<Rightarrow> u32 \<Rightarrow> u32 \<Rightarrow> u32 option outcome" where
  "DynArraySet_desired 0 idx desired_space = Diverges"
| "DynArraySet_desired (Suc fuel) idx desired_space =
     (if idx \<ge> desired_space then
        let tmp = 2 * desired_space
        in if tmp < desired_space then Returns None else DynArraySet_desired fuel idx tmp
      else Returns (Some desired_space))"

text \<open>
  Growing. The byte counts are computed in 32 bits, as in the source; \<open>realloc\<close> to no bytes frees the
  block and returns the null pointer.
\<close>

definition DynArraySet_grow :: "(nat \<Rightarrow> bool) \<Rightarrow> u32 \<Rightarrow> 'a DynArray \<Rightarrow> (bool \<times> 'a DynArray) outcome" where
  "DynArraySet_grow alloc desired_space dap =
     (if desired_space * 4 = 0 then Returns (False, dap\<lparr>ptr_array := []\<rparr>)
      else if \<not> alloc 0 then Returns (False, dap)
      else
        let new_space = resize None (unat (desired_space * 4) div 4) (ptr_array dap)
        in obind (clear_words None (unat (ptr_array_space dap))
                    (unat ((desired_space - ptr_array_space dap) * 4) div 4) new_space)
             (\<lambda>new_space.
                let dap = dap\<lparr>ptr_array := new_space\<rparr>;
                    old_avail_nwords = BitsToAllocWords (ptr_array_space dap);
                    new_avail_nwords = BitsToAllocWords desired_space
                in if new_avail_nwords * 4 = 0 then Returns (False, dap\<lparr>available := []\<rparr>)
                   else if \<not> alloc 1 then Returns (False, dap)
                   else obind (clear_words 0 (unat old_avail_nwords)
                                 (unat ((new_avail_nwords - old_avail_nwords) * 4) div 4)
                                 (resize 0 (unat (new_avail_nwords * 4) div 4) (available dap)))
                          (\<lambda>new_avail. Returns (True, dap\<lparr>available := new_avail, ptr_array_space := desired_space\<rparr>))))"

definition DynArraySet_store :: "u32 \<Rightarrow> 'a option \<Rightarrow> 'a DynArray \<Rightarrow> 'a DynArray outcome" where
  "DynArraySet_store idx ptr dap =
     (let ix = BitsToIndex idx; b = push_bit (unat (BitsToOffset idx)) 1
      in if length (ptr_array dap) \<le> unat idx \<or> length (available dap) \<le> unat ix then Faults
         else
           let dap = dap\<lparr>ptr_array := (ptr_array dap)[unat idx := ptr]\<rparr>;
               w = available dap ! unat ix;
               dap = (if ptr \<noteq> None then dap\<lparr>available := (available dap)[unat ix := w OR b]\<rparr>
                      else
                        let dap = dap\<lparr>available := (available dap)[unat ix := w AND NOT b]\<rparr>
                        in if ix < avail_ix dap then dap\<lparr>avail_ix := ix\<rparr> else dap)
           in Returns (if num_entries dap \<le> idx then dap\<lparr>num_entries := idx + 1\<rparr> else dap))"

definition DynArraySet ::
    "(nat \<Rightarrow> bool) \<Rightarrow> 'a DynArray \<Rightarrow> u32 \<Rightarrow> 'a option \<Rightarrow> (bool \<times> 'a DynArray) outcome" where
  "DynArraySet alloc dap idx ptr =
     obind (DynArraySet_desired 33 idx (ptr_array_space dap)) (\<lambda>d.
       case d of
         None \<Rightarrow> Returns (False, dap)
       | Some desired_space \<Rightarrow>
           obind (if desired_space \<noteq> ptr_array_space dap then DynArraySet_grow alloc desired_space dap
                  else Returns (True, dap)) (\<lambda>(ok, dap).
             if ok then obind (DynArraySet_store idx ptr dap) (\<lambda>dap. Returns (True, dap))
             else Returns (False, dap)))"

text \<open>The search of \<open>DynArrayFirstAvail\<close> for a word that is not all ones.\<close>

function DynArrayFirstAvail_loop :: "u32 list \<Rightarrow> nat \<Rightarrow> nat \<Rightarrow> nat option outcome" where
  "DynArrayFirstAvail_loop avail last_ix ix =
     (if ix < last_ix then
        if length avail \<le> ix then Faults
        else if NOT (avail ! ix) \<noteq> 0 then Returns (Some ix)
        else DynArrayFirstAvail_loop avail last_ix (ix + 1)
      else Returns None)"
  by pat_completeness auto
termination by (relation "measure (\<lambda>(avail, last_ix, ix). last_ix - ix)") auto

text \<open>The logging loop before it reads every word of the bitmap.\<close>

definition DynArrayFirstAvail :: "'a DynArray \<Rightarrow> (u32 \<times> 'a DynArray) outcome" where
  "DynArrayFirstAvail dap =
     (let last_ix = unat (BitsToAllocWords (ptr_array_space dap))
      in if length (available dap) < last_ix then Faults
         else obind (DynArrayFirstAvail_loop (available dap) last_ix (unat (avail_ix dap))) (\<lambda>r.
           case r of
             Some ix \<Rightarrow>
               Returns (of_nat (ffs (NOT (available dap ! ix))) - 1 + push_bit kWordIndexShift (of_nat ix),
                        dap\<lparr>avail_ix := of_nat ix\<rparr>)
           | None \<Rightarrow> Returns (ptr_array_space dap, dap)))"

subsection \<open>The abstract view and the invariant\<close>

definition dyn_map :: "'a DynArray \<Rightarrow> nat \<Rightarrow> 'a option" where
  "dyn_map dap i = (if i < unat (num_entries dap) then ptr_array dap ! i else None)"

definition dyn_ok :: "'a DynArray \<Rightarrow> bool" where
  "dyn_ok dap \<longleftrightarrow>
     0 < unat (ptr_array_space dap) \<and> 4 * unat (ptr_array_space dap) < 2 ^ 32 \<and>
     unat (ptr_array_space dap) \<le> length (ptr_array dap) \<and>
     length (available dap) = unat (BitsToAllocWords (ptr_array_space dap)) \<and>
     unat (num_entries dap) \<le> unat (ptr_array_space dap) \<and> unat (avail_ix dap) \<le> length (available dap) \<and>
     (\<forall>i<32 * length (available dap). bit (available dap ! (i div 32)) (i mod 32) \<longleftrightarrow> dyn_map dap i \<noteq> None) \<and>
     (\<forall>k<unat (avail_ix dap). available dap ! k = - 1) \<and>
     (\<forall>i<unat (ptr_array_space dap). unat (num_entries dap) \<le> i \<longrightarrow> ptr_array dap ! i = None)"

declare DynArrayFirstAvail_loop.simps [simp del] DynArraySet_desired.simps [simp del]

subsection \<open>Index arithmetic\<close>

lemma unat_BitsToAllocWords: "unat n + 31 < 2 ^ 32 \<Longrightarrow> unat (BitsToAllocWords n) = (unat n + 31) div 32"
proof -
  assume a: "unat n + 31 < 2 ^ 32"
  have "unat (31 + n) = 31 + unat n" using a by (subst unat_add_no_wrap) simp_all
  then show ?thesis by (simp add: BitsToAllocWords_def kBitsPerWord_def kWordIndexShift_def drop_bit_eq_div unat_div)
qed

lemma unat_BitsToIndex: "unat (BitsToIndex n) = unat n div 32"
  by (simp add: BitsToIndex_def kWordIndexShift_def drop_bit_eq_div unat_div)

lemma unat_BitsToOffset: "unat (BitsToOffset n) = unat n mod 32"
proof -
  have "BitsToOffset n = take_bit 5 n" by (simp add: BitsToOffset_def kBitsPerWord_def take_bit_eq_mask mask_eq_exp_minus_1)
  then show ?thesis by (simp add: take_bit_eq_mod unat_mod)
qed

lemma unat_times4: "4 * unat n < 2 ^ 32 \<Longrightarrow> unat (n * 4 :: u32) div 4 = unat n"
  by (simp add: unat_word_ariths)

lemma doubled:
  "unat (2 * d :: u32) = (if unat d < 2 ^ 31 then 2 * unat d else 2 * unat d - 2 ^ 32)"
proof -
  have "unat d < 2 ^ 32" using unsigned_less [of d] by simp
  then show ?thesis by (auto simp: unat_word_ariths mod_if)
qed

lemma desired_spec:
  assumes "0 < fuel" "fuel \<le> 33" "2 ^ (33 - fuel) \<le> unat d"
  shows "DynArraySet_desired fuel idx d = Returns None \<and> 2 ^ 31 \<le> unat idx \<or>
    (\<exists>d'. DynArraySet_desired fuel idx d = Returns (Some d') \<and> unat idx < unat d' \<and> unat d \<le> unat d' \<and>
       (d' = d \<or> unat d \<le> unat idx \<and> unat d' \<le> 2 * unat idx))"
  using assms
proof (induction fuel arbitrary: d)
  case (Suc fuel)
  show ?case
  proof (cases "idx \<ge> d")
    case le: True
    then have le': "unat d \<le> unat idx" by (simp add: word_le_nat_alt)
    show ?thesis
    proof (cases "unat d < 2 ^ 31")
      case False
      then have "2 * d < d" using unsigned_less [of d, where ?'a = nat] by (simp add: word_less_nat_alt doubled)
      then show ?thesis using le le' False by (simp add: DynArraySet_desired.simps)
    next
      case True
      then have dd: "unat (2 * d) = 2 * unat d" "\<not> 2 * d < d" by (simp_all add: doubled word_less_nat_alt)
      have "fuel \<noteq> 0"
        using Suc.prems(3) True by (intro notI) simp
      moreover have "2 ^ (33 - fuel) \<le> unat (2 * d)"
      proof -
        have "33 - fuel = Suc (32 - fuel)" using Suc.prems(2) by simp
        then show ?thesis using Suc.prems(3) by (simp add: dd)
      qed
      ultimately have "DynArraySet_desired fuel idx (2 * d) = Returns None \<and> 2 ^ 31 \<le> unat idx \<or>
        (\<exists>d'. DynArraySet_desired fuel idx (2 * d) = Returns (Some d') \<and> unat idx < unat d' \<and>
          unat (2 * d) \<le> unat d' \<and> (d' = 2 * d \<or> unat (2 * d) \<le> unat idx \<and> unat d' \<le> 2 * unat idx))"
        using Suc.prems(2) by (intro Suc.IH) simp_all
      then show ?thesis using le le' dd by (auto simp: DynArraySet_desired.simps Let_def)
    qed
  next
    case False
    then show ?thesis by (simp add: DynArraySet_desired.simps word_le_nat_alt not_le)
  qed
qed simp

subsection \<open>Growing and storing\<close>

lemma dyn_okD:
  assumes "dyn_ok dap"
  shows "0 < unat (ptr_array_space dap)" "4 * unat (ptr_array_space dap) < 2 ^ 32"
    "unat (ptr_array_space dap) \<le> length (ptr_array dap)"
    "length (available dap) = (unat (ptr_array_space dap) + 31) div 32"
    "unat (num_entries dap) \<le> unat (ptr_array_space dap)"
proof -
  have s: "4 * unat (ptr_array_space dap) < 2 ^ 32" using assms by (simp add: dyn_ok_def)
  then have "unat (ptr_array_space dap) + 31 < 2 ^ 32" by simp
  then show "length (available dap) = (unat (ptr_array_space dap) + 31) div 32"
    using assms unat_BitsToAllocWords unfolding dyn_ok_def by metis
qed (use assms in \<open>simp_all add: dyn_ok_def\<close>)

lemma grow_spec:
  assumes ok: "dyn_ok dap" and gr: "unat (ptr_array_space dap) < unat d" and fit: "4 * unat d < 2 ^ 32"
  shows "\<exists>b dap'. DynArraySet_grow alloc d dap = Returns (b, dap') \<and> dyn_ok dap' \<and> dyn_map dap' = dyn_map dap \<and>
    (alloc 0 \<and> alloc 1 \<longrightarrow> b) \<and> (b \<longrightarrow> ptr_array_space dap' = d)"
proof -
  let ?s = "ptr_array_space dap"
  note o = dyn_okD [OF ok]
  have le: "?s \<le> d" using gr by (simp add: word_le_nat_alt)
  have u: "unat (d * 4) = 4 * unat d" using fit by (simp add: unat_word_ariths)
  have nz: "d * 4 \<noteq> 0" using u gr by (metis mult_eq_0_iff not_less0 unsigned_0 zero_neq_numeral)
  have sub: "unat (d - ?s) = unat d - unat ?s" by (rule unat_sub_le [OF le])
  have memset1: "unat ((d - ?s) * 4) div 4 = unat d - unat ?s"
    using fit sub by (subst unat_times4) simp_all
  let ?old = "BitsToAllocWords ?s" and ?new = "BitsToAllocWords d"
  have ow: "unat ?old = (unat ?s + 31) div 32" and nw: "unat ?new = (unat d + 31) div 32"
    using fit gr by (simp_all add: unat_BitsToAllocWords)
  have wle: "unat ?old \<le> unat ?new" unfolding ow nw using gr by (intro div_le_mono) simp
  then have wle': "?old \<le> ?new" by (simp add: word_le_nat_alt)
  have nw4: "4 * unat ?new < 2 ^ 32" unfolding nw using fit by simp
  have nz2: "?new * 4 \<noteq> 0"
  proof
    assume "?new * 4 = 0"
    then have "unat (?new * 4) = 0" by simp
    moreover have "unat (?new * 4) = 4 * unat ?new" using nw4 by (simp add: unat_word_ariths)
    ultimately show False using gr by (simp add: nw)
  qed
  have memset2: "unat ((?new - ?old) * 4) div 4 = unat ?new - unat ?old"
    using nw4 unat_sub_le [OF wle'] by (subst unat_times4) simp_all
  define ns where "ns = take (unat ?s) (resize None (unat d) (ptr_array dap)) @ replicate (unat d - unat ?s) None"
  have c1: "clear_words None (unat ?s) (unat ((d - ?s) * 4) div 4) (resize None (unat (d * 4) div 4) (ptr_array dap)) = Returns ns"
    unfolding memset1 u using gr by (simp add: clear_words_def ns_def)
  define na where "na = take (unat ?old) (resize 0 (unat ?new) (available dap)) @ replicate (unat ?new - unat ?old) (0 :: u32)"
  have c2: "clear_words 0 (unat ?old) (unat ((?new - ?old) * 4) div 4) (resize 0 (unat (?new * 4) div 4) (available dap)) = Returns na"
    unfolding memset2 unat_times4 [OF nw4] using wle by (simp add: clear_words_def na_def)
  have len: "length ns = unat d" "length na = unat ?new" using gr wle by (simp_all add: ns_def na_def min_def)
  have nsi: "ns ! i = (if i < unat ?s then ptr_array dap ! i else None)" if "i < unat d" for i
    using that o(3) gr by (auto simp: ns_def nth_append nth_resize min_def)
  have nai: "na ! i = (if i < unat ?old then available dap ! i else 0)" if "i < unat ?new" for i
    using that wle o(4) ow by (auto simp: na_def nth_append nth_resize min_def)
  let ?d1 = "dap\<lparr>ptr_array := ns\<rparr>"
  let ?d2 = "?d1\<lparr>available := na, ptr_array_space := d\<rparr>"
  have m1: "dyn_map ?d1 = dyn_map dap" "dyn_map ?d2 = dyn_map dap"
    using o(5) gr nsi by (auto simp: dyn_map_def fun_eq_iff)
  have b1: "dyn_ok ?d1" using ok gr nsi len(1) m1(1) unfolding dyn_ok_def by simp
  have b2: "dyn_ok ?d2"
  proof -
    have lo: "length (available dap) = unat ?old" using o(4) ow by simp
    have "bit (na ! (i div 32)) (i mod 32) \<longleftrightarrow> dyn_map dap i \<noteq> None" if "i < 32 * unat ?new" for i
    proof (cases "i < 32 * unat ?old")
      case True
      then show ?thesis using ok nai [of "i div 32"] that lo by (auto simp: dyn_ok_def)
    next
      case False
      moreover from this have "unat ?s \<le> i" by (simp add: ow)
      ultimately show ?thesis using nai [of "i div 32"] that o(5) by (auto simp: dyn_map_def)
    qed
    moreover have "na ! k = - 1" if "k < unat (avail_ix dap)" for k
    proof -
      have "k < unat ?old" "available dap ! k = - 1" using ok that lo by (auto simp: dyn_ok_def)
      then show ?thesis using nai [of k] wle by simp
    qed
    moreover have "unat (avail_ix dap) \<le> unat ?new" using ok lo wle by (simp add: dyn_ok_def)
    ultimately show ?thesis
      using ok gr fit nsi len o(5) m1(2) unfolding dyn_ok_def by (auto simp: )
  qed
  show ?thesis
    unfolding DynArraySet_grow_def Let_def using nz nz2 c1 c2 ok b1 b2 m1 by (auto simp del: right_diff_distrib_numeral left_diff_distrib_numeral)
qed

lemma bit_or_push: "bit ((w :: u32) OR 2 ^ k) j \<longleftrightarrow> bit w j \<or> (j = k \<and> k < 32)"
  by (auto simp: bit_simps)

lemma bit_and_not_push: "bit ((w :: u32) AND NOT (2 ^ k)) j \<longleftrightarrow> bit w j \<and> j \<noteq> k"
  by (auto simp: bit_simps dest: bit_imp_le_length)

lemma div_mod_eq: "(i :: nat) = j \<longleftrightarrow> i div 32 = j div 32 \<and> i mod 32 = j mod 32"
  by (metis div_mult_mod_eq)

lemma store_spec:
  assumes ok: "dyn_ok dap" and idx: "unat idx < unat (ptr_array_space dap)"
  shows "\<exists>dap'. DynArraySet_store idx ptr dap = Returns dap' \<and> dyn_ok dap' \<and>
    dyn_map dap' = (dyn_map dap)(unat idx := ptr)"
proof -
  let ?i = "unat idx" and ?ix = "BitsToIndex idx"
  let ?k = "unat idx div 32" and ?o = "unat idx mod 32"
  note o = dyn_okD [OF ok]
  have ix: "unat ?ix = ?k" "unat (BitsToOffset idx) = ?o" by (simp_all add: unat_BitsToIndex unat_BitsToOffset)
  have k: "?k < length (available dap)" using o(4) idx by simp
  let ?w = "available dap ! ?k"
  define nw where "nw = (if ptr \<noteq> None then ?w OR 2 ^ ?o else ?w AND NOT (2 ^ ?o))"
  define ai where "ai = (if ptr = None \<and> ?ix < avail_ix dap then ?ix else avail_ix dap)"
  define ne where "ne = (if num_entries dap \<le> idx then idx + 1 else num_entries dap)"
  define dap' where "dap' = dap\<lparr>ptr_array := (ptr_array dap)[?i := ptr], available := (available dap)[?k := nw],
    avail_ix := ai, num_entries := ne\<rparr>"
  have st: "DynArraySet_store idx ptr dap = Returns dap'"
    using idx o(3) k by (auto simp: DynArraySet_store_def Let_def ix dap'_def nw_def ai_def ne_def not_le)
  have ne: "unat ne = max (unat (num_entries dap)) (?i + 1)"
  proof -
    have "?i + 1 < 2 ^ 32" using idx o(2) by simp
    then have "unat (idx + 1) = ?i + 1" by (subst unat_add_no_wrap) simp_all
    then show ?thesis by (auto simp: ne_def word_le_nat_alt)
  qed
  have tail: "ptr_array dap ! i = None" if "unat (num_entries dap) \<le> i" "i < unat (ptr_array_space dap)" for i
    using ok that by (simp add: dyn_ok_def)
  have mp: "dyn_map dap' = (dyn_map dap)(?i := ptr)"
    using idx o(3) tail by (auto simp: dyn_map_def dap'_def ne fun_eq_iff nth_list_update not_less)
  have bits: "bit (available dap' ! (i div 32)) (i mod 32) \<longleftrightarrow> dyn_map dap' i \<noteq> None"
    if "i < 32 * length (available dap)" for i
  proof -
    have "bit (available dap ! (i div 32)) (i mod 32) \<longleftrightarrow> dyn_map dap i \<noteq> None"
      using ok that by (simp add: dyn_ok_def)
    then show ?thesis
      unfolding mp using k by (auto simp: dap'_def nw_def nth_list_update bit_or_push bit_and_not_push div_mod_eq [of i ?i])
  qed
  have hint: "available dap' ! j = - 1" if "j < unat ai" for j
  proof -
    have j: "j < unat (avail_ix dap)" "ptr = None \<longrightarrow> j \<noteq> ?k"
      using that by (auto simp: ai_def word_less_nat_alt ix split: if_splits)
    then have "available dap ! j = - 1" using ok by (simp add: dyn_ok_def)
    then show ?thesis using j k by (auto simp: dap'_def nw_def nth_list_update)
  qed
  have "dyn_ok dap'"
    unfolding dyn_ok_def
  proof (intro conjI allI impI)
    show "unat (avail_ix dap') \<le> length (available dap')"
      using ok k by (auto simp: dap'_def ai_def ix dyn_ok_def)
    show "bit (available dap' ! (i div 32)) (i mod 32) \<longleftrightarrow> dyn_map dap' i \<noteq> None"
      if "i < 32 * length (available dap')" for i
      using bits [of i] that by (simp add: dap'_def)
    show "available dap' ! j = - 1" if "j < unat (avail_ix dap')" for j
      using hint [of j] that by (simp add: dap'_def)
    show "ptr_array dap' ! i = None" if "i < unat (ptr_array_space dap')" "unat (num_entries dap') \<le> i" for i
      using that tail [of i] by (simp add: dap'_def ne)
  qed (use ok idx ne o in \<open>simp_all add: dap'_def dyn_ok_def\<close>)
  with st mp show ?thesis by blast
qed

lemma set_spec:
  assumes ok: "dyn_ok dap" and idx: "unat idx < 2 ^ 29 \<or> unat idx < unat (ptr_array_space dap)"
  shows "\<exists>b dap'. DynArraySet alloc dap idx ptr = Returns (b, dap') \<and> dyn_ok dap' \<and>
    dyn_map dap' = (if b then (dyn_map dap)(unat idx := ptr) else dyn_map dap) \<and>
    (alloc 0 \<and> alloc 1 \<or> unat idx < unat (ptr_array_space dap) \<longrightarrow> b)"
proof -
  let ?s = "ptr_array_space dap"
  note o = dyn_okD [OF ok]
  obtain d where d: "DynArraySet_desired 33 idx ?s = Returns (Some d)" "unat idx < unat d" "unat ?s \<le> unat d"
    "d = ?s \<or> unat ?s \<le> unat idx \<and> unat d \<le> 2 * unat idx"
  proof -
    have "(2::nat) ^ (33 - 33) \<le> unat ?s" using o(1) by simp
    from desired_spec [OF _ order.refl this, of idx] have
      "DynArraySet_desired 33 idx ?s = Returns None \<and> 2 ^ 31 \<le> unat idx \<or>
       (\<exists>d'. DynArraySet_desired 33 idx ?s = Returns (Some d') \<and> unat idx < unat d' \<and> unat ?s \<le> unat d' \<and>
         (d' = ?s \<or> unat ?s \<le> unat idx \<and> unat d' \<le> 2 * unat idx))" by (simp only: zero_less_numeral simp_thms)
    moreover have "\<not> 2 ^ 31 \<le> unat idx" using idx o(2) by auto
    ultimately show thesis using that by blast
  qed
  obtain b1 dap1 where g: "(if d \<noteq> ?s then DynArraySet_grow alloc d dap else Returns (True, dap)) = Returns (b1, dap1)"
    "dyn_ok dap1" "dyn_map dap1 = dyn_map dap" "alloc 0 \<and> alloc 1 \<or> unat idx < unat ?s \<longrightarrow> b1" "b1 \<longrightarrow> ptr_array_space dap1 = d"
  proof (cases "d = ?s")
    case True
    show thesis by (rule that [of True dap]) (simp_all add: True ok)
  next
    case False
    then have "unat ?s < unat d" using d(3) by (metis le_neq_implies_less word_unat_eq_iff)
    moreover have "4 * unat d < 2 ^ 32" using False d(4) idx by simp
    ultimately obtain b1 dap1 where "DynArraySet_grow alloc d dap = Returns (b1, dap1) \<and> dyn_ok dap1 \<and>
        dyn_map dap1 = dyn_map dap \<and> (alloc 0 \<and> alloc 1 \<longrightarrow> b1) \<and> (b1 \<longrightarrow> ptr_array_space dap1 = d)"
      using grow_spec [OF ok] by blast
    then show thesis using False d(4) by (intro that [of b1 dap1]) auto
  qed
  show ?thesis
  proof (cases b1)
    case True
    then obtain dap2 where "DynArraySet_store idx ptr dap1 = Returns dap2" "dyn_ok dap2"
      "dyn_map dap2 = (dyn_map dap1)(unat idx := ptr)"
      using store_spec [OF g(2), of idx ptr] g(5) d(2) by auto
    then show ?thesis using d(1) g True by (auto simp: DynArraySet_def)
  next
    case False
    then show ?thesis using d(1) g by (auto simp: DynArraySet_def)
  qed
qed

subsection \<open>Searching\<close>

lemma first_avail_loop_spec:
  assumes "last_ix \<le> length avail" and "\<forall>k<ix. avail ! k = - 1"
  shows "DynArrayFirstAvail_loop avail last_ix ix = Returns None \<and> (\<forall>k<last_ix. avail ! k = - 1) \<or>
    (\<exists>j<last_ix. DynArrayFirstAvail_loop avail last_ix ix = Returns (Some j) \<and> NOT (avail ! j) \<noteq> 0 \<and>
       (\<forall>k<j. avail ! k = - 1))"
  using assms
proof (induction avail last_ix ix rule: DynArrayFirstAvail_loop.induct)
  case (1 avail last_ix ix)
  show ?case
  proof (cases "ix < last_ix \<and> NOT (avail ! ix) = 0")
    case True
    then have "avail ! ix = NOT 0" by (metis bit.double_compl)
    then have "avail ! ix = - 1" by simp
    then have "\<forall>k<ix + 1. avail ! k = - 1" using "1.prems" by (simp add: less_Suc_eq)
    moreover have "DynArrayFirstAvail_loop avail last_ix ix = DynArrayFirstAvail_loop avail last_ix (ix + 1)"
      using True "1.prems" by (subst DynArrayFirstAvail_loop.simps) simp
    ultimately show ?thesis using True "1.IH" "1.prems" by simp
  next
    case False
    then have "DynArrayFirstAvail_loop avail last_ix ix = Returns (if ix < last_ix then Some ix else None)"
      using "1.prems" by (subst DynArrayFirstAvail_loop.simps) auto
    then show ?thesis using False "1.prems" by auto
  qed
qed

lemma first_avail_spec:
  assumes ok: "dyn_ok dap"
  shows "\<exists>r dap'. DynArrayFirstAvail dap = Returns (r, dap') \<and> dyn_ok dap' \<and> dyn_map dap' = dyn_map dap \<and>
    dyn_map dap (unat r) = None \<and> (\<forall>j<unat r. dyn_map dap j \<noteq> None) \<and> unat r \<le> unat (ptr_array_space dap)"
proof -
  let ?s = "ptr_array_space dap" and ?av = "available dap"
  note o = dyn_okD [OF ok]
  have last: "unat (BitsToAllocWords ?s) = length ?av" using ok by (simp add: dyn_ok_def)
  have bits: "bit (?av ! (i div 32)) (i mod 32) \<longleftrightarrow> dyn_map dap i \<noteq> None" if "i < 32 * length ?av" for i
    using ok that by (simp add: dyn_ok_def)
  have ones: "dyn_map dap i \<noteq> None" if "?av ! (i div 32) = - 1" "i div 32 < length ?av" for i
    using that bits [of i] by simp
  have out: "dyn_map dap i = None" if "unat ?s \<le> i" for i using that o(5) by (simp add: dyn_map_def)
  from ok have "\<forall>k<unat (avail_ix dap). ?av ! k = - 1" by (simp add: dyn_ok_def)
  from first_avail_loop_spec [OF order.refl this]
  consider (none) "DynArrayFirstAvail_loop ?av (length ?av) (unat (avail_ix dap)) = Returns None" "\<forall>k<length ?av. ?av ! k = - 1"
    | (some) j where "DynArrayFirstAvail_loop ?av (length ?av) (unat (avail_ix dap)) = Returns (Some j)" "j < length ?av"
        "NOT (?av ! j) \<noteq> 0" "\<forall>k<j. ?av ! k = - 1"
    by blast
  then show ?thesis
  proof cases
    case none
    have "dyn_map dap j \<noteq> None" if "j < unat ?s" for j
      using none(2) that o(4) by (intro ones) simp_all
    with none(1) ok out show ?thesis by (simp add: DynArrayFirstAvail_def last)
  next
    case some
    obtain k where k: "k < 32" "ffs (NOT (?av ! j)) = k + 1" "bit (NOT (?av ! j)) k" "\<forall>i<k. \<not> bit (NOT (?av ! j)) i"
      using ffs_spec [OF some(3)] by blast
    let ?p = "32 * j + k"
    have pj: "?p div 32 = j" "?p mod 32 = k" using k(1) by simp_all
    have p: "?p < 32 * length ?av" using some(2) k(1) by simp
    have free: "dyn_map dap ?p = None" using bits [OF p] k pj by (simp add: bit_simps)
    have used: "dyn_map dap i \<noteq> None" if "i < ?p" for i
    proof (cases "i < 32 * j")
      case True
      then have "i div 32 < j" by (simp add: div_less_iff_less_mult mult.commute)
      then show ?thesis using some(2,4) by (intro ones) simp_all
    next
      case False
      define e where "e = i - 32 * j"
      have e: "i = 32 * j + e" "e < k" using False that by (simp_all add: e_def)
      then have "i div 32 = j" "i mod 32 < k" using k(1) by simp_all
      then have "\<not> bit (NOT (?av ! (i div 32))) (i mod 32)" using k(4) by metis
      then have "bit (?av ! (i div 32)) (i mod 32)" by (simp add: bit_not_iff)
      then show ?thesis using bits [of i] that p by simp
    qed
    have "?p \<le> unat ?s" using used [of "unat ?s"] out [of "unat ?s"] by linarith
    let ?r = "of_nat (ffs (NOT (?av ! j))) - 1 + push_bit kWordIndexShift (of_nat j) :: u32"
    have r: "?r = of_nat ?p"
      by (simp add: k kWordIndexShift_def push_bit_eq_mult mult.commute)
    have "?p < 2 ^ 32" using \<open>?p \<le> unat ?s\<close> o(2) by simp
    then have ur: "unat ?r = ?p" unfolding r unat_of_nat by simp
    let ?d = "dap\<lparr>avail_ix := of_nat j\<rparr>"
    have "unat (of_nat j :: u32) = j" using \<open>?p < 2 ^ 32\<close> by (simp add: unat_of_nat)
    moreover have "dyn_map ?d = dyn_map dap" by (simp add: dyn_map_def fun_eq_iff)
    ultimately have "dyn_ok ?d" using ok some(2,4) by (simp add: dyn_ok_def)
    moreover have "DynArrayFirstAvail dap = Returns (?r, ?d)"
      using some(1) by (simp add: DynArrayFirstAvail_def last)
    ultimately show ?thesis
      using free used \<open>?p \<le> unat ?s\<close> \<open>dyn_map ?d = dyn_map dap\<close>
      by (intro exI [of _ ?r] exI [of _ ?d]) (simp add: ur del: of_nat_add)
  qed
qed

lemma ctor_spec:
  assumes "DynArrayCtor alloc n dap = (True, dap')"
  shows "dyn_ok dap'" and "dyn_map dap' = (\<lambda>_. None)"
proof -
  define sz where "sz = (if n = 0 then 32 else n)"
  have sz: "4 * unat sz < 2 ^ 32" and pos: "0 < unat sz"
    and d: "num_entries dap' = 0" "ptr_array dap' = replicate (unat sz) None"
      "available dap' = replicate (unat (BitsToAllocWords sz)) 0" "avail_ix dap' = 0" "ptr_array_space dap' = sz"
    using assms by (auto simp: DynArrayCtor_def Let_def calloc_ok_def sz_def unat_gt_0 split: if_splits)
  show "dyn_map dap' = (\<lambda>_. None)" using d(1) by (simp add: dyn_map_def fun_eq_iff)
  then show "dyn_ok dap'"
    using sz pos d by (auto simp: dyn_ok_def)
qed

subsection \<open>The array as a table of slots\<close>

text \<open>
  What the tables of descriptors and threads rely on: a total \<open>get\<close>, a \<open>put\<close> that replaces one
  slot or fails and changes nothing, and a search for the lowest free slot.
\<close>

locale slot_table =
  fixes ok :: "'t \<Rightarrow> bool"
    and view :: "'t \<Rightarrow> nat \<Rightarrow> 'a option"
    and get :: "'t \<Rightarrow> u32 \<Rightarrow> 'a option outcome"
    and put :: "(nat \<Rightarrow> bool) \<Rightarrow> 't \<Rightarrow> u32 \<Rightarrow> 'a option \<Rightarrow> (bool \<times> 't) outcome"
    and free_slot :: "'t \<Rightarrow> (u32 \<times> 't) outcome"
  assumes get_view: "ok t \<Longrightarrow> get t i = Returns (view t (unat i))"
    and put_view: "ok t \<Longrightarrow> unat i < 2 ^ 29 \<or> view t (unat i) \<noteq> None \<Longrightarrow>
      \<exists>b t'. put alloc t i p = Returns (b, t') \<and> ok t' \<and> view t' = (if b then (view t)(unat i := p) else view t) \<and>
        (alloc 0 \<and> alloc 1 \<or> view t (unat i) \<noteq> None \<longrightarrow> b)"
    and free_view: "ok t \<Longrightarrow>
      \<exists>r t'. free_slot t = Returns (r, t') \<and> ok t' \<and> view t' = view t \<and> view t (unat r) = None \<and>
        (\<forall>j<unat r. view t j \<noteq> None)"
begin

text \<open>Putting a value into the free slot that was found keeps every other slot.\<close>

lemma put_free:
  assumes "ok t" and "free_slot t = Returns (r, t1)" and "unat r < 2 ^ 29"
  shows "\<exists>b t'. put alloc t1 r p = Returns (b, t') \<and> ok t' \<and> view t (unat r) = None \<and>
    view t' = (if b then (view t)(unat r := p) else view t) \<and> (alloc 0 \<and> alloc 1 \<longrightarrow> b)"
  using free_view [OF assms(1)] put_view [of t1 r alloc p] assms(2,3) by auto

lemma get_put:
  assumes "ok t" and "unat i < 2 ^ 29 \<or> view t (unat i) \<noteq> None" and "put alloc t i p = Returns (True, t')"
  shows "get t' j = (if j = i then Returns p else get t j)"
  using put_view [OF assms(1,2), of alloc p] assms(1,3) by (auto simp: get_view word_unat_eq_iff)

end

interpretation dyn: slot_table dyn_ok dyn_map DynArrayGet DynArraySet DynArrayFirstAvail
proof
  fix dap :: "'a DynArray" and idx
  assume ok: "dyn_ok dap"
  then show "DynArrayGet dap idx = Returns (dyn_map dap (unat idx))"
    using dyn_okD(3,5) [OF ok] by (auto simp: DynArrayGet_def dyn_map_def word_less_nat_alt)
next
  fix dap :: "'a DynArray" and idx alloc p
  assume ok: "dyn_ok dap" and i: "unat (idx :: u32) < 2 ^ 29 \<or> dyn_map dap (unat idx) \<noteq> None"
  have "dyn_map dap (unat idx) \<noteq> None \<Longrightarrow> unat idx < unat (ptr_array_space dap)"
    using dyn_okD(5) [OF ok] by (auto simp: dyn_map_def split: if_splits)
  with i set_spec [OF ok, of idx alloc p]
  show "\<exists>b t'. DynArraySet alloc dap idx p = Returns (b, t') \<and> dyn_ok t' \<and>
      dyn_map t' = (if b then (dyn_map dap)(unat idx := p) else dyn_map dap) \<and>
      (alloc 0 \<and> alloc 1 \<or> dyn_map dap (unat idx) \<noteq> None \<longrightarrow> b)"
    by blast
next
  fix dap :: "'a DynArray"
  assume "dyn_ok dap"
  then show "\<exists>r t'. DynArrayFirstAvail dap = Returns (r, t') \<and> dyn_ok t' \<and> dyn_map t' = dyn_map dap \<and>
      dyn_map dap (unat r) = None \<and> (\<forall>j<unat r. dyn_map dap j \<noteq> None)"
    using first_avail_spec by blast
qed

subsection \<open>Properties\<close>

text \<open>
  C26: the array implements a finite map from indices to pointers. On a well-formed array and an index below
  \<open>2^29\<close>, \<open>DynArraySet\<close> returns; it updates the map at the index and reports success, or reports failure and changes
  nothing in the map; it succeeds when memory is available. The array stays well formed, and
  \<open>DynArrayGet\<close> then reads the map.
\<close>

theorem DynArraySet_refines_update:
  assumes "dyn_ok dap" and "unat idx < 2 ^ 29"
  shows "\<exists>b dap'. DynArraySet alloc dap idx ptr = Returns (b, dap') \<and> dyn_ok dap' \<and>
    dyn_map dap' = (if b then (dyn_map dap)(unat idx := ptr) else dyn_map dap) \<and> (alloc 0 \<and> alloc 1 \<longrightarrow> b) \<and>
    (\<forall>j. DynArrayGet dap' j = Returns (dyn_map dap' (unat j)))"
proof -
  have "unat idx < 2 ^ 29 \<or> dyn_map dap (unat idx) \<noteq> None" using assms(2) by simp
  from dyn.put_view [OF assms(1) this] show ?thesis using dyn.get_view by metis
qed

text \<open>A small array to instantiate the properties on.\<close>

definition no_array :: "nat DynArray" where
  "no_array = \<lparr>num_entries = 0, ptr_array = [], ptr_array_space = 0, available = [], avail_ix = 0\<rparr>"

definition sample_array :: "nat DynArray" where
  "sample_array = snd (DynArrayCtor (\<lambda>_. True) 2 no_array)"

lemma sample_array_ok: "dyn_ok sample_array" "dyn_map sample_array = (\<lambda>_. None)"
proof -
  have "fst (DynArrayCtor (\<lambda>_. True) 2 no_array)"
    by (simp add: DynArrayCtor_def calloc_ok_def unat_BitsToAllocWords)
  then have "DynArrayCtor (\<lambda>_. True) 2 no_array = (True, sample_array)"
    unfolding sample_array_def by (metis prod.collapse)
  from ctor_spec [OF this] show "dyn_ok sample_array" "dyn_map sample_array = (\<lambda>_. None)" .
qed

theorem DynArraySet_refines_update_witness:
  "\<exists>dap. DynArraySet (\<lambda>_. True) sample_array 5 (Some 7) = Returns (True, dap) \<and>
     DynArrayGet dap 5 = Returns (Some 7) \<and> DynArrayGet dap 0 = Returns None"
  using DynArraySet_refines_update [OF sample_array_ok(1), of 5 "\<lambda>_. True" "Some 7"] sample_array_ok(2) by auto

text \<open>
  C27: \<open>DynArrayFirstAvail\<close> returns the lowest index that holds no pointer, whatever the search hint; it keeps
  the array well formed and its contents.
\<close>

theorem DynArrayFirstAvail_least:
  assumes "dyn_ok dap"
  shows "\<exists>r dap'. DynArrayFirstAvail dap = Returns (r, dap') \<and> dyn_ok dap' \<and> dyn_map dap' = dyn_map dap \<and>
    unat r = (LEAST i. dyn_map dap i = None)"
proof -
  obtain r dap' where r: "DynArrayFirstAvail dap = Returns (r, dap')" "dyn_ok dap'" "dyn_map dap' = dyn_map dap"
    "dyn_map dap (unat r) = None" "\<forall>j<unat r. dyn_map dap j \<noteq> None"
    using first_avail_spec [OF assms] by blast
  then have "(LEAST i. dyn_map dap i = None) = unat r"
    by (intro Least_equality) (auto simp: not_less [symmetric])
  with r show ?thesis by auto
qed

theorem DynArrayFirstAvail_least_witness:
  "\<exists>r dap'. DynArrayFirstAvail sample_array = Returns (r, dap') \<and> r = 0"
  using DynArrayFirstAvail_least [OF sample_array_ok(1)] sample_array_ok(2) by (auto simp: unsigned_eq_0_iff)

text \<open>
  C32: the search for the new size in \<open>DynArraySet\<close> ends for every index when the array has a slot at all: it
  finds a size beyond the index, or gives up because doubling overflows, which only happens for
  indices from \<open>2^31\<close> on. On a destroyed array, with no slots, it never ends.
\<close>

theorem DynArraySet_desired_terminates:
  "DynArraySet_desired 33 idx space \<noteq> Diverges \<longleftrightarrow> space \<noteq> 0"
proof (cases "space = 0")
  case True
  have "DynArraySet_desired fuel idx 0 = Diverges" for fuel
    by (induction fuel) (simp_all add: DynArraySet_desired.simps)
  from this [of 33] show ?thesis unfolding True by (simp only: simp_thms)
next
  case False
  then have "(2::nat) ^ (33 - 33) \<le> unat space" by (simp add: unat_gt_0 Suc_leI)
  note spec = desired_spec [OF _ order.refl this, of idx, simplified]
  have "DynArraySet_desired 33 idx space \<noteq> Diverges"
    using spec by (elim disjE exE conjE) (simp_all only: outcome.distinct not_False_eq_True)
  then show ?thesis using False by simp
qed

end
