(* ===== verification/Desc_Table.thy ===== *)
theory Desc_Table
  imports Dyn_Array "HOL-Library.Multiset"
begin

text \<open>
  The tables of descriptors and threads of an application (\<open>sel_ldr.c\<close>), the reference counts of
  descriptors (\<open>desc/nacl_desc_base.c\<close>) and the \<open>close\<close> system call that works on both. A descriptor is known by
  its address; \<open>ref_counts\<close> gives the count of each live one, and a freed one has none, so that using it
  faults. The locks taken around the operations make each of them one step of the
  step relation below.
\<close>

subsection \<open>Reference counts\<close>

type_synonym refs = "nat \<rightharpoonup> u32"

definition NaClDescRef :: "nat \<Rightarrow> refs \<Rightarrow> refs outcome" where
  "NaClDescRef ndp h =
     (case h ndp of
        None \<Rightarrow> Faults
      | Some c \<Rightarrow> if c + 1 = 0 then Aborts else Returns (h(ndp \<mapsto> c + 1)))"

definition NaClDescUnref :: "nat \<Rightarrow> refs \<Rightarrow> refs outcome" where
  "NaClDescUnref ndp h =
     (case h ndp of
        None \<Rightarrow> Faults
      | Some c \<Rightarrow>
          if c = 0 then Aborts
          else if c - 1 = 0 then Returns (h(ndp := None)) else Returns (h(ndp \<mapsto> c - 1)))"

definition NaClDescSafeUnref :: "nat option \<Rightarrow> refs \<Rightarrow> refs outcome" where
  "NaClDescSafeUnref ndp h = (case ndp of None \<Rightarrow> Returns h | Some a \<Rightarrow> NaClDescUnref a h)"

text \<open>\<open>NaClDescCtor\<close> of a new object at a free address; the caller holds the one reference.\<close>

definition NaClDescCtor :: "nat \<Rightarrow> refs \<Rightarrow> refs" where
  "NaClDescCtor ndp h = h(ndp \<mapsto> 1)"

text \<open>The \<open>Close\<close> method, the same in every class of descriptors.\<close>

definition NaClDescClose :: "nat \<Rightarrow> refs \<Rightarrow> (int \<times> refs) outcome" where
  "NaClDescClose ndp h = obind (NaClDescUnref ndp h) (\<lambda>h. Returns (0, h))"

subsection \<open>The descriptor table\<close>

record desc_state =
  desc_tbl :: "nat DynArray"
  ref_counts :: refs

definition NaClGetDescMu :: "desc_state \<Rightarrow> u32 \<Rightarrow> (nat option \<times> desc_state) outcome" where
  "NaClGetDescMu nap d =
     obind (DynArrayGet (desc_tbl nap) d) (\<lambda>result.
       case result of
         None \<Rightarrow> Returns (None, nap)
       | Some ndp \<Rightarrow> obind (NaClDescRef ndp (ref_counts nap)) (\<lambda>h. Returns (Some ndp, nap\<lparr>ref_counts := h\<rparr>)))"

definition NaClSetDescMu :: "(nat \<Rightarrow> bool) \<Rightarrow> desc_state \<Rightarrow> u32 \<Rightarrow> nat option \<Rightarrow> desc_state outcome" where
  "NaClSetDescMu alloc nap d ndp =
     obind (DynArrayGet (desc_tbl nap) d) (\<lambda>result.
     obind (NaClDescSafeUnref result (ref_counts nap)) (\<lambda>h.
     obind (DynArraySet alloc (desc_tbl nap) d ndp) (\<lambda>(ok, tbl).
       if ok then Returns (nap\<lparr>desc_tbl := tbl, ref_counts := h\<rparr>) else Aborts)))"

definition INT32_MAX :: u32 where [nacl_consts]: "INT32_MAX = 0x7fffffff"

definition NaClSetAvailMu :: "(nat \<Rightarrow> bool) \<Rightarrow> desc_state \<Rightarrow> nat option \<Rightarrow> (u32 \<times> desc_state) outcome" where
  "NaClSetAvailMu alloc nap ndp =
     obind (DynArrayFirstAvail (desc_tbl nap)) (\<lambda>(pos, tbl).
       if pos > INT32_MAX then Aborts
       else obind (NaClSetDescMu alloc (nap\<lparr>desc_tbl := tbl\<rparr>) pos ndp) (\<lambda>nap. Returns (pos, nap)))"

definition NACL_ABI_EBADF :: int where [nacl_consts]: "NACL_ABI_EBADF = 9"

definition NaClCommonSysClose :: "(nat \<Rightarrow> bool) \<Rightarrow> desc_state \<Rightarrow> u32 \<Rightarrow> (int \<times> desc_state) outcome" where
  "NaClCommonSysClose alloc nap d =
     obind (NaClGetDescMu nap d) (\<lambda>(result, nap).
       case result of
         None \<Rightarrow> Returns (- NACL_ABI_EBADF, nap)
       | Some ndp \<Rightarrow>
           obind (NaClSetDescMu alloc nap d None) (\<lambda>nap.
           obind (NaClDescClose ndp (ref_counts nap)) (\<lambda>(retval, h).
             Returns (retval, nap\<lparr>ref_counts := h\<rparr>))))"

subsection \<open>The thread table\<close>

record thread_state =
  threads :: "nat DynArray"
  num_threads :: "32 word"

definition NaClAddThreadMu :: "(nat \<Rightarrow> bool) \<Rightarrow> thread_state \<Rightarrow> nat \<Rightarrow> (u32 \<times> thread_state) outcome" where
  "NaClAddThreadMu alloc nap natp =
     obind (DynArrayFirstAvail (threads nap)) (\<lambda>(pos, tbl).
     obind (DynArraySet alloc tbl pos (Some natp)) (\<lambda>(ok, tbl).
       if ok then Returns (pos, nap\<lparr>threads := tbl, num_threads := num_threads nap + 1\<rparr>) else Aborts))"

definition NaClRemoveThreadMu :: "(nat \<Rightarrow> bool) \<Rightarrow> thread_state \<Rightarrow> u32 \<Rightarrow> thread_state outcome" where
  "NaClRemoveThreadMu alloc nap thread_num =
     obind (DynArrayGet (threads nap) thread_num) (\<lambda>t.
       if t = None then Aborts
       else if num_threads nap = 0 then Aborts
       else
         let nap = nap\<lparr>num_threads := num_threads nap - 1\<rparr>
         in obind (DynArraySet alloc (threads nap) thread_num None) (\<lambda>(ok, tbl).
              if ok then Returns (nap\<lparr>threads := tbl\<rparr>) else Aborts))"

definition NaClGetThreadMu :: "thread_state \<Rightarrow> u32 \<Rightarrow> nat option outcome" where
  "NaClGetThreadMu nap thread_num = DynArrayGet (threads nap) thread_num"

subsection \<open>Every reference is counted\<close>

text \<open>\<open>counts n h\<close>: the live descriptors are those with \<open>n a\<close> references, \<open>n a\<close> not zero, and \<open>n a\<close> is their count.\<close>

definition counts :: "(nat \<Rightarrow> nat) \<Rightarrow> refs \<Rightarrow> bool" where
  "counts n h \<longleftrightarrow> (\<forall>a. (case h a of None \<Rightarrow> 0 | Some c \<Rightarrow> unat c) = n a \<and> h a \<noteq> Some 0)"

text \<open>
  \<open>rc_ok H s\<close>: the count of a live descriptor is the number of table slots that hold it plus
  the number of references in the hands of callers, \<open>H\<close>; it is not zero; and nothing refers to a freed one.
\<close>

definition slots :: "(nat \<Rightarrow> nat option) \<Rightarrow> nat \<Rightarrow> nat set" where
  "slots f a = {i. f i = Some a}"

definition rc_ok :: "nat multiset \<Rightarrow> desc_state \<Rightarrow> bool" where
  "rc_ok H s \<longleftrightarrow> dyn_ok (desc_tbl s) \<and>
     counts (\<lambda>a. card (slots (dyn_map (desc_tbl s)) a) + count H a) (ref_counts s)"

lemma finite_slots: "finite (slots (dyn_map t) a)"
  by (rule finite_subset [of _ "{..<unat (num_entries t)}"]) (auto simp: slots_def dyn_map_def split: if_splits)

lemma slots_upd:
  "slots (f(i := p)) a = (if p = Some a then insert i (slots f a) else slots f a - {i})"
  by (auto simp: slots_def)

lemma counts_upd:
  "counts n h \<Longrightarrow> (case p of None \<Rightarrow> 0 | Some c \<Rightarrow> unat c) = k \<Longrightarrow> p \<noteq> Some 0 \<Longrightarrow> counts (n(a := k)) (h(a := p))"
  by (simp add: counts_def)

lemma counts_live:
  assumes "counts n h" and "0 < n a"
  obtains c where "h a = Some c" "unat c = n a" "c \<noteq> 0"
proof (cases "h a")
  case None
  then show thesis using assms unfolding counts_def by (metis less_not_refl option.simps(4))
next
  case (Some c)
  then show thesis using assms(1) that unfolding counts_def by (metis option.simps(5))
qed

lemma Ref_counts:
  assumes "counts n h" and "0 < n a" and "n a + 1 < 2 ^ 32"
  shows "\<exists>h'. NaClDescRef a h = Returns h' \<and> counts (n(a := n a + 1)) h'"
proof -
  obtain c where c: "h a = Some c" "unat c = n a" using counts_live [OF assms(1,2)] by blast
  have u: "unat (c + 1) = n a + 1" using c(2) assms(3) by (subst unat_add_no_wrap) simp_all
  then have nz: "c + 1 \<noteq> 0" by (metis add_is_0 unsigned_0 zero_neq_one)
  have "counts (n(a := n a + 1)) (h(a \<mapsto> c + 1))" by (rule counts_upd [OF assms(1)]) (simp_all add: u nz)
  with c nz show ?thesis by (simp add: NaClDescRef_def)
qed

lemma Unref_counts:
  assumes "counts n h" and "0 < n a"
  shows "\<exists>h'. NaClDescUnref a h = Returns h' \<and> counts (n(a := n a - 1)) h'"
proof -
  obtain c where c: "h a = Some c" "unat c = n a" "c \<noteq> 0"
    by (rule counts_live [OF assms])
  have "1 \<le> c" using c(3) by (simp add: word_le_nat_alt unat_gt_0 Suc_leI)
  then have u: "unat (c - 1) = n a - 1" using c(2) by (simp add: unat_sub_le)
  let ?p = "if c - 1 = 0 then None else Some (c - 1)"
  have "counts (n(a := n a - 1)) (h(a := ?p))"
    using u by (intro counts_upd [OF assms(1)]) auto
  then show ?thesis using c by (auto simp: NaClDescUnref_def)
qed

definition held :: "nat option \<Rightarrow> nat multiset" where
  "held p = (case p of None \<Rightarrow> {#} | Some a \<Rightarrow> {#a#})"

lemma count_held: "count (held p) a = (if p = Some a then 1 else 0)"
  by (cases p) (auto simp: held_def)

lemma SafeUnref_counts:
  assumes "counts n h" and "\<And>a. p = Some a \<Longrightarrow> 0 < n a"
  shows "\<exists>h'. NaClDescSafeUnref p h = Returns h' \<and> counts (\<lambda>a. n a - count (held p) a) h'"
proof (cases p)
  case None
  then show ?thesis using assms(1) by (simp add: NaClDescSafeUnref_def held_def)
next
  case (Some a)
  moreover have "(\<lambda>x. n x - count (held p) x) = n(a := n a - 1)" by (auto simp: Some count_held)
  ultimately show ?thesis using Unref_counts [OF assms(1)] assms(2) by (simp add: NaClDescSafeUnref_def)
qed

lemma rc_ok_tbl: "rc_ok H s \<Longrightarrow> dyn_ok (desc_tbl s)"
  by (simp add: rc_ok_def)

lemma live_slot: "dyn_map t i = Some a \<Longrightarrow> 0 < card (slots (dyn_map t) a)"
  using finite_slots [of t a] by (auto simp: slots_def card_gt_0_iff)

lemma GetDescMu_rc:
  fixes d :: u32
  assumes ok: "rc_ok H s"
  defines "r \<equiv> dyn_map (desc_tbl s) (unat d)"
  shows "NaClGetDescMu s d = Aborts \<or>
    (\<exists>s'. NaClGetDescMu s d = Returns (r, s') \<and> desc_tbl s' = desc_tbl s \<and> rc_ok (H + held r) s')"
    and "(\<And>a. r = Some a \<Longrightarrow> card (slots (dyn_map (desc_tbl s)) a) + count H a + 1 < 2 ^ 32) \<Longrightarrow> NaClGetDescMu s d \<noteq> Aborts"
proof -
  let ?n = "\<lambda>a. card (slots (dyn_map (desc_tbl s)) a) + count H a"
  have c: "counts ?n (ref_counts s)" using ok by (simp add: rc_ok_def)
  have g: "DynArrayGet (desc_tbl s) d = Returns r"
    unfolding r_def by (rule dyn.get_view [OF rc_ok_tbl [OF ok]])
  have "NaClGetDescMu s d = Aborts \<and> (\<exists>a. r = Some a \<and> \<not> ?n a + 1 < 2 ^ 32) \<or>
    (\<exists>s'. NaClGetDescMu s d = Returns (r, s') \<and> desc_tbl s' = desc_tbl s \<and> rc_ok (H + held r) s')"
  proof (cases r)
    case None
    then show ?thesis using g ok by (simp add: NaClGetDescMu_def held_def)
  next
    case (Some a)
    then have pos: "0 < ?n a" using live_slot r_def by (metis add_gr_0)
    show ?thesis
    proof (cases "?n a + 1 < 2 ^ 32")
      case True
      then obtain h where h: "NaClDescRef a (ref_counts s) = Returns h" "counts (?n(a := ?n a + 1)) h"
        using Ref_counts [OF c pos] by blast
      moreover have "?n(a := ?n a + 1) = (\<lambda>x. card (slots (dyn_map (desc_tbl s)) x) + count (H + held r) x)"
        by (auto simp: Some count_held)
      ultimately show ?thesis using g Some ok by (simp add: NaClGetDescMu_def rc_ok_def)
    next
      case False
      obtain k where k: "ref_counts s a = Some k" "unat k = ?n a" by (rule counts_live [OF c pos])
      moreover have "k + 1 = 0"
      proof -
        have "unat k < 2 ^ 32" using unsigned_less [of k, where ?'a = nat] by simp
        then have "unat k + 1 = 2 ^ 32" using False k(2) by simp
        then have "unat (k + 1) = 0" by (simp add: unat_word_ariths)
        then show ?thesis by (simp only: unsigned_eq_0_iff)
      qed
      ultimately show ?thesis using g Some False by (simp add: NaClGetDescMu_def NaClDescRef_def)
    qed
  qed
  then show "NaClGetDescMu s d = Aborts \<or>
    (\<exists>s'. NaClGetDescMu s d = Returns (r, s') \<and> desc_tbl s' = desc_tbl s \<and> rc_ok (H + held r) s')"
    and "(\<And>a. r = Some a \<Longrightarrow> ?n a + 1 < 2 ^ 32) \<Longrightarrow> NaClGetDescMu s d \<noteq> Aborts"
    by auto
qed

lemma card_slots_upd:
  assumes "finite (slots f a)"
  shows "card (slots (f(i := p)) a) + count (held (f i)) a = card (slots f a) + count (held p) a"
proof -
  have "count (held (f i)) a = (if i \<in> slots f a then 1 else 0)" by (simp add: count_held slots_def)
  moreover have "Suc (card (slots f a - {i})) = card (slots f a)" if "i \<in> slots f a"
    using assms that by (rule card_Suc_Diff1)
  ultimately show ?thesis
    using assms by (auto simp: slots_upd count_held insert_absorb)
qed

lemma SetDescMu_rc:
  assumes ok: "rc_ok (H + held p) s" and d: "unat d < 2 ^ 29 \<or> dyn_map (desc_tbl s) (unat d) \<noteq> None"
  shows "NaClSetDescMu alloc s d p = Aborts \<and> \<not> (alloc 0 \<and> alloc 1) \<and> dyn_map (desc_tbl s) (unat d) = None \<or>
    (\<exists>s'. NaClSetDescMu alloc s d p = Returns s' \<and> rc_ok H s' \<and>
       dyn_map (desc_tbl s') = (dyn_map (desc_tbl s))(unat d := p))"
proof -
  let ?f = "dyn_map (desc_tbl s)" and ?d = "unat d"
  let ?n = "\<lambda>a. card (slots ?f a) + count (H + held p) a"
  have t: "dyn_ok (desc_tbl s)" and c: "counts ?n (ref_counts s)" using ok by (simp_all add: rc_ok_def)
  have g: "DynArrayGet (desc_tbl s) d = Returns (?f ?d)" by (rule dyn.get_view [OF t])
  obtain h where h: "NaClDescSafeUnref (?f ?d) (ref_counts s) = Returns h" "counts (\<lambda>a. ?n a - count (held (?f ?d)) a) h"
    using SafeUnref_counts [OF c, of "?f ?d"] live_slot by (metis add_gr_0)
  obtain b t' where b: "DynArraySet alloc (desc_tbl s) d p = Returns (b, t')" "dyn_ok t'"
    "dyn_map t' = (if b then ?f(?d := p) else ?f)" "alloc 0 \<and> alloc 1 \<or> ?f ?d \<noteq> None \<longrightarrow> b"
    using dyn.put_view [OF t d, of alloc p] by blast
  show ?thesis
  proof (cases b)
    case False
    then show ?thesis using g h b by (simp add: NaClSetDescMu_def)
  next
    case True
    have "?n a - count (held (?f ?d)) a = card (slots (?f(?d := p)) a) + count H a" for a
    proof -
      have "card (slots (?f(?d := p)) a) + count (held (?f ?d)) a = card (slots ?f a) + count (held p) a"
        by (rule card_slots_upd [OF finite_slots])
      then show ?thesis by simp
    qed
    then have "counts (\<lambda>a. card (slots (dyn_map t') a) + count H a) h" using h(2) b(3) True by simp
    then show ?thesis using g h(1) b True by (simp add: NaClSetDescMu_def rc_ok_def)
  qed
qed

lemma SetAvailMu_rc:
  assumes ok: "rc_ok (H + held p) s" and room: "i < 2 ^ 29" "dyn_map (desc_tbl s) i = None"
  shows "NaClSetAvailMu alloc s p = Aborts \<and> \<not> (alloc 0 \<and> alloc 1) \<or>
    (\<exists>pos s'. NaClSetAvailMu alloc s p = Returns (pos, s') \<and> rc_ok H s' \<and>
       unat pos = (LEAST i. dyn_map (desc_tbl s) i = None) \<and>
       dyn_map (desc_tbl s') = (dyn_map (desc_tbl s))(unat pos := p))"
proof -
  let ?f = "dyn_map (desc_tbl s)"
  obtain pos t where f: "DynArrayFirstAvail (desc_tbl s) = Returns (pos, t)" "dyn_ok t" "dyn_map t = ?f"
    "?f (unat pos) = None" "\<forall>j<unat pos. ?f j \<noteq> None"
    using dyn.free_view [OF rc_ok_tbl [OF ok]] by blast
  have least: "(LEAST i. ?f i = None) = unat pos"
    using f(4,5) by (intro Least_equality) (auto simp: not_less [symmetric])
  have le: "unat pos \<le> i" using f(5) room(2) by (meson not_le)
  then have small: "unat pos < 2 ^ 29" using room(1) by simp
  then have "\<not> pos > INT32_MAX" by (simp add: word_less_nat_alt INT32_MAX_def)
  moreover have "rc_ok (H + held p) (s\<lparr>desc_tbl := t\<rparr>)" using ok f by (simp add: rc_ok_def)
  from SetDescMu_rc [OF this, of pos alloc] small
  have "NaClSetDescMu alloc (s\<lparr>desc_tbl := t\<rparr>) pos p = Aborts \<and> \<not> (alloc 0 \<and> alloc 1) \<or>
    (\<exists>s'. NaClSetDescMu alloc (s\<lparr>desc_tbl := t\<rparr>) pos p = Returns s' \<and> rc_ok H s' \<and>
       dyn_map (desc_tbl s') = ?f(unat pos := p))" using f(3) by auto
  ultimately show ?thesis using f(1) least by (auto simp: NaClSetAvailMu_def)
qed

lemma Unref_rc:
  assumes "rc_ok (H + {#a#}) s"
  shows "\<exists>h. NaClDescUnref a (ref_counts s) = Returns h \<and> rc_ok H (s\<lparr>ref_counts := h\<rparr>)"
proof -
  let ?n = "\<lambda>x. card (slots (dyn_map (desc_tbl s)) x) + count (H + {#a#}) x"
  have c: "counts ?n (ref_counts s)" and pos: "0 < ?n a" using assms by (simp_all add: rc_ok_def)
  obtain h where h: "NaClDescUnref a (ref_counts s) = Returns h" "counts (?n(a := ?n a - 1)) h"
    using Unref_counts [OF c pos] by blast
  moreover have "?n(a := ?n a - 1) = (\<lambda>x. card (slots (dyn_map (desc_tbl s)) x) + count H x)" by auto
  ultimately show ?thesis using assms by (auto simp: rc_ok_def)
qed

text \<open>The count of a descriptor is about to overflow.\<close>

definition at_limit :: "desc_state \<Rightarrow> nat option \<Rightarrow> bool" where
  "at_limit s r \<longleftrightarrow> (\<exists>a. r = Some a \<and> ref_counts s a = Some (- 1))"

lemma GetDescMu_Aborts:
  assumes ok: "rc_ok H s"
  shows "NaClGetDescMu s d = Aborts \<longleftrightarrow> at_limit s (dyn_map (desc_tbl s) (unat d))"
proof (cases "dyn_map (desc_tbl s) (unat d)")
  case None
  then show ?thesis using dyn.get_view [OF rc_ok_tbl [OF ok], of d] by (simp add: NaClGetDescMu_def at_limit_def)
next
  case (Some a)
  have c: "counts (\<lambda>a. card (slots (dyn_map (desc_tbl s)) a) + count H a) (ref_counts s)" using ok by (simp add: rc_ok_def)
  obtain k where "ref_counts s a = Some k" by (rule counts_live [OF c, of a]) (use live_slot [OF Some] in simp)
  then show ?thesis
    using dyn.get_view [OF rc_ok_tbl [OF ok], of d] Some
    by (simp add: NaClGetDescMu_def NaClDescRef_def at_limit_def eq_neg_iff_add_eq_0)
qed

lemma Close_rc:
  fixes d :: u32
  assumes ok: "rc_ok H s"
  defines "r \<equiv> dyn_map (desc_tbl s) (unat d)"
  shows "if at_limit s r then NaClCommonSysClose alloc s d = Aborts
    else if r = None then NaClCommonSysClose alloc s d = Returns (- NACL_ABI_EBADF, s)
    else \<exists>s'. NaClCommonSysClose alloc s d = Returns (0, s') \<and> rc_ok H s' \<and>
      dyn_map (desc_tbl s') = (dyn_map (desc_tbl s))(unat d := None)"
proof (cases "at_limit s r")
  case True
  then have "NaClGetDescMu s d = Aborts" using GetDescMu_Aborts [OF ok, of d] by (simp add: r_def)
  then show ?thesis using True by (simp add: NaClCommonSysClose_def)
next
  case False
  then obtain s1 where s1: "NaClGetDescMu s d = Returns (r, s1)" "desc_tbl s1 = desc_tbl s" "rc_ok (H + held r) s1"
    using GetDescMu_rc(1) [OF ok, of d] GetDescMu_Aborts [OF ok, of d] unfolding r_def by blast
  show ?thesis
  proof (cases r)
    case None
    then have "s1 = s" using s1(1) dyn.get_view [OF rc_ok_tbl [OF ok], of d] by (simp add: NaClGetDescMu_def r_def)
    then show ?thesis using None False s1(1) by (simp add: NaClCommonSysClose_def)
  next
    case (Some a)
    have "rc_ok (H + held (Some a) + held None) s1" using s1(3) Some by (simp add: held_def)
    from SetDescMu_rc [OF this, of d alloc] obtain s2 where s2: "NaClSetDescMu alloc s1 d None = Returns s2"
        "rc_ok (H + held (Some a)) s2" "dyn_map (desc_tbl s2) = (dyn_map (desc_tbl s))(unat d := None)"
      using Some unfolding r_def s1(2) by auto
    then have "rc_ok (H + {#a#}) s2" by (simp add: held_def)
    from Unref_rc [OF this] obtain h where "NaClDescUnref a (ref_counts s2) = Returns h" "rc_ok H (s2\<lparr>ref_counts := h\<rparr>)" by blast
    then show ?thesis using s1(1) Some False s2(1,3) by (simp add: NaClCommonSysClose_def NaClDescClose_def)
  qed
qed

subsection \<open>Sequences of operations\<close>

text \<open>
  The threads of an application run these operations in any order, each under the table's or the
  descriptor's lock: create a descriptor at a free address, look one up, drop a reference that is held, hand a
  held reference to a slot of the table, close a slot. \<open>fst\<close> of a state are the references held.
\<close>

inductive desc_step :: "nat multiset \<times> desc_state \<Rightarrow> nat multiset \<times> desc_state \<Rightarrow> bool" where
  create: "ref_counts s a = None \<Longrightarrow>
     desc_step (H, s) (H + {#a#}, s\<lparr>ref_counts := NaClDescCtor a (ref_counts s)\<rparr>)"
| get: "NaClGetDescMu s d = Returns (r, s') \<Longrightarrow> desc_step (H, s) (H + held r, s')"
| drop: "NaClDescUnref a (ref_counts s) = Returns h \<Longrightarrow> desc_step (H + {#a#}, s) (H, s\<lparr>ref_counts := h\<rparr>)"
| set_desc: "NaClSetDescMu alloc s d p = Returns s' \<Longrightarrow> unat d < 2 ^ 29 \<Longrightarrow> desc_step (H + held p, s) (H, s')"
| set_avail: "NaClSetAvailMu alloc s p = Returns (pos, s') \<Longrightarrow> i < 2 ^ 29 \<Longrightarrow> dyn_map (desc_tbl s) i = None \<Longrightarrow>
     desc_step (H + held p, s) (H, s')"
| close: "NaClCommonSysClose alloc s d = Returns (r, s') \<Longrightarrow> desc_step (H, s) (H, s')"

lemma Ctor_rc:
  assumes ok: "rc_ok H s" and "ref_counts s a = None"
  shows "rc_ok (H + {#a#}) (s\<lparr>ref_counts := NaClDescCtor a (ref_counts s)\<rparr>)"
proof -
  let ?n = "\<lambda>x. card (slots (dyn_map (desc_tbl s)) x) + count H x"
  have c: "counts ?n (ref_counts s)" using ok by (simp add: rc_ok_def)
  then have "?n a = 0" using assms(2) unfolding counts_def by (metis option.simps(4))
  moreover have "counts (?n(a := 1)) (NaClDescCtor a (ref_counts s))"
    unfolding NaClDescCtor_def by (rule counts_upd [OF c]) simp_all
  moreover have "?n(a := 1) = (\<lambda>x. card (slots (dyn_map (desc_tbl s)) x) + count (H + {#a#}) x)"
    using \<open>?n a = 0\<close> by auto
  ultimately show ?thesis using ok by (simp add: rc_ok_def)
qed

lemma desc_step_rc: "desc_step x y \<Longrightarrow> rc_ok (fst x) (snd x) \<Longrightarrow> rc_ok (fst y) (snd y)"
proof (induction rule: desc_step.induct)
  case (create s a H)
  then show ?case using Ctor_rc by simp
next
  case (get s d r s' H)
  then show ?case using GetDescMu_rc(1) [of H s d] by auto
next
  case (drop a s h H)
  then show ?case using Unref_rc [of H a s] by auto
next
  case (set_desc alloc s d p s' H)
  then show ?case using SetDescMu_rc [of H p s d alloc] by auto
next
  case (set_avail alloc s p pos s' i H)
  then show ?case using SetAvailMu_rc [of H p s i alloc] by auto
next
  case (close alloc s d r s' H)
  then show ?case using Close_rc [of H s d alloc] by (auto split: if_splits)
qed

subsection \<open>The thread table counts its threads\<close>

definition th_ok :: "thread_state \<Rightarrow> bool" where
  "th_ok s \<longleftrightarrow> dyn_ok (threads s) \<and> unat (num_threads s) = card (dom (dyn_map (threads s)))"

lemma finite_dom_dyn: "finite (dom (dyn_map t))"
  by (rule finite_subset [of _ "{..<unat (num_entries t)}"]) (auto simp: dyn_map_def split: if_splits)

lemma card_dom_dyn: "dyn_ok t \<Longrightarrow> card (dom (dyn_map t)) < 2 ^ 30"
proof -
  assume ok: "dyn_ok t"
  have "dom (dyn_map t) \<subseteq> {..<unat (num_entries t)}" by (auto simp: dyn_map_def split: if_splits)
  from card_mono [OF _ this] have "card (dom (dyn_map t)) \<le> unat (num_entries t)" by simp
  then show ?thesis using dyn_okD(2,5) [OF ok] by simp
qed

lemma AddThread_spec:
  assumes ok: "th_ok s" and room: "i < 2 ^ 29" "dyn_map (threads s) i = None"
  shows "NaClAddThreadMu alloc s a = Aborts \<and> \<not> (alloc 0 \<and> alloc 1) \<or>
    (\<exists>pos s'. NaClAddThreadMu alloc s a = Returns (pos, s') \<and> th_ok s' \<and> dyn_map (threads s) (unat pos) = None \<and>
       dyn_map (threads s') = (dyn_map (threads s))(unat pos \<mapsto> a))"
proof -
  let ?f = "dyn_map (threads s)"
  have t: "dyn_ok (threads s)" using ok by (simp add: th_ok_def)
  obtain pos t1 where f: "DynArrayFirstAvail (threads s) = Returns (pos, t1)" "\<forall>j<unat pos. ?f j \<noteq> None"
    using dyn.free_view [OF t] by blast
  have "unat pos \<le> i" using f(2) room(2) by (meson not_le)
  then have "unat pos < 2 ^ 29" using room(1) by simp
  from dyn.put_free [OF t f(1) this, of alloc "Some a"] obtain b t2 where
    b: "DynArraySet alloc t1 pos (Some a) = Returns (b, t2)" "dyn_ok t2" "?f (unat pos) = None"
      "dyn_map t2 = (if b then ?f(unat pos \<mapsto> a) else ?f)" "alloc 0 \<and> alloc 1 \<longrightarrow> b" by blast
  have "unat (num_threads s + 1) = Suc (card (dom ?f))"
    using ok card_dom_dyn [OF t] by (subst unat_add_no_wrap) (simp_all add: th_ok_def)
  moreover have "card (dom (?f(unat pos \<mapsto> a))) = Suc (card (dom ?f))"
    using card_insert_disjoint [OF finite_dom_dyn, of "unat pos"] b(3) by (simp add: domIff)
  ultimately show ?thesis
    using f(1) b by (cases b) (auto simp: NaClAddThreadMu_def th_ok_def)
qed

lemma RemoveThread_spec:
  assumes ok: "th_ok s"
  shows "NaClRemoveThreadMu alloc s n = Aborts \<and> (dyn_map (threads s) (unat n) = None \<or> \<not> (alloc 0 \<and> alloc 1)) \<or>
    (\<exists>s'. NaClRemoveThreadMu alloc s n = Returns s' \<and> th_ok s' \<and> dyn_map (threads s) (unat n) \<noteq> None \<and>
       dyn_map (threads s') = (dyn_map (threads s))(unat n := None))"
proof -
  let ?f = "dyn_map (threads s)"
  have t: "dyn_ok (threads s)" using ok by (simp add: th_ok_def)
  have g: "DynArrayGet (threads s) n = Returns (?f (unat n))" by (rule dyn.get_view [OF t])
  show ?thesis
  proof (cases "?f (unat n) = None")
    case True
    then show ?thesis using g by (simp add: NaClRemoveThreadMu_def)
  next
    case False
    then obtain b t2 where b: "DynArraySet alloc (threads s) n None = Returns (b, t2)" "dyn_ok t2"
        "dyn_map t2 = (if b then ?f(unat n := None) else ?f)" "alloc 0 \<and> alloc 1 \<longrightarrow> b"
      using dyn.put_view [OF t, of n alloc None] by blast
    have in_dom: "unat n \<in> dom ?f" using False by auto
    have c: "Suc (card (dom ?f - {unat n})) = card (dom ?f)"
      by (rule card_Suc_Diff1 [OF finite_dom_dyn in_dom])
    then have nz: "num_threads s \<noteq> 0" using ok by (auto simp: th_ok_def)
    then have "1 \<le> num_threads s" by (simp add: word_le_nat_alt unat_gt_0 Suc_leI)
    from unat_sub_le [OF this] have "unat (num_threads s - 1) = unat (num_threads s) - 1" by simp
    then have "unat (num_threads s - 1) = card (dom (?f(unat n := None)))"
      using ok c by (simp add: th_ok_def)
    then show ?thesis using g False nz b by (cases b) (auto simp: NaClRemoveThreadMu_def th_ok_def Let_def)
  qed
qed

subsection \<open>Properties\<close>

text \<open>
  C28: reference counting is safe. In every state that any sequence of operations on the descriptor table can
  reach, every descriptor in the table and every one with a reference in somebody's hands is live, with
  a count equal to the number of those references; so no lookup and no \<open>close\<close>, of any number that untrusted
  code may pass, touches a freed descriptor.
\<close>

theorem desc_refs_counted:
  assumes "dyn_ok t" and "dyn_map t = (\<lambda>_. None)"
    and "desc_step\<^sup>*\<^sup>* ({#}, \<lparr>desc_tbl = t, ref_counts = Map.empty\<rparr>) (H, s)"
  shows "(\<forall>a. a \<in># H \<or> a \<in> ran (dyn_map (desc_tbl s)) \<longrightarrow>
      (\<exists>c. ref_counts s a = Some c \<and> unat c = card (slots (dyn_map (desc_tbl s)) a) + count H a)) \<and>
    (\<forall>d. NaClGetDescMu s d \<notin> {Faults, Diverges}) \<and> (\<forall>alloc d. NaClCommonSysClose alloc s d \<notin> {Faults, Diverges})"
proof -
  have init: "rc_ok {#} \<lparr>desc_tbl = t, ref_counts = Map.empty\<rparr>"
    using assms(1,2) by (simp add: rc_ok_def counts_def slots_def)
  have "rc_ok (fst y) (snd y)" if "desc_step\<^sup>*\<^sup>* x y" "rc_ok (fst x) (snd x)" for x y
    using that by induction (auto intro: desc_step_rc)
  from this [OF assms(3)] init have ok: "rc_ok H s" by simp
  have "\<exists>c. ref_counts s a = Some c \<and> unat c = card (slots (dyn_map (desc_tbl s)) a) + count H a"
    if a: "a \<in># H \<or> a \<in> ran (dyn_map (desc_tbl s))" for a
  proof -
    have pos: "0 < card (slots (dyn_map (desc_tbl s)) a) + count H a"
      using a
    proof
      assume "a \<in> ran (dyn_map (desc_tbl s))"
      then show ?thesis using live_slot [of "desc_tbl s" _ a] by (auto simp: ran_def)
    qed simp
    have "counts (\<lambda>a. card (slots (dyn_map (desc_tbl s)) a) + count H a) (ref_counts s)"
      using ok by (simp add: rc_ok_def)
    from counts_live [OF this pos] show ?thesis by blast
  qed
  moreover have "NaClGetDescMu s d \<notin> {Faults, Diverges}" for d
    using GetDescMu_rc(1) [OF ok, of d] by auto
  moreover have "NaClCommonSysClose alloc s d \<notin> {Faults, Diverges}" for alloc d
    using Close_rc [OF ok, of d alloc] by (auto split: if_splits)
  ultimately show ?thesis by blast
qed

theorem desc_refs_counted_witness:
  "\<exists>s. desc_step\<^sup>*\<^sup>* ({#}, \<lparr>desc_tbl = sample_array, ref_counts = Map.empty\<rparr>) ({#9#}, s) \<and> (\<exists>c. ref_counts s 9 = Some c \<and> unat c = 1)"
proof -
  let ?s = "\<lparr>desc_tbl = sample_array, ref_counts = Map.empty\<rparr>"
  let ?t = "?s\<lparr>ref_counts := NaClDescCtor 9 (ref_counts ?s)\<rparr>"
  have "desc_step ({#}, ?s) ({#} + {#9#}, ?t)" by (rule desc_step.create) simp
  then have st: "desc_step\<^sup>*\<^sup>* ({#}, ?s) ({#9#}, ?t)" by simp
  from desc_refs_counted [OF sample_array_ok st] obtain c where
    "ref_counts ?t 9 = Some c" "unat c = card (slots (dyn_map sample_array) 9) + 1" by fastforce
  moreover have "slots (dyn_map sample_array) 9 = {}" by (simp add: slots_def sample_array_ok(2))
  ultimately show ?thesis using st by (intro exI [of _ ?t]) simp
qed

text \<open>
  C29: closing a descriptor. When every reference is counted, \<open>close\<close> of a number returns \<open>-EBADF\<close> and changes nothing if the
  table has nothing there, and otherwise empties the slot and returns 0, with every reference still
  counted, whether or not memory can be allocated. It aborts the process exactly when the descriptor's count is at
  its largest value, \<open>2^32 - 1\<close>, so that the reference taken for the duration of the call would overflow it.
\<close>

theorem NaClCommonSysClose_spec:
  fixes d :: u32
  assumes "rc_ok H s"
  defines "r \<equiv> dyn_map (desc_tbl s) (unat d)"
  shows "if \<exists>a. r = Some a \<and> ref_counts s a = Some (- 1) then NaClCommonSysClose alloc s d = Aborts
    else if r = None then NaClCommonSysClose alloc s d = Returns (- NACL_ABI_EBADF, s)
    else \<exists>s'. NaClCommonSysClose alloc s d = Returns (0, s') \<and> rc_ok H s' \<and>
      dyn_map (desc_tbl s') = (dyn_map (desc_tbl s))(unat d := None)"
  unfolding r_def using Close_rc [OF assms(1), of d alloc] by (simp only: at_limit_def)

theorem NaClCommonSysClose_spec_witness:
  "\<exists>s s'. NaClSetAvailMu (\<lambda>_. True) \<lparr>desc_tbl = sample_array, ref_counts = [9 \<mapsto> 1]\<rparr> (Some 9) = Returns (0, s) \<and>
     NaClCommonSysClose (\<lambda>_. False) s 0 = Returns (0, s') \<and> dyn_map (desc_tbl s') 0 = None \<and>
     NaClCommonSysClose (\<lambda>_. False) s' 0 = Returns (- 9, s')"
proof -
  have "rc_ok ({#} + held (Some 9)) \<lparr>desc_tbl = sample_array, ref_counts = [9 \<mapsto> 1]\<rparr>"
    using sample_array_ok by (simp add: rc_ok_def counts_def slots_def held_def)
  from SetAvailMu_rc [OF this, of 0 "\<lambda>_. True"] obtain s where
    s: "NaClSetAvailMu (\<lambda>_. True) \<lparr>desc_tbl = sample_array, ref_counts = [9 \<mapsto> 1]\<rparr> (Some 9) = Returns (0, s)"
      "rc_ok {#} s" "dyn_map (desc_tbl s) = [0 \<mapsto> 9]"
    by (auto simp: sample_array_ok(2) unsigned_eq_0_iff)
  have sl: "slots (dyn_map (desc_tbl s)) 9 = {0}" by (auto simp: slots_def s(3) split: if_splits)
  have c: "counts (\<lambda>a. card (slots (dyn_map (desc_tbl s)) a) + count {#} a) (ref_counts s)" using s(2) unfolding rc_ok_def ..
  obtain k where k: "ref_counts s 9 = Some k" "unat k = 1" by (rule counts_live [OF c, of 9]) (simp_all add: sl)
  have "k \<noteq> - 1" using k(2) by (auto simp: unsigned_minus_1_eq_mask mask_eq_exp_minus_1)
  then have "ref_counts s 9 \<noteq> Some (- 1)" using k(1) by simp
  then have "\<not> (\<exists>a. dyn_map (desc_tbl s) (unat (0 :: u32)) = Some a \<and> ref_counts s a = Some (- 1))"
    "dyn_map (desc_tbl s) (unat (0 :: u32)) \<noteq> None" by (simp_all add: s(3))
  with NaClCommonSysClose_spec [OF s(2), of 0 "\<lambda>_. False"] obtain s' where
    s': "NaClCommonSysClose (\<lambda>_. False) s 0 = Returns (0, s')" "rc_ok {#} s'" "dyn_map (desc_tbl s') = Map.empty"
    by (auto simp: s(3))
  have "NaClCommonSysClose (\<lambda>_. False) s' 0 = Returns (- 9, s')"
    using NaClCommonSysClose_spec [OF s'(2), of 0 "\<lambda>_. False"] by (simp add: s'(3) nacl_consts)
  with s(1) s' show ?thesis by auto
qed

text \<open>
  C30: a new descriptor gets the lowest free number. While a number below \<open>2^29\<close> is free, \<open>NaClSetAvail\<close> stores the
  descriptor at the lowest free one, leaves every other slot alone and returns that number, with every
  reference still counted; it aborts only when memory runs out.
\<close>

theorem NaClSetAvailMu_lowest:
  assumes "rc_ok (H + held p) s" and "i < 2 ^ 29" and "dyn_map (desc_tbl s) i = None"
  shows "NaClSetAvailMu alloc s p = Aborts \<and> \<not> (alloc 0 \<and> alloc 1) \<or>
    (\<exists>pos s'. NaClSetAvailMu alloc s p = Returns (pos, s') \<and> rc_ok H s' \<and>
       unat pos = (LEAST i. dyn_map (desc_tbl s) i = None) \<and>
       dyn_map (desc_tbl s') = (dyn_map (desc_tbl s))(unat pos := p))"
  by (rule SetAvailMu_rc [OF assms])

theorem NaClSetAvailMu_lowest_witness:
  "\<exists>s'. NaClSetAvailMu (\<lambda>_. True) \<lparr>desc_tbl = sample_array, ref_counts = [9 \<mapsto> 1]\<rparr> (Some 9) = Returns (0, s')"
proof -
  have "rc_ok ({#} + held (Some 9)) \<lparr>desc_tbl = sample_array, ref_counts = [9 \<mapsto> 1]\<rparr>"
    using sample_array_ok by (simp add: rc_ok_def counts_def slots_def held_def)
  from NaClSetAvailMu_lowest [OF this, of 0 "\<lambda>_. True"] show ?thesis
    by (auto simp: sample_array_ok(2) unsigned_eq_0_iff)
qed

text \<open>
  C31: the thread count. While \<open>num_threads\<close> is the number of threads in the table, adding a thread puts it into a
  free slot and removing one empties its slot, and in both cases the count is right again; removing a
  number that is not in the table aborts.
\<close>

theorem thread_count:
  assumes "th_ok s" and "i < 2 ^ 29" and "dyn_map (threads s) i = None"
  shows "(NaClAddThreadMu alloc s a = Aborts \<and> \<not> (alloc 0 \<and> alloc 1) \<or>
      (\<exists>pos s'. NaClAddThreadMu alloc s a = Returns (pos, s') \<and> th_ok s' \<and> dyn_map (threads s) (unat pos) = None \<and>
         dyn_map (threads s') = (dyn_map (threads s))(unat pos \<mapsto> a))) \<and>
    (NaClRemoveThreadMu alloc s n = Aborts \<and> (NaClGetThreadMu s n = Returns None \<or> \<not> (alloc 0 \<and> alloc 1)) \<or>
      (\<exists>s'. NaClRemoveThreadMu alloc s n = Returns s' \<and> th_ok s' \<and> NaClGetThreadMu s n \<noteq> Returns None \<and>
         dyn_map (threads s') = (dyn_map (threads s))(unat n := None)))"
proof -
  have "NaClGetThreadMu s n = Returns (dyn_map (threads s) (unat n))"
    using assms(1) unfolding NaClGetThreadMu_def th_ok_def by (intro dyn.get_view) simp
  then show ?thesis
    using AddThread_spec [OF assms, of alloc a] RemoveThread_spec [OF assms(1), of alloc n] by simp
qed

theorem thread_count_witness:
  "\<exists>pos s'. NaClAddThreadMu (\<lambda>_. True) \<lparr>threads = sample_array, num_threads = 0\<rparr> 5 = Returns (pos, s') \<and> th_ok s'"
proof -
  have "th_ok \<lparr>threads = sample_array, num_threads = 0\<rparr>"
    using sample_array_ok by (simp add: th_ok_def dom_def)
  from thread_count [OF this, of 0 "\<lambda>_. True" 5] show ?thesis by (simp add: sample_array_ok(2)) blast
qed

end
