(* ===== verification/Vmmap.thy ===== *)
theory Vmmap
  imports Desc_Table
begin

text \<open>
  The map of an application's address space (\<open>sel_mem.c\<close>), the memory objects that back its regions
  (\<open>nacl_memory_object.c\<close>) and the page arithmetic of \<open>sel_util-inl.h\<close>. An entry pointer is an
  option, \<open>None\<close> for the null pointer; each entry belongs to one slot, so entries are values. The array
  \<open>vmentry\<close> has \<open>size\<close> slots and the first \<open>nvalid\<close> are in use; both counts are \<open>nat\<close>, since an array of \<open>2^30\<close> pointers
  does not fit the address space. The reference counts of descriptors are
  threaded through the operations that create and destroy memory objects. The \<open>k\<close>-th allocation of a call succeeds when
  \<open>alloc k\<close> holds.
\<close>

subsection \<open>Pages\<close>

definition NACL_PAGESHIFT :: nat where [nacl_consts]: "NACL_PAGESHIFT = 12"
definition NACL_PAGESIZE :: u32 where [nacl_consts]: "NACL_PAGESIZE = push_bit NACL_PAGESHIFT 1"
definition NACL_MAP_PAGESHIFT :: nat where [nacl_consts]: "NACL_MAP_PAGESHIFT = 16"
definition NACL_MAP_PAGESIZE :: u32 where [nacl_consts]: "NACL_MAP_PAGESIZE = push_bit NACL_MAP_PAGESHIFT 1"
definition NACL_PAGES_PER_MAP :: u32 where
  [nacl_consts]: "NACL_PAGES_PER_MAP = push_bit (NACL_MAP_PAGESHIFT - NACL_PAGESHIFT) 1"

definition NaClRoundPage :: "u32 \<Rightarrow> u32" where
  "NaClRoundPage nbytes = (nbytes + NACL_PAGESIZE - 1) AND NOT (NACL_PAGESIZE - 1)"

definition NaClRoundAllocPage :: "u32 \<Rightarrow> u32" where
  "NaClRoundAllocPage nbytes = (nbytes + NACL_MAP_PAGESIZE - 1) AND NOT (NACL_MAP_PAGESIZE - 1)"

definition NaClTruncPage :: "u32 \<Rightarrow> u32" where
  "NaClTruncPage nbytes = nbytes AND NOT (NACL_PAGESIZE - 1)"

definition NaClTruncAllocPage :: "u32 \<Rightarrow> u32" where
  "NaClTruncAllocPage nbytes = nbytes AND NOT (NACL_MAP_PAGESIZE - 1)"

definition NaClBytesToPages :: "u32 \<Rightarrow> u32" where
  "NaClBytesToPages nbytes = drop_bit NACL_PAGESHIFT (nbytes + NACL_PAGESIZE - 1)"

definition NaClIsPageMultiple :: "u32 \<Rightarrow> bool" where
  "NaClIsPageMultiple a \<longleftrightarrow> (NACL_PAGESIZE - 1) AND a = 0"

definition NaClIsAllocPageMultiple :: "u32 \<Rightarrow> bool" where
  "NaClIsAllocPageMultiple a \<longleftrightarrow> (NACL_MAP_PAGESIZE - 1) AND a = 0"

definition NaClRoundPageNumUpToMapMultiple :: "u32 \<Rightarrow> u32" where
  "NaClRoundPageNumUpToMapMultiple np = (np + NACL_PAGES_PER_MAP - 1) AND NOT (NACL_PAGES_PER_MAP - 1)"

definition NaClTruncPageNumDownToMapMultiple :: "u32 \<Rightarrow> u32" where
  "NaClTruncPageNumDownToMapMultiple np = np AND NOT (NACL_PAGES_PER_MAP - 1)"

subsection \<open>Memory objects\<close>

record NaClMemObj =
  mo_ndp :: nat
  mo_nbytes :: u64
  mo_offset :: u64

definition NaClMemObjCtor :: "nat \<Rightarrow> u64 \<Rightarrow> u64 \<Rightarrow> refs \<Rightarrow> (NaClMemObj \<times> refs) outcome" where
  "NaClMemObjCtor ndp nbytes offset h =
     obind (NaClDescRef ndp h) (\<lambda>h. Returns (\<lparr>mo_ndp = ndp, mo_nbytes = nbytes, mo_offset = offset\<rparr>, h))"

definition NaClMemObjCopyCtorOff :: "NaClMemObj \<Rightarrow> u64 \<Rightarrow> refs \<Rightarrow> (NaClMemObj \<times> refs) outcome" where
  "NaClMemObjCopyCtorOff src additional h =
     obind (NaClDescRef (mo_ndp src) h) (\<lambda>h.
       Returns (\<lparr>mo_ndp = mo_ndp src, mo_nbytes = mo_nbytes src, mo_offset = mo_offset src + additional\<rparr>, h))"

definition NaClMemObjDtor :: "NaClMemObj \<Rightarrow> refs \<Rightarrow> refs outcome" where
  "NaClMemObjDtor mo h = NaClDescUnref (mo_ndp mo) h"

definition NaClMemObjSafeDtor :: "NaClMemObj option \<Rightarrow> refs \<Rightarrow> refs outcome" where
  "NaClMemObjSafeDtor mo h = (case mo of None \<Rightarrow> Returns h | Some mo \<Rightarrow> NaClMemObjDtor mo h)"

definition NaClMemObjMake :: "bool \<Rightarrow> nat option \<Rightarrow> u64 \<Rightarrow> u64 \<Rightarrow> refs \<Rightarrow> (NaClMemObj option \<times> refs) outcome" where
  "NaClMemObjMake alloc ndp nbytes offset h =
     (case ndp of
        None \<Rightarrow> Returns (None, h)
      | Some a \<Rightarrow>
          if \<not> alloc then Aborts
          else obind (NaClMemObjCtor a nbytes offset h) (\<lambda>(mo, h). Returns (Some mo, h)))"

definition NaClMemObjSplit :: "bool \<Rightarrow> NaClMemObj option \<Rightarrow> u64 \<Rightarrow> refs \<Rightarrow> (NaClMemObj option \<times> refs) outcome" where
  "NaClMemObjSplit alloc orig additional h =
     (case orig of
        None \<Rightarrow> Returns (None, h)
      | Some mo \<Rightarrow>
          if \<not> alloc then Aborts
          else obind (NaClMemObjCopyCtorOff mo additional h) (\<lambda>(mo, h). Returns (Some mo, h)))"

definition NaClMemObjIncOffset :: "NaClMemObj option \<Rightarrow> u64 \<Rightarrow> NaClMemObj option" where
  "NaClMemObjIncOffset mo additional = map_option (\<lambda>mo. mo\<lparr>mo_offset := mo_offset mo + additional\<rparr>) mo"

subsection \<open>Entries and the map\<close>

record NaClVmmapEntry =
  page_num :: u32
  npages :: u32
  prot :: u32
  nmop :: "NaClMemObj option"
  removed :: bool

record NaClVmmap =
  vmentry :: "NaClVmmapEntry option list"
  nvalid :: nat
  vm_size :: nat
  is_sorted :: bool

definition NaClVmmapEntryMake :: "bool \<Rightarrow> u32 \<Rightarrow> u32 \<Rightarrow> u32 \<Rightarrow> NaClMemObj option \<Rightarrow> NaClVmmapEntry option" where
  "NaClVmmapEntryMake alloc pn np pr mo =
     (if \<not> alloc then None
      else Some \<lparr>page_num = pn, npages = np, prot = pr, nmop = mo, removed = False\<rparr>)"

definition NaClVmmapEntryFree :: "NaClVmmapEntry \<Rightarrow> refs \<Rightarrow> refs outcome" where
  "NaClVmmapEntryFree entry h = NaClMemObjSafeDtor (nmop entry) h"

text \<open>Following the pointer in slot \<open>i\<close>.\<close>

definition entry_at :: "NaClVmmapEntry option list \<Rightarrow> nat \<Rightarrow> NaClVmmapEntry outcome" where
  "entry_at xs i = (if i < length xs then case xs ! i of None \<Rightarrow> Faults | Some e \<Rightarrow> Returns e else Faults)"

definition START_ENTRIES :: nat where [nacl_consts]: "START_ENTRIES = 5"

definition NaClVmmapCtor :: "bool \<Rightarrow> NaClVmmap \<Rightarrow> bool \<times> NaClVmmap" where
  "NaClVmmapCtor alloc self =
     (let self = self\<lparr>vm_size := START_ENTRIES\<rparr>
      in if \<not> alloc then (False, self\<lparr>vmentry := []\<rparr>)
         else (True, self\<lparr>vmentry := replicate START_ENTRIES None, nvalid := 0, is_sorted := True\<rparr>))"

fun NaClVmmapDtor_loop :: "NaClVmmapEntry option list \<Rightarrow> nat \<Rightarrow> refs \<Rightarrow> refs outcome" where
  "NaClVmmapDtor_loop xs 0 h = Returns h"
| "NaClVmmapDtor_loop xs (Suc k) h =
     obind (NaClVmmapDtor_loop xs k h) (\<lambda>h. obind (entry_at xs k) (\<lambda>e. NaClVmmapEntryFree e h))"

definition NaClVmmapDtor :: "NaClVmmap \<Rightarrow> refs \<Rightarrow> (NaClVmmap \<times> refs) outcome" where
  "NaClVmmapDtor self h =
     obind (NaClVmmapDtor_loop (vmentry self) (nvalid self) h) (\<lambda>h. Returns (self\<lparr>vmentry := []\<rparr>, h))"

subsection \<open>Removing marked entries\<close>

text \<open>The loop at the end of the array: it stops at an entry that stays, or at the front of the array.\<close>

fun RemoveMarked_tail ::
    "nat \<Rightarrow> NaClVmmapEntry option list \<Rightarrow> refs \<Rightarrow> (nat \<times> NaClVmmapEntry option list \<times> refs) outcome" where
  "RemoveMarked_tail 0 xs h = Returns (0, xs, h)"
| "RemoveMarked_tail (Suc lst) xs h =
     obind (entry_at xs lst) (\<lambda>e.
       if removed e then obind (NaClVmmapEntryFree e h) (\<lambda>h. RemoveMarked_tail lst (xs[lst := None]) h)
       else Returns (lst, xs, h))"

text \<open>\<open>while (--last > i && self->vmentry[last]->removed)\<close>.\<close>

fun RemoveMarked_inner ::
    "nat \<Rightarrow> nat \<Rightarrow> NaClVmmapEntry option list \<Rightarrow> refs \<Rightarrow> (nat \<times> NaClVmmapEntry option list \<times> refs) outcome" where
  "RemoveMarked_inner i 0 xs h = Faults"
| "RemoveMarked_inner i (Suc lst) xs h =
     (if lst > i then
        obind (entry_at xs lst) (\<lambda>e.
          if removed e then obind (NaClVmmapEntryFree e h) (\<lambda>h. RemoveMarked_inner i lst (xs[lst := None]) h)
          else Returns (lst, xs, h))
      else Returns (lst, xs, h))"

lemma RemoveMarked_inner_less:
  "RemoveMarked_inner i lst xs h = Returns (lst', xs', h') \<Longrightarrow> lst' < lst"
  by (induction i lst xs h rule: RemoveMarked_inner.induct) (auto split: if_splits intro: less_SucI)

function RemoveMarked_outer ::
    "nat \<Rightarrow> nat \<Rightarrow> NaClVmmapEntry option list \<Rightarrow> refs \<Rightarrow> (nat \<times> NaClVmmapEntry option list \<times> refs) outcome" where
  "RemoveMarked_outer i lst xs h =
     (if i < lst then
        obind (entry_at xs i) (\<lambda>e.
          if \<not> removed e then RemoveMarked_outer (i + 1) lst xs h
          else
            obind (NaClVmmapEntryFree e h) (\<lambda>h.
            obind (RemoveMarked_inner i lst (xs[i := xs ! lst, lst := None]) h) (\<lambda>r.
              case r of (lst, xs, h) \<Rightarrow> RemoveMarked_outer (i + 1) lst xs h)))
      else Returns (lst, xs, h))"
  by pat_completeness auto
termination
  by (relation "measure (\<lambda>(i, lst, xs, h). lst - i)") (auto dest: RemoveMarked_inner_less)

text \<open>
  When every entry was marked, the first loop has freed them all and \<open>vmentry[0]\<close> is null: the test for that case
  reads it.
\<close>

definition NaClVmmapRemoveMarked :: "NaClVmmap \<Rightarrow> refs \<Rightarrow> (NaClVmmap \<times> refs) outcome" where
  "NaClVmmapRemoveMarked self h =
     (if nvalid self = 0 then Returns (self, h)
      else
        obind (RemoveMarked_tail (nvalid self) (vmentry self) h) (\<lambda>(lst, xs, h).
        obind (if lst = 0 then obind (entry_at xs 0) (\<lambda>e. if removed e then Aborts else Returns ()) else Returns ()) (\<lambda>_.
        if \<not> lst < nvalid self then Aborts
        else
          obind (entry_at xs lst) (\<lambda>e.
            if removed e then Aborts
            else
              obind (RemoveMarked_outer 0 lst xs h) (\<lambda>(lst, xs, h).
                Returns (self\<lparr>vmentry := xs, nvalid := lst + 1, is_sorted := False\<rparr>, h))))))"

subsection \<open>Sorting\<close>

text \<open>
  The comparison of page numbers is the sign of a 32-bit difference. \<open>qsort\<close> is insertion with this comparison;
  page numbers of a well-formed map are distinct, so every sorting algorithm gives the same array.
\<close>

definition NaClVmmapCmpEntries :: "NaClVmmapEntry \<Rightarrow> NaClVmmapEntry \<Rightarrow> int" where
  "NaClVmmapCmpEntries l r = sint (page_num l - page_num r)"

fun insert_entry :: "NaClVmmapEntry \<Rightarrow> NaClVmmapEntry list \<Rightarrow> NaClVmmapEntry list" where
  "insert_entry x [] = [x]"
| "insert_entry x (y # ys) = (if NaClVmmapCmpEntries x y \<le> 0 then x # y # ys else y # insert_entry x ys)"

definition qsort_entries :: "NaClVmmapEntry list \<Rightarrow> NaClVmmapEntry list" where
  "qsort_entries es = foldr insert_entry es []"

definition NaClVmmapMakeSorted :: "NaClVmmap \<Rightarrow> refs \<Rightarrow> (NaClVmmap \<times> refs) outcome" where
  "NaClVmmapMakeSorted self h =
     (if is_sorted self then Returns (self, h)
      else
        obind (NaClVmmapRemoveMarked self h) (\<lambda>(self, h).
          let xs = take (nvalid self) (vmentry self)
          in if None \<in> set xs \<or> length xs < nvalid self then Faults
             else Returns (self\<lparr>vmentry := map Some (qsort_entries (map the xs)) @ drop (nvalid self) (vmentry self),
                                is_sorted := True\<rparr>, h)))"

subsection \<open>Adding and updating\<close>

text \<open>\<open>NaClVmmapAdd\<close> does not look at the result of \<open>NaClVmmapEntryMake\<close>.\<close>

definition NaClVmmapAdd ::
    "(nat \<Rightarrow> bool) \<Rightarrow> nat \<Rightarrow> NaClVmmap \<Rightarrow> u32 \<Rightarrow> u32 \<Rightarrow> u32 \<Rightarrow> NaClMemObj option \<Rightarrow> (bool \<times> NaClVmmap) outcome" where
  "NaClVmmapAdd alloc k self pn np pr mo =
     (if nvalid self = vm_size self \<and> \<not> alloc k then Returns (False, self)
      else
        let self = (if nvalid self = vm_size self
                    then self\<lparr>vmentry := resize None (2 * vm_size self) (vmentry self), vm_size := 2 * vm_size self\<rparr>
                    else self);
            entry = NaClVmmapEntryMake (alloc (k + 1)) pn np pr mo
        in if length (vmentry self) \<le> nvalid self then Faults
           else Returns (True, self\<lparr>vmentry := (vmentry self)[nvalid self := entry], is_sorted := False,
                                    nvalid := nvalid self + 1\<rparr>))"

text \<open>
  The loop of \<open>NaClVmmapUpdate\<close>. The offset is computed in 32 bits and then widened. The \<open>assert\<close> of the last
  branch is compiled out.
\<close>

function NaClVmmapUpdate_loop ::
    "(nat \<Rightarrow> bool) \<Rightarrow> u32 \<Rightarrow> u32 \<Rightarrow> nat \<Rightarrow> NaClVmmap \<Rightarrow> refs \<Rightarrow> (NaClVmmap \<times> refs) outcome" where
  "NaClVmmapUpdate_loop alloc pn new_end i self h =
     (if i < nvalid self then
        obind (entry_at (vmentry self) i) (\<lambda>ent.
          let ent_end_page = page_num ent + npages ent;
              additional_offset = ucast (push_bit NACL_PAGESHIFT (new_end - page_num ent));
              store = (\<lambda>e self. self\<lparr>vmentry := (vmentry self)[i := Some e]\<rparr>)
          in if page_num ent < pn \<and> new_end < ent_end_page then
               obind (NaClMemObjSplit (alloc 0) (nmop ent) additional_offset h) (\<lambda>(mo, h).
               obind (NaClVmmapAdd alloc 1 self new_end (ent_end_page - new_end) (prot ent) mo) (\<lambda>(ok, self).
                 if ok then Returns (store (ent\<lparr>npages := pn - page_num ent\<rparr>) self, h) else Aborts))
             else if page_num ent < pn \<and> pn < ent_end_page then
               NaClVmmapUpdate_loop alloc pn new_end (i + 1) (store (ent\<lparr>npages := pn - page_num ent\<rparr>) self) h
             else if page_num ent < new_end \<and> new_end < ent_end_page then
               Returns (store (ent\<lparr>nmop := NaClMemObjIncOffset (nmop ent) additional_offset,
                                  page_num := new_end, npages := ent_end_page - new_end\<rparr>) self, h)
             else if pn \<le> page_num ent \<and> ent_end_page \<le> new_end then
               NaClVmmapUpdate_loop alloc pn new_end (i + 1) (store (ent\<lparr>removed := True\<rparr>) self) h
             else NaClVmmapUpdate_loop alloc pn new_end (i + 1) self h)
      else Returns (self, h))"
  by pat_completeness auto
termination by (relation "measure (\<lambda>(alloc, pn, new_end, i, self, h). nvalid self - i)") auto

definition NaClVmmapUpdate ::
    "(nat \<Rightarrow> bool) \<Rightarrow> NaClVmmap \<Rightarrow> u32 \<Rightarrow> u32 \<Rightarrow> u32 \<Rightarrow> NaClMemObj option \<Rightarrow> bool \<Rightarrow> refs \<Rightarrow>
     (NaClVmmap \<times> refs) outcome" where
  "NaClVmmapUpdate alloc self pn np pr mo remove h =
     obind (NaClVmmapMakeSorted self h) (\<lambda>(self, h).
       if \<not> np > 0 then Aborts
       else
         obind (NaClVmmapUpdate_loop alloc pn (pn + np) 0 self h) (\<lambda>(self, h).
         obind (if remove then Returns self
                else obind (NaClVmmapAdd alloc 3 self pn np pr mo) (\<lambda>(ok, self). if ok then Returns self else Aborts)) (\<lambda>self.
           NaClVmmapRemoveMarked self h)))"

subsection \<open>Searching\<close>

definition NaClVmmapContainCmpEntries :: "u32 \<Rightarrow> NaClVmmapEntry \<Rightarrow> int" where
  "NaClVmmapContainCmpEntries key ent =
     (if key < page_num ent then - 1 else if key < page_num ent + npages ent then 0 else 1)"

text \<open>\<open>bsearch\<close> on the slots \<open>lo\<close> to \<open>hi - 1\<close>: the index of a match.\<close>

function bsearch_entries :: "NaClVmmapEntry option list \<Rightarrow> u32 \<Rightarrow> nat \<Rightarrow> nat \<Rightarrow> nat option outcome" where
  "bsearch_entries xs key lo hi =
     (if lo < hi then
        let mid = (lo + hi) div 2
        in obind (entry_at xs mid) (\<lambda>e.
             if NaClVmmapContainCmpEntries key e < 0 then bsearch_entries xs key lo mid
             else if NaClVmmapContainCmpEntries key e > 0 then bsearch_entries xs key (mid + 1) hi
             else Returns (Some mid))
      else Returns None)"
  by pat_completeness auto
termination by (relation "measure (\<lambda>(xs, key, lo, hi). hi - lo)") auto

definition NaClVmmapFindPage :: "NaClVmmap \<Rightarrow> u32 \<Rightarrow> refs \<Rightarrow> (NaClVmmapEntry option \<times> NaClVmmap \<times> refs) outcome" where
  "NaClVmmapFindPage self pnum h =
     obind (NaClVmmapMakeSorted self h) (\<lambda>(self, h).
     obind (bsearch_entries (vmentry self) pnum 0 (nvalid self)) (\<lambda>r.
       Returns (case r of None \<Rightarrow> None | Some i \<Rightarrow> vmentry self ! i, self, h)))"

text \<open>An iterator is an index into the map.\<close>

definition NaClVmmapFindPageIter :: "NaClVmmap \<Rightarrow> u32 \<Rightarrow> refs \<Rightarrow> (nat \<times> NaClVmmap \<times> refs) outcome" where
  "NaClVmmapFindPageIter self pnum h =
     obind (NaClVmmapMakeSorted self h) (\<lambda>(self, h).
     obind (bsearch_entries (vmentry self) pnum 0 (nvalid self)) (\<lambda>r.
       Returns (case r of None \<Rightarrow> nvalid self | Some i \<Rightarrow> i, self, h)))"

definition NaClVmmapIterAtEnd :: "nat \<Rightarrow> NaClVmmap \<Rightarrow> bool" where
  "NaClVmmapIterAtEnd entry_ix self \<longleftrightarrow> entry_ix \<ge> nvalid self"

definition NaClVmmapIterStar :: "nat \<Rightarrow> NaClVmmap \<Rightarrow> NaClVmmapEntry outcome" where
  "NaClVmmapIterStar entry_ix self = entry_at (vmentry self) entry_ix"

definition NaClVmmapIterIncr :: "nat \<Rightarrow> nat" where
  "NaClVmmapIterIncr entry_ix = entry_ix + 1"

text \<open>Erasing frees the entry but not its memory object, so the descriptor's count stays.\<close>

definition NaClVmmapIterErase :: "nat \<Rightarrow> NaClVmmap \<Rightarrow> NaClVmmap outcome" where
  "NaClVmmapIterErase entry_ix self =
     (if nvalid self = 0 \<or> length (vmentry self) < nvalid self \<or> length (vmentry self) \<le> entry_ix then Faults
      else
        let self = self\<lparr>nvalid := nvalid self - 1\<rparr>
        in Returns (self\<lparr>vmentry := (vmentry self)[entry_ix := vmentry self ! nvalid self], is_sorted := False\<rparr>))"

fun NaClVmmapVisit_loop :: "('s \<Rightarrow> NaClVmmapEntry \<Rightarrow> 's) \<Rightarrow> NaClVmmapEntry option list \<Rightarrow> nat \<Rightarrow> 's \<Rightarrow> 's outcome" where
  "NaClVmmapVisit_loop fn xs 0 st = Returns st"
| "NaClVmmapVisit_loop fn xs (Suc k) st =
     obind (NaClVmmapVisit_loop fn xs k st) (\<lambda>st. obind (entry_at xs k) (\<lambda>e. Returns (fn st e)))"

definition NaClVmmapVisit ::
    "('s \<Rightarrow> NaClVmmapEntry \<Rightarrow> 's) \<Rightarrow> NaClVmmap \<Rightarrow> 's \<Rightarrow> refs \<Rightarrow> ('s \<times> NaClVmmap \<times> refs) outcome" where
  "NaClVmmapVisit fn self st h =
     obind (NaClVmmapMakeSorted self h) (\<lambda>(self, h).
     obind (NaClVmmapVisit_loop fn (vmentry self) (nvalid self) st) (\<lambda>st. Returns (st, self, h)))"

subsection \<open>Finding space\<close>

text \<open>The loops run over adjacent pairs of entries, \<open>i - 1\<close> and \<open>i\<close>.\<close>

fun FindSpace_loop :: "NaClVmmapEntry option list \<Rightarrow> u32 \<Rightarrow> nat \<Rightarrow> u32 outcome" where
  "FindSpace_loop xs num_pages 0 = Returns 0"
| "FindSpace_loop xs num_pages (Suc k) =
     (if k > 0 then
        obind (entry_at xs (k - 1)) (\<lambda>vmep.
        obind (entry_at xs k) (\<lambda>cur.
          let end_page = page_num vmep + npages vmep;
              start_page = page_num cur
          in if start_page - end_page \<ge> num_pages then Returns (start_page - num_pages)
             else FindSpace_loop xs num_pages k))
      else Returns 0)"

definition NaClVmmapFindSpace :: "NaClVmmap \<Rightarrow> u32 \<Rightarrow> refs \<Rightarrow> (u32 \<times> NaClVmmap \<times> refs) outcome" where
  "NaClVmmapFindSpace self num_pages h =
     (if nvalid self = 0 then Returns (0, self, h)
      else
        obind (NaClVmmapMakeSorted self h) (\<lambda>(self, h).
        obind (FindSpace_loop (vmentry self) num_pages (nvalid self)) (\<lambda>r. Returns (r, self, h))))"

fun FindMapSpace_loop :: "NaClVmmapEntry option list \<Rightarrow> u32 \<Rightarrow> nat \<Rightarrow> u32 outcome" where
  "FindMapSpace_loop xs num_pages 0 = Returns 0"
| "FindMapSpace_loop xs num_pages (Suc k) =
     (if k > 0 then
        obind (entry_at xs (k - 1)) (\<lambda>vmep.
        obind (entry_at xs k) (\<lambda>cur.
          let end_page = NaClRoundPageNumUpToMapMultiple (page_num vmep + npages vmep);
              start_page = (if NACL_MAP_PAGESHIFT > NACL_PAGESHIFT
                            then NaClTruncPageNumDownToMapMultiple (page_num cur) else page_num cur)
          in if NACL_MAP_PAGESHIFT > NACL_PAGESHIFT \<and> start_page \<le> end_page then FindMapSpace_loop xs num_pages k
             else if start_page - end_page \<ge> num_pages then Returns (start_page - num_pages)
             else FindMapSpace_loop xs num_pages k))
      else Returns 0)"

definition NaClVmmapFindMapSpace :: "NaClVmmap \<Rightarrow> u32 \<Rightarrow> refs \<Rightarrow> (u32 \<times> NaClVmmap \<times> refs) outcome" where
  "NaClVmmapFindMapSpace self num_pages h =
     (if nvalid self = 0 then Returns (0, self, h)
      else
        obind (NaClVmmapMakeSorted self h) (\<lambda>(self, h).
        obind (FindMapSpace_loop (vmentry self) (NaClRoundPageNumUpToMapMultiple num_pages) (nvalid self)) (\<lambda>r.
          Returns (r, self, h))))"

function FindMapSpaceAbove_loop :: "NaClVmmapEntry option list \<Rightarrow> u32 \<Rightarrow> u32 \<Rightarrow> nat \<Rightarrow> nat \<Rightarrow> u32 outcome" where
  "FindMapSpaceAbove_loop xs usr_page num_pages nv i =
     (if i < nv then
        obind (entry_at xs (i - 1)) (\<lambda>vmep.
        obind (entry_at xs i) (\<lambda>cur.
          let end_page = NaClRoundPageNumUpToMapMultiple (page_num vmep + npages vmep);
              start_page = (if NACL_MAP_PAGESHIFT > NACL_PAGESHIFT
                            then NaClTruncPageNumDownToMapMultiple (page_num cur) else page_num cur)
          in if NACL_MAP_PAGESHIFT > NACL_PAGESHIFT \<and> start_page \<le> end_page
             then FindMapSpaceAbove_loop xs usr_page num_pages nv (i + 1)
             else
               let end_page = (if end_page \<le> usr_page \<and> usr_page < start_page then usr_page else end_page)
               in if usr_page \<le> end_page \<and> start_page - end_page \<ge> num_pages then Returns end_page
                  else FindMapSpaceAbove_loop xs usr_page num_pages nv (i + 1)))
      else Returns 0)"
  by pat_completeness auto
termination by (relation "measure (\<lambda>(xs, usr_page, num_pages, nv, i). nv - i)") auto

definition NaClVmmapFindMapSpaceAboveHint :: "NaClVmmap \<Rightarrow> u32 \<Rightarrow> u32 \<Rightarrow> refs \<Rightarrow> (u32 \<times> NaClVmmap \<times> refs) outcome" where
  "NaClVmmapFindMapSpaceAboveHint self uaddr num_pages h =
     obind (NaClVmmapMakeSorted self h) (\<lambda>(self, h).
     obind (FindMapSpaceAbove_loop (vmentry self) (drop_bit NACL_PAGESHIFT uaddr)
              (NaClRoundPageNumUpToMapMultiple num_pages) (nvalid self) 1) (\<lambda>r.
       Returns (r, self, h)))"

end
