(* ===== verification/NaCl_App.thy ===== *)
theory NaCl_App
  imports NaCl_Prelude
begin

text \<open>
  What the parts of the service runtime share: the error codes of \<open>nacl_error_code.h\<close>, the
  layout constants of \<open>nacl_config.h\<close> and the numeric fields of \<open>struct NaClApp\<close> (\<open>sel_ldr.h\<close>).
  The 32-bit build is modelled: \<open>uintptr_t\<close> is \<open>u32\<close>.
\<close>

datatype NaClErrorCode =
    LOAD_OK | LOAD_STATUS_UNKNOWN | LOAD_UNSUPPORTED_OS_PLATFORM | LOAD_INTERNAL
  | LOAD_READ_ERROR | LOAD_TOO_MANY_PROG_HDRS | LOAD_PROG_HDR_SIZE_TOO_SMALL
  | LOAD_BAD_ELF_MAGIC | LOAD_NOT_32_BIT | LOAD_NOT_64_BIT | LOAD_BAD_ABI | LOAD_NOT_EXEC
  | LOAD_BAD_MACHINE | LOAD_BAD_ELF_VERS | LOAD_TOO_MANY_SECT | LOAD_BAD_SECT
  | LOAD_NO_MEMORY | LOAD_SECT_HDR | LOAD_ADDR_SPACE_TOO_SMALL | LOAD_ADDR_SPACE_TOO_BIG
  | LOAD_DATA_OVERLAPS_STACK_SECTION | LOAD_RODATA_OVERLAPS_DATA | LOAD_DATA_NOT_LAST_SEGMENT
  | LOAD_NO_DATA_BUT_RODATA_NOT_LAST_SEGMENT | LOAD_TEXT_OVERLAPS_RODATA
  | LOAD_TEXT_OVERLAPS_DATA | LOAD_UNLOADABLE | LOAD_BAD_ELF_TEXT | LOAD_TEXT_SEG_TOO_BIG
  | LOAD_DATA_SEG_TOO_BIG | LOAD_MPROTECT_FAIL | LOAD_MADVISE_FAIL | LOAD_TOO_MANY_SYMBOL_STR
  | LOAD_SYMTAB_ENTRY_TOO_SMALL | LOAD_NO_SYMTAB | LOAD_NO_SYMTAB_STRINGS | LOAD_SYMTAB_ENTRY
  | LOAD_UNKNOWN_SYMBOL_TYPE | LOAD_SYMTAB_DUP | LOAD_REL_ERROR | LOAD_REL_UNIMPL
  | LOAD_UNDEF_SYMBOL | LOAD_BAD_SYMBOL_DATA | LOAD_BAD_FILE | LOAD_BAD_ENTRY
  | LOAD_SEGMENT_OUTSIDE_ADDRSPACE | LOAD_DUP_SEGMENT | LOAD_SEGMENT_BAD_LOC
  | LOAD_BAD_SEGMENT | LOAD_REQUIRED_SEG_MISSING | LOAD_SEGMENT_BAD_PARAM
  | LOAD_VALIDATION_FAILED | SRT_NO_SEG_SEL

definition NACL_NULL_REGION_SHIFT :: nat where [nacl_consts]: "NACL_NULL_REGION_SHIFT = 16"
definition NACL_TRAMPOLINE_SHIFT :: nat where [nacl_consts]: "NACL_TRAMPOLINE_SHIFT = 16"

definition NACL_TRAMPOLINE_START :: u32 where
  [nacl_consts]: "NACL_TRAMPOLINE_START = push_bit NACL_NULL_REGION_SHIFT 1"

definition NACL_TRAMPOLINE_SIZE :: u32 where
  [nacl_consts]: "NACL_TRAMPOLINE_SIZE = push_bit NACL_TRAMPOLINE_SHIFT 1"

definition NACL_TRAMPOLINE_END :: u32 where
  [nacl_consts]: "NACL_TRAMPOLINE_END = NACL_TRAMPOLINE_START + NACL_TRAMPOLINE_SIZE"

lemma NACL_TRAMPOLINE_END_val: "NACL_TRAMPOLINE_END = 0x20000"
  by (simp add: nacl_consts)

record NaClApp =
  addr_bits :: u8
  max_data_alloc :: u32
  stack_size :: u32
  mem_start :: u32
  static_text_end :: u32
  dynamic_text_start :: u32
  dynamic_text_end :: u32
  rodata_start :: u32
  data_start :: u32
  data_end :: u32
  entry_pt :: u32
  bundle_size :: int
  springboard_addr :: u32
  module_load_status :: NaClErrorCode
  restrict_to_main_thread :: bool
  ignore_validator_result :: bool
  validator_stub_out_mode :: bool
  break_addr :: u32

end
