(* ===== verification/Addr_Space.thy ===== *)
theory Addr_Space
  imports Vmmap NaCl_App
begin

text \<open>
  The translation of addresses between a module's address space and the host's (\<open>service_runtime/sel_ldr-inl.h\<close>), and
  the checks of addresses that system calls and the loader share. A translation for an address from untrusted code
  returns \<open>kNaClBadAddress\<close> when it is outside; the others end the process.
\<close>

subsection \<open>Operations\<close>

definition kNaClBadAddress :: u32 where [nacl_consts]: "kNaClBadAddress = - 1"

definition NaClUserToSysAddrNullOkay :: "NaClApp \<Rightarrow> u32 \<Rightarrow> u32" where
  "NaClUserToSysAddrNullOkay nap uaddr =
     (if push_bit (unat (addr_bits nap)) 1 \<le> uaddr then kNaClBadAddress else uaddr + mem_start nap)"

definition NaClUserToSysAddr :: "NaClApp \<Rightarrow> u32 \<Rightarrow> u32" where
  "NaClUserToSysAddr nap uaddr =
     (if 0 = uaddr \<or> push_bit (unat (addr_bits nap)) 1 \<le> uaddr then kNaClBadAddress else uaddr + mem_start nap)"

definition NaClIsUserAddr :: "NaClApp \<Rightarrow> u32 \<Rightarrow> bool" where
  "NaClIsUserAddr nap sysaddr \<longleftrightarrow>
     mem_start nap \<le> sysaddr \<and> sysaddr < mem_start nap + push_bit (unat (addr_bits nap)) 1"

definition NaClUserToSysAddrRange :: "NaClApp \<Rightarrow> u32 \<Rightarrow> u32 \<Rightarrow> u32" where
  "NaClUserToSysAddrRange nap uaddr cnt =
     (if 0 = uaddr then kNaClBadAddress
      else
        let end_addr = uaddr + cnt
        in if end_addr < uaddr then kNaClBadAddress
           else if push_bit (unat (addr_bits nap)) 1 \<le> end_addr then kNaClBadAddress
           else uaddr + mem_start nap)"

definition NaClUserToSys :: "NaClApp \<Rightarrow> u32 \<Rightarrow> u32 outcome" where
  "NaClUserToSys nap uaddr =
     (if 0 = uaddr \<or> push_bit (unat (addr_bits nap)) 1 \<le> uaddr then Aborts else Returns (uaddr + mem_start nap))"

definition NaClSysToUser :: "NaClApp \<Rightarrow> u32 \<Rightarrow> u32 outcome" where
  "NaClSysToUser nap sysaddr =
     (if sysaddr < mem_start nap \<or> mem_start nap + push_bit (unat (addr_bits nap)) 1 \<le> sysaddr then Aborts
      else Returns (sysaddr - mem_start nap))"

definition NaClUserToSysStackAddr :: "NaClApp \<Rightarrow> u32 \<Rightarrow> u32 outcome" where
  "NaClUserToSysStackAddr nap stackaddr = NaClUserToSys nap stackaddr"

definition NaClSysToUserStackAddr :: "NaClApp \<Rightarrow> u32 \<Rightarrow> u32 outcome" where
  "NaClSysToUserStackAddr nap stackaddr = NaClSysToUser nap stackaddr"

definition NaClEndOfStaticText :: "NaClApp \<Rightarrow> u32" where
  "NaClEndOfStaticText nap = static_text_end nap"

definition NaClSandboxCodeAddr :: "NaClApp \<Rightarrow> u32 \<Rightarrow> u32" where
  "NaClSandboxCodeAddr nap addr = addr AND NOT (word_of_int (bundle_size nap) - 1)"

definition NaClAddrIsValidEntryPt :: "NaClApp \<Rightarrow> u32 \<Rightarrow> bool" where
  "NaClAddrIsValidEntryPt nap addr =
     (if 0 \<noteq> addr AND (word_of_int (bundle_size nap) - 1) then False else addr < static_text_end nap)"

definition NaClAlignPad :: "u32 \<Rightarrow> u32 \<Rightarrow> u32" where
  "NaClAlignPad val align =
     (if align = 0 then 0 else let val = val mod align in if val = 0 then 0 else align - val)"

text \<open>Copying memory, and the halts that unused code is filled with.\<close>

definition memcpy :: "memory \<Rightarrow> nat \<Rightarrow> nat \<Rightarrow> nat \<Rightarrow> memory" where
  "memcpy mem dst src n = (\<lambda>a. if dst \<le> a \<and> a < dst + n then mem (src + (a - dst)) else mem a)"

definition NACL_HALT_OPCODE :: u8 where [nacl_consts]: "NACL_HALT_OPCODE = 0xf4"
definition NACL_HALT_LEN :: u32 where [nacl_consts]: "NACL_HALT_LEN = 1"
definition NACL_HALT_WORD :: u32 where [nacl_consts]: "NACL_HALT_WORD = 0xf4f4f4f4"
definition NACL_HALT_SLED_SIZE :: u32 where [nacl_consts]: "NACL_HALT_SLED_SIZE = 32"

subsection \<open>The address space\<close>

text \<open>Where a module's address space can lie: it has fewer than 32 bits and ends below the top of the host's.\<close>

definition space_ok :: "NaClApp \<Rightarrow> bool" where
  "space_ok nap \<longleftrightarrow> unat (addr_bits nap) < 32 \<and> unat (mem_start nap) + 2 ^ unat (addr_bits nap) < 2 ^ 32"

lemma space_size: "space_ok nap \<Longrightarrow> unat (push_bit (unat (addr_bits nap)) 1 :: u32) = 2 ^ unat (addr_bits nap)"
  by (rule unat_push_1) (simp add: space_ok_def)

lemma space_top:
  assumes "space_ok nap"
  shows "unat (mem_start nap + push_bit (unat (addr_bits nap)) 1) = unat (mem_start nap) + 2 ^ unat (addr_bits nap)"
  using assms space_size [OF assms] unat_add_no_wrap [of "mem_start nap" "push_bit (unat (addr_bits nap)) 1"]
  by (simp add: space_ok_def)

lemma space_limit:
  assumes "space_ok nap"
  shows "push_bit (unat (addr_bits nap)) 1 \<le> u \<longleftrightarrow> 2 ^ unat (addr_bits nap) \<le> unat (u :: u32)"
  unfolding word_le_nat_alt space_size [OF assms] ..

lemma xlate_unat:
  assumes "space_ok nap" "unat u < 2 ^ unat (addr_bits nap)"
  shows "unat (u + mem_start nap) = unat (mem_start nap) + unat u"
  using assms unat_add_no_wrap [of u "mem_start nap"] by (simp add: space_ok_def)

lemma NaClIsUserAddr_iff:
  assumes "space_ok nap"
  shows "NaClIsUserAddr nap a \<longleftrightarrow> unat (mem_start nap) \<le> unat a \<and> unat a < unat (mem_start nap) + 2 ^ unat (addr_bits nap)"
  unfolding NaClIsUserAddr_def word_le_nat_alt word_less_nat_alt space_top [OF assms] ..

lemma NaClUserToSys_Returns:
  assumes "space_ok nap"
  shows "NaClUserToSys nap u = (if u = 0 \<or> 2 ^ unat (addr_bits nap) \<le> unat u then Aborts else Returns (u + mem_start nap))"
  unfolding NaClUserToSys_def space_limit [OF assms] eq_commute [of 0 u] ..

lemma NaClSysToUser_Returns:
  assumes "space_ok nap"
  shows "NaClSysToUser nap a = (if NaClIsUserAddr nap a then Returns (a - mem_start nap) else Aborts)"
  by (auto simp: NaClSysToUser_def NaClIsUserAddr_def not_less not_le)

lemma NaClUserToSysAddrRange_eq:
  assumes ok: "space_ok nap"
  shows "NaClUserToSysAddrRange nap u n =
    (if u \<noteq> 0 \<and> unat u + unat n < 2 ^ unat (addr_bits nap) then u + mem_start nap else kNaClBadAddress)"
proof -
  have small: "(2 :: nat) ^ unat (addr_bits nap) < 2 ^ 32" using ok by (simp add: space_ok_def)
  show ?thesis
  proof (cases "unat u + unat n < 2 ^ unat (addr_bits nap)")
    case True
    then have s: "unat (u + n) = unat u + unat n" using small by (intro unat_add_no_wrap) simp
    then have "\<not> u + n < u" by (simp add: word_less_nat_alt)
    then show ?thesis using True unfolding NaClUserToSysAddrRange_def Let_def space_limit [OF ok] s by auto
  next
    case False
    have "2 ^ unat (addr_bits nap) \<le> unat (u + n)" if "\<not> u + n < u" using no_wrap_words [OF that] False by simp
    then show ?thesis using False unfolding NaClUserToSysAddrRange_def Let_def space_limit [OF ok] by auto
  qed
qed

text \<open>
  C36: a range from untrusted code is translated only when it lies inside the module's address space. A translation that is not
  \<open>kNaClBadAddress\<close> is the address at that offset, the whole range belongs to the module, and no byte of it wraps around;
  a non-empty range is refused exactly when it starts at 0 or reaches the last address of the space.
\<close>

theorem NaClUserToSysAddrRange_confined:
  fixes nap :: NaClApp and u n :: u32
  assumes ok: "space_ok nap"
  defines "r \<equiv> NaClUserToSysAddrRange nap u n"
  shows "(r \<noteq> kNaClBadAddress \<longrightarrow> unat r = unat (mem_start nap) + unat u \<and>
      (\<forall>k<unat n. unat (r + of_nat k) = unat r + k \<and> NaClIsUserAddr nap (r + of_nat k))) \<and>
    (n \<noteq> 0 \<longrightarrow> (r = kNaClBadAddress \<longleftrightarrow> u = 0 \<or> 2 ^ unat (addr_bits nap) \<le> unat u + unat n))"
proof -
  let ?top = "2 ^ unat (addr_bits nap) :: nat"
  note r_eq = r_def [unfolded NaClUserToSysAddrRange_eq [OF ok]]
  show ?thesis
  proof (cases "u \<noteq> 0 \<and> unat u + unat n < ?top")
    case True
    have r: "unat r = unat (mem_start nap) + unat u" using r_eq True xlate_unat [OF ok, of u] by simp
    have k: "unat (r + of_nat k) = unat r + k" "NaClIsUserAddr nap (r + of_nat k)" if "k < unat n" for k
    proof -
      have "unat (of_nat k :: u32) = k" using that unsigned_less [of n, where ?'a = nat] by (simp only: unat_of_nat) simp
      then show *: "unat (r + of_nat k) = unat r + k"
        using that r True ok unat_add_no_wrap [of r "of_nat k"] by (simp add: space_ok_def)
      show "NaClIsUserAddr nap (r + of_nat k)" using that True by (simp add: NaClIsUserAddr_iff [OF ok] * r)
    qed
    have "r \<noteq> kNaClBadAddress"
    proof
      assume "r = kNaClBadAddress"
      then have "unat r = 2 ^ 32 - 1" by (simp add: kNaClBadAddress_def unsigned_minus_1_eq_mask mask_eq_exp_minus_1)
      then show False using r True ok by (simp add: space_ok_def)
    qed
    then show ?thesis using r k True by auto
  next
    case False
    then show ?thesis using r_eq by auto
  qed
qed

definition sample_space :: NaClApp where
  "sample_space = \<lparr>addr_bits = 28, max_data_alloc = 0, stack_size = 0x10000, mem_start = 0x10000000, static_text_end = 0x20020,
     dynamic_text_start = 0x30000, dynamic_text_end = 0x40000, rodata_start = 0x40000, data_start = 0, data_end = 0,
     entry_pt = 0x20000, bundle_size = 32, springboard_addr = 0, module_load_status = LOAD_OK,
     restrict_to_main_thread = False, ignore_validator_result = False, validator_stub_out_mode = False,
     break_addr = 0\<rparr>"

lemma sample_space_ok: "space_ok sample_space"
  by (simp add: space_ok_def sample_space_def)

theorem NaClUserToSysAddrRange_confined_witness:
  "unat (NaClUserToSysAddrRange sample_space 0x20000 8) = 0x10020000 \<and>
   NaClIsUserAddr sample_space (NaClUserToSysAddrRange sample_space 0x20000 8 + 7) \<and>
   NaClUserToSysAddrRange sample_space 0xffffff0 0x10 = kNaClBadAddress"
proof -
  have u: "unat (8 :: u32) = 8" "unat (0x20000 :: u32) = 0x20000" "unat (0x10 :: u32) = 0x10" "unat (0xffffff0 :: u32) = 0xffffff0"
    "unat (28 :: u8) = 28" "unat (0x10000000 :: u32) = 0x10000000" by simp_all
  note r = NaClUserToSysAddrRange_confined [OF sample_space_ok, of "0x20000" 8]
  have nb: "NaClUserToSysAddrRange sample_space 0x20000 8 \<noteq> kNaClBadAddress" using r u by (simp add: sample_space_def)
  have "NaClIsUserAddr sample_space (NaClUserToSysAddrRange sample_space 0x20000 8 + of_nat 7)"
    using r [THEN conjunct1, rule_format, OF nb, THEN conjunct2, rule_format, of 7] by simp
  moreover have "unat (NaClUserToSysAddrRange sample_space 0x20000 8) = 0x10020000" using r nb u by (simp add: sample_space_def)
  ultimately show ?thesis
    using NaClUserToSysAddrRange_confined [OF sample_space_ok, of "0xffffff0" "0x10"] u by (simp add: sample_space_def)
qed

text \<open>
  C37: the two translations invert each other. A user address other than 0 goes to a system address of the module and back; a system
  address of the module above its first byte goes to a user address and back; on every other address both end the process.
\<close>

theorem NaClUserToSys_roundtrip:
  assumes ok: "space_ok nap"
  shows "(case NaClUserToSys nap u of Returns a \<Rightarrow> NaClIsUserAddr nap a \<and> NaClSysToUser nap a = Returns u
      | r \<Rightarrow> r = Aborts \<and> (u = 0 \<or> 2 ^ unat (addr_bits nap) \<le> unat u)) \<and>
    (case NaClSysToUser nap a of Returns v \<Rightarrow> a \<noteq> mem_start nap \<longrightarrow> NaClUserToSys nap v = Returns a
      | r \<Rightarrow> r = Aborts \<and> \<not> NaClIsUserAddr nap a)"
proof (rule conjI)
  show "case NaClUserToSys nap u of Returns a \<Rightarrow> NaClIsUserAddr nap a \<and> NaClSysToUser nap a = Returns u
      | r \<Rightarrow> r = Aborts \<and> (u = 0 \<or> 2 ^ unat (addr_bits nap) \<le> unat u)"
    using xlate_unat [OF ok, of u]
    by (simp add: NaClUserToSys_Returns [OF ok] NaClSysToUser_Returns [OF ok] NaClIsUserAddr_iff [OF ok])
  show "case NaClSysToUser nap a of Returns v \<Rightarrow> a \<noteq> mem_start nap \<longrightarrow> NaClUserToSys nap v = Returns a
      | r \<Rightarrow> r = Aborts \<and> \<not> NaClIsUserAddr nap a"
  proof (cases "NaClIsUserAddr nap a")
    case True
    then have b: "unat (mem_start nap) \<le> unat a" "unat a < unat (mem_start nap) + 2 ^ unat (addr_bits nap)"
      by (simp_all add: NaClIsUserAddr_iff [OF ok])
    then have "unat (a - mem_start nap) = unat a - unat (mem_start nap)" by (intro unat_sub_le) (simp add: word_le_nat_alt)
    then show ?thesis using True b
      by (auto simp: NaClSysToUser_Returns [OF ok] NaClUserToSys_Returns [OF ok])
  qed (simp add: NaClSysToUser_Returns [OF ok])
qed

theorem NaClUserToSys_roundtrip_witness:
  "NaClSysToUser sample_space 0x10020000 = Returns 0x20000 \<and> NaClUserToSys sample_space 0x20000 = Returns 0x10020000"
proof -
  have "NaClSysToUser sample_space 0x10020000 = Returns 0x20000" by (simp add: NaClSysToUser_def sample_space_def)
  then show ?thesis using NaClUserToSys_roundtrip [OF sample_space_ok, of "0x20000" "0x10020000"] by (simp add: sample_space_def)
qed

text \<open>Sandboxing a code address moves it to the start of its bundle.\<close>

lemma NaClSandboxCodeAddr_start:
  assumes "bundle_size nap = 2 ^ k" "k < 32"
  shows "unat (NaClSandboxCodeAddr nap a) = unat a div 2 ^ k * 2 ^ k"
proof -
  have "(word_of_int (bundle_size nap) - 1 :: u32) = mask k" using assms by (simp add: mask_eq_exp_minus_1)
  then show ?thesis by (simp add: NaClSandboxCodeAddr_def unat_and_not_mask)
qed

lemma NaClAlignPad_spec:
  assumes "align \<noteq> 0" "unat v + unat align < 2 ^ 32"
  shows "unat align dvd unat (v + NaClAlignPad v align)" "NaClAlignPad v align < align"
proof -
  have z: "0 < unat align" using assms(1) by (simp add: unat_gt_0)
  have m: "unat (v mod align) = unat v mod unat align" by (rule unat_mod)
  have u: "unat (NaClAlignPad v align) = (if unat v mod unat align = 0 then 0 else unat align - unat v mod unat align)"
  proof -
    have "v mod align \<le> align" using z by (simp add: word_le_nat_alt m order_less_imp_le)
    then show ?thesis using assms(1) unat_sub_le [of "v mod align" align] m
      by (auto simp: NaClAlignPad_def Let_def unat_eq_0 [symmetric] simp del: unat_eq_0)
  qed
  then show "NaClAlignPad v align < align" using z by (simp add: word_less_nat_alt)
  have "unat (v + NaClAlignPad v align) = unat v + unat (NaClAlignPad v align)"
    using assms(2) u by (intro unat_add_no_wrap) (auto split: if_splits)
  then show "unat align dvd unat (v + NaClAlignPad v align)"
  proof (cases "unat v mod unat align = 0")
    case False
    have "unat v + (unat align - unat v mod unat align) = unat align * (unat v div unat align + 1)"
      using mult_div_mod_eq [of "unat align" "unat v"] mod_less_divisor [OF z, of "unat v"] unfolding add_mult_distrib2 by linarith
    then show ?thesis using False u \<open>unat (v + _) = _\<close> by simp
  qed (use u in \<open>simp add: mod_eq_0_iff_dvd\<close>)
qed

end
