(* ===== verification/Trampoline.thy ===== *)
theory Trampoline
  imports Addr_Space
begin

text \<open>
  The code the runtime puts into a module's address space: unaligned loads and stores and the patching of code templates
  (\<open>service_runtime/sel_ldr.c\<close>), the system call trampolines and the springboard (\<open>arch/x86_32/sel_ldr_x86_32.c\<close>, the build that is not
  position independent). The templates are assembler code: the addresses of their symbols and the runtime's segment selectors are
  parameters, and the bytes at those addresses are whatever memory holds there.
\<close>

subsection \<open>Unaligned accesses\<close>

fun NaClLoadMem_loop :: "memory \<Rightarrow> nat \<Rightarrow> nat \<Rightarrow> u64 \<Rightarrow> u64" where
  "NaClLoadMem_loop mem addr 0 v = v"
| "NaClLoadMem_loop mem addr (Suc n) v = NaClLoadMem_loop mem addr n (push_bit 8 v OR ucast (mem (addr + n)))"

definition NaClLoadMem :: "memory \<Rightarrow> nat \<Rightarrow> nat \<Rightarrow> u64 outcome" where
  "NaClLoadMem mem addr user_nbytes =
     (if \<not> (0 \<noteq> user_nbytes \<and> user_nbytes \<le> 8) then Aborts else Returns (NaClLoadMem_loop mem addr user_nbytes 0))"

definition NaClLoad32 :: "memory \<Rightarrow> nat \<Rightarrow> u32 outcome" where
  "NaClLoad32 mem addr = obind (NaClLoadMem mem addr 4) (\<lambda>v. Returns (ucast v))"

definition NaClLoad64 :: "memory \<Rightarrow> nat \<Rightarrow> u64 outcome" where
  "NaClLoad64 mem addr = NaClLoadMem mem addr 8"

fun NaClStoreMem_loop :: "memory \<Rightarrow> nat \<Rightarrow> nat \<Rightarrow> nat \<Rightarrow> u64 \<Rightarrow> memory" where
  "NaClStoreMem_loop mem addr i 0 v = mem"
| "NaClStoreMem_loop mem addr i (Suc n) v = NaClStoreMem_loop (mem(addr + i := ucast v)) addr (i + 1) n (drop_bit 8 v)"

definition NaClStoreMem :: "memory \<Rightarrow> nat \<Rightarrow> nat \<Rightarrow> u64 \<Rightarrow> memory outcome" where
  "NaClStoreMem mem addr nbytes v =
     (if \<not> nbytes \<le> 8 then Aborts else Returns (NaClStoreMem_loop mem addr 0 nbytes v))"

definition NaClStore16 :: "memory \<Rightarrow> nat \<Rightarrow> 16 word \<Rightarrow> memory outcome" where
  "NaClStore16 mem addr v = NaClStoreMem mem addr 2 (ucast v)"

definition NaClStore32 :: "memory \<Rightarrow> nat \<Rightarrow> u32 \<Rightarrow> memory outcome" where
  "NaClStore32 mem addr v = NaClStoreMem mem addr 4 (ucast v)"

definition NaClStore64 :: "memory \<Rightarrow> nat \<Rightarrow> u64 \<Rightarrow> memory outcome" where
  "NaClStore64 mem addr v = NaClStoreMem mem addr 8 v"

subsection \<open>Patching\<close>

record NaClPatch =
  patch_target :: u32
  patch_value :: u64

record NaClPatchInfo =
  pi_dst :: u32
  pi_src :: u32
  pi_nbytes :: u32
  abs16 :: "NaClPatch list"
  abs32 :: "NaClPatch list"
  abs64 :: "NaClPatch list"
  rel32 :: "u32 list"
  rel64 :: "u32 list"

definition NaClPatchInfoCtor :: NaClPatchInfo where
  "NaClPatchInfoCtor = \<lparr>pi_dst = 0, pi_src = 0, pi_nbytes = 0, abs16 = [], abs32 = [], abs64 = [], rel32 = [], rel64 = []\<rparr>"

fun patch_each :: "('a \<Rightarrow> memory \<Rightarrow> memory outcome) \<Rightarrow> 'a list \<Rightarrow> memory \<Rightarrow> memory outcome" where
  "patch_each f [] mem = Returns mem"
| "patch_each f (x # xs) mem = obind (f x mem) (patch_each f xs)"

text \<open>The difference of two pointers is unsigned, so \<open>reloc\<close> is zero extended to 64 bits.\<close>

definition NaClApplyPatchToMemory :: "NaClPatchInfo \<Rightarrow> memory \<Rightarrow> memory outcome" where
  "NaClApplyPatchToMemory patch mem =
     (let mem = memcpy mem (unat (pi_dst patch)) (unat (pi_src patch)) (unat (pi_nbytes patch));
          reloc = ucast (pi_dst patch - pi_src patch) :: u64;
          target_addr = (\<lambda>t. unat (pi_dst patch + (t - pi_src patch)))
      in obind (patch_each (\<lambda>x mem. NaClStore64 mem (target_addr (patch_target x)) (patch_value x)) (abs64 patch) mem) (\<lambda>mem.
         obind (patch_each (\<lambda>x mem. NaClStore32 mem (target_addr (patch_target x)) (ucast (patch_value x))) (abs32 patch) mem) (\<lambda>mem.
         obind (patch_each (\<lambda>x mem. NaClStore16 mem (target_addr (patch_target x)) (ucast (patch_value x))) (abs16 patch) mem) (\<lambda>mem.
         obind (patch_each (\<lambda>t mem. obind (NaClLoad64 mem (target_addr t)) (\<lambda>v. NaClStore64 mem (target_addr t) (v - reloc)))
           (rel64 patch) mem) (\<lambda>mem.
         patch_each (\<lambda>t mem. obind (NaClLoad32 mem (target_addr t)) (\<lambda>v. NaClStore32 mem (target_addr t) (v - ucast reloc)))
           (rel32 patch) mem)))))"

subsection \<open>Trampolines and springboard\<close>

definition NACL_SYSCALL_START_ADDR :: u32 where [nacl_consts]: "NACL_SYSCALL_START_ADDR = push_bit NACL_PAGESHIFT 16"
definition NACL_SYSCALL_BLOCK_SHIFT :: nat where [nacl_consts]: "NACL_SYSCALL_BLOCK_SHIFT = 5"
definition NACL_SYSCALL_BLOCK_SIZE :: u32 where [nacl_consts]: "NACL_SYSCALL_BLOCK_SIZE = push_bit NACL_SYSCALL_BLOCK_SHIFT 1"

record templates =
  NaCl_trampoline_seg_code :: u32
  NaCl_trampoline_seg_end :: u32
  NaCl_tramp_cseg_patch :: u32
  NaCl_tramp_dseg_patch :: u32
  NaCl_springboard :: u32
  NaCl_springboard_end :: u32
  global_cs :: "16 word"
  global_ds :: "16 word"

definition NaClPatchOneTrampoline :: "templates \<Rightarrow> u32 \<Rightarrow> memory \<Rightarrow> memory outcome" where
  "NaClPatchOneTrampoline ts target_addr mem =
     NaClApplyPatchToMemory
       (NaClPatchInfoCtor\<lparr>abs16 := [\<lparr>patch_target = NaCl_tramp_cseg_patch ts - 2, patch_value = ucast (global_cs ts)\<rparr>],
          abs32 := [\<lparr>patch_target = NaCl_tramp_dseg_patch ts - 4, patch_value = ucast (global_ds ts)\<rparr>],
          pi_dst := target_addr, pi_src := NaCl_trampoline_seg_code ts,
          pi_nbytes := NaCl_trampoline_seg_end ts - NaCl_trampoline_seg_code ts\<rparr>) mem"

definition NaClFillMemoryRegionWithHalt :: "memory \<Rightarrow> nat \<Rightarrow> u32 \<Rightarrow> memory outcome" where
  "NaClFillMemoryRegionWithHalt mem start sz =
     (if sz mod NACL_HALT_LEN \<noteq> 0 then Aborts
      else Returns (\<lambda>a. if start \<le> a \<and> a < start + unat sz then NACL_HALT_OPCODE else mem a))"

definition NaClFillTrampolineRegion :: "NaClApp \<Rightarrow> memory \<Rightarrow> memory outcome" where
  "NaClFillTrampolineRegion nap mem =
     NaClFillMemoryRegionWithHalt mem (unat (mem_start nap + NACL_TRAMPOLINE_START)) NACL_TRAMPOLINE_SIZE"

fun NaClLoadTrampoline_loop :: "templates \<Rightarrow> nat \<Rightarrow> u32 \<Rightarrow> memory \<Rightarrow> memory outcome" where
  "NaClLoadTrampoline_loop ts 0 addr mem = Returns mem"
| "NaClLoadTrampoline_loop ts (Suc n) addr mem =
     obind (NaClPatchOneTrampoline ts addr mem) (NaClLoadTrampoline_loop ts n (addr + NACL_SYSCALL_BLOCK_SIZE))"

definition NaClLoadTrampoline :: "templates \<Rightarrow> NaClApp \<Rightarrow> memory \<Rightarrow> memory outcome" where
  "NaClLoadTrampoline ts nap mem =
     obind (NaClFillTrampolineRegion nap mem) (\<lambda>mem.
       let num_syscalls = unat ((NACL_TRAMPOLINE_END - NACL_SYSCALL_START_ADDR) div NACL_SYSCALL_BLOCK_SIZE) - 1
       in NaClLoadTrampoline_loop ts num_syscalls (mem_start nap + NACL_SYSCALL_START_ADDR) mem)"

definition NaClLoadSpringboard :: "templates \<Rightarrow> NaClApp \<Rightarrow> memory \<Rightarrow> (NaClApp \<times> memory) outcome" where
  "NaClLoadSpringboard ts nap mem =
     (let nap = nap\<lparr>springboard_addr := NACL_TRAMPOLINE_END - word_of_int (bundle_size nap)\<rparr>
      in obind (NaClApplyPatchToMemory
           (NaClPatchInfoCtor\<lparr>pi_dst := mem_start nap + springboard_addr nap, pi_src := NaCl_springboard ts,
              pi_nbytes := NaCl_springboard_end ts - NaCl_springboard ts\<rparr>) mem) (\<lambda>mem.
         Returns (nap\<lparr>springboard_addr := springboard_addr nap + NACL_HALT_LEN\<rparr>, mem)))"

subsection \<open>Loads and stores\<close>

lemma bit_load_loop:
  "8 * n \<le> 64 \<Longrightarrow> bit (NaClLoadMem_loop mem addr n v) k \<longleftrightarrow>
     (if k < 8 * n then bit (mem (addr + k div 8)) (k mod 8) else k < 64 \<and> bit v (k - 8 * n))"
proof (induction n arbitrary: v)
  case 0
  then show ?case using bit_imp_le_length [of v k] by auto
next
  case (Suc n)
  consider "k < 8 * n" | "8 * n \<le> k" "k < 8 * n + 8" | "8 * n + 8 \<le> k" by linarith
  then show ?case
  proof cases
    case 1
    then show ?thesis using Suc by simp
  next
    case 2
    then have d: "k div 8 = n" by simp
    then have "k mod 8 = k - 8 * n" by (simp add: modulo_nat_def)
    with d 2 show ?thesis using Suc by (auto simp: bit_simps)
  next
    case 3
    then show ?thesis using Suc bit_imp_le_length [of "mem (addr + n)" "k - 8 * n"] by (auto simp: bit_simps add.commute)
  qed
qed

lemma store_loop_spec:
  "NaClStoreMem_loop mem addr i n v a =
     (if addr + i \<le> a \<and> a < addr + i + n then ucast (drop_bit (8 * (a - (addr + i))) v) else mem a)"
proof (induction n arbitrary: mem i v a)
  case (Suc n)
  consider "a = addr + i" | "addr + (i + 1) \<le> a" | "a < addr + i" by linarith
  then show ?case
  proof cases
    case 2
    then have "8 * (a - (addr + i)) = 8 * (a - (addr + (i + 1))) + 8" by simp
    with 2 show ?thesis by (simp add: Suc.IH drop_bit_drop_bit add.commute)
  qed (simp_all add: Suc.IH)
qed auto

text \<open>The two loops as functions on values: \<open>ld\<close> reads \<open>n\<close> bytes, \<open>st\<close> writes them.\<close>

definition ld :: "memory \<Rightarrow> nat \<Rightarrow> nat \<Rightarrow> u64" where
  "ld mem a n = NaClLoadMem_loop mem a n 0"

definition st :: "nat \<Rightarrow> nat \<Rightarrow> u64 \<Rightarrow> memory \<Rightarrow> memory" where
  "st a n v mem = (\<lambda>x. if a \<le> x \<and> x < a + n then ucast (drop_bit (8 * (x - a)) v) else mem x)"

lemma NaClStoreMem_st: "n \<le> 8 \<Longrightarrow> NaClStoreMem mem a n v = Returns (st a n v mem)"
  by (simp add: NaClStoreMem_def st_def store_loop_spec fun_eq_iff)

lemma NaClLoadMem_ld: "0 < n \<Longrightarrow> n \<le> 8 \<Longrightarrow> NaClLoadMem mem a n = Returns (ld mem a n)"
  by (simp add: NaClLoadMem_def ld_def)

lemma bit_ld: "n \<le> 8 \<Longrightarrow> bit (ld mem a n) k \<longleftrightarrow> k < 8 * n \<and> bit (mem (a + k div 8)) (k mod 8)"
  by (simp add: ld_def bit_load_loop)

lemma ld_cong: "n \<le> 8 \<Longrightarrow> (\<And>i. i < n \<Longrightarrow> mem (a + i) = mem' (a' + i)) \<Longrightarrow> ld mem a n = ld mem' a' n"
  by (rule bit_eqI) (auto simp: bit_ld less_mult_imp_div_less mult.commute)

lemma ld_st: "n \<le> 8 \<Longrightarrow> ld (st a n v mem) a n = take_bit (8 * n) v"
proof (rule bit_eqI)
  fix k
  assume n: "n \<le> 8" and "possible_bit TYPE(u64) k"
  have "bit (st a n v mem (a + k div 8)) (k mod 8) \<longleftrightarrow> bit v k" if "k < 8 * n"
  proof -
    have "k div 8 < n" using that by (simp add: less_mult_imp_div_less mult.commute)
    then show ?thesis by (simp add: st_def bit_simps)
  qed
  then show "bit (ld (st a n v mem) a n) k = bit (take_bit (8 * n) v) k" using n by (auto simp: bit_ld bit_simps)
qed

subsection \<open>What patching does\<close>

text \<open>
  A patch is a sequence of fields: an address in the template, a width and the function of the old contents that is stored.
  The fields of a patch in the order in which they are written.
\<close>

type_synonym field = "u32 \<times> nat \<times> (u64 \<Rightarrow> u64)"

definition patch_fields :: "NaClPatchInfo \<Rightarrow> field list" where
  "patch_fields p =
     map (\<lambda>x. (patch_target x, 8, \<lambda>_. patch_value x)) (abs64 p) @
     map (\<lambda>x. (patch_target x, 4, \<lambda>_. ucast (ucast (patch_value x) :: u32))) (abs32 p) @
     map (\<lambda>x. (patch_target x, 2, \<lambda>_. ucast (ucast (patch_value x) :: 16 word))) (abs16 p) @
     map (\<lambda>t. (t, 8, \<lambda>v. v - ucast (pi_dst p - pi_src p))) (rel64 p) @
     map (\<lambda>t. (t, 4, \<lambda>v. ucast (ucast v - (pi_dst p - pi_src p)))) (rel32 p)"

text \<open>Every field lies in the template, and no two overlap; template and copy do not wrap around.\<close>

definition field_in :: "NaClPatchInfo \<Rightarrow> field \<Rightarrow> bool" where
  "field_in p f \<longleftrightarrow> (case f of (t, w, g) \<Rightarrow> unat (pi_src p) \<le> unat t \<and> unat t + w \<le> unat (pi_src p) + unat (pi_nbytes p))"

definition apart :: "field \<Rightarrow> field \<Rightarrow> bool" where
  "apart f f' \<longleftrightarrow> (case f of (t, w, g) \<Rightarrow> case f' of (t', w', g') \<Rightarrow> unat t + w \<le> unat t' \<or> unat t' + w' \<le> unat t)"

definition patch_ok :: "NaClPatchInfo \<Rightarrow> bool" where
  "patch_ok p \<longleftrightarrow> unat (pi_src p) + unat (pi_nbytes p) \<le> 2 ^ 32 \<and> unat (pi_dst p) + unat (pi_nbytes p) \<le> 2 ^ 32 \<and>
     list_all (field_in p) (patch_fields p) \<and> sorted_wrt apart (patch_fields p)"

definition put :: "NaClPatchInfo \<Rightarrow> field \<Rightarrow> memory \<Rightarrow> memory" where
  "put p f mem = (case f of (t, w, g) \<Rightarrow> let a = unat (pi_dst p + (t - pi_src p)) in st a w (g (ld mem a w)) mem)"

lemma patch_each_put:
  assumes "\<And>x mem. f x mem = Returns (put p (h x) mem)"
  shows "patch_each f xs mem = Returns (fold (put p) (map h xs) mem)"
  by (induction xs arbitrary: mem) (simp_all add: assms)

lemma NaClApplyPatchToMemory_fold:
  "NaClApplyPatchToMemory p mem = Returns (fold (put p) (patch_fields p) (memcpy mem (unat (pi_dst p)) (unat (pi_src p)) (unat (pi_nbytes p))))"
proof -
  let ?at = "\<lambda>t. unat (pi_dst p + (t - pi_src p))" and ?r = "ucast (pi_dst p - pi_src p) :: u64"
  have u: "(ucast ?r :: u32) = pi_dst p - pi_src p" by (rule bit_word_eqI) (auto simp: bit_simps dest: bit_imp_le_length)
  note defs = put_def Let_def NaClStoreMem_st NaClLoadMem_ld NaClStore64_def NaClStore32_def NaClStore16_def NaClLoad64_def NaClLoad32_def u
  have "\<And>mem. patch_each (\<lambda>x mem. NaClStore64 mem (?at (patch_target x)) (patch_value x)) (abs64 p) mem =
      Returns (fold (put p) (map (\<lambda>x. (patch_target x, 8, \<lambda>_. patch_value x)) (abs64 p)) mem)"
    by (rule patch_each_put) (simp add: defs)
  moreover have "\<And>mem. patch_each (\<lambda>x mem. NaClStore32 mem (?at (patch_target x)) (ucast (patch_value x))) (abs32 p) mem =
      Returns (fold (put p) (map (\<lambda>x. (patch_target x, 4, \<lambda>_. ucast (ucast (patch_value x) :: u32))) (abs32 p)) mem)"
    by (rule patch_each_put) (simp add: defs)
  moreover have "\<And>mem. patch_each (\<lambda>x mem. NaClStore16 mem (?at (patch_target x)) (ucast (patch_value x))) (abs16 p) mem =
      Returns (fold (put p) (map (\<lambda>x. (patch_target x, 2, \<lambda>_. ucast (ucast (patch_value x) :: 16 word))) (abs16 p)) mem)"
    by (rule patch_each_put) (simp add: defs)
  moreover have "\<And>mem. patch_each (\<lambda>t mem. obind (NaClLoad64 mem (?at t)) (\<lambda>v. NaClStore64 mem (?at t) (v - ?r))) (rel64 p) mem =
      Returns (fold (put p) (map (\<lambda>t. (t, 8, \<lambda>v. v - ?r)) (rel64 p)) mem)"
    by (rule patch_each_put) (simp add: defs)
  moreover have "\<And>mem. patch_each (\<lambda>t mem. obind (NaClLoad32 mem (?at t)) (\<lambda>v. NaClStore32 mem (?at t) (v - ucast ?r))) (rel32 p) mem =
      Returns (fold (put p) (map (\<lambda>t. (t, 4, \<lambda>v. ucast (ucast v - (pi_dst p - pi_src p)))) (rel32 p)) mem)"
    by (rule patch_each_put) (simp add: defs)
  ultimately show ?thesis
    unfolding NaClApplyPatchToMemory_def Let_def patch_fields_def fold_append comp_apply by (simp only: obind.simps)
qed

lemma field_addr:
  assumes "patch_ok p" "field_in p (t, w, g)" "0 < w"
  shows "unat (pi_dst p + (t - pi_src p)) = unat (pi_dst p) + (unat t - unat (pi_src p))"
proof -
  have le: "unat (pi_src p) \<le> unat t" "unat t + w \<le> unat (pi_src p) + unat (pi_nbytes p)" using assms(2) by (auto simp: field_in_def)
  have "unat (t - pi_src p) = unat t - unat (pi_src p)" using le(1) by (intro unat_sub_le) (simp add: word_le_nat_alt)
  moreover have "unat (pi_dst p) + (unat t - unat (pi_src p)) < 2 ^ 32" using assms(1,3) le unfolding patch_ok_def by linarith
  ultimately show ?thesis using unat_add_no_wrap [of "pi_dst p" "t - pi_src p"] by simp
qed

text \<open>The byte at offset \<open>i\<close> of the field, when the field starts as in the template.\<close>

lemma fold_put:
  assumes ok: "patch_ok p" and fs: "list_all (field_in p) fs" "sorted_wrt apart fs" "\<forall>(t, w, g)\<in>set fs. 0 < w \<and> w \<le> 8"
  defines "at \<equiv> \<lambda>t. unat (pi_dst p) + (unat t - unat (pi_src p))"
  shows "(\<forall>(t, w, g)\<in>set fs. \<forall>i<w. fold (put p) fs mem (at t + i) = ucast (drop_bit (8 * i) (g (ld mem (at t) w)))) \<and>
    (\<forall>a. (\<forall>(t, w, g)\<in>set fs. a < at t \<or> at t + w \<le> a) \<longrightarrow> fold (put p) fs mem a = mem a)"
  using fs
proof (induction fs arbitrary: mem)
  case (Cons f fs)
  obtain t w g where f: "f = (t, w, g)" by (cases f)
  have w: "0 < w" "w \<le> 8" and fin: "field_in p (t, w, g)" using Cons.prems f by auto
  define v where "v = g (ld mem (at t) w)"
  have put: "put p f mem = st (at t) w v mem" using field_addr [OF ok fin w(1)] by (simp add: put_def f Let_def at_def v_def)
  have sep: "at t + w \<le> at t' \<or> at t' + w' \<le> at t" if "(t', w', g') \<in> set fs" for t' w' g'
  proof -
    have "apart f (t', w', g')" "field_in p (t', w', g')" using Cons.prems that by (auto simp: list_all_iff)
    then show ?thesis using fin by (auto simp: apart_def f field_in_def at_def)
  qed
  have w': "0 < w' \<and> w' \<le> 8" if "(t', w', g') \<in> set fs" for t' w' g' using Cons.prems(3) that by auto
  have same: "ld (put p f mem) (at t') w' = ld mem (at t') w'" if m: "(t', w', g') \<in> set fs" for t' w' g'
    using sep [OF m] w' [OF m] by (intro ld_cong) (auto simp: put st_def)
  have "list_all (field_in p) fs" "sorted_wrt apart fs" "\<forall>(t, w, g)\<in>set fs. 0 < w \<and> w \<le> 8" using Cons.prems by simp_all
  note IH = Cons.IH [OF this, of "put p f mem"]
  have "fold (put p) (f # fs) mem (at t' + i) = ucast (drop_bit (8 * i) (g' (ld mem (at t') w')))"
    if m: "(t', w', g') \<in> set (f # fs)" and i: "i < w'" for t' w' g' i
  proof (cases "(t', w', g') \<in> set fs")
    case True
    then show ?thesis using conjunct1 [OF IH] i same [OF True] by fastforce
  next
    case False
    then have eq: "t' = t" "w' = w" "g' = g" using m f by auto
    have "\<forall>(t', w', g')\<in>set fs. at t + i < at t' \<or> at t' + w' \<le> at t + i" using sep i eq by fastforce
    then have "fold (put p) (f # fs) mem (at t + i) = put p f mem (at t + i)" using conjunct2 [OF IH] by simp
    then show ?thesis using i eq by (simp add: put st_def v_def)
  qed
  moreover have "fold (put p) (f # fs) mem a = mem a" if "\<forall>(t, w, g)\<in>set (f # fs). a < at t \<or> at t + w \<le> a" for a
  proof -
    have "fold (put p) (f # fs) mem a = put p f mem a" using conjunct2 [OF IH] that by simp
    moreover have "a < at t \<or> at t + w \<le> a" using that f by simp
    ultimately show ?thesis unfolding put st_def by auto
  qed
  ultimately show ?case by blast
qed simp

lemma field_widths: "\<forall>(t, w, g)\<in>set (patch_fields p). 0 < w \<and> w \<le> 8"
  by (auto simp: patch_fields_def)

text \<open>
  Patching copies the template: memory outside the copy is unchanged, bytes of no field are those of the template, and a field
  holds the value computed from the template's.
\<close>

lemma NaClApplyPatchToMemory_spec:
  assumes ok: "patch_ok p"
  defines "at \<equiv> \<lambda>t. unat (pi_dst p) + (unat t - unat (pi_src p))"
  shows "\<exists>mem'. NaClApplyPatchToMemory p mem = Returns mem' \<and>
    (\<forall>a. a < unat (pi_dst p) \<or> unat (pi_dst p) + unat (pi_nbytes p) \<le> a \<longrightarrow> mem' a = mem a) \<and>
    (\<forall>k<unat (pi_nbytes p). (\<forall>(t, w, g)\<in>set (patch_fields p). unat (pi_src p) + k < unat t \<or> unat t + w \<le> unat (pi_src p) + k) \<longrightarrow>
       mem' (unat (pi_dst p) + k) = mem (unat (pi_src p) + k)) \<and>
    (\<forall>(t, w, g)\<in>set (patch_fields p). \<forall>i<w. mem' (at t + i) = ucast (drop_bit (8 * i) (g (ld mem (unat t) w))))"
proof -
  let ?d = "unat (pi_dst p)" and ?s = "unat (pi_src p)" and ?n = "unat (pi_nbytes p)"
  define m0 where "m0 = memcpy mem ?d ?s ?n"
  define m1 where "m1 = fold (put p) (patch_fields p) m0"
  have fin: "list_all (field_in p) (patch_fields p)" and sep: "sorted_wrt apart (patch_fields p)" using ok by (auto simp: patch_ok_def)
  have at: "at t = ?d + (unat t - ?s)" for t by (simp add: at_def)
  note fp = fold_put [OF ok fin sep field_widths, of m0, folded m1_def at]
  note inside = bspec [OF conjunct1 [OF fp]] and beside = mp [OF spec [OF conjunct2 [OF fp]]]
  have rng: "?s \<le> unat t \<and> unat t + w \<le> ?s + ?n" if "(t, w, g) \<in> set (patch_fields p)" for t w g
    using fin that by (auto simp: list_all_iff field_in_def)
  have "m1 a = mem a" if a: "a < ?d \<or> ?d + ?n \<le> a" for a
  proof -
    have "\<forall>(t, w, g)\<in>set (patch_fields p). a < at t \<or> at t + w \<le> a" using a rng unfolding at_def by fastforce
    from beside [OF this] have "m1 a = m0 a" .
    then show ?thesis using a by (auto simp: m0_def memcpy_def)
  qed
  moreover have "m1 (?d + k) = mem (?s + k)"
    if k: "k < ?n" "\<forall>(t, w, g)\<in>set (patch_fields p). ?s + k < unat t \<or> unat t + w \<le> ?s + k" for k
  proof -
    have "\<forall>(t, w, g)\<in>set (patch_fields p). ?d + k < at t \<or> at t + w \<le> ?d + k" using k(2) rng unfolding at_def by fastforce
    from beside [OF this] have "m1 (?d + k) = m0 (?d + k)" .
    then show ?thesis using k(1) by (simp add: m0_def memcpy_def)
  qed
  moreover have "m1 (at t + i) = ucast (drop_bit (8 * i) (g (ld mem (unat t) w)))"
    if m: "(t, w, g) \<in> set (patch_fields p)" and i: "i < w" for t w g i
  proof -
    have w: "w \<le> 8" using field_widths m by blast
    have "ld m0 (at t) w = ld mem (unat t) w" using rng [OF m] w by (intro ld_cong) (auto simp: m0_def memcpy_def at_def)
    then show ?thesis using inside [OF m] i by simp
  qed
  ultimately show ?thesis
    unfolding NaClApplyPatchToMemory_fold m0_def [symmetric] m1_def [symmetric] by (intro exI [of _ m1] conjI) auto
qed

subsection \<open>What the trampoline region holds\<close>

text \<open>
  What the templates have to satisfy: a trampoline is at most 16 bytes long, so that it does not reach the next bundle, the patched
  operands lie in it side by side, and the springboard is at most 16 bytes long and starts with a halt.
\<close>

definition templates_ok :: "templates \<Rightarrow> memory \<Rightarrow> bool" where
  "templates_ok ts mem \<longleftrightarrow>
     unat (NaCl_trampoline_seg_code ts) + 4 \<le> unat (NaCl_tramp_dseg_patch ts) \<and>
     unat (NaCl_tramp_dseg_patch ts) + 2 \<le> unat (NaCl_tramp_cseg_patch ts) \<and>
     unat (NaCl_tramp_cseg_patch ts) \<le> unat (NaCl_trampoline_seg_end ts) \<and>
     unat (NaCl_trampoline_seg_end ts) \<le> unat (NaCl_trampoline_seg_code ts) + 16 \<and>
     unat (NaCl_springboard ts) < unat (NaCl_springboard_end ts) \<and> unat (NaCl_springboard_end ts) \<le> unat (NaCl_springboard ts) + 16 \<and>
     mem (unat (NaCl_springboard ts)) = NACL_HALT_OPCODE"

definition tramp_len :: "templates \<Rightarrow> nat" where
  "tramp_len ts = unat (NaCl_trampoline_seg_end ts) - unat (NaCl_trampoline_seg_code ts)"

text \<open>Byte \<open>k\<close> of a trampoline: the template's, with the runtime's data and code selectors as operands.\<close>

definition trampoline_byte :: "templates \<Rightarrow> memory \<Rightarrow> nat \<Rightarrow> u8" where
  "trampoline_byte ts mem k =
     (let a = unat (NaCl_trampoline_seg_code ts) + k; d = unat (NaCl_tramp_dseg_patch ts); c = unat (NaCl_tramp_cseg_patch ts)
      in if d - 4 \<le> a \<and> a < d then ucast (drop_bit (8 * (a - (d - 4))) (ucast (global_ds ts) :: u32))
         else if c - 2 \<le> a \<and> a < c then ucast (drop_bit (8 * (a - (c - 2))) (global_cs ts))
         else mem a)"

lemma NaClPatchOneTrampoline_spec:
  assumes ts: "templates_ok ts mem0" and room: "unat addr + 16 \<le> 2 ^ 32"
  shows "\<exists>mem'. NaClPatchOneTrampoline ts addr mem = Returns mem' \<and>
    (\<forall>a. mem' a = (if unat addr \<le> a \<and> a < unat addr + tramp_len ts then trampoline_byte ts mem (a - unat addr) else mem a))"
proof -
  let ?s = "unat (NaCl_trampoline_seg_code ts)" and ?e = "unat (NaCl_trampoline_seg_end ts)"
    and ?d = "unat (NaCl_tramp_dseg_patch ts)" and ?c = "unat (NaCl_tramp_cseg_patch ts)"
  note t = ts [unfolded templates_ok_def]
  define p where "p = NaClPatchInfoCtor\<lparr>abs16 := [\<lparr>patch_target = NaCl_tramp_cseg_patch ts - 2, patch_value = ucast (global_cs ts)\<rparr>],
          abs32 := [\<lparr>patch_target = NaCl_tramp_dseg_patch ts - 4, patch_value = ucast (global_ds ts)\<rparr>],
          pi_dst := addr, pi_src := NaCl_trampoline_seg_code ts,
          pi_nbytes := NaCl_trampoline_seg_end ts - NaCl_trampoline_seg_code ts\<rparr>"
  have n: "unat (pi_nbytes p) = tramp_len ts" and src: "unat (pi_src p) = ?s" and dst: "unat (pi_dst p) = unat addr"
    using t by (simp_all add: p_def tramp_len_def unat_sub_le word_le_nat_alt)
  have u: "unat (NaCl_tramp_cseg_patch ts - 2) = ?c - 2" "unat (NaCl_tramp_dseg_patch ts - 4) = ?d - 4"
    using t by (simp_all add: unat_sub_le word_le_nat_alt)
  define f1 f2 :: field where "f1 = (NaCl_tramp_dseg_patch ts - 4, 4, \<lambda>_. ucast (ucast (global_ds ts) :: u32))"
    and "f2 = (NaCl_tramp_cseg_patch ts - 2, 2, \<lambda>_. ucast (global_cs ts))"
  have cc: "(ucast (ucast (ucast (global_ds ts) :: u64) :: u32) :: u64) = ucast (ucast (global_ds ts) :: u32)"
      "(ucast (ucast (ucast (global_cs ts) :: u64) :: 16 word) :: u64) = ucast (global_cs ts)"
    by (rule bit_word_eqI, auto simp: bit_simps dest: bit_imp_le_length)+
  have fs: "patch_fields p = [f1, f2]" by (simp add: patch_fields_def p_def NaClPatchInfoCtor_def f1_def f2_def cc)
  have fin: "field_in p f1" "field_in p f2" "apart f1 f2"
    using t by (auto simp: field_in_def apart_def f1_def f2_def u n src tramp_len_def)
  have len: "tramp_len ts \<le> 16" "?s + tramp_len ts = ?e" using t by (auto simp: tramp_len_def)
  have ok: "patch_ok p"
    unfolding patch_ok_def n src dst fs using fin len room unsigned_less [of "NaCl_trampoline_seg_end ts", where ?'a = nat] by simp
  obtain mem' where m': "NaClApplyPatchToMemory p mem = Returns mem'"
      "\<forall>a. a < unat addr \<or> unat addr + tramp_len ts \<le> a \<longrightarrow> mem' a = mem a"
      "\<forall>k<tramp_len ts. (\<forall>(t, w, g)\<in>set [f1, f2]. ?s + k < unat t \<or> unat t + w \<le> ?s + k) \<longrightarrow> mem' (unat addr + k) = mem (?s + k)"
      "\<forall>(t, w, g)\<in>set [f1, f2]. \<forall>i<w. mem' (unat addr + (unat t - ?s) + i) = ucast (drop_bit (8 * i) (g (ld mem (unat t) w)))"
    using NaClApplyPatchToMemory_spec [OF ok, of mem] unfolding n src dst fs by blast
  have ds: "mem' (unat addr + (?d - 4 - ?s) + i) = ucast (drop_bit (8 * i) (ucast (global_ds ts) :: u32))" if "i < 4" for i
  proof -
    have "(ucast (drop_bit (8 * i) (ucast (ucast (global_ds ts) :: u32) :: u64)) :: u8) = ucast (drop_bit (8 * i) (ucast (global_ds ts) :: u32))"
      by (rule bit_word_eqI) (auto simp: bit_simps dest: bit_imp_le_length)
    then show ?thesis using m'(4) that by (simp add: f1_def u)
  qed
  have cs: "mem' (unat addr + (?c - 2 - ?s) + i) = ucast (drop_bit (8 * i) (global_cs ts))" if "i < 2" for i
  proof -
    have "(ucast (drop_bit (8 * i) (ucast (global_cs ts) :: u64)) :: u8) = ucast (drop_bit (8 * i) (global_cs ts))"
      by (rule bit_word_eqI) (auto simp: bit_simps dest: bit_imp_le_length)
    then show ?thesis using m'(4) that by (simp add: f2_def u)
  qed
  have "mem' (unat addr + k) = trampoline_byte ts mem k" if k: "k < tramp_len ts" for k
  proof -
    consider "?d - 4 \<le> ?s + k" "?s + k < ?d" | "?d \<le> ?s + k" "?c - 2 \<le> ?s + k" "?s + k < ?c"
      | "?s + k < ?d - 4 \<or> ?d \<le> ?s + k" "?s + k < ?c - 2 \<or> ?c \<le> ?s + k"
      using t by linarith
    then show ?thesis
    proof cases
      case 1
      then have "unat addr + (?d - 4 - ?s) + (?s + k - (?d - 4)) = unat addr + k" using t by linarith
      with ds [of "?s + k - (?d - 4)"] 1 show ?thesis by (simp add: trampoline_byte_def Let_def)
    next
      case 2
      then have "unat addr + (?c - 2 - ?s) + (?s + k - (?c - 2)) = unat addr + k" using t by linarith
      with cs [of "?s + k - (?c - 2)"] 2 show ?thesis using t by (simp add: trampoline_byte_def Let_def)
    next
      case 3
      then have "mem' (unat addr + k) = mem (?s + k)" using m'(3) k t by (auto simp: f1_def f2_def u)
      then show ?thesis using 3 by (auto simp: trampoline_byte_def Let_def)
    qed
  qed
  then have "mem' a = trampoline_byte ts mem (a - unat addr)" if "unat addr \<le> a" "a < unat addr + tramp_len ts" for a
    using that by (metis add_diff_inverse_nat less_diff_conv2 linorder_not_less add.commute)
  then show ?thesis using m'(1,2) unfolding NaClPatchOneTrampoline_def p_def by auto
qed

lemma trampoline_byte_cong:
  assumes "\<And>k. k < tramp_len ts \<Longrightarrow> mem' (unat (NaCl_trampoline_seg_code ts) + k) = mem (unat (NaCl_trampoline_seg_code ts) + k)" "k < tramp_len ts"
  shows "trampoline_byte ts mem' k = trampoline_byte ts mem k"
  using assms by (simp add: trampoline_byte_def Let_def)

lemma NaClLoadTrampoline_loop_spec:
  assumes ts: "templates_ok ts mem0" and room: "unat addr + 32 * n \<le> 2 ^ 32"
    and out: "unat (NaCl_trampoline_seg_end ts) \<le> unat addr \<or> unat addr + 32 * n \<le> unat (NaCl_trampoline_seg_code ts)"
  shows "\<exists>mem'. NaClLoadTrampoline_loop ts n addr mem = Returns mem' \<and>
    (\<forall>a. mem' a = (if unat addr \<le> a \<and> a < unat addr + 32 * n \<and> (a - unat addr) mod 32 < tramp_len ts
       then trampoline_byte ts mem ((a - unat addr) mod 32) else mem a))"
  using room out
proof (induction n arbitrary: addr mem)
  case (Suc n)
  let ?a = "unat addr" and ?len = "tramp_len ts"
  have len: "?len \<le> 16" "unat (NaCl_trampoline_seg_code ts) + ?len = unat (NaCl_trampoline_seg_end ts)"
    using ts by (auto simp: templates_ok_def tramp_len_def)
  have bs: "NACL_SYSCALL_BLOCK_SIZE = 32" by (simp add: nacl_consts)
  obtain m1 where m1: "NaClPatchOneTrampoline ts addr mem = Returns m1"
      "\<And>a. m1 a = (if ?a \<le> a \<and> a < ?a + ?len then trampoline_byte ts mem (a - ?a) else mem a)"
    using NaClPatchOneTrampoline_spec [OF ts, of addr mem] Suc.prems(1) by auto
  have keep: "trampoline_byte ts m1 k = trampoline_byte ts mem k" if "k < ?len" for k
    using that by (rule trampoline_byte_cong [rotated]) (use Suc.prems(2) len in \<open>auto simp: m1(2)\<close>)
  show ?case
  proof (cases "n = 0")
    case True
    have "m1 a = (if ?a \<le> a \<and> a < ?a + 32 \<and> (a - ?a) mod 32 < ?len then trampoline_byte ts mem ((a - ?a) mod 32) else mem a)" for a
    proof (cases "a < ?a + 32")
      case True
      then have "(a - ?a) mod 32 = a - ?a" by simp
      then show ?thesis using True len(1) by (auto simp: m1(2))
    qed (use len(1) in \<open>auto simp: m1(2)\<close>)
    then show ?thesis using m1(1) True by simp
  next
    case False
    have ad: "unat (addr + 32) = ?a + 32" using Suc.prems(1) False by (intro unat_add_no_wrap [of addr 32, simplified]) simp
    obtain m2 where m2: "NaClLoadTrampoline_loop ts n (addr + 32) m1 = Returns m2"
        "\<And>a. m2 a = (if ?a + 32 \<le> a \<and> a < ?a + 32 + 32 * n \<and> (a - (?a + 32)) mod 32 < ?len
           then trampoline_byte ts m1 ((a - (?a + 32)) mod 32) else m1 a)"
      using Suc.IH [of "addr + 32" m1] Suc.prems unfolding ad by auto
    have "m2 a = (if ?a \<le> a \<and> a < ?a + 32 * Suc n \<and> (a - ?a) mod 32 < ?len then trampoline_byte ts mem ((a - ?a) mod 32) else mem a)" for a
    proof (cases "?a + 32 \<le> a")
      case True
      then have "(a - (?a + 32)) mod 32 = (a - ?a) mod 32" using mod_add_self2 [of "a - (?a + 32)" 32] by simp
      then show ?thesis using True keep len(1) by (auto simp: m2(2) m1(2))
    next
      case False
      then have "(a - ?a) mod 32 = a - ?a" by simp
      then show ?thesis using False len(1) by (auto simp: m2(2) m1(2))
    qed
    then show ?thesis using m1(1) m2(1) by (simp add: bs)
  qed
qed auto

lemma tramp_consts: "NACL_TRAMPOLINE_START = 0x10000" "NACL_TRAMPOLINE_SIZE = 0x10000" "NACL_SYSCALL_START_ADDR = 0x10000"
  "NACL_HALT_LEN = 1" "unat ((NACL_TRAMPOLINE_END - NACL_SYSCALL_START_ADDR) div NACL_SYSCALL_BLOCK_SIZE) - 1 = 2047"
  by (simp_all add: nacl_consts)

text \<open>The templates are the runtime's own memory, outside the module's address space.\<close>

definition outside :: "NaClApp \<Rightarrow> u32 \<Rightarrow> u32 \<Rightarrow> bool" where
  "outside nap s e \<longleftrightarrow> unat e \<le> unat (mem_start nap) \<or> unat (mem_start nap) + 2 ^ unat (addr_bits nap) \<le> unat s"

lemma space_room:
  assumes "space_ok nap" "17 \<le> unat (addr_bits nap)"
  shows "unat x \<le> 0x20000 \<Longrightarrow> unat (mem_start nap + x) = unat (mem_start nap) + unat x" "unat (mem_start nap) + 0x20000 < 2 ^ 32"
    "unat (mem_start nap) + 0x20000 \<le> unat (mem_start nap) + 2 ^ unat (addr_bits nap)"
proof -
  have "(2 :: nat) ^ 17 \<le> 2 ^ unat (addr_bits nap)" using assms(2) by (intro power_increasing) simp_all
  then show *: "unat (mem_start nap) + 0x20000 \<le> unat (mem_start nap) + 2 ^ unat (addr_bits nap)" by simp
  then show "unat (mem_start nap) + 0x20000 < 2 ^ 32" using assms(1) unfolding space_ok_def by linarith
  then show "unat (mem_start nap + x) = unat (mem_start nap) + unat x" if "unat x \<le> 0x20000" using that by (intro unat_add_no_wrap) simp
qed

lemma NaClLoadTrampoline_spec:
  assumes ts: "templates_ok ts mem0" and sp: "space_ok nap" "17 \<le> unat (addr_bits nap)"
    and out: "outside nap (NaCl_trampoline_seg_code ts) (NaCl_trampoline_seg_end ts)"
  defines "b \<equiv> unat (mem_start nap) + 0x10000"
  shows "\<exists>mem'. NaClLoadTrampoline ts nap mem = Returns mem' \<and>
    (\<forall>a. mem' a = (if b \<le> a \<and> a < b + 65504 \<and> (a - b) mod 32 < tramp_len ts then trampoline_byte ts mem ((a - b) mod 32)
       else if b \<le> a \<and> a < b + 65536 then NACL_HALT_OPCODE else mem a))"
proof -
  have r: "unat (mem_start nap + 0x10000) = unat (mem_start nap) + 0x10000" "unat (mem_start nap) + 0x20000 < 2 ^ 32"
      "unat (mem_start nap) + 0x20000 \<le> unat (mem_start nap) + 2 ^ unat (addr_bits nap)"
    using space_room(1) [OF sp, of "0x10000"] space_room(2,3) [OF sp] by simp_all
  define m0 where "m0 = (\<lambda>a. if b \<le> a \<and> a < b + 65536 then NACL_HALT_OPCODE else mem a)"
  have f: "NaClFillTrampolineRegion nap mem = Returns m0"
    by (simp add: NaClFillTrampolineRegion_def NaClFillMemoryRegionWithHalt_def tramp_consts r(1) m0_def b_def)
  have e: "unat (NaCl_trampoline_seg_code ts) + tramp_len ts = unat (NaCl_trampoline_seg_end ts)"
    using ts by (auto simp: templates_ok_def tramp_len_def)
  have o: "unat (NaCl_trampoline_seg_end ts) \<le> b \<or> b + 65536 \<le> unat (NaCl_trampoline_seg_code ts)"
    using out r(3) by (auto simp: outside_def b_def)
  have keep: "trampoline_byte ts m0 k = trampoline_byte ts mem k" if "k < tramp_len ts" for k
    using that by (rule trampoline_byte_cong [rotated]) (use o e in \<open>auto simp: m0_def\<close>)
  obtain m1 where m1: "NaClLoadTrampoline_loop ts 2047 (mem_start nap + 0x10000) m0 = Returns m1"
      "\<forall>a. m1 a = (if b \<le> a \<and> a < b + 65504 \<and> (a - b) mod 32 < tramp_len ts then trampoline_byte ts m0 ((a - b) mod 32) else m0 a)"
  proof -
    have ub: "unat (mem_start nap + 0x10000) = b" using r(1) by (simp add: b_def)
    have "b + 32 * 2047 \<le> 2 ^ 32" "unat (NaCl_trampoline_seg_end ts) \<le> b \<or> b + 32 * 2047 \<le> unat (NaCl_trampoline_seg_code ts)"
      using r(2) o by (auto simp: b_def)
    from NaClLoadTrampoline_loop_spec [OF ts, of "mem_start nap + 0x10000" 2047 m0, unfolded ub, OF this] show thesis using that by auto
  qed
  have "NaClLoadTrampoline ts nap mem = Returns m1"
    unfolding NaClLoadTrampoline_def f obind.simps Let_def tramp_consts(5) unfolding tramp_consts(3) by (rule m1(1))
  moreover have "m1 a = (if b \<le> a \<and> a < b + 65504 \<and> (a - b) mod 32 < tramp_len ts then trampoline_byte ts mem ((a - b) mod 32)
       else if b \<le> a \<and> a < b + 65536 then NACL_HALT_OPCODE else mem a)" for a
    using m1(2) keep by (simp add: m0_def)
  ultimately show ?thesis by blast
qed

lemma NaClLoadSpringboard_spec:
  assumes ts: "templates_ok ts mem0" and sp: "space_ok nap" "17 \<le> unat (addr_bits nap)"
    and b: "bundle_size nap = 16 \<or> bundle_size nap = 32"
  defines "a0 \<equiv> unat (mem_start nap) + (0x20000 - nat (bundle_size nap))"
    and "len \<equiv> unat (NaCl_springboard_end ts) - unat (NaCl_springboard ts)"
  shows "NaClLoadSpringboard ts nap mem =
    Returns (nap\<lparr>springboard_addr := 0x20001 - word_of_int (bundle_size nap)\<rparr>, memcpy mem a0 (unat (NaCl_springboard ts)) len)"
proof -
  have l: "unat (NaCl_springboard_end ts - NaCl_springboard ts) = len"
    using ts unfolding len_def templates_ok_def by (intro unat_sub_le) (simp add: word_le_nat_alt)
  have "unat (0x20000 - word_of_int (bundle_size nap) :: u32) = 0x20000 - nat (bundle_size nap)" using b by (elim disjE) simp_all
  then have a: "unat (mem_start nap + (0x20000 - word_of_int (bundle_size nap))) = a0"
    using space_room(1) [OF sp, of "0x20000 - word_of_int (bundle_size nap)"] by (simp add: a0_def)
  have "0x20000 - word_of_int (bundle_size nap) + NACL_HALT_LEN = 0x20001 - word_of_int (bundle_size nap)"
    by (simp add: tramp_consts)
  then show ?thesis
    by (simp add: NaClLoadSpringboard_def Let_def NaClApplyPatchToMemory_fold patch_fields_def NaClPatchInfoCtor_def NACL_TRAMPOLINE_END_val l a)
qed

lemma trampolines_installed:
  assumes ts: "templates_ok ts mem" and sp: "space_ok nap" "17 \<le> unat (addr_bits nap)"
    and b: "bundle_size nap = 16 \<or> bundle_size nap = 32"
    and out: "outside nap (NaCl_trampoline_seg_code ts) (NaCl_trampoline_seg_end ts)" "outside nap (NaCl_springboard ts) (NaCl_springboard_end ts)"
  defines "base \<equiv> unat (mem_start nap)"
  shows "\<exists>mem1 nap' mem'. NaClLoadTrampoline ts nap mem = Returns mem1 \<and> NaClLoadSpringboard ts nap mem1 = Returns (nap', mem') \<and>
    (\<forall>a. a < base + 0x10000 \<or> base + 0x20000 \<le> a \<longrightarrow> mem' a = mem a) \<and>
    (\<forall>x. 0x10000 \<le> x \<and> x < 0x20000 \<and> 16 dvd x \<longrightarrow> mem' (base + x) = NACL_HALT_OPCODE \<or> 32 dvd x \<and> x < 0x20000 - 32) \<and>
    (\<forall>i<2047. \<forall>k<tramp_len ts. mem' (base + 0x10000 + 32 * i + k) = trampoline_byte ts mem k) \<and>
    (let sb = unat (springboard_addr nap') - 1
     in sb = 0x20000 - nat (bundle_size nap) \<and>
        (\<forall>k<unat (NaCl_springboard_end ts) - unat (NaCl_springboard ts). mem' (base + sb + k) = mem (unat (NaCl_springboard ts) + k)))"
proof -
  let ?len = "tramp_len ts" and ?s = "unat (NaCl_springboard ts)"
  define sl where "sl = unat (NaCl_springboard_end ts) - ?s"
  have len: "?len \<le> 16" and sl: "sl \<le> 16" "0 < sl" "mem ?s = NACL_HALT_OPCODE" using ts by (auto simp: templates_ok_def tramp_len_def sl_def)
  define sb where "sb = 0x20000 - nat (bundle_size nap)"
  have bs: "sb = 0x20000 - 16 \<or> sb = 0x20000 - 32" using b by (auto simp: sb_def)
  obtain m1 where m1: "NaClLoadTrampoline ts nap mem = Returns m1"
      "\<And>a. m1 a = (if base + 0x10000 \<le> a \<and> a < base + 0x10000 + 65504 \<and> (a - (base + 0x10000)) mod 32 < ?len
         then trampoline_byte ts mem ((a - (base + 0x10000)) mod 32)
         else if base + 0x10000 \<le> a \<and> a < base + 0x10000 + 65536 then NACL_HALT_OPCODE else mem a)"
    using NaClLoadTrampoline_spec [OF ts sp out(1)] unfolding base_def by blast
  define m2 where "m2 = memcpy m1 (base + sb) ?s sl"
  define nap' where "nap' = nap\<lparr>springboard_addr := 0x20001 - word_of_int (bundle_size nap)\<rparr>"
  have m2: "NaClLoadSpringboard ts nap m1 = Returns (nap', m2)"
    using NaClLoadSpringboard_spec [OF ts sp b] by (simp add: m2_def nap'_def base_def sl_def sb_def)
  have src: "m1 (?s + k) = mem (?s + k)" if "k < sl" for k
    using that out(2) space_room(3) [OF sp] by (auto simp: m1(2) outside_def base_def sl_def)
  have tr: "m2 (base + 0x10000 + 32 * i + k) = trampoline_byte ts mem k" if "i < 2047" "k < ?len" for i k
  proof -
    have "(32 * i + k) mod 32 = k" using that(2) len by simp
    then have "m1 (base + 0x10000 + 32 * i + k) = trampoline_byte ts mem k" using that len by (simp add: m1(2) add.assoc)
    moreover have "base + 0x10000 + 32 * i + k < base + sb" using that len bs by linarith
    ultimately show ?thesis by (simp add: m2_def memcpy_def)
  qed
  have halt: "m2 (base + x) = NACL_HALT_OPCODE \<or> 32 dvd x \<and> x < 0x20000 - 32" if x: "0x10000 \<le> x" "x < 0x20000" "16 dvd x" for x
  proof -
    obtain q where q: "x = 16 * q" using x(3) by blast
    have "m2 (base + x) = NACL_HALT_OPCODE" if no: "\<not> (32 dvd x \<and> x < 0x20000 - 32)"
    proof (cases "x = sb")
      case True
      then show ?thesis using src [of 0] sl by (simp add: m2_def memcpy_def)
    next
      case False
      have "x < sb \<or> sb + sl \<le> x" using False bs sl(1) q by auto
      then have "m2 (base + x) = m1 (base + x)" by (auto simp: m2_def memcpy_def)
      moreover have "16 \<le> (x - 0x10000) mod 32" if "x < 0x20000 - 32"
      proof -
        have "odd q" using no that q by (auto elim!: evenE)
        then obtain r where r: "q = 2 * r + 1" by (elim oddE)
        then have "x - 0x10000 = 16 + 32 * (r - 2048)" using x(1) q by linarith
        then show ?thesis by simp
      qed
      ultimately show ?thesis using x len by (auto simp: m1(2))
    qed
    then show ?thesis by blast
  qed
  have "unat (springboard_addr nap') - 1 = sb" unfolding nap'_def sb_def using b by (elim disjE) simp_all
  moreover have "m2 (base + sb + k) = mem (?s + k)" if "k < sl" for k using that src by (simp add: m2_def memcpy_def)
  moreover have "m2 a = mem a" if "a < base + 0x10000 \<or> base + 0x20000 \<le> a" for a
  proof -
    have "\<not> (base + sb \<le> a \<and> a < base + sb + sl)" using that bs sl(1) by linarith
    then have "m2 a = m1 a" unfolding m2_def memcpy_def by (rule if_not_P)
    also have "\<dots> = mem a" using that by (elim disjE) (simp_all add: m1(2))
    finally show ?thesis .
  qed
  ultimately show ?thesis using m1(1) m2 tr halt unfolding Let_def sl_def sb_def
    by (intro exI [of _ m1] exI [of _ nap'] exI [of _ m2] conjI) simp_all
qed

text \<open>
  C12: what untrusted code can reach in the trampoline region. After the trampolines and the springboard are installed, memory
  outside the region is unchanged, and every 16-byte boundary inside, hence every address a masked jump can reach, holds a halt
  or starts one of 2047 complete trampolines, which are there at every multiple of 32 bytes. The springboard lies at the end of the
  region behind a halt, and its recorded address is the byte after that halt.
\<close>

theorem trampoline_region:
  assumes ts: "templates_ok ts mem" and sp: "space_ok nap" "17 \<le> unat (addr_bits nap)"
    and b: "bundle_size nap = 16 \<or> bundle_size nap = 32"
    and out: "outside nap (NaCl_trampoline_seg_code ts) (NaCl_trampoline_seg_end ts)" "outside nap (NaCl_springboard ts) (NaCl_springboard_end ts)"
  defines "base \<equiv> unat (mem_start nap)"
  shows "\<exists>mem1 nap' mem'. NaClLoadTrampoline ts nap mem = Returns mem1 \<and> NaClLoadSpringboard ts nap mem1 = Returns (nap', mem') \<and>
    (\<forall>a. a < base + 0x10000 \<or> base + 0x20000 \<le> a \<longrightarrow> mem' a = mem a) \<and>
    (\<forall>x. 0x10000 \<le> x \<and> x < 0x20000 \<and> 16 dvd x \<longrightarrow> mem' (base + x) = NACL_HALT_OPCODE \<or> 32 dvd x \<and> x < 0x20000 - 32) \<and>
    (\<forall>i<2047. \<forall>k<tramp_len ts. mem' (base + 0x10000 + 32 * i + k) = trampoline_byte ts mem k) \<and>
    (let sb = unat (springboard_addr nap') - 1
     in sb = 0x20000 - nat (bundle_size nap) \<and>
        (\<forall>k<unat (NaCl_springboard_end ts) - unat (NaCl_springboard ts). mem' (base + sb + k) = mem (unat (NaCl_springboard ts) + k)))"
  unfolding base_def by (rule trampolines_installed [OF ts sp b out])

definition sample_templates :: templates where
  "sample_templates = \<lparr>NaCl_trampoline_seg_code = 0x1000, NaCl_trampoline_seg_end = 0x100f, NaCl_tramp_cseg_patch = 0x100e,
     NaCl_tramp_dseg_patch = 0x1005, NaCl_springboard = 0x1010, NaCl_springboard_end = 0x101d, global_cs = 0x73, global_ds = 0x7b\<rparr>"

theorem trampoline_region_witness:
  "\<exists>mem1 nap' mem'. NaClLoadTrampoline sample_templates sample_space (\<lambda>_. 0xf4) = Returns mem1 \<and>
     NaClLoadSpringboard sample_templates sample_space mem1 = Returns (nap', mem') \<and>
     mem' (unat (mem_start sample_space) + 0x10000 + 32 * 7 + 1) = 0x7b"
proof -
  have ok: "templates_ok sample_templates (\<lambda>_. 0xf4)" "17 \<le> unat (addr_bits sample_space)"
      "bundle_size sample_space = 16 \<or> bundle_size sample_space = 32"
    by (simp_all add: templates_ok_def sample_templates_def sample_space_def nacl_consts)
  have out: "outside sample_space (NaCl_trampoline_seg_code sample_templates) (NaCl_trampoline_seg_end sample_templates)"
      "outside sample_space (NaCl_springboard sample_templates) (NaCl_springboard_end sample_templates)"
    by (simp_all add: outside_def sample_space_def sample_templates_def)
  have l: "1 < tramp_len sample_templates" "trampoline_byte sample_templates (\<lambda>_. 0xf4) 1 = 0x7b"
    by (simp_all add: tramp_len_def trampoline_byte_def sample_templates_def)
  from trampoline_region [OF ok(1) sample_space_ok ok(2,3) out]
  obtain mem1 nap' mem' where m: "NaClLoadTrampoline sample_templates sample_space (\<lambda>_. 0xf4) = Returns mem1"
      "NaClLoadSpringboard sample_templates sample_space mem1 = Returns (nap', mem')"
      "\<forall>i<2047. \<forall>k<tramp_len sample_templates.
         mem' (unat (mem_start sample_space) + 0x10000 + 32 * i + k) = trampoline_byte sample_templates (\<lambda>_. 0xf4) k"
    by (elim exE conjE) (rule that)
  have "mem' (unat (mem_start sample_space) + 0x10000 + 32 * 7 + 1) = 0x7b"
    using mp [OF spec [OF m(3)], of 7] l by auto
  with m(1,2) show ?thesis by blast
qed

end
