(* ===== verification/Imc_Shm.thy ===== *)
theory Imc_Shm
  imports Vmmap
begin

text \<open>
  Shared memory objects (\<open>trusted/desc/nacl_desc_imc_shm.c\<close>): mapping one into the host's address space and removing the
  mapping, in units of 64K; the test for error numbers of \<open>shared/platform/nacl_host_desc.h\<close> and the search for free addresses of
  \<open>shared/platform/linux/nacl_find_addrsp.c\<close>. The host's page table, as far as it concerns one object, maps 4K page numbers
  of the host to page numbers of the object. The operating system is a parameter: where \<open>mmap\<close> finds room, whether a fixed mapping at
  an address succeeds, whether \<open>munmap\<close> does.
\<close>

subsection \<open>Error numbers\<close>

definition NACL_ABI_EAGAIN :: int where [nacl_consts]: "NACL_ABI_EAGAIN = 11"
definition NACL_ABI_ENOMEM :: int where [nacl_consts]: "NACL_ABI_ENOMEM = 12"
definition NACL_ABI_EFAULT :: int where [nacl_consts]: "NACL_ABI_EFAULT = 14"
definition NACL_ABI_EINVAL :: int where [nacl_consts]: "NACL_ABI_EINVAL = 22"
definition NACL_ABI_EOVERFLOW :: int where [nacl_consts]: "NACL_ABI_EOVERFLOW = 139"
definition NACL_ABI_E_MOVE_ADDRESS_SPACE :: int where [nacl_consts]: "NACL_ABI_E_MOVE_ADDRESS_SPACE = 0x40000000"

definition NaClIsNegErrno :: "u64 \<Rightarrow> bool" where
  "NaClIsNegErrno v \<longleftrightarrow> v AND NOT 0xffff = NOT 0xffff"

text \<open>A negative error number as the \<open>uintptr_t\<close> that a mapping function returns.\<close>

definition neg_errno :: "int \<Rightarrow> u32" where
  "neg_errno e = word_of_int (- e)"

subsection \<open>Protection and flags\<close>

definition NACL_ABI_PROT_NONE :: u32 where [nacl_consts]: "NACL_ABI_PROT_NONE = 0"
definition NACL_ABI_PROT_READ :: u32 where [nacl_consts]: "NACL_ABI_PROT_READ = 1"
definition NACL_ABI_PROT_WRITE :: u32 where [nacl_consts]: "NACL_ABI_PROT_WRITE = 2"
definition NACL_ABI_PROT_EXEC :: u32 where [nacl_consts]: "NACL_ABI_PROT_EXEC = 4"
definition NACL_ABI_MAP_SHARED :: u32 where [nacl_consts]: "NACL_ABI_MAP_SHARED = 1"
definition NACL_ABI_MAP_SHARING_MASK :: u32 where [nacl_consts]: "NACL_ABI_MAP_SHARING_MASK = 3"
definition NACL_ABI_MAP_FIXED :: u32 where [nacl_consts]: "NACL_ABI_MAP_FIXED = 0x10"

subsection \<open>Mapping\<close>

type_synonym host_pages = "nat \<rightharpoonup> nat"

definition pages_off :: "host_pages \<Rightarrow> u32 \<Rightarrow> host_pages" where
  "pages_off pt addr = (\<lambda>p. if unat addr div 4096 \<le> p \<and> p < unat addr div 4096 + 16 then None else pt p)"

definition pages_on :: "host_pages \<Rightarrow> u32 \<Rightarrow> u32 \<Rightarrow> host_pages" where
  "pages_on pt addr off =
     (\<lambda>p. if unat addr div 4096 \<le> p \<and> p < unat addr div 4096 + 16
          then Some (unat off div 4096 + (p - unat addr div 4096)) else pt p)"

record host_os =
  os_mmap :: "u32 \<Rightarrow> u32 option"
  os_map_fixed :: "u32 \<Rightarrow> bool"
  os_unmap :: "u32 \<Rightarrow> bool"
  os_malloc :: "u32 \<Rightarrow> nat option"

definition NaClFindAddressSpace :: "host_os \<Rightarrow> u32 \<Rightarrow> u32 option" where
  "NaClFindAddressSpace os memory_size = os_mmap os memory_size"

text \<open>
  The effector of \<open>nacl_text.c\<close> frees 64K at \<open>addr\<close> with \<open>NaCl_page_free\<close> of \<open>linux/sel_memory.c\<close>, which does nothing for a null
  pointer and ignores a failure of \<open>munmap\<close>.
\<close>

definition NaCl_page_free :: "host_os \<Rightarrow> host_pages \<Rightarrow> u32 \<Rightarrow> host_pages" where
  "NaCl_page_free os pt addr = (if addr = 0 then pt else if os_unmap os addr then pages_off pt addr else pt)"

definition NaClDescEffectorShmUnmapMemory :: "host_os \<Rightarrow> host_pages \<Rightarrow> u32 \<Rightarrow> host_pages" where
  "NaClDescEffectorShmUnmapMemory os pt addr = NaCl_page_free os pt addr"

lemmas unmap_defs = NaClDescEffectorShmUnmapMemory_def NaCl_page_free_def

text \<open>
  The loop over the pages. Its counter wraps modulo \<open>2 ^ 32\<close> and takes \<open>2 ^ 16\<close> different values, so a loop that has not ended
  after as many turns never ends.
\<close>

fun NaClDescImcShmMap_loop :: "host_os \<Rightarrow> nat \<Rightarrow> u32 \<Rightarrow> u32 \<Rightarrow> u32 \<Rightarrow> host_pages \<Rightarrow> (bool \<times> host_pages) outcome" where
  "NaClDescImcShmMap_loop os 0 addr end_addr tmp_off pt = Diverges"
| "NaClDescImcShmMap_loop os (Suc fuel) addr end_addr tmp_off pt =
     (if addr < end_addr then
        let pt = NaClDescEffectorShmUnmapMemory os pt addr
        in if os_map_fixed os addr
           then NaClDescImcShmMap_loop os fuel (addr + NACL_MAP_PAGESIZE) end_addr (tmp_off + NACL_MAP_PAGESIZE) (pages_on pt addr tmp_off)
           else Returns (False, pt)
      else Returns (True, pt))"

definition NaClDescImcShmMap :: "host_os \<Rightarrow> u32 \<Rightarrow> u32 \<Rightarrow> u32 \<Rightarrow> u32 \<Rightarrow> u64 \<Rightarrow> host_pages \<Rightarrow> (u32 \<times> host_pages) outcome" where
  "NaClDescImcShmMap os start_addr len prt flags offset pt =
     (if flags AND NACL_ABI_MAP_SHARING_MASK \<noteq> NACL_ABI_MAP_SHARED then Returns (neg_errno NACL_ABI_EINVAL, pt)
      else if prt = NACL_ABI_PROT_NONE then Returns (neg_errno NACL_ABI_EINVAL, pt)
      else if 0 \<noteq> NOT (NACL_ABI_PROT_READ OR NACL_ABI_PROT_WRITE OR NACL_ABI_PROT_EXEC) AND prt
        then Returns (neg_errno NACL_ABI_EINVAL, pt)
      else
        case (if flags AND NACL_ABI_MAP_FIXED = 0 then NaClFindAddressSpace os len else Some start_addr) of
          None \<Rightarrow> Returns (neg_errno NACL_ABI_ENOMEM, pt)
        | Some start_addr \<Rightarrow>
            let tmp_off64 = (offset + ucast len + ucast NACL_MAP_PAGESIZE - 1) AND NOT (ucast (NACL_MAP_PAGESIZE - 1))
            in if sint tmp_off64 > 2 ^ 31 - 1 then Returns (neg_errno NACL_ABI_EOVERFLOW, pt)
               else
                 obind (NaClDescImcShmMap_loop os (2 ^ 16 + 1) start_addr (start_addr + len) (ucast offset) pt) (\<lambda>(complete, pt).
                   Returns (if complete then start_addr else neg_errno NACL_ABI_E_MOVE_ADDRESS_SPACE, pt)))"

fun NaClDescImcShmUnmapUnsafe_loop :: "host_os \<Rightarrow> nat \<Rightarrow> u32 \<Rightarrow> u32 \<Rightarrow> host_pages \<Rightarrow> host_pages outcome" where
  "NaClDescImcShmUnmapUnsafe_loop os 0 addr end_addr pt = Diverges"
| "NaClDescImcShmUnmapUnsafe_loop os (Suc fuel) addr end_addr pt =
     (if addr < end_addr then
        if os_unmap os addr
        then NaClDescImcShmUnmapUnsafe_loop os fuel (addr + NACL_MAP_PAGESIZE) end_addr (pages_off pt addr)
        else Aborts
      else Returns pt)"

definition NaClDescImcShmUnmapUnsafe :: "host_os \<Rightarrow> u32 \<Rightarrow> u32 \<Rightarrow> host_pages \<Rightarrow> (int \<times> host_pages) outcome" where
  "NaClDescImcShmUnmapUnsafe os start_addr len pt =
     obind (NaClDescImcShmUnmapUnsafe_loop os (2 ^ 16 + 1) start_addr (start_addr + len) pt) (\<lambda>pt. Returns (0, pt))"

subsection \<open>What a mapping gives\<close>

definition window :: "nat \<Rightarrow> nat \<Rightarrow> nat \<Rightarrow> host_pages \<Rightarrow> host_pages" where
  "window pg n off pt = (\<lambda>p. if pg \<le> p \<and> p < pg + n then Some (off + (p - pg)) else pt p)"

lemma window_0 [simp]: "window pg 0 off pt = pt"
  by (rule ext) (auto simp: window_def)

lemma MAP_PAGESIZE_val: "NACL_MAP_PAGESIZE = 0x10000"
  by (simp add: nacl_consts)

lemma NaClDescImcShmMap_loop_spec:
  assumes "unat addr + 65536 * k = unat end_addr" "k < fuel" "4096 dvd unat addr" "4096 dvd unat off" "unat off + 65536 * k < 2 ^ 32"
  shows "\<exists>b pt'. NaClDescImcShmMap_loop os fuel addr end_addr off pt = Returns (b, pt') \<and>
    (b \<longrightarrow> pt' = window (unat addr div 4096) (16 * k) (unat off div 4096) pt) \<and>
    (\<forall>p. unat end_addr div 4096 \<le> p \<or> p < unat addr div 4096 \<longrightarrow> pt' p = pt p) \<and> ((\<forall>a. os_map_fixed os a) \<longrightarrow> b)"
  using assms
proof (induction k arbitrary: addr off pt fuel)
  case 0
  then have "\<not> addr < end_addr" by (simp add: word_less_nat_alt)
  moreover obtain f where "fuel = Suc f" using 0 by (cases fuel) simp_all
  ultimately show ?case by auto
next
  case (Suc k)
  obtain f where f: "fuel = Suc f" using Suc.prems(2) by (cases fuel) simp_all
  have lt: "addr < end_addr" using Suc.prems(1) by (simp add: word_less_nat_alt)
  have "unat addr + 65536 \<le> unat end_addr" using Suc.prems(1) by (simp add: mult_Suc_right)
  from div_le_mono [OF this, of 4096] have "unat addr div 4096 + 16 \<le> unat end_addr div 4096" by simp
  then have above: "\<not> p < unat addr div 4096 + 16" if "unat end_addr div 4096 \<le> p" for p using that by linarith
  show ?case
  proof (cases "os_map_fixed os addr")
    case False
    have "\<forall>p. unat end_addr div 4096 \<le> p \<or> p < unat addr div 4096 \<longrightarrow> NaClDescEffectorShmUnmapMemory os pt addr p = pt p"
      using above by (auto simp: unmap_defs pages_off_def)
    moreover have "NaClDescImcShmMap_loop os fuel addr end_addr off pt = Returns (False, NaClDescEffectorShmUnmapMemory os pt addr)" using f lt False by simp
    ultimately show ?thesis using False by blast
  next
    case True
    let ?a = "addr + NACL_MAP_PAGESIZE" and ?o = "off + NACL_MAP_PAGESIZE"
    have a: "unat ?a = unat addr + 65536"
      using Suc.prems(1) unsigned_less [of end_addr, where ?'a = nat] unat_add_no_wrap [of addr "NACL_MAP_PAGESIZE"] by (simp add: MAP_PAGESIZE_val)
    have o: "unat ?o = unat off + 65536"
      using Suc.prems(5) unat_add_no_wrap [of off "NACL_MAP_PAGESIZE"] by (simp add: MAP_PAGESIZE_val)
    obtain i j where ij: "unat addr = 4096 * i" "unat off = 4096 * j" using Suc.prems(3,4) by (auto simp: dvd_def)
    define pt1 where "pt1 = pages_on (NaClDescEffectorShmUnmapMemory os pt addr) addr off"
    have w: "window (unat ?a div 4096) (16 * k) (unat ?o div 4096) pt1 = window (unat addr div 4096) (16 * Suc k) (unat off div 4096) pt"
    proof -
      have q: "unat ?a div 4096 = i + 16" "unat ?o div 4096 = j + 16" "unat addr div 4096 = i" "unat off div 4096 = j"
        unfolding a o ij by simp_all
      show ?thesis unfolding pt1_def pages_on_def unmap_defs pages_off_def q window_def by (rule ext) auto
    qed
    have step: "NaClDescImcShmMap_loop os fuel addr end_addr off pt = NaClDescImcShmMap_loop os f ?a end_addr ?o pt1"
      using f lt True by (simp add: pt1_def Let_def)
    have "\<exists>b pt'. NaClDescImcShmMap_loop os f ?a end_addr ?o pt1 = Returns (b, pt') \<and>
        (b \<longrightarrow> pt' = window (unat ?a div 4096) (16 * k) (unat ?o div 4096) pt1) \<and>
        (\<forall>p. unat end_addr div 4096 \<le> p \<or> p < unat ?a div 4096 \<longrightarrow> pt' p = pt1 p) \<and> ((\<forall>a. os_map_fixed os a) \<longrightarrow> b)"
      using Suc.prems f ij by (intro Suc.IH) (simp_all add: a o)
    then obtain b pt' where r: "NaClDescImcShmMap_loop os f ?a end_addr ?o pt1 = Returns (b, pt')"
        "b \<longrightarrow> pt' = window (unat ?a div 4096) (16 * k) (unat ?o div 4096) pt1"
        "\<forall>p. unat end_addr div 4096 \<le> p \<or> p < unat ?a div 4096 \<longrightarrow> pt' p = pt1 p" "(\<forall>a. os_map_fixed os a) \<longrightarrow> b"
      by blast
    have keep: "pt' p = pt p" if "unat end_addr div 4096 \<le> p \<or> p < unat addr div 4096" for p
    proof -
      have "unat addr div 4096 \<le> unat ?a div 4096" using a by (intro div_le_mono) simp
      then have "pt' p = pt1 p" using r(3) that by (meson less_le_trans)
      also have "\<dots> = pt p" using above that by (auto simp: pt1_def pages_on_def unmap_defs pages_off_def)
      finally show ?thesis .
    qed
    show ?thesis
    proof (intro exI conjI)
      show "NaClDescImcShmMap_loop os fuel addr end_addr off pt = Returns (b, pt')" using step r(1) by simp
      show "b \<longrightarrow> pt' = window (unat addr div 4096) (16 * Suc k) (unat off div 4096) pt" using r(2) unfolding w .
    qed (use keep r(4) in blast)+
  qed
qed

text \<open>The room the operating system gives: page aligned, not at 0, and not up to the very end of the 32-bit address space.\<close>

definition mmap_ok :: "host_os \<Rightarrow> bool" where
  "mmap_ok os \<longleftrightarrow> (\<forall>len m. os_mmap os len = Some m \<longrightarrow> 4096 dvd unat m \<and> unat m + unat len < 2 ^ 32 \<and> m \<noteq> 0)"

text \<open>
  A failed mapping is reported as \<open>-NACL_ABI_E_MOVE_ADDRESS_SPACE\<close>, the 32-bit value 0xc0000000, which a caller cannot tell from an
  address (\<open>NaClIsNegErrno_pointer\<close> below). Either mapping into reserved room never fails, or the room given never covers the 64K from that number on.
  The latter is so where user space ends at 3G, the former is what \<open>mmap\<close> with \<open>MAP_FIXED\<close> does while the kernel has memory.
\<close>

definition map_error_apart :: "host_os \<Rightarrow> bool" where
  "map_error_apart os \<longleftrightarrow>
     (\<forall>a. os_map_fixed os a) \<or>
     (\<forall>len m. os_mmap os len = Some m \<longrightarrow> unat m + unat len \<le> 0xc0000000 \<or> 0xc0010000 \<le> unat m)"

lemma NaClDescImcShmUnmapUnsafe_loop_spec:
  assumes "NaClDescImcShmUnmapUnsafe_loop os fuel addr end_addr pt = Returns pt'" "unat addr + 65536 * k = unat end_addr" "4096 dvd unat addr"
  shows "pt' p = (if unat addr div 4096 \<le> p \<and> p < unat addr div 4096 + 16 * k then None else pt p)"
  using assms
proof (induction k arbitrary: addr pt fuel)
  case 0
  then have "\<not> addr < end_addr" by (simp add: word_less_nat_alt)
  moreover obtain f where "fuel = Suc f" using 0 by (cases fuel) simp_all
  ultimately show ?case using 0 by auto
next
  case (Suc k)
  obtain f where f: "fuel = Suc f" using Suc.prems(1) by (cases fuel) simp_all
  have lt: "addr < end_addr" using Suc.prems(2) by (simp add: word_less_nat_alt)
  let ?a = "addr + NACL_MAP_PAGESIZE"
  have a: "unat ?a = unat addr + 65536"
    using Suc.prems(2) unsigned_less [of end_addr, where ?'a = nat] unat_add_no_wrap [of addr "NACL_MAP_PAGESIZE"] by (simp add: MAP_PAGESIZE_val)
  have st: "NaClDescImcShmUnmapUnsafe_loop os f ?a end_addr (pages_off pt addr) = Returns pt'"
    using Suc.prems(1) f lt by (simp split: if_splits)
  obtain i where i: "unat addr = 4096 * i" using Suc.prems(3) by (auto simp: dvd_def)
  have q: "unat ?a div 4096 = i + 16" "unat addr div 4096 = i" unfolding a i by simp_all
  have "pt' p = (if i + 16 \<le> p \<and> p < i + 16 + 16 * k then None else pages_off pt addr p)"
    using Suc.IH [OF st] Suc.prems(2,3) unfolding q by (simp add: a)
  then show ?case unfolding q by (simp add: pages_off_def q)
qed

lemma NaClDescImcShmUnmapUnsafe_loop_returns:
  assumes "\<forall>a. os_unmap os a" "unat addr + 65536 * k = unat end_addr" "k < fuel"
  shows "\<exists>pt'. NaClDescImcShmUnmapUnsafe_loop os fuel addr end_addr pt = Returns pt'"
  using assms
proof (induction k arbitrary: addr pt fuel)
  case 0
  then have "\<not> addr < end_addr" by (simp add: word_less_nat_alt)
  moreover obtain f where "fuel = Suc f" using 0 by (cases fuel) simp_all
  ultimately show ?case by simp
next
  case (Suc k)
  obtain f where f: "fuel = Suc f" using Suc.prems(3) by (cases fuel) simp_all
  have lt: "addr < end_addr" using Suc.prems(2) by (simp add: word_less_nat_alt)
  let ?a = "addr + NACL_MAP_PAGESIZE"
  have a: "unat ?a = unat addr + 65536"
    using Suc.prems(2) unsigned_less [of end_addr, where ?'a = nat] unat_add_no_wrap [of addr "NACL_MAP_PAGESIZE"] by (simp add: MAP_PAGESIZE_val)
  show ?case using Suc.IH [OF Suc.prems(1), of ?a f "pages_off pt addr"] Suc.prems f lt a by simp
qed

lemma sint_of_unat:
  assumes "unat (w :: u64) < 2 ^ 63"
  shows "sint w = int (unat w)"
proof -
  have "uint w < 2 ^ 63"
    using assms of_nat_less_iff [of "unat w" "2 ^ 63", where ?'a = int] by (simp only: uint_nat of_nat_power of_nat_numeral)
  moreover have "0 \<le> uint w" by simp
  ultimately have "signed_take_bit 63 (uint w) = uint w" by (intro signed_take_bit_int_eq_self) linarith+
  then show ?thesis by (simp add: sint_uint)
qed

lemma unat_ucast_u64: "unat (ucast (w :: u32) :: u64) = unat w"
  using unsigned_less [of w, where ?'a = nat] by (simp add: unsigned_ucast_eq take_bit_nat_eq_self)

lemma NaClDescImcShmMap_spec:
  fixes off len :: u32
  assumes ok: "mmap_ok os" and len: "unat len = 65536 * k" and off: "unat off = 65536 * j" and small: "65536 * (j + k) < 2 ^ 31"
    and prt: "prt = NACL_ABI_PROT_READ OR NACL_ABI_PROT_WRITE"
  shows "\<exists>r pt'. NaClDescImcShmMap os 0 len prt NACL_ABI_MAP_SHARED (ucast off) pt = Returns (r, pt') \<and>
    (r = neg_errno NACL_ABI_ENOMEM \<and> pt' = pt \<and> os_mmap os len = None \<or>
     os_mmap os len = Some r \<and> pt' = window (unat r div 4096) (16 * k) (16 * j) pt \<or>
     r = neg_errno NACL_ABI_E_MOVE_ADDRESS_SPACE \<and> \<not> (\<forall>a. os_map_fixed os a) \<and>
       (\<exists>m. os_mmap os len = Some m \<and> (\<forall>p. (unat m + unat len) div 4096 \<le> p \<or> p < unat m div 4096 \<longrightarrow> pt' p = pt p)))"
proof -
  have flags: "NACL_ABI_MAP_SHARED AND NACL_ABI_MAP_SHARING_MASK = NACL_ABI_MAP_SHARED" "NACL_ABI_MAP_SHARED AND NACL_ABI_MAP_FIXED = 0"
    "prt \<noteq> NACL_ABI_PROT_NONE" "NOT (NACL_ABI_PROT_READ OR NACL_ABI_PROT_WRITE OR NACL_ABI_PROT_EXEC) AND prt = 0"
    using prt by (simp_all add: nacl_consts)
  let ?x = "ucast off + ucast len + ucast NACL_MAP_PAGESIZE - 1 :: u64"
  define y where "y = (ucast off + ucast len :: u64)"
  have x: "?x = y + 65535" unfolding y_def by (simp add: MAP_PAGESIZE_val)
  have y: "unat y = 65536 * (j + k)"
    using small len off unat_add_no_wrap [of "ucast off :: u64" "ucast len"] by (simp add: unat_ucast_u64 y_def)
  have "unat (y + 65535) = 65536 * (j + k) + 65535"
    using small y unat_add_no_wrap [of y 65535] by simp
  then have "unat ?x = 65536 * (j + k) + 65535" by (simp only: x)
  then have "unat (?x AND NOT (mask 16)) = (65536 * (j + k) + 65535) div 2 ^ 16 * 2 ^ 16" by (simp only: unat_and_not_mask)
  also have "\<dots> = 65536 * (j + k)"
  proof -
    have "(65536 * n + 65535) div 65536 = n" for n :: nat by simp
    from this [of "j + k"] show ?thesis by (simp only: power_numeral_even power_one_right) simp
  qed
  finally have "unat (?x AND NOT (mask 16)) = 65536 * (j + k)" .
  moreover have "(ucast (NACL_MAP_PAGESIZE - 1) :: u64) = mask 16" by (simp add: MAP_PAGESIZE_val mask_eq_exp_minus_1)
  ultimately have t: "unat (?x AND NOT (ucast (NACL_MAP_PAGESIZE - 1))) = 65536 * (j + k)" by simp
  have "sint (?x AND NOT (ucast (NACL_MAP_PAGESIZE - 1))) = int (65536 * (j + k))"
    unfolding t [symmetric] using t small by (intro sint_of_unat) simp
  then have nover: "\<not> sint (?x AND NOT (ucast (NACL_MAP_PAGESIZE - 1))) > 2 ^ 31 - 1" using small by simp
  show ?thesis
  proof (cases "os_mmap os len")
    case None
    then show ?thesis using flags by (simp add: NaClDescImcShmMap_def NaClFindAddressSpace_def)
  next
    case (Some m)
    have m: "4096 dvd unat m" "unat m + unat len < 2 ^ 32" using ok Some by (auto simp: mmap_ok_def)
    have e: "unat (m + len) = unat m + unat len" using m(2) by (intro unat_add_no_wrap) simp
    have u: "(ucast (ucast off :: u64) :: u32) = off" by (rule bit_word_eqI) (auto simp: bit_simps dest: bit_imp_le_length)
    have o: "unat off div 4096 = 16 * j" using off by simp
    obtain b pt' where loop: "NaClDescImcShmMap_loop os (2 ^ 16 + 1) m (m + len) off pt = Returns (b, pt')"
        "b \<longrightarrow> pt' = window (unat m div 4096) (16 * k) (16 * j) pt" "\<forall>p. unat (m + len) div 4096 \<le> p \<or> p < unat m div 4096 \<longrightarrow> pt' p = pt p"
        "(\<forall>a. os_map_fixed os a) \<longrightarrow> b"
      using NaClDescImcShmMap_loop_spec [of m k "m + len" "2 ^ 16 + 1" off os pt] m e len off small unfolding o by auto
    have "NaClDescImcShmMap os 0 len prt NACL_ABI_MAP_SHARED (ucast off) pt =
        Returns (if b then m else neg_errno NACL_ABI_E_MOVE_ADDRESS_SPACE, pt')"
      using Some flags nover loop(1) unfolding NaClDescImcShmMap_def NaClFindAddressSpace_def Let_def u by simp
    then show ?thesis using loop(2-4) Some unfolding e by (cases b) auto
  qed
qed

subsection \<open>Recognising errors\<close>

lemma NaClIsNegErrno_unat: "NaClIsNegErrno w \<longleftrightarrow> 2 ^ 64 - 2 ^ 16 \<le> unat w"
proof -
  have m: "(0xffff :: u64) = mask 16" by (simp add: mask_eq_exp_minus_1)
  have e: "unat (NOT (mask 16) :: u64) = 2 ^ 64 - 2 ^ 16" using unat_and_not_mask [of "- 1 :: u64" 16] by (simp add: unsigned_minus_1_eq_mask mask_eq_exp_minus_1)
  have "NaClIsNegErrno w \<longleftrightarrow> unat (w AND NOT (mask 16)) = unat (NOT (mask 16) :: u64)"
    unfolding NaClIsNegErrno_def m word_unat_eq_iff ..
  also have "\<dots> \<longleftrightarrow> unat w div 2 ^ 16 * 2 ^ 16 = 2 ^ 64 - 2 ^ 16" unfolding unat_and_not_mask e ..
  also have "\<dots> \<longleftrightarrow> 2 ^ 64 - 2 ^ 16 \<le> unat w"
  proof -
    define q where "q = unat w div 65536"
    have "65536 * q \<le> unat w" "unat w < 65536 * q + 65536" unfolding q_def by simp_all
    moreover have "unat w < 2 ^ 64" using unsigned_less [of w, where ?'a = nat] by simp
    ultimately have "q * 65536 = 2 ^ 64 - 65536 \<longleftrightarrow> 2 ^ 64 - 65536 \<le> unat w" by auto
    then show ?thesis by (simp add: q_def)
  qed
  finally show ?thesis .
qed

lemma NaClIsNegErrno_ucast [simp]: "\<not> NaClIsNegErrno (ucast (p :: u32))"
  using unsigned_less [of p, where ?'a = nat] by (simp add: NaClIsNegErrno_unat unat_ucast_u64)

text \<open>
  C39: \<open>NaClIsNegErrno\<close> takes a 64-bit value. It recognises the negated error numbers up to \<open>2 ^ 16\<close> and nothing else; a pointer of
  this 32-bit build is zero extended when it is passed, so for the result of a mapping function the test is always false,
  whatever error the function reports.
\<close>

theorem NaClIsNegErrno_pointer:
  "(NaClIsNegErrno v \<longleftrightarrow> (\<exists>e. 0 < e \<and> e \<le> 2 ^ 16 \<and> v = word_of_int (- int e))) \<and> \<not> NaClIsNegErrno (ucast (p :: u32))"
proof -
  have "(\<exists>e. 0 < e \<and> e \<le> 2 ^ 16 \<and> v = word_of_int (- int e)) \<longleftrightarrow> 2 ^ 64 - 2 ^ 16 \<le> unat v"
  proof
    assume "\<exists>e. 0 < e \<and> e \<le> 2 ^ 16 \<and> v = word_of_int (- int e)"
    then obtain e where e: "0 < e" "e \<le> 2 ^ 16" "v = word_of_int (- int e)" by blast
    have "v = of_nat (2 ^ 64 - e)" using e by (simp add: of_nat_diff)
    then have "unat v = 2 ^ 64 - e" using e by (simp only: unat_of_nat) simp
    then show "2 ^ 64 - 2 ^ 16 \<le> unat v" using e by simp
  next
    assume a: "2 ^ 64 - 2 ^ 16 \<le> unat v"
    have l: "unat v < 2 ^ 64" using unsigned_less [of v, where ?'a = nat] by simp
    have "v = of_nat (unat v)" by simp
    also have "\<dots> = word_of_int (int (unat v) - 2 ^ 64)" by simp
    also have "int (unat v) - 2 ^ 64 = - int (2 ^ 64 - unat v)" using l by (simp add: of_nat_diff)
    finally have "v = word_of_int (- int (2 ^ 64 - unat v))" .
    then show "\<exists>e. 0 < e \<and> e \<le> 2 ^ 16 \<and> v = word_of_int (- int e)" using a l by (intro exI [of _ "2 ^ 64 - unat v"]) simp
  qed
  then show ?thesis using NaClIsNegErrno_unat [of v] NaClIsNegErrno_ucast [of p] by blast
qed

end
