(* ===== verification/NC_Decode.thy ===== *)
theory NC_Decode
  imports NaCl_Prelude
begin

text \<open>
  The table-driven x86 decoder of the 32-bit validator: \<open>validator_x86/ncdecode.c\<close> and the
  types of \<open>ncdecode.h\<close>. The decoding tables are generated at build time
  (\<open>ncdecodetab.h\<close>), so they are a parameter, the record \<open>DecodeTables\<close>. Pointers into the
  code buffer are byte addresses (\<open>nat\<close>), virtual addresses are \<open>u32\<close> and wrap. The client of the
  decoder (the validator) is reached through the registered callbacks, the record
  \<open>NCDecodeCallbacks\<close>, which act on the client's state and may overwrite the code buffer.
  The build modelled has \<open>NACL_TARGET_SUBARCH == 32\<close> and asserts compiled out.
\<close>

subsection \<open>Data\<close>

definition NACL_TARGET_SUBARCH :: nat where
  "NACL_TARGET_SUBARCH = 32"

definition kPrefixSEGCS :: u32 where [nacl_consts]: "kPrefixSEGCS = 0x0001"
definition kPrefixSEGSS :: u32 where [nacl_consts]: "kPrefixSEGSS = 0x0002"
definition kPrefixSEGFS :: u32 where [nacl_consts]: "kPrefixSEGFS = 0x0004"
definition kPrefixSEGGS :: u32 where [nacl_consts]: "kPrefixSEGGS = 0x0008"
definition kPrefixDATA16 :: u32 where [nacl_consts]: "kPrefixDATA16 = 0x0010"
definition kPrefixADDR16 :: u32 where [nacl_consts]: "kPrefixADDR16 = 0x0020"
definition kPrefixREPNE :: u32 where [nacl_consts]: "kPrefixREPNE = 0x0040"
definition kPrefixREP :: u32 where [nacl_consts]: "kPrefixREP = 0x0080"
definition kPrefixLOCK :: u32 where [nacl_consts]: "kPrefixLOCK = 0x0100"
definition kPrefixSEGES :: u32 where [nacl_consts]: "kPrefixSEGES = 0x0200"
definition kPrefixSEGDS :: u32 where [nacl_consts]: "kPrefixSEGDS = 0x0400"
definition kPrefixREX :: u32 where [nacl_consts]: "kPrefixREX = 0x1000"

datatype NaClInstType =
    NACLi_UNDEFINED | NACLi_ILLEGAL | NACLi_INVALID | NACLi_SYSTEM | NACLi_386
  | NACLi_386L | NACLi_386R | NACLi_386RE | NACLi_JMP8 | NACLi_JMPZ | NACLi_INDIRECT
  | NACLi_OPINMRM | NACLi_RETURN | NACLi_SFENCE_CLFLUSH | NACLi_CMPXCHG8B
  | NACLi_CMPXCHG16B | NACLi_CMOV | NACLi_RDMSR | NACLi_RDTSC | NACLi_RDTSCP
  | NACLi_SYSCALL | NACLi_SYSENTER | NACLi_X87 | NACLi_MMX | NACLi_MMXSSE2
  | NACLi_3DNOW | NACLi_EMMX | NACLi_E3DNOW | NACLi_SSE | NACLi_SSE2 | NACLi_SSE2x
  | NACLi_SSE3 | NACLi_SSE4A | NACLi_SSE41 | NACLi_SSE42 | NACLi_MOVBE | NACLi_POPCNT
  | NACLi_LZCNT | NACLi_LONGMODE | NACLi_SVM | NACLi_SSSE3 | NACLi_3BYTE | NACLi_FCMOV

datatype NCDecodeImmediateType =
    IMM_UNKNOWN | IMM_NONE | IMM_FIXED1 | IMM_FIXED2 | IMM_FIXED3 | IMM_FIXED4
  | IMM_DATAV | IMM_ADDRV | IMM_GROUP3_F6 | IMM_GROUP3_F7 | IMM_FARPTR | IMM_MOV_DATAV

fun kImmTypeToSize66 :: "NCDecodeImmediateType \<Rightarrow> u8" where
  "kImmTypeToSize66 IMM_UNKNOWN = 0"
| "kImmTypeToSize66 IMM_NONE = 0"
| "kImmTypeToSize66 IMM_FIXED1 = 1"
| "kImmTypeToSize66 IMM_FIXED2 = 2"
| "kImmTypeToSize66 IMM_FIXED3 = 3"
| "kImmTypeToSize66 IMM_FIXED4 = 4"
| "kImmTypeToSize66 IMM_DATAV = 2"
| "kImmTypeToSize66 IMM_ADDRV = (if NACL_TARGET_SUBARCH = 64 then 8 else 4)"
| "kImmTypeToSize66 IMM_GROUP3_F6 = 0"
| "kImmTypeToSize66 IMM_GROUP3_F7 = 0"
| "kImmTypeToSize66 IMM_FARPTR = 6"
| "kImmTypeToSize66 IMM_MOV_DATAV = 2"

fun kImmTypeToSize67 :: "NCDecodeImmediateType \<Rightarrow> u8" where
  "kImmTypeToSize67 IMM_UNKNOWN = 0"
| "kImmTypeToSize67 IMM_NONE = 0"
| "kImmTypeToSize67 IMM_FIXED1 = 1"
| "kImmTypeToSize67 IMM_FIXED2 = 2"
| "kImmTypeToSize67 IMM_FIXED3 = 3"
| "kImmTypeToSize67 IMM_FIXED4 = 4"
| "kImmTypeToSize67 IMM_DATAV = 4"
| "kImmTypeToSize67 IMM_ADDRV = 2"
| "kImmTypeToSize67 IMM_GROUP3_F6 = 0"
| "kImmTypeToSize67 IMM_GROUP3_F7 = 0"
| "kImmTypeToSize67 IMM_FARPTR = 4"
| "kImmTypeToSize67 IMM_MOV_DATAV = 4"

fun kImmTypeToSize :: "NCDecodeImmediateType \<Rightarrow> u8" where
  "kImmTypeToSize IMM_UNKNOWN = 0"
| "kImmTypeToSize IMM_NONE = 0"
| "kImmTypeToSize IMM_FIXED1 = 1"
| "kImmTypeToSize IMM_FIXED2 = 2"
| "kImmTypeToSize IMM_FIXED3 = 3"
| "kImmTypeToSize IMM_FIXED4 = 4"
| "kImmTypeToSize IMM_DATAV = 4"
| "kImmTypeToSize IMM_ADDRV = (if NACL_TARGET_SUBARCH = 64 then 8 else 4)"
| "kImmTypeToSize IMM_GROUP3_F6 = 0"
| "kImmTypeToSize IMM_GROUP3_F7 = 0"
| "kImmTypeToSize IMM_FARPTR = 6"
| "kImmTypeToSize IMM_MOV_DATAV = 4"

record OpInfo =
  insttype :: NaClInstType
  hasmrmbyte :: u8
  op_immtype :: NCDecodeImmediateType
  opinmrm :: u8

record InstInfo =
  vaddr :: u32
  maddr :: nat
  prefixbytes :: u8
  hasopbyte2 :: u8
  hasopbyte3 :: u8
  hassibbyte :: u8
  mrm :: u8
  immtype :: NCDecodeImmediateType
  dispbytes :: u8
  inst_length :: u8
  prefixmask :: u32
  rexprefix :: u8

record NCDecoderState =
  mpc :: nat
  nextbyte :: nat
  dbindex :: nat
  vpc :: u32
  opinfo :: OpInfo
  inst :: InstInfo

text \<open>The generated tables of \<open>ncdecodetab.h\<close>.\<close>

record DecodeTables =
  kPrefixTable :: "u8 \<Rightarrow> u32"
  kDecode1ByteOp :: "u8 \<Rightarrow> OpInfo"
  kDecode0FXXOp :: "u8 \<Rightarrow> OpInfo"
  kDecode660FXXOp :: "u8 \<Rightarrow> OpInfo"
  kDecodeF20FXXOp :: "u8 \<Rightarrow> OpInfo"
  kDecodeF30FXXOp :: "u8 \<Rightarrow> OpInfo"
  kDecode0F0FOp :: "u8 \<Rightarrow> OpInfo"
  kDecode0F38Op :: "u8 \<Rightarrow> OpInfo"
  kDecode660F38Op :: "u8 \<Rightarrow> OpInfo"
  kDecodeF20F38Op :: "u8 \<Rightarrow> OpInfo"
  kDecode0F3AOp :: "u8 \<Rightarrow> OpInfo"
  kDecode660F3AOp :: "u8 \<Rightarrow> OpInfo"
  kDecodeModRMOp :: "u8 \<Rightarrow> u8 \<Rightarrow> OpInfo"
  kDecodeX87Op :: "u8 \<Rightarrow> u8 \<Rightarrow> OpInfo"

text \<open>
  The callbacks. The decoder action gets the decode buffer and the index of the current
  instruction in it; it may write the code buffer (memory) and the client's state.
\<close>

record 'v NCDecodeCallbacks =
  g_DecoderAction :: "NCDecoderState list \<Rightarrow> nat \<Rightarrow> memory \<Rightarrow> 'v \<Rightarrow> memory \<times> 'v"
  g_NewSegment :: "'v \<Rightarrow> 'v"
  g_InternalError :: "'v \<Rightarrow> 'v"
  g_SegFault :: "'v \<Rightarrow> 'v"

definition kDecodeBufferSize :: nat where [nacl_consts]: "kDecodeBufferSize = 4"
definition kTwoByteOpcodeByte1 :: u8 where [nacl_consts]: "kTwoByteOpcodeByte1 = 0x0f"
definition k3DNowOpcodeByte2 :: u8 where [nacl_consts]: "k3DNowOpcodeByte2 = 0x0f"
definition kMaxPrefixBytes :: nat where [nacl_consts]: "kMaxPrefixBytes = 4"

definition modrm_mod :: "u8 \<Rightarrow> u8" where "modrm_mod b = drop_bit 6 b AND 0x03"
definition modrm_rm :: "u8 \<Rightarrow> u8" where "modrm_rm b = b AND 0x07"
definition modrm_reg :: "u8 \<Rightarrow> u8" where "modrm_reg b = drop_bit 3 b AND 0x07"
definition modrm_opcode :: "u8 \<Rightarrow> u8" where "modrm_opcode b = modrm_reg b"
definition sib_base :: "u8 \<Rightarrow> u8" where "sib_base b = b AND 0x07"

subsection \<open>Callbacks\<close>

definition NullDecoderAction ::
    "NCDecoderState list \<Rightarrow> nat \<Rightarrow> memory \<Rightarrow> 'v \<Rightarrow> memory \<times> 'v" where
  "NullDecoderAction buf i mem v = (mem, v)"

definition NullDecoderStats :: "'v \<Rightarrow> 'v" where
  "NullDecoderStats v = v"

definition DefaultInternalError :: "'v \<Rightarrow> 'v" where
  "DefaultInternalError v = v"

definition default_callbacks :: "'v NCDecodeCallbacks" where
  "default_callbacks =
     \<lparr>g_DecoderAction = NullDecoderAction, g_NewSegment = NullDecoderStats,
      g_InternalError = DefaultInternalError, g_SegFault = NullDecoderStats\<rparr>"

definition NCDecodeRegisterCallbacks ::
    "(NCDecoderState list \<Rightarrow> nat \<Rightarrow> memory \<Rightarrow> 'v \<Rightarrow> memory \<times> 'v) option \<Rightarrow>
     ('v \<Rightarrow> 'v) option \<Rightarrow> ('v \<Rightarrow> 'v) option \<Rightarrow> ('v \<Rightarrow> 'v) option \<Rightarrow>
     'v NCDecodeCallbacks \<Rightarrow> 'v NCDecodeCallbacks" where
  "NCDecodeRegisterCallbacks decoderaction newsegment segfault internalerror cb =
     (let cb = (case decoderaction of None \<Rightarrow> cb | Some f \<Rightarrow> cb\<lparr>g_DecoderAction := f\<rparr>);
          cb = (case newsegment of None \<Rightarrow> cb | Some f \<Rightarrow> cb\<lparr>g_NewSegment := f\<rparr>);
          cb = (case segfault of None \<Rightarrow> cb | Some f \<Rightarrow> cb\<lparr>g_SegFault := f\<rparr>);
          cb = (case internalerror of None \<Rightarrow> cb | Some f \<Rightarrow> cb\<lparr>g_InternalError := f\<rparr>)
      in cb)"

definition ErrorSegmentation :: "'v NCDecodeCallbacks \<Rightarrow> 'v \<Rightarrow> 'v" where
  "ErrorSegmentation cb v = g_SegFault cb v"

definition ErrorInternal :: "'v NCDecodeCallbacks \<Rightarrow> 'v \<Rightarrow> 'v" where
  "ErrorInternal cb v = g_InternalError cb v"

subsection \<open>Decoding one instruction\<close>

text \<open>A null \<open>opinfo\<close> pointer: it is overwritten by \<open>ConsumeOpcodeBytes\<close> before it is read.\<close>

definition NULL_OpInfo :: OpInfo where
  "NULL_OpInfo = \<lparr>insttype = NACLi_UNDEFINED, hasmrmbyte = 0, op_immtype = IMM_UNKNOWN, opinmrm = 0\<rparr>"

definition InitDecoder :: "NCDecoderState \<Rightarrow> NCDecoderState" where
  "InitDecoder m = m\<lparr>
     inst := \<lparr>vaddr = vpc m, maddr = mpc m, prefixbytes = 0, hasopbyte2 = 0, hasopbyte3 = 0,
              hassibbyte = 0, mrm = 0, immtype = IMM_UNKNOWN, dispbytes = 0, inst_length = 0,
              prefixmask = 0, rexprefix = 0\<rparr>,
     opinfo := NULL_OpInfo\<rparr>"

definition ExtractOperandSize :: "NCDecoderState \<Rightarrow> nat" where
  "ExtractOperandSize m =
     (if NACL_TARGET_SUBARCH = 64 \<and> rexprefix (inst m) \<noteq> 0 \<and> rexprefix (inst m) AND 0x8 \<noteq> 0 then 8
      else if prefixmask (inst m) AND kPrefixDATA16 \<noteq> 0 then 2
      else 4)"

fun ConsumePrefixBytes_loop ::
    "DecodeTables \<Rightarrow> memory \<Rightarrow> nat \<Rightarrow> NCDecoderState \<Rightarrow> NCDecoderState" where
  "ConsumePrefixBytes_loop T mem 0 m = m"
| "ConsumePrefixBytes_loop T mem (Suc k) m =
     (let nb = mem (nextbyte m);
          prefix_form = kPrefixTable T nb
      in if prefix_form = 0 then m
         else
           let m = m\<lparr>inst := (inst m)
                 \<lparr>prefixmask := prefixmask (inst m) OR prefix_form OR kPrefixTable T nb,
                  prefixbytes := prefixbytes (inst m) + 1\<rparr>,
                 nextbyte := nextbyte m + 1\<rparr>
           in if NACL_TARGET_SUBARCH = 64 \<and> prefix_form = kPrefixREX
              then m\<lparr>inst := (inst m)\<lparr>rexprefix := nb\<rparr>\<rparr>
              else ConsumePrefixBytes_loop T mem k m)"

definition ConsumePrefixBytes :: "DecodeTables \<Rightarrow> memory \<Rightarrow> NCDecoderState \<Rightarrow> NCDecoderState" where
  "ConsumePrefixBytes T mem m = ConsumePrefixBytes_loop T mem kMaxPrefixBytes m"

definition GetExtendedOpInfo ::
    "DecodeTables \<Rightarrow> 'v NCDecodeCallbacks \<Rightarrow> NCDecoderState \<Rightarrow> u8 \<Rightarrow> 'v \<Rightarrow> OpInfo \<times> 'v" where
  "GetExtendedOpInfo T cb m opbyte2 v =
     (let pm = prefixmask (inst m)
      in if pm AND (kPrefixDATA16 OR kPrefixREPNE OR kPrefixREP) = 0
         then (kDecode0FXXOp T opbyte2, v)
         else if pm AND kPrefixDATA16 \<noteq> 0 then (kDecode660FXXOp T opbyte2, v)
         else if pm AND kPrefixREPNE \<noteq> 0 then (kDecodeF20FXXOp T opbyte2, v)
         else if pm AND kPrefixREP \<noteq> 0 then (kDecodeF30FXXOp T opbyte2, v)
         else (opinfo m, ErrorInternal cb v))"

definition GetX87OpInfo ::
    "DecodeTables \<Rightarrow> 'v NCDecodeCallbacks \<Rightarrow> memory \<Rightarrow> NCDecoderState \<Rightarrow> 'v \<Rightarrow> NCDecoderState \<times> 'v" where
  "GetX87OpInfo T cb mem m v =
     (let kWAITOp = 0x9b; kFirstX87Opcode = 0xd8; kLastX87Opcode = 0xdf;
          op1 = mem (maddr (inst m) + unat (prefixbytes (inst m)))
      in if op1 < kFirstX87Opcode \<or> op1 > kLastX87Opcode
         then (m, if op1 \<noteq> kWAITOp then ErrorInternal cb v else v)
         else (m\<lparr>opinfo := kDecodeX87Op T (op1 - kFirstX87Opcode) (mrm (inst m))\<rparr>, v))"

definition Consume3ByteOpcode ::
    "DecodeTables \<Rightarrow> 'v NCDecodeCallbacks \<Rightarrow> u8 \<Rightarrow> u8 \<Rightarrow> NCDecoderState \<Rightarrow> 'v \<Rightarrow> NCDecoderState \<times> 'v" where
  "Consume3ByteOpcode T cb opcode2 opcode3 m v =
     (let pm = prefixmask (inst m)
      in if opcode2 = 0x38 then
           if pm AND kPrefixDATA16 \<noteq> 0 then (m\<lparr>opinfo := kDecode660F38Op T opcode3\<rparr>, v)
           else if pm AND kPrefixREPNE \<noteq> 0 then (m\<lparr>opinfo := kDecodeF20F38Op T opcode3\<rparr>, v)
           else if pm = 0 then (m\<lparr>opinfo := kDecode0F38Op T opcode3\<rparr>, v)
           else (m, ErrorInternal cb v)
         else if opcode2 = 0x3A then
           if pm AND kPrefixDATA16 \<noteq> 0 then (m\<lparr>opinfo := kDecode660F3AOp T opcode3\<rparr>, v)
           else if pm = 0 then (m\<lparr>opinfo := kDecode0F3AOp T opcode3\<rparr>, v)
           else (m, ErrorInternal cb v)
         else (m, ErrorInternal cb v))"

definition ConsumeOpcodeBytes ::
    "DecodeTables \<Rightarrow> 'v NCDecodeCallbacks \<Rightarrow> memory \<Rightarrow> NCDecoderState \<Rightarrow> 'v \<Rightarrow> NCDecoderState \<times> 'v" where
  "ConsumeOpcodeBytes T cb mem m v =
     (let opcode = mem (nextbyte m);
          m = m\<lparr>opinfo := kDecode1ByteOp T opcode, nextbyte := nextbyte m + 1\<rparr>;
          (m, v) =
            (if opcode = kTwoByteOpcodeByte1 then
               let opcode2 = mem (nextbyte m);
                   (op, v) = GetExtendedOpInfo T cb m opcode2 v;
                   m = m\<lparr>opinfo := op, inst := (inst m)\<lparr>hasopbyte2 := 1\<rparr>,
                         nextbyte := nextbyte m + 1\<rparr>
               in if insttype (opinfo m) = NACLi_3BYTE then
                    let opcode3 = mem (nextbyte m);
                        m = m\<lparr>nextbyte := nextbyte m + 1, inst := (inst m)\<lparr>hasopbyte3 := 1\<rparr>\<rparr>
                    in Consume3ByteOpcode T cb opcode2 opcode3 m v
                  else (m, v)
             else (m, v))
      in (m\<lparr>inst := (inst m)\<lparr>immtype := op_immtype (opinfo m)\<rparr>\<rparr>, v))"

definition ModRM_opinmrm :: "DecodeTables \<Rightarrow> u8 \<Rightarrow> NCDecoderState \<Rightarrow> NCDecoderState" where
  "ModRM_opinmrm T mrmb m =
     (if opinmrm (opinfo m) \<noteq> 0 then
        let mopinfo = kDecodeModRMOp T (opinmrm (opinfo m)) (modrm_opcode mrmb);
            m = m\<lparr>opinfo := mopinfo\<rparr>;
            m = (if immtype (inst m) = IMM_UNKNOWN
                 then m\<lparr>inst := (inst m)\<lparr>immtype := op_immtype mopinfo\<rparr>\<rparr> else m)
        in if modrm_opcode mrmb = 0 then
             let m = (if immtype (inst m) = IMM_GROUP3_F6
                      then m\<lparr>inst := (inst m)\<lparr>immtype := IMM_FIXED1\<rparr>\<rparr> else m)
             in if immtype (inst m) = IMM_GROUP3_F7
                then m\<lparr>inst := (inst m)\<lparr>immtype := IMM_DATAV\<rparr>\<rparr> else m
           else m
      else m)"

definition ModRM_dispbytes ::
    "'v NCDecodeCallbacks \<Rightarrow> u8 \<Rightarrow> NCDecoderState \<Rightarrow> 'v \<Rightarrow> NCDecoderState \<times> 'v" where
  "ModRM_dispbytes cb mrmb m v =
     (let set_disp = (\<lambda>d m. m\<lparr>inst := (inst m)\<lparr>dispbytes := d\<rparr>\<rparr>)
      in if prefixmask (inst m) AND kPrefixADDR16 \<noteq> 0 then
           let (m, v) =
             (if modrm_mod mrmb = 0 then
                (if modrm_rm mrmb = 0x06 then set_disp 2 m else set_disp 0 m, v)
              else if modrm_mod mrmb = 1 then (set_disp 1 m, v)
              else if modrm_mod mrmb = 2 then (set_disp 2 m, v)
              else if modrm_mod mrmb = 3 then (set_disp 0 m, v)
              else (m, ErrorInternal cb v))
           in (m\<lparr>inst := (inst m)\<lparr>hassibbyte := 0\<rparr>\<rparr>, v)
         else
           let (m, v) =
             (if modrm_mod mrmb = 0 then
                (if modrm_rm mrmb = 0x05 then set_disp 4 m else set_disp 0 m, v)
              else if modrm_mod mrmb = 1 then (set_disp 1 m, v)
              else if modrm_mod mrmb = 2 then (set_disp 4 m, v)
              else if modrm_mod mrmb = 3 then (set_disp 0 m, v)
              else (m, ErrorInternal cb v))
           in (m\<lparr>inst := (inst m)
                 \<lparr>hassibbyte := if modrm_rm mrmb = 0x04 \<and> modrm_mod mrmb \<noteq> 3 then 1 else 0\<rparr>\<rparr>, v))"

definition ConsumeModRM ::
    "DecodeTables \<Rightarrow> 'v NCDecodeCallbacks \<Rightarrow> memory \<Rightarrow> NCDecoderState \<Rightarrow> 'v \<Rightarrow> NCDecoderState \<times> 'v" where
  "ConsumeModRM T cb mem m v =
     (if hasmrmbyte (opinfo m) \<noteq> 0 then
        let mrmb = mem (nextbyte m);
            m = m\<lparr>inst := (inst m)\<lparr>mrm := mrmb\<rparr>, nextbyte := nextbyte m + 1\<rparr>;
            (m, v) = (if insttype (opinfo m) = NACLi_X87 then GetX87OpInfo T cb mem m v else (m, v));
            m = ModRM_opinmrm T mrmb m
        in ModRM_dispbytes cb mrmb m v
      else (m, v))"

definition ConsumeSIB ::
    "'v NCDecodeCallbacks \<Rightarrow> memory \<Rightarrow> NCDecoderState \<Rightarrow> 'v \<Rightarrow> NCDecoderState \<times> 'v" where
  "ConsumeSIB cb mem m v =
     (if hassibbyte (inst m) \<noteq> 0 then
        let sib = mem (nextbyte m);
            m = m\<lparr>nextbyte := nextbyte m + 1\<rparr>;
            md = modrm_mod (mrm (inst m))
        in if sib_base sib = 0x05 then
             if md = 0 then (m\<lparr>inst := (inst m)\<lparr>dispbytes := 4\<rparr>\<rparr>, v)
             else if md = 1 then (m\<lparr>inst := (inst m)\<lparr>dispbytes := 1\<rparr>\<rparr>, v)
             else if md = 2 then (m\<lparr>inst := (inst m)\<lparr>dispbytes := 4\<rparr>\<rparr>, v)
             else (m, ErrorInternal cb v)
           else (m, v)
      else (m, v))"

definition ConsumeID ::
    "'v NCDecodeCallbacks \<Rightarrow> NCDecoderState \<Rightarrow> 'v \<Rightarrow> NCDecoderState \<times> 'v" where
  "ConsumeID cb m v =
     (let v = (if immtype (inst m) = IMM_UNKNOWN then ErrorInternal cb v else v);
          immbytes =
            (if immtype (inst m) = IMM_MOV_DATAV then ExtractOperandSize m
             else if prefixmask (inst m) AND kPrefixDATA16 \<noteq> 0 then unat (kImmTypeToSize66 (immtype (inst m)))
             else if prefixmask (inst m) AND kPrefixADDR16 \<noteq> 0 then unat (kImmTypeToSize67 (immtype (inst m)))
             else unat (kImmTypeToSize (immtype (inst m))));
          m = m\<lparr>nextbyte := nextbyte m + immbytes\<rparr>;
          m = m\<lparr>nextbyte := nextbyte m + unat (dispbytes (inst m))\<rparr>;
          len = nextbyte m - mpc m;
          m = m\<lparr>inst := (inst m)\<lparr>inst_length := of_nat len\<rparr>\<rparr>
      in (m, if unat (inst_length (inst m)) \<noteq> len then ErrorInternal cb v else v))"

definition MaybeGet3ByteOpInfo :: "DecodeTables \<Rightarrow> memory \<Rightarrow> NCDecoderState \<Rightarrow> NCDecoderState" where
  "MaybeGet3ByteOpInfo T mem m =
     (if insttype (opinfo m) = NACLi_3DNOW then
        let opbyte1 = mem (mpc m + unat (prefixbytes (inst m)));
            opbyte2 = mem (mpc m + (unat (prefixbytes (inst m)) + 1));
            immbyte = mem (mpc m + (unat (inst_length (inst m)) - 1))
        in if opbyte1 = kTwoByteOpcodeByte1 \<and> opbyte2 = k3DNowOpcodeByte2
           then m\<lparr>opinfo := kDecode0F0FOp T immbyte\<rparr> else m
      else m)"

text \<open>The decoding steps of one turn of the loop of \<open>NCDecodeSegment\<close>, in order.\<close>

definition DecodeInst ::
    "DecodeTables \<Rightarrow> 'v NCDecodeCallbacks \<Rightarrow> memory \<Rightarrow> NCDecoderState \<Rightarrow> 'v \<Rightarrow> NCDecoderState \<times> 'v" where
  "DecodeInst T cb mem m v =
     (let m = InitDecoder m;
          m = ConsumePrefixBytes T mem m;
          (m, v) = ConsumeOpcodeBytes T cb mem m v;
          (m, v) = ConsumeModRM T cb mem m v;
          (m, v) = ConsumeSIB cb mem m v;
          (m, v) = ConsumeID cb m v
      in (MaybeGet3ByteOpInfo T mem m, v))"

subsection \<open>The segment loop\<close>

definition PreviousInst :: "NCDecoderState list \<Rightarrow> nat \<Rightarrow> int \<Rightarrow> NCDecoderState" where
  "PreviousInst buf cur nindex =
     buf ! nat ((int (dbindex (buf ! cur)) + nindex + int kDecodeBufferSize)
                AND (int kDecodeBufferSize - 1))"

fun NCDecodeSegment_loop ::
    "DecodeTables \<Rightarrow> 'v NCDecodeCallbacks \<Rightarrow> u32 \<Rightarrow> nat \<Rightarrow> NCDecoderState list \<Rightarrow> nat \<Rightarrow> nat \<Rightarrow>
     memory \<Rightarrow> 'v \<Rightarrow> (memory \<times> 'v) option" where
  "NCDecodeSegment_loop T cb vlimit 0 buf cur dbi mem v = None"
| "NCDecodeSegment_loop T cb vlimit (Suc fuel) buf cur dbi mem v =
     (if vpc (buf ! cur) < vlimit then
        let (m, v) = DecodeInst T cb mem (buf ! cur) v;
            buf = buf[cur := m];
            newpc = vpc m + ucast (inst_length (inst m))
        in if newpc > vlimit then Some (mem, ErrorSegmentation cb v)
           else
             let (mem, v) = g_DecoderAction cb buf cur mem v;
                 dbi = (dbi + 1) AND (kDecodeBufferSize - 1);
                 buf = buf[dbi := (buf ! dbi)
                   \<lparr>vpc := newpc, mpc := mpc m + unat (inst_length (inst m)), nextbyte := nextbyte m\<rparr>]
             in NCDecodeSegment_loop T cb vlimit fuel buf dbi dbi mem v
      else Some (mem, v))"

text \<open>
  The fields of a buffer entry that the initialisation does not set are uninitialised stack
  memory in the source; no field is read before it is written, and they are zero here.
\<close>

definition init_entry :: "nat \<Rightarrow> NCDecoderState" where
  "init_entry i =
     \<lparr>mpc = 0, nextbyte = 0, dbindex = i, vpc = 0, opinfo = NULL_OpInfo,
      inst = \<lparr>vaddr = 0, maddr = 0, prefixbytes = 0, hasopbyte2 = 0, hasopbyte3 = 0,
              hassibbyte = 0, mrm = 0, immtype = IMM_UNKNOWN, dispbytes = 0, inst_length = 0,
              prefixmask = 0, rexprefix = 0\<rparr>\<rparr>"

definition init_decodebuffer :: "nat \<Rightarrow> u32 \<Rightarrow> NCDecoderState list" where
  "init_decodebuffer mbase vbase =
     (map init_entry [0..<kDecodeBufferSize])
       [0 := (init_entry 0)\<lparr>mpc := mbase, nextbyte := mbase, vpc := vbase\<rparr>]"

text \<open>One unit of fuel per byte of the segment, and one to see the end.\<close>

definition NCDecodeSegment ::
    "DecodeTables \<Rightarrow> 'v NCDecodeCallbacks \<Rightarrow> nat \<Rightarrow> u32 \<Rightarrow> u32 \<Rightarrow> memory \<Rightarrow> 'v \<Rightarrow> (memory \<times> 'v) option" where
  "NCDecodeSegment T cb mbase vbase sz mem v =
     (let vlimit = vbase + sz;
          v = g_NewSegment cb v
      in NCDecodeSegment_loop T cb vlimit (Suc (unat sz))
           (init_decodebuffer mbase vbase) 0 kDecodeBufferSize mem v)"

subsection \<open>What decoding one instruction reads and where it ends\<close>

definition agrees_from :: "memory \<Rightarrow> memory \<Rightarrow> nat \<Rightarrow> bool" where
  "agrees_from mem mem' p \<longleftrightarrow> (\<forall>a\<ge>p. mem a = mem' a)"

lemma agrees_fromD: "agrees_from mem mem' p \<Longrightarrow> p \<le> a \<Longrightarrow> mem a = mem' a"
  by (simp add: agrees_from_def)

lemma agrees_from_mono: "agrees_from mem mem' p \<Longrightarrow> p \<le> q \<Longrightarrow> agrees_from mem mem' q"
  by (simp add: agrees_from_def)

text \<open>The part of a decoder state that decoding depends on: all but the buffer index.\<close>

definition view :: "NCDecoderState \<Rightarrow> nat \<times> nat \<times> u32 \<times> OpInfo \<times> InstInfo" where
  "view m = (mpc m, nextbyte m, vpc m, opinfo m, inst m)"

text \<open>\<open>stage n m m'\<close>: a decoding step that consumed at most \<open>n\<close> bytes and moved nothing else.\<close>

definition stage :: "nat \<Rightarrow> NCDecoderState \<Rightarrow> NCDecoderState \<Rightarrow> bool" where
  "stage n m m' \<longleftrightarrow>
     mpc m' = mpc m \<and> vpc m' = vpc m \<and> dbindex m' = dbindex m \<and>
     maddr (inst m') = maddr (inst m) \<and> vaddr (inst m') = vaddr (inst m) \<and>
     nextbyte m \<le> nextbyte m' \<and> nextbyte m' \<le> nextbyte m + n \<and>
     (unat (dispbytes (inst m)) \<le> 4 \<longrightarrow> unat (dispbytes (inst m')) \<le> 4)"

lemma stage_trans: "stage a m m' \<Longrightarrow> stage b m' m'' \<Longrightarrow> stage (a + b) m m''"
  by (auto simp: stage_def)

lemma stage_refl: "stage n m m"
  by (simp add: stage_def)

lemma stage_ConsumePrefixBytes_loop: "stage k m (ConsumePrefixBytes_loop T mem k m)"
proof (induction k arbitrary: m)
  case 0
  then show ?case by (simp add: stage_def)
next
  case (Suc k)
  let ?m = "m\<lparr>inst := (inst m)
     \<lparr>prefixmask := prefixmask (inst m) OR kPrefixTable T (mem (nextbyte m))
         OR kPrefixTable T (mem (nextbyte m)),
      prefixbytes := prefixbytes (inst m) + 1\<rparr>, nextbyte := nextbyte m + 1\<rparr>"
  have "stage 1 m ?m" by (simp add: stage_def)
  from stage_trans [OF this Suc.IH] show ?case
    by (simp add: Let_def NACL_TARGET_SUBARCH_def stage_refl)
qed

lemma stage_ConsumePrefixBytes: "stage 4 m (ConsumePrefixBytes T mem m)"
  using stage_ConsumePrefixBytes_loop [of 4]
  by (simp add: ConsumePrefixBytes_def kMaxPrefixBytes_def)

lemma stage_ConsumeOpcodeBytes:
  "stage 3 m (fst (ConsumeOpcodeBytes T cb mem m v)) \<and>
   nextbyte m < nextbyte (fst (ConsumeOpcodeBytes T cb mem m v))"
  by (simp add: ConsumeOpcodeBytes_def Consume3ByteOpcode_def GetExtendedOpInfo_def stage_def
      Let_def split: prod.splits)

lemma stage_GetX87OpInfo: "stage 0 m (fst (GetX87OpInfo T cb mem m v))"
  by (simp add: GetX87OpInfo_def stage_def Let_def)

lemma stage_ModRM_opinmrm: "stage 0 m (ModRM_opinmrm T b m)"
  by (simp add: ModRM_opinmrm_def stage_def Let_def)

lemma stage_ModRM_dispbytes: "stage 0 m (fst (ModRM_dispbytes cb b m v))"
  by (simp add: ModRM_dispbytes_def stage_def Let_def)

lemma stage_ConsumeModRM: "stage 1 m (fst (ConsumeModRM T cb mem m v))"
proof (cases "hasmrmbyte (opinfo m) = 0")
  case True
  then show ?thesis by (simp add: ConsumeModRM_def stage_refl)
next
  case False
  let ?m = "m\<lparr>inst := (inst m)\<lparr>mrm := mem (nextbyte m)\<rparr>, nextbyte := nextbyte m + 1\<rparr>"
  obtain m1 v1 where 1: "(if insttype (opinfo ?m) = NACLi_X87 then GetX87OpInfo T cb mem ?m v else (?m, v)) = (m1, v1)"
    by fastforce
  have "stage 1 m ?m" by (simp add: stage_def)
  moreover have "stage 0 ?m m1"
    using 1 stage_GetX87OpInfo [of ?m T cb mem v] stage_refl [of 0 ?m] by (auto split: if_splits)
  moreover have "stage 0 m1 (fst (ModRM_dispbytes cb (mem (nextbyte m)) (ModRM_opinmrm T (mem (nextbyte m)) m1) v1))"
    using stage_trans [OF stage_ModRM_opinmrm stage_ModRM_dispbytes] by simp
  ultimately have "stage 1 m (fst (ModRM_dispbytes cb (mem (nextbyte m)) (ModRM_opinmrm T (mem (nextbyte m)) m1) v1))"
    by (auto simp: stage_def)
  moreover have "ConsumeModRM T cb mem m v
      = ModRM_dispbytes cb (mem (nextbyte m)) (ModRM_opinmrm T (mem (nextbyte m)) m1) v1"
    using False 1 by (simp only: ConsumeModRM_def Let_def prod.case if_False simp_thms not_False_eq_True if_True)
  ultimately show ?thesis by simp
qed

lemma stage_ConsumeSIB: "stage 1 m (fst (ConsumeSIB cb mem m v))"
  by (simp add: ConsumeSIB_def stage_def Let_def)

lemma immsize_bounds [bounds]:
  "unat (kImmTypeToSize t) \<le> 6" "unat (kImmTypeToSize66 t) \<le> 6" "unat (kImmTypeToSize67 t) \<le> 6"
  by (cases t; simp add: NACL_TARGET_SUBARCH_def)+

lemma ExtractOperandSize_bound [bounds]: "ExtractOperandSize m \<le> 4"
  by (simp add: ExtractOperandSize_def NACL_TARGET_SUBARCH_def)

lemma ConsumeID_end:
  fixes cb :: "'v NCDecodeCallbacks" and v :: 'v
  assumes "unat (dispbytes (inst m)) \<le> 4" and "mpc m \<le> nextbyte m" and "nextbyte m \<le> mpc m + 9"
  defines "m' \<equiv> fst (ConsumeID cb m v)"
  shows "stage 10 m m'" and "unat (inst_length (inst m')) = nextbyte m' - mpc m'"
proof -
  have le: "nextbyte m \<le> nextbyte m' \<and> nextbyte m' \<le> nextbyte m + 10"
    using immsize_bounds [of "immtype (inst m)"] ExtractOperandSize_bound [of m] assms(1)
    unfolding m'_def by (auto simp: ConsumeID_def Let_def)
  then show "stage 10 m m'"
    unfolding m'_def by (simp add: ConsumeID_def Let_def stage_def)
  have "inst_length (inst m') = of_nat (nextbyte m' - mpc m') \<and> mpc m' = mpc m"
    unfolding m'_def by (simp add: ConsumeID_def Let_def)
  moreover have "nextbyte m' - mpc m \<le> 19" using le assms(2,3) by linarith
  ultimately show "unat (inst_length (inst m')) = nextbyte m' - mpc m'"
    by (simp add: unat_of_nat)
qed

lemma MaybeGet3ByteOpInfo_same [simp]:
  "mpc (MaybeGet3ByteOpInfo T mem m) = mpc m" "vpc (MaybeGet3ByteOpInfo T mem m) = vpc m"
  "dbindex (MaybeGet3ByteOpInfo T mem m) = dbindex m" "inst (MaybeGet3ByteOpInfo T mem m) = inst m"
  "nextbyte (MaybeGet3ByteOpInfo T mem m) = nextbyte m"
  by (simp_all add: MaybeGet3ByteOpInfo_def Let_def)

lemma InitDecoder_same [simp]:
  "mpc (InitDecoder m) = mpc m" "vpc (InitDecoder m) = vpc m" "dbindex (InitDecoder m) = dbindex m"
  "nextbyte (InitDecoder m) = nextbyte m" "maddr (inst (InitDecoder m)) = mpc m"
  "vaddr (inst (InitDecoder m)) = vpc m" "dispbytes (inst (InitDecoder m)) = 0"
  by (simp_all add: InitDecoder_def)

lemma DecodeInst_end:
  fixes T :: DecodeTables and mem :: memory and cb :: "'v NCDecodeCallbacks" and v :: 'v
  assumes "nextbyte m = mpc m"
  defines "m' \<equiv> fst (DecodeInst T cb mem m v)"
  shows "mpc m' = mpc m" "vpc m' = vpc m" "dbindex m' = dbindex m"
    "maddr (inst m') = mpc m" "vaddr (inst m') = vpc m"
    "nextbyte m' = mpc m + unat (inst_length (inst m'))"
    "0 < unat (inst_length (inst m'))" "unat (inst_length (inst m')) \<le> 19"
proof -
  define m1 where "m1 = ConsumePrefixBytes T mem (InitDecoder m)"
  obtain m2 v2 where 2: "ConsumeOpcodeBytes T cb mem m1 v = (m2, v2)" by fastforce
  obtain m3 v3 where 3: "ConsumeModRM T cb mem m2 v2 = (m3, v3)" by fastforce
  obtain m4 v4 where 4: "ConsumeSIB cb mem m3 v3 = (m4, v4)" by fastforce
  obtain m5 v5 where 5: "ConsumeID cb m4 v4 = (m5, v5)" by fastforce
  have m': "m' = MaybeGet3ByteOpInfo T mem m5"
    unfolding m'_def by (simp add: DecodeInst_def 2 3 4 5 flip: m1_def)
  have s1: "stage 4 (InitDecoder m) m1" unfolding m1_def by (rule stage_ConsumePrefixBytes)
  have s2: "stage 3 m1 m2" and lt: "nextbyte m1 < nextbyte m2"
    using stage_ConsumeOpcodeBytes [of m1 T cb mem v] by (simp_all add: 2)
  have s3: "stage 1 m2 m3" using stage_ConsumeModRM [of m2 T cb mem v2] by (simp add: 3)
  have s4: "stage 1 m3 m4" using stage_ConsumeSIB [of m3 cb mem v3] by (simp add: 4)
  have s: "stage 9 (InitDecoder m) m4"
    using stage_trans [OF stage_trans [OF stage_trans [OF s1 s2] s3] s4] by simp
  have b: "unat (dispbytes (inst m4)) \<le> 4" "mpc m4 \<le> nextbyte m4" "nextbyte m4 \<le> mpc m4 + 9"
    using s assms(1) by (auto simp: stage_def)
  note e = ConsumeID_end [OF b, of cb v4, unfolded 5 fst_conv]
  have pos: "mpc m < nextbyte m4" using s1 s2 s3 s4 lt assms(1) by (auto simp: stage_def)
  show "mpc m' = mpc m" "vpc m' = vpc m" "dbindex m' = dbindex m"
    "maddr (inst m') = mpc m" "vaddr (inst m') = vpc m"
    "nextbyte m' = mpc m + unat (inst_length (inst m'))"
    "0 < unat (inst_length (inst m'))" "unat (inst_length (inst m')) \<le> 19"
    using s e pos b assms(1) by (auto simp: m' stage_def)
qed

subsection \<open>Decoding depends on the bytes from the instruction on only\<close>

lemma viewD:
  "view m = view m' \<Longrightarrow> nextbyte m' = nextbyte m \<and> mpc m' = mpc m \<and> vpc m' = vpc m \<and>
   inst m' = inst m \<and> opinfo m' = opinfo m"
  by (simp add: view_def)

lemma view_ConsumePrefixBytes_loop:
  "view m = view m' \<Longrightarrow> agrees_from mem mem' (mpc m) \<Longrightarrow> mpc m \<le> nextbyte m \<Longrightarrow>
   view (ConsumePrefixBytes_loop T mem k m) = view (ConsumePrefixBytes_loop T mem' k m')"
proof (induction k arbitrary: m m')
  case 0
  then show ?case by simp
next
  case (Suc k)
  have eq: "mem (nextbyte m) = mem' (nextbyte m)" using Suc.prems by (simp add: agrees_fromD)
  let ?up = "\<lambda>m. m\<lparr>inst := (inst m)
     \<lparr>prefixmask := prefixmask (inst m) OR kPrefixTable T (mem' (nextbyte m))
         OR kPrefixTable T (mem' (nextbyte m)),
      prefixbytes := prefixbytes (inst m) + 1\<rparr>, nextbyte := nextbyte m + 1\<rparr>"
  have "view (ConsumePrefixBytes_loop T mem k (?up m)) = view (ConsumePrefixBytes_loop T mem' k (?up m'))"
    using Suc.prems by (intro Suc.IH) (simp_all add: view_def)
  then show ?case
    using Suc.prems(1) viewD [OF Suc.prems(1)] eq by (simp add: Let_def NACL_TARGET_SUBARCH_def)
qed

lemma view_Consume3ByteOpcode:
  "view m = view m' \<Longrightarrow>
   view (fst (Consume3ByteOpcode T cb o2 o3 m v)) = view (fst (Consume3ByteOpcode T cb' o2 o3 m' v'))"
  by (simp add: Consume3ByteOpcode_def Let_def view_def)

lemma fst_GetExtendedOpInfo:
  "view m = view m' \<Longrightarrow> fst (GetExtendedOpInfo T cb m b v) = fst (GetExtendedOpInfo T cb' m' b v')"
  by (simp add: GetExtendedOpInfo_def Let_def view_def)

lemma view_ConsumeOpcodeBytes:
  assumes "view m = view m'" and "agrees_from mem mem' (mpc m)" and "mpc m \<le> nextbyte m"
  shows "view (fst (ConsumeOpcodeBytes T cb mem m v)) = view (fst (ConsumeOpcodeBytes T cb' mem' m' v'))"
proof -
  have eq: "mem (nextbyte m) = mem' (nextbyte m)" "mem (nextbyte m + 1) = mem' (nextbyte m + 1)"
    "mem (nextbyte m + 1 + 1) = mem' (nextbyte m + 1 + 1)"
    using assms by (simp_all add: agrees_fromD)
  note f = viewD [OF assms(1)]
  let ?o = "kDecode1ByteOp T (mem (nextbyte m))"
  let ?a = "\<lambda>m. m\<lparr>opinfo := ?o, nextbyte := nextbyte m + 1\<rparr>"
  obtain p w where 1: "GetExtendedOpInfo T cb (?a m) (mem (nextbyte m + 1)) v = (p, w)" by fastforce
  obtain p' w' where 2: "GetExtendedOpInfo T cb' (?a m') (mem (nextbyte m + 1)) v' = (p', w')" by fastforce
  have "view (?a m) = view (?a m')" using f by (simp add: view_def)
  from fst_GetExtendedOpInfo [OF this] have p: "p' = p" by (metis 1 2 fst_conv)
  let ?c = "\<lambda>m. m\<lparr>opinfo := p, nextbyte := nextbyte m + 1 + 1 + 1, inst := (inst m)\<lparr>hasopbyte2 := 1, hasopbyte3 := 1\<rparr>\<rparr>"
  obtain m3 w3 where 3: "Consume3ByteOpcode T cb (mem (nextbyte m + 1)) (mem (nextbyte m + 1 + 1)) (?c m) w = (m3, w3)"
    by fastforce
  obtain m4 w4 where 4: "Consume3ByteOpcode T cb' (mem (nextbyte m + 1)) (mem (nextbyte m + 1 + 1)) (?c m') w' = (m4, w4)"
    by fastforce
  have "view (?c m) = view (?c m')" using f by (simp add: view_def)
  from view_Consume3ByteOpcode [OF this] have m3: "view m3 = view m4" by (metis 3 4 fst_conv)
  show ?thesis
  proof (cases "mem (nextbyte m) = kTwoByteOpcodeByte1")
    case False
    then show ?thesis using f eq by (simp add: ConsumeOpcodeBytes_def Let_def view_def)
  next
    case True
    show ?thesis
    proof (cases "insttype p = NACLi_3BYTE")
      case False
      then show ?thesis
        using f eq 1 2 True p by (simp add: ConsumeOpcodeBytes_def Let_def view_def)
    next
      case tb: True
      show ?thesis
        using f eq 1 2 3 4 True p tb viewD [OF m3] by (simp add: ConsumeOpcodeBytes_def Let_def view_def)
    qed
  qed
qed

lemma view_GetX87OpInfo:
  assumes "view m = view m'" and "agrees_from mem mem' (mpc m)" and "maddr (inst m) = mpc m"
  shows "view (fst (GetX87OpInfo T cb mem m v)) = view (fst (GetX87OpInfo T cb' mem' m' v'))"
  using viewD [OF assms(1)] agrees_fromD [OF assms(2), of "mpc m + unat (prefixbytes (inst m))"] assms(3)
  by (simp add: GetX87OpInfo_def Let_def view_def)

lemma view_ModRM_opinmrm:
  "view m = view m' \<Longrightarrow> view (ModRM_opinmrm T b m) = view (ModRM_opinmrm T b m')"
  by (simp add: ModRM_opinmrm_def Let_def view_def)

lemma view_ModRM_dispbytes:
  "view m = view m' \<Longrightarrow>
   view (fst (ModRM_dispbytes cb b m v)) = view (fst (ModRM_dispbytes cb' b m' v'))"
  by (simp add: ModRM_dispbytes_def Let_def view_def)

lemma view_ConsumeModRM:
  assumes "view m = view m'" and "agrees_from mem mem' (mpc m)" and "mpc m \<le> nextbyte m"
    and "maddr (inst m) = mpc m"
  shows "view (fst (ConsumeModRM T cb mem m v)) = view (fst (ConsumeModRM T cb' mem' m' v'))"
proof -
  have eq: "mem' (nextbyte m) = mem (nextbyte m)" using assms by (simp add: agrees_fromD)
  note f = viewD [OF assms(1)]
  let ?b = "mem (nextbyte m)"
  let ?a = "\<lambda>m. m\<lparr>inst := (inst m)\<lparr>mrm := ?b\<rparr>, nextbyte := nextbyte m + 1\<rparr>"
  let ?x = "if insttype (opinfo (?a m)) = NACLi_X87 then GetX87OpInfo T cb mem (?a m) v else (?a m, v)"
  let ?y = "if insttype (opinfo (?a m')) = NACLi_X87 then GetX87OpInfo T cb' mem' (?a m') v' else (?a m', v')"
  obtain n w where 1: "?x = (n, w)" by fastforce
  obtain n' w' where 2: "?y = (n', w')" by fastforce
  have va: "view (?a m) = view (?a m')" using f by (simp add: view_def)
  have "view (fst ?x) = view (fst ?y)"
    using va f view_GetX87OpInfo [OF va, of mem mem' T cb v cb' v'] assms(2,4) by simp
  then have "view n = view n'" by (simp only: 1 2 fst_conv)
  from view_ModRM_dispbytes [OF view_ModRM_opinmrm [OF this]] show ?thesis
    using 1 2 f assms(1) by (simp only: ConsumeModRM_def Let_def prod.case eq) auto
qed

lemma view_ConsumeSIB:
  assumes "view m = view m'" and "agrees_from mem mem' (mpc m)" and "mpc m \<le> nextbyte m"
  shows "view (fst (ConsumeSIB cb mem m v)) = view (fst (ConsumeSIB cb' mem' m' v'))"
proof -
  have eq: "mem (nextbyte m) = mem' (nextbyte m)" using assms by (simp add: agrees_fromD)
  have f: "nextbyte m' = nextbyte m" "mpc m' = mpc m" "vpc m' = vpc m" "inst m' = inst m" "opinfo m' = opinfo m"
    using assms(1) by (simp_all add: view_def)
  show ?thesis by (simp add: ConsumeSIB_def Let_def view_def f eq)
qed

lemma view_ConsumeID:
  assumes "view m = view m'"
  shows "view (fst (ConsumeID cb m v)) = view (fst (ConsumeID cb' m' v'))"
proof -
  have f: "nextbyte m' = nextbyte m" "mpc m' = mpc m" "vpc m' = vpc m" "inst m' = inst m" "opinfo m' = opinfo m"
    using assms(1) by (simp_all add: view_def)
  show ?thesis by (simp add: ConsumeID_def ExtractOperandSize_def Let_def view_def f)
qed

lemma view_MaybeGet3ByteOpInfo:
  assumes "view m = view m'" and "agrees_from mem mem' (mpc m)"
  shows "view (MaybeGet3ByteOpInfo T mem m) = view (MaybeGet3ByteOpInfo T mem' m')"
proof -
  have eq: "mem (mpc m + k) = mem' (mpc m + k)" for k
    using assms by (simp add: agrees_fromD)
  have f: "nextbyte m' = nextbyte m" "mpc m' = mpc m" "vpc m' = vpc m" "inst m' = inst m" "opinfo m' = opinfo m"
    using assms(1) by (simp_all add: view_def)
  show ?thesis unfolding MaybeGet3ByteOpInfo_def Let_def f eq by (simp add: view_def f)
qed


lemma view_DecodeInst:
  assumes "mpc m = mpc m'" and "vpc m = vpc m'" and "nextbyte m = mpc m" and "nextbyte m' = mpc m'"
    and ag: "agrees_from mem mem' (mpc m)"
  shows "view (fst (DecodeInst T cb mem m v)) = view (fst (DecodeInst T cb' mem' m' v'))"
proof -
  define m1 n1 where "m1 = ConsumePrefixBytes T mem (InitDecoder m)"
    and "n1 = ConsumePrefixBytes T mem' (InitDecoder m')"
  obtain m2 v2 where 2: "ConsumeOpcodeBytes T cb mem m1 v = (m2, v2)" by fastforce
  obtain m3 v3 where 3: "ConsumeModRM T cb mem m2 v2 = (m3, v3)" by fastforce
  obtain m4 v4 where 4: "ConsumeSIB cb mem m3 v3 = (m4, v4)" by fastforce
  obtain m5 v5 where 5: "ConsumeID cb m4 v4 = (m5, v5)" by fastforce
  obtain n2 w2 where 6: "ConsumeOpcodeBytes T cb' mem' n1 v' = (n2, w2)" by fastforce
  obtain n3 w3 where 7: "ConsumeModRM T cb' mem' n2 w2 = (n3, w3)" by fastforce
  obtain n4 w4 where 8: "ConsumeSIB cb' mem' n3 w3 = (n4, w4)" by fastforce
  obtain n5 w5 where 9: "ConsumeID cb' n4 w4 = (n5, w5)" by fastforce
  have l: "fst (DecodeInst T cb mem m v) = MaybeGet3ByteOpInfo T mem m5"
    by (simp add: DecodeInst_def 2 3 4 5 flip: m1_def)
  have r: "fst (DecodeInst T cb' mem' m' v') = MaybeGet3ByteOpInfo T mem' n5"
    by (simp add: DecodeInst_def 6 7 8 9 flip: n1_def)
  have s1: "stage 4 (InitDecoder m) m1" unfolding m1_def by (rule stage_ConsumePrefixBytes)
  have s2: "stage 3 m1 m2" using stage_ConsumeOpcodeBytes [of m1 T cb mem v] by (simp add: 2)
  have s3: "stage 1 m2 m3" using stage_ConsumeModRM [of m2 T cb mem v2] by (simp add: 3)
  have s4: "stage 1 m3 m4" using stage_ConsumeSIB [of m3 cb mem v3] by (simp add: 4)
  have p: "mpc m1 = mpc m \<and> mpc m2 = mpc m \<and> mpc m3 = mpc m \<and> mpc m4 = mpc m \<and> mpc m5 = mpc m \<and>
      maddr (inst m2) = mpc m \<and> mpc m \<le> nextbyte m1 \<and> mpc m \<le> nextbyte m2 \<and> mpc m \<le> nextbyte m3"
    using s1 s2 s3 s4 assms(3) 5 by (auto simp: stage_def ConsumeID_def Let_def)
  have "view (InitDecoder m) = view (InitDecoder m')" using assms by (simp add: view_def InitDecoder_def)
  then have "view m1 = view n1" unfolding m1_def n1_def ConsumePrefixBytes_def
    using ag assms(3) by (intro view_ConsumePrefixBytes_loop) simp_all
  then have "view (fst (ConsumeOpcodeBytes T cb mem m1 v)) = view (fst (ConsumeOpcodeBytes T cb' mem' n1 v'))"
    using ag p by (intro view_ConsumeOpcodeBytes) simp_all
  then have "view m2 = view n2" by (simp add: 2 6)
  then have "view (fst (ConsumeModRM T cb mem m2 v2)) = view (fst (ConsumeModRM T cb' mem' n2 w2))"
    using ag p by (intro view_ConsumeModRM) simp_all
  then have "view m3 = view n3" by (simp add: 3 7)
  then have "view (fst (ConsumeSIB cb mem m3 v3)) = view (fst (ConsumeSIB cb' mem' n3 w3))"
    using ag p by (intro view_ConsumeSIB) simp_all
  then have "view m4 = view n4" by (simp add: 4 8)
  then have "view (fst (ConsumeID cb m4 v4)) = view (fst (ConsumeID cb' n4 w4))" by (rule view_ConsumeID)
  then have "view m5 = view n5" by (simp add: 5 9)
  then show ?thesis unfolding l r using ag p by (intro view_MaybeGet3ByteOpInfo) simp_all
qed

text \<open>
  The instruction at a place of the code: the decoder run on its own, with no client. The
  buffer index of the result is 0.
\<close>

definition decode_at :: "DecodeTables \<Rightarrow> memory \<Rightarrow> u32 \<Rightarrow> nat \<Rightarrow> NCDecoderState" where
  "decode_at T mem v p =
     fst (DecodeInst T default_callbacks mem ((init_entry 0)\<lparr>mpc := p, nextbyte := p, vpc := v\<rparr>) ())"

lemma DecodeInst_decode_at:
  assumes "nextbyte m = mpc m" and "agrees_from mem mem' (mpc m)"
  shows "inst (fst (DecodeInst T cb mem m v)) = inst (decode_at T mem' (vpc m) (mpc m))"
    and "opinfo (fst (DecodeInst T cb mem m v)) = opinfo (decode_at T mem' (vpc m) (mpc m))"
  using view_DecodeInst [of m "(init_entry 0)\<lparr>mpc := mpc m, nextbyte := mpc m, vpc := vpc m\<rparr>"
      mem mem' T cb v default_callbacks "()"] assms
  by (simp_all add: decode_at_def view_def)

abbreviation len :: "NCDecoderState \<Rightarrow> nat" where
  "len m \<equiv> unat (inst_length (inst m))"

lemma decode_at_props [simp]:
  "maddr (inst (decode_at T mem v p)) = p" "vaddr (inst (decode_at T mem v p)) = v"
  "0 < inst_length (inst (decode_at T mem v p))"
  using DecodeInst_end [of "(init_entry 0)\<lparr>mpc := p, nextbyte := p, vpc := v\<rparr>" T default_callbacks mem "()"]
  by (simp_all add: decode_at_def word_less_nat_alt)

lemma decode_at_len [bounds]: "len (decode_at T mem v p) \<le> 19"
  using DecodeInst_end(8) [of "(init_entry 0)\<lparr>mpc := p, nextbyte := p, vpc := v\<rparr>" T default_callbacks mem "()"]
  by (simp add: decode_at_def)

text \<open>\<open>decodes T mem ms p v q w\<close>: \<open>ms\<close> are the instructions found from \<open>(p, v)\<close> up to \<open>(q, w)\<close>.\<close>

primrec decodes ::
    "DecodeTables \<Rightarrow> memory \<Rightarrow> NCDecoderState list \<Rightarrow> nat \<Rightarrow> u32 \<Rightarrow> nat \<Rightarrow> u32 \<Rightarrow> bool" where
  "decodes T mem [] p v q w \<longleftrightarrow> p = q \<and> v = w"
| "decodes T mem (m # ms) p v q w \<longleftrightarrow>
     m = decode_at T mem v p \<and> unat v + len m < 2 ^ 32 \<and>
     decodes T mem ms (p + len m) (v + ucast (inst_length (inst m))) q w"

lemma decodes_append:
  "decodes T mem (ms @ ns) p v q w \<longleftrightarrow>
   (\<exists>p' v'. decodes T mem ms p v p' v' \<and> decodes T mem ns p' v' q w)"
  by (induction ms arbitrary: p v) auto

subsection \<open>The clients of the decoder\<close>

text \<open>
  What the decoder relies on from the callbacks, with \<open>failed\<close> the client's error flag:
  errors raise the flag, nothing lowers it, and the action writes only the bytes of the
  current instruction.
\<close>

locale decoder_client =
  fixes cb :: "'v NCDecodeCallbacks"
    and failed :: "'v \<Rightarrow> bool"
  assumes internal_error_fails: "failed (g_InternalError cb v)"
    and segfault_fails: "failed (g_SegFault cb v)"
    and action_sticky: "failed v \<Longrightarrow> failed (snd (g_DecoderAction cb buf i mem v))"
    and action_frame:
      "a < maddr (inst (buf ! i)) \<or> maddr (inst (buf ! i)) + len (buf ! i) \<le> a \<Longrightarrow>
       fst (g_DecoderAction cb buf i mem v) a = mem a"
begin

lemma error_cases:
  "snd (GetExtendedOpInfo T cb m b v) = v \<or> failed (snd (GetExtendedOpInfo T cb m b v))"
  "snd (Consume3ByteOpcode T cb o2 o3 m v) = v \<or> failed (snd (Consume3ByteOpcode T cb o2 o3 m v))"
  "snd (GetX87OpInfo T cb mem m v) = v \<or> failed (snd (GetX87OpInfo T cb mem m v))"
  "snd (ModRM_dispbytes cb b m v) = v \<or> failed (snd (ModRM_dispbytes cb b m v))"
  "snd (ConsumeSIB cb mem m v) = v \<or> failed (snd (ConsumeSIB cb mem m v))"
  "snd (ConsumeID cb m v) = v \<or> failed (snd (ConsumeID cb m v))"
  by (simp_all add: GetExtendedOpInfo_def Consume3ByteOpcode_def GetX87OpInfo_def
      ModRM_dispbytes_def ConsumeSIB_def ConsumeID_def ErrorInternal_def Let_def
      internal_error_fails)

lemma ConsumeOpcodeBytes_cases:
  "snd (ConsumeOpcodeBytes T cb mem m v) = v \<or> failed (snd (ConsumeOpcodeBytes T cb mem m v))"
proof -
  let ?m = "m\<lparr>opinfo := kDecode1ByteOp T (mem (nextbyte m)), nextbyte := nextbyte m + 1\<rparr>"
  obtain p w where 1: "GetExtendedOpInfo T cb ?m (mem (nextbyte m + 1)) v = (p, w)" by fastforce
  then have "w = v \<or> failed w" using error_cases(1) [of T ?m "mem (nextbyte m + 1)" v] by simp
  then show ?thesis
    using 1 error_cases(2)
    by (auto simp: ConsumeOpcodeBytes_def Let_def split: prod.splits) (metis snd_conv)+
qed

end

definition same_inst :: "NCDecoderState \<Rightarrow> NCDecoderState \<Rightarrow> bool" where
  "same_inst m m' \<longleftrightarrow> inst m = inst m' \<and> opinfo m = opinfo m'"

text \<open>The entry before the current one in the circular buffer holds the instruction before.\<close>

definition prev_is :: "NCDecoderState list \<Rightarrow> nat \<Rightarrow> NCDecoderState list \<Rightarrow> bool" where
  "prev_is buf cur ms \<longleftrightarrow>
     (if ms = [] then inst_length (inst (PreviousInst buf cur (-1))) = 0
      else same_inst (PreviousInst buf cur (-1)) (last ms))"

definition buffer_ok :: "NCDecoderState list \<Rightarrow> nat \<Rightarrow> nat \<Rightarrow> bool" where
  "buffer_ok buf cur dbi \<longleftrightarrow>
     length buf = 4 \<and> (\<forall>j<4. dbindex (buf ! j) = j) \<and> cur < 4 \<and> dbi mod 4 = cur \<and>
     nextbyte (buf ! cur) = mpc (buf ! cur)"

lemma PreviousInst_eq:
  assumes "dbindex (buf ! cur) = cur"
  shows "PreviousInst buf cur (-1) = buf ! ((cur + 3) mod 4)"
proof -
  have and3: "(x :: int) AND 3 = x mod 4" for x
    using take_bit_eq_mask [of 2 x] by (simp add: take_bit_eq_mod mask_eq_exp_minus_1)
  from assms show ?thesis
    by (simp add: PreviousInst_def kDecodeBufferSize_def and3 nat_mod_distrib
        nat_add_distrib add.commute)
qed

lemma and3_nat: "(x :: nat) AND 3 = x mod 4"
  using take_bit_eq_mask [of 2 x] by (simp add: take_bit_eq_mod mask_eq_exp_minus_1)

text \<open>The next turn's buffer.\<close>

lemma buffer_step:
  fixes v :: u32 and p :: nat
  assumes b: "buffer_ok buf cur dbi" and m: "dbindex m = cur"
  defines "dbi' \<equiv> (dbi + 1) AND (kDecodeBufferSize - 1)"
  defines "buf' \<equiv> (buf[cur := m])[dbi' := (buf[cur := m] ! dbi')\<lparr>vpc := v, mpc := p, nextbyte := p\<rparr>]"
  shows "buffer_ok buf' dbi' dbi'" and "vpc (buf' ! dbi') = v" and "mpc (buf' ! dbi') = p"
    and "PreviousInst buf' dbi' (-1) = m"
proof -
  have d: "dbi' = (cur + 1) mod 4"
  proof -
    have "cur = dbi mod 4" using b by (simp add: buffer_ok_def)
    then show ?thesis by (simp add: dbi'_def kDecodeBufferSize_def and3_nat mod_Suc_eq)
  qed
  have ne: "dbi' \<noteq> cur" "dbi' < 4" "(dbi' + 3) mod 4 = cur"
    using b unfolding d by (auto simp: buffer_ok_def mod_Suc)
  show ok: "buffer_ok buf' dbi' dbi'" using b m ne
    by (auto simp: buffer_ok_def buf'_def nth_list_update)
  show "vpc (buf' ! dbi') = v" "mpc (buf' ! dbi') = p"
    using b ne by (simp_all add: buf'_def buffer_ok_def)
  show "PreviousInst buf' dbi' (-1) = m"
    using ok b ne by (simp add: PreviousInst_eq buffer_ok_def) (simp add: buf'_def)
qed

context decoder_client
begin

lemma ConsumeModRM_cases:
  "snd (ConsumeModRM T cb mem m v) = v \<or> failed (snd (ConsumeModRM T cb mem m v))"
proof -
  have c: "snd (ModRM_dispbytes cb b n w) = w \<or> failed (snd (ModRM_dispbytes cb b n w))" for b n w
    by (rule error_cases)
  let ?m = "m\<lparr>inst := (inst m)\<lparr>mrm := mem (nextbyte m)\<rparr>, nextbyte := nextbyte m + 1\<rparr>"
  obtain n w where 1: "GetX87OpInfo T cb mem ?m v = (n, w)" by fastforce
  then have "w = v \<or> failed w" using error_cases(3) [of T mem ?m v] by simp
  then show ?thesis
    using 1 c [of "mem (nextbyte m)" "ModRM_opinmrm T (mem (nextbyte m)) n" w]
      c [of "mem (nextbyte m)" "ModRM_opinmrm T (mem (nextbyte m)) ?m" v]
    by (auto simp: ConsumeModRM_def Let_def)
qed

text \<open>Decoding an instruction leaves the client's state alone or fails.\<close>

lemma DecodeInst_cases: "snd (DecodeInst T cb mem m v) = v \<or> failed (snd (DecodeInst T cb mem m v))"
proof -
  define m1 where "m1 = ConsumePrefixBytes T mem (InitDecoder m)"
  obtain m2 v2 where 2: "ConsumeOpcodeBytes T cb mem m1 v = (m2, v2)" by fastforce
  obtain m3 v3 where 3: "ConsumeModRM T cb mem m2 v2 = (m3, v3)" by fastforce
  obtain m4 v4 where 4: "ConsumeSIB cb mem m3 v3 = (m4, v4)" by fastforce
  obtain m5 v5 where 5: "ConsumeID cb m4 v4 = (m5, v5)" by fastforce
  have "snd (DecodeInst T cb mem m v) = v5"
    by (simp add: DecodeInst_def 2 3 4 5 flip: m1_def)
  moreover have "v2 = v \<or> failed v2" using ConsumeOpcodeBytes_cases [of T mem m1 v] 2 by simp
  moreover have "v3 = v2 \<or> failed v3" using ConsumeModRM_cases [of T mem m2 v2] 3 by simp
  moreover have "v4 = v3 \<or> failed v4" using error_cases(5) [of mem m3 v3] 4 by simp
  moreover have "v5 = v4 \<or> failed v5" using error_cases(6) [of m4 v4] 5 by simp
  ultimately show ?thesis by metis
qed

lemma DecodeInst_sticky: "failed v \<Longrightarrow> failed (snd (DecodeInst T cb mem m v))"
  using DecodeInst_cases [of T mem m v] by auto

lemma loop_sticky:
  "NCDecodeSegment_loop T cb vlimit fuel buf cur dbi mem v = Some (mem', v') \<Longrightarrow>
   failed v \<Longrightarrow> failed v'"
proof (induction fuel arbitrary: buf cur dbi mem v)
  case 0
  then show ?case by simp
next
  case (Suc fuel)
  obtain m w where m: "DecodeInst T cb mem (buf ! cur) v = (m, w)" by fastforce
  obtain mem1 w1 where a: "g_DecoderAction cb (buf[cur := m]) cur mem w = (mem1, w1)" by fastforce
  have "failed w" using DecodeInst_sticky [OF Suc.prems(2), of T mem "buf ! cur"] m by simp
  then have "failed w1" using action_sticky [of w "buf[cur := m]" cur mem] a by simp
  with Suc.prems m a show ?case
    by (auto simp: Let_def ErrorSegmentation_def segfault_fails split: if_splits intro: Suc.IH)
qed

text \<open>
  The proof rule for a run of the decoder: an invariant over the instructions seen so far
  that every accepted action keeps holds at the end of a run that has not failed, and the
  instructions seen are those of the code as it was at the start.
\<close>

lemma loop_rule:
  assumes step: "\<And>ms m buf i mem v. Inv ms mem v \<Longrightarrow> prev_is buf i ms \<Longrightarrow> same_inst (buf ! i) m \<Longrightarrow>
      agrees_from mem mem0 (maddr (inst m)) \<Longrightarrow>
      decodes T mem0 ms p0 v0 (maddr (inst m)) (vaddr (inst m)) \<Longrightarrow>
      m = decode_at T mem0 (vaddr (inst m)) (maddr (inst m)) \<Longrightarrow>
      unat (vaddr (inst m)) + len m \<le> unat vlimit \<Longrightarrow>
      \<not> failed (snd (g_DecoderAction cb buf i mem v)) \<Longrightarrow>
      Inv (ms @ [m]) (fst (g_DecoderAction cb buf i mem v)) (snd (g_DecoderAction cb buf i mem v))"
    and nowrap: "unat vlimit + 19 < 2 ^ 32"
  shows "NCDecodeSegment_loop T cb vlimit fuel buf cur dbi mem v = Some (mem', v') \<Longrightarrow> \<not> failed v' \<Longrightarrow>
    Inv ms mem v \<Longrightarrow> buffer_ok buf cur dbi \<Longrightarrow> prev_is buf cur ms \<Longrightarrow>
    agrees_from mem mem0 (mpc (buf ! cur)) \<Longrightarrow>
    decodes T mem0 ms p0 v0 (mpc (buf ! cur)) (vpc (buf ! cur)) \<Longrightarrow> vpc (buf ! cur) \<le> vlimit \<Longrightarrow>
    \<exists>ms' q. decodes T mem0 ms' p0 v0 q vlimit \<and> Inv ms' mem' v'"
proof (induction fuel arbitrary: buf cur dbi mem v ms)
  case 0
  then show ?case by simp
next
  case (Suc fuel)
  let ?c = "buf ! cur"
  show ?case
  proof (cases "vpc ?c < vlimit")
    case False
    with Suc.prems have "vpc ?c = vlimit" "mem' = mem" "v' = v" by auto
    with Suc.prems show ?thesis by auto
  next
    case True
    obtain m w where m: "DecodeInst T cb mem ?c v = (m, w)" by fastforce
    define d where "d = decode_at T mem0 (vpc ?c) (mpc ?c)"
    have nb: "nextbyte ?c = mpc ?c" and cur: "cur < length buf" "dbindex ?c = cur"
      using Suc.prems(4) by (simp_all add: buffer_ok_def)
    have mp: "mpc m = mpc ?c" "vpc m = vpc ?c" "dbindex m = cur" "nextbyte m = mpc ?c + len m"
      using DecodeInst_end [OF nb, of T cb mem v] cur by (simp_all add: m)
    have sd: "inst m = inst d" "opinfo m = opinfo d"
      using DecodeInst_decode_at [OF nb Suc.prems(6), of T cb v] by (simp_all add: m d_def)
    have d: "maddr (inst d) = mpc ?c" "vaddr (inst d) = vpc ?c" "len d \<le> 19"
      using bounds by (simp_all add: d_def)
    let ?buf = "buf[cur := m]"
    let ?pc = "vpc m + ucast (inst_length (inst m))"
    have pc: "unat ?pc = unat (vpc ?c) + len d"
      using True nowrap d(3) by (simp add: mp sd unat_add_u8 word_less_nat_alt)
    obtain mem1 w1 where a: "g_DecoderAction cb ?buf cur mem w = (mem1, w1)" by fastforce
    have le: "\<not> ?pc > vlimit"
      using Suc.prems(1,2) True m by (auto simp: Let_def ErrorSegmentation_def segfault_fails split: if_splits)
    define dbi' where "dbi' = (dbi + 1) AND (kDecodeBufferSize - 1)"
    define buf' where "buf' = ?buf[dbi' := (?buf ! dbi')\<lparr>vpc := ?pc, mpc := mpc ?c + len m, nextbyte := mpc ?c + len m\<rparr>]"
    have run: "NCDecodeSegment_loop T cb vlimit fuel buf' dbi' dbi' mem1 w1 = Some (mem', v')"
      using Suc.prems(1) True m le a mp by (simp add: Let_def buf'_def dbi'_def)
    note bs = buffer_step [OF Suc.prems(4) mp(3), where v = ?pc and p = "mpc ?c + len m", folded dbi'_def, folded buf'_def]
    have nf: "\<not> failed w1" using loop_sticky [OF run] Suc.prems(2) by blast
    have "\<not> failed w" using action_sticky [of w ?buf cur mem] a nf by auto
    then have w: "w = v" using DecodeInst_cases [of T mem ?c v] m by auto
    have pr: "prev_is ?buf cur ms"
    proof -
      have "cur < 4" using Suc.prems(4) by (simp add: buffer_ok_def)
      then have "(cur + 3) mod 4 \<noteq> cur" by presburger
      then have "PreviousInst ?buf cur (-1) = PreviousInst buf cur (-1)"
        using mp(3) cur by (simp add: PreviousInst_eq)
      then show ?thesis using Suc.prems(5) by (simp add: prev_is_def)
    qed
    have "Inv (ms @ [d]) mem1 w1"
      using step [OF Suc.prems(3) pr, of d] a w nf d sd cur le pc Suc.prems(6,7)
      by (simp add: same_inst_def word_le_nat_alt not_less flip: d_def)
    moreover have "prev_is buf' dbi' (ms @ [d])" using bs(4) sd by (simp add: prev_is_def same_inst_def)
    moreover have "agrees_from mem1 mem0 (mpc (buf' ! dbi'))"
      using Suc.prems(6) action_frame [of _ ?buf cur mem w] a sd d cur unfolding bs(3)
      by (auto simp: agrees_from_def)
    moreover have "decodes T mem0 (ms @ [d]) p0 v0 (mpc (buf' ! dbi')) (vpc (buf' ! dbi'))"
      using Suc.prems(7) pc True nowrap d(3) unfolding bs(2,3)
      by (auto simp: decodes_append mp sd word_less_nat_alt simp flip: d_def)
    ultimately show ?thesis
      using Suc.IH [OF run Suc.prems(2)] bs le by (simp add: not_less)
  qed
qed

end

text \<open>One unit of fuel per byte is enough when addresses do not wrap.\<close>

lemma loop_returns:
  assumes nowrap: "unat vlimit + 19 < 2 ^ 32"
  shows "buffer_ok buf cur dbi \<Longrightarrow> unat vlimit - unat (vpc (buf ! cur)) < fuel \<Longrightarrow>
    \<exists>r. NCDecodeSegment_loop T cb vlimit fuel buf cur dbi mem v = Some r"
proof (induction fuel arbitrary: buf cur dbi mem v)
  case 0
  then show ?case by simp
next
  case (Suc fuel)
  let ?c = "buf ! cur"
  show ?case
  proof (cases "vpc ?c < vlimit")
    case False
    then show ?thesis by simp
  next
    case True
    obtain m w where m: "DecodeInst T cb mem ?c v = (m, w)" by fastforce
    have nb: "nextbyte ?c = mpc ?c" and cur: "cur < length buf" "dbindex ?c = cur"
      using Suc.prems(1) by (simp_all add: buffer_ok_def)
    have mp: "mpc m = mpc ?c" "vpc m = vpc ?c" "dbindex m = cur" "nextbyte m = mpc ?c + len m" "0 < len m" "len m \<le> 19"
      using DecodeInst_end [OF nb, of T cb mem v] cur by (simp_all add: m)
    let ?buf = "buf[cur := m]"
    let ?pc = "vpc m + ucast (inst_length (inst m))"
    have pc: "unat ?pc = unat (vpc ?c) + len m"
      using True nowrap mp(6) by (simp add: mp(2) unat_add_u8 word_less_nat_alt)
    obtain mem1 w1 where a: "g_DecoderAction cb ?buf cur mem w = (mem1, w1)" by fastforce
    note bs = buffer_step [OF Suc.prems(1) mp(3), where v = ?pc and p = "mpc ?c + len m"]
    show ?thesis
      using Suc.IH [OF bs(1), of mem1 w1] bs(2) Suc.prems(2) True m a mp pc
      by (simp add: Let_def word_less_nat_alt)
  qed
qed

subsection \<open>Decoding depends on the bytes of the instruction only\<close>

definition agrees_on :: "memory \<Rightarrow> memory \<Rightarrow> nat \<Rightarrow> nat \<Rightarrow> bool" where
  "agrees_on mem mem' p q \<longleftrightarrow> (\<forall>a. p \<le> a \<longrightarrow> a < q \<longrightarrow> mem a = mem' a)"

lemma agrees_onD: "agrees_on mem mem' p q \<Longrightarrow> p \<le> a \<Longrightarrow> a < q \<Longrightarrow> mem' a = mem a"
  by (simp add: agrees_on_def)

lemma local_ConsumePrefixBytes_loop:
  "agrees_on mem mem' (nextbyte m) (nextbyte (ConsumePrefixBytes_loop T mem k m) + 1) \<Longrightarrow>
   ConsumePrefixBytes_loop T mem' k m = ConsumePrefixBytes_loop T mem k m"
proof (induction k arbitrary: m)
  case 0
  then show ?case by simp
next
  case (Suc k)
  have le: "nextbyte m \<le> nextbyte (ConsumePrefixBytes_loop T mem (Suc k) m)"
    using stage_ConsumePrefixBytes_loop [of "Suc k" m T mem] by (simp add: stage_def)
  have eq: "mem' (nextbyte m) = mem (nextbyte m)"
    using agrees_onD [OF Suc.prems] le by simp
  let ?up = "m\<lparr>inst := (inst m)
     \<lparr>prefixmask := prefixmask (inst m) OR kPrefixTable T (mem (nextbyte m))
         OR kPrefixTable T (mem (nextbyte m)),
      prefixbytes := prefixbytes (inst m) + 1\<rparr>, nextbyte := nextbyte m + 1\<rparr>"
  show ?case
  proof (cases "kPrefixTable T (mem (nextbyte m)) = 0")
    case True
    then show ?thesis using eq by simp
  next
    case False
    then have "ConsumePrefixBytes_loop T mem (Suc k) m = ConsumePrefixBytes_loop T mem k ?up"
      "ConsumePrefixBytes_loop T mem' (Suc k) m = ConsumePrefixBytes_loop T mem' k ?up"
      using eq by (simp_all add: Let_def NACL_TARGET_SUBARCH_def)
    with Suc.prems Suc.IH [of ?up] show ?thesis
      by (simp add: agrees_on_def del: ConsumePrefixBytes_loop.simps)
  qed
qed

lemma prefixbytes_loop:
  "nextbyte m = mpc m + unat (prefixbytes (inst m)) \<Longrightarrow> unat (prefixbytes (inst m)) + k < 256 \<Longrightarrow>
   nextbyte (ConsumePrefixBytes_loop T mem k m) =
     mpc m + unat (prefixbytes (inst (ConsumePrefixBytes_loop T mem k m)))"
proof (induction k arbitrary: m)
  case 0
  then show ?case by simp
next
  case (Suc k)
  let ?up = "m\<lparr>inst := (inst m)
     \<lparr>prefixmask := prefixmask (inst m) OR kPrefixTable T (mem (nextbyte m))
         OR kPrefixTable T (mem (nextbyte m)),
      prefixbytes := prefixbytes (inst m) + 1\<rparr>, nextbyte := nextbyte m + 1\<rparr>"
  have "unat (prefixbytes (inst m) + 1) = unat (prefixbytes (inst m)) + 1"
    using Suc.prems(2) by (subst unat_add_no_wrap) simp_all
  with Suc.prems Suc.IH [of ?up] show ?case
    by (simp add: Let_def NACL_TARGET_SUBARCH_def)
qed

lemma local_ConsumeOpcodeBytes:
  assumes "agrees_on mem mem' (nextbyte m) (nextbyte (fst (ConsumeOpcodeBytes T cb mem m v)))"
  shows "ConsumeOpcodeBytes T cb mem' m v = ConsumeOpcodeBytes T cb mem m v"
proof -
  let ?n = "nextbyte m"
  let ?a = "m\<lparr>opinfo := kDecode1ByteOp T (mem ?n), nextbyte := ?n + 1\<rparr>"
  have 0: "mem' ?n = mem ?n"
    using agrees_onD [OF assms, of ?n] stage_ConsumeOpcodeBytes [of m T cb mem v] by simp
  obtain p w where g: "GetExtendedOpInfo T cb ?a (mem (?n + 1)) v = (p, w)" by fastforce
  show ?thesis
  proof (cases "mem ?n = kTwoByteOpcodeByte1")
    case False
    then show ?thesis using 0 by (simp add: ConsumeOpcodeBytes_def)
  next
    case True
    show ?thesis
    proof (cases "insttype p = NACLi_3BYTE")
      case False
      then have "nextbyte (fst (ConsumeOpcodeBytes T cb mem m v)) = ?n + 2"
        using True g by (simp add: ConsumeOpcodeBytes_def Let_def)
      then have "mem' (?n + 1) = mem (?n + 1)" using agrees_onD [OF assms, of "?n + 1"] by simp
      then show ?thesis using 0 True False g by (simp add: ConsumeOpcodeBytes_def Let_def)
    next
      case tb: True
      let ?c = "m\<lparr>opinfo := p, nextbyte := ?n + 1 + 1 + 1, inst := (inst m)\<lparr>hasopbyte2 := 1, hasopbyte3 := 1\<rparr>\<rparr>"
      obtain m3 w3 where 3: "Consume3ByteOpcode T cb (mem (?n + 1)) (mem (?n + 1 + 1)) ?c w = (m3, w3)"
        by fastforce
      have "nextbyte (fst (Consume3ByteOpcode T cb o2 o3 x y)) = nextbyte x" for o2 o3 x y
        by (simp add: Consume3ByteOpcode_def Let_def)
      from this [of "mem (?n + 1)" "mem (?n + 1 + 1)" ?c w] have "nextbyte m3 = ?n + 3"
        by (simp only: 3 fst_conv) simp
      then have "nextbyte (fst (ConsumeOpcodeBytes T cb mem m v)) = ?n + 3"
        using True g tb 3 by (simp add: ConsumeOpcodeBytes_def Let_def)
      then have "mem' (?n + 1) = mem (?n + 1)" "mem' (?n + 1 + 1) = mem (?n + 1 + 1)"
        using agrees_onD [OF assms] by simp_all
      then show ?thesis using 0 True tb g by (simp add: ConsumeOpcodeBytes_def Let_def)
    qed
  qed
qed


lemma ConsumeOpcodeBytes_prefix:
  fixes T :: DecodeTables and mem :: memory and cb :: "'v NCDecodeCallbacks" and v :: 'v
  assumes "nextbyte m = mpc m + unat (prefixbytes (inst m))"
  defines "m' \<equiv> fst (ConsumeOpcodeBytes T cb mem m v)"
  shows "prefixbytes (inst m') = prefixbytes (inst m)"
    and "nextbyte m < nextbyte m'"
    and "mem (nextbyte m) = kTwoByteOpcodeByte1 \<Longrightarrow> nextbyte m + 1 < nextbyte m'"
  unfolding m'_def
  by (simp_all add: ConsumeOpcodeBytes_def Consume3ByteOpcode_def GetExtendedOpInfo_def Let_def
      split: prod.splits)

lemma local_ConsumeModRM:
  assumes ag: "agrees_on mem mem' (mpc m) (nextbyte (fst (ConsumeModRM T cb mem m v)))"
    and "mpc m \<le> nextbyte m" and "maddr (inst m) = mpc m"
    and "mpc m + unat (prefixbytes (inst m)) < nextbyte m"
  shows "ConsumeModRM T cb mem' m v = ConsumeModRM T cb mem m v"
proof (cases "hasmrmbyte (opinfo m) = 0")
  case True
  then show ?thesis by (simp add: ConsumeModRM_def)
next
  case False
  let ?n = "nextbyte m"
  let ?a = "m\<lparr>inst := (inst m)\<lparr>mrm := mem ?n\<rparr>, nextbyte := ?n + 1\<rparr>"
  obtain n w where 1: "(if insttype (opinfo ?a) = NACLi_X87 then GetX87OpInfo T cb mem ?a v else (?a, v)) = (n, w)"
    by fastforce
  have "stage 0 ?a n"
    using 1 stage_GetX87OpInfo [of ?a T cb mem v] stage_refl [of 0 ?a] by (auto split: if_splits)
  moreover have "stage 0 n (fst (ModRM_dispbytes cb (mem ?n) (ModRM_opinmrm T (mem ?n) n) w))"
    using stage_trans [OF stage_ModRM_opinmrm stage_ModRM_dispbytes] by simp
  moreover have r: "ConsumeModRM T cb mem m v = ModRM_dispbytes cb (mem ?n) (ModRM_opinmrm T (mem ?n) n) w"
    using False 1 by (simp only: ConsumeModRM_def Let_def prod.case if_False simp_thms not_False_eq_True if_True)
  ultimately have nb: "nextbyte (fst (ConsumeModRM T cb mem m v)) = ?n + 1"
    by (simp add: stage_def)
  have eq: "mem' ?n = mem ?n"
    "mem' (maddr (inst m) + unat (prefixbytes (inst m))) = mem (maddr (inst m) + unat (prefixbytes (inst m)))"
    using assms nb by (auto intro!: agrees_onD [OF ag])
  then have "GetX87OpInfo T cb mem' ?a v = GetX87OpInfo T cb mem ?a v"
    by (simp add: GetX87OpInfo_def)
  then show ?thesis
    unfolding r using False 1 eq(1)
    by (simp only: ConsumeModRM_def Let_def prod.case if_False simp_thms not_False_eq_True if_True)
qed

lemma local_ConsumeSIB:
  assumes "agrees_on mem mem' (nextbyte m) (nextbyte (fst (ConsumeSIB cb mem m v)))"
  shows "ConsumeSIB cb mem' m v = ConsumeSIB cb mem m v"
proof (cases "hassibbyte (inst m) = 0")
  case True
  then show ?thesis by (simp add: ConsumeSIB_def)
next
  case False
  then have "nextbyte (fst (ConsumeSIB cb mem m v)) = nextbyte m + 1"
    by (simp add: ConsumeSIB_def Let_def)
  then have "mem' (nextbyte m) = mem (nextbyte m)" using agrees_onD [OF assms] by simp
  then show ?thesis by (simp add: ConsumeSIB_def)
qed

lemma keeps_prefixbytes:
  "prefixbytes (inst (fst (ConsumeModRM T cb mem m v))) = prefixbytes (inst m)"
  "prefixbytes (inst (fst (ConsumeSIB cb mem m v))) = prefixbytes (inst m)"
  "prefixbytes (inst (fst (ConsumeID cb m v))) = prefixbytes (inst m)"
proof -
  show "prefixbytes (inst (fst (ConsumeSIB cb mem m v))) = prefixbytes (inst m)"
    "prefixbytes (inst (fst (ConsumeID cb m v))) = prefixbytes (inst m)"
    by (simp_all add: ConsumeSIB_def ConsumeID_def Let_def)
  have d: "prefixbytes (inst (fst (ModRM_dispbytes cb b n w))) = prefixbytes (inst n)" for b n w
    by (simp add: ModRM_dispbytes_def Let_def)
  have o: "prefixbytes (inst (ModRM_opinmrm T b n)) = prefixbytes (inst n)" for b n
    by (simp add: ModRM_opinmrm_def Let_def)
  have x: "prefixbytes (inst (fst (GetX87OpInfo T cb mem n w))) = prefixbytes (inst n)" for n w
    by (simp add: GetX87OpInfo_def Let_def)
  let ?a = "m\<lparr>inst := (inst m)\<lparr>mrm := mem (nextbyte m)\<rparr>, nextbyte := nextbyte m + 1\<rparr>"
  obtain n w where 1: "GetX87OpInfo T cb mem ?a v = (n, w)" by fastforce
  have "prefixbytes (inst n) = prefixbytes (inst m)" using x [of ?a v] by (simp only: 1 fst_conv) simp
  then show "prefixbytes (inst (fst (ConsumeModRM T cb mem m v))) = prefixbytes (inst m)"
    using 1 by (simp add: ConsumeModRM_def Let_def d o)
qed

lemma decode_local:
  assumes ag: "agrees_on mem mem' p (p + len (decode_at T mem v p))"
  shows "decode_at T mem' v p = decode_at T mem v p"
proof -
  let ?cb = "default_callbacks :: unit NCDecodeCallbacks"
  define m where "m = (init_entry 0)\<lparr>mpc := p, nextbyte := p, vpc := v\<rparr>"
  define m1 where "m1 = ConsumePrefixBytes T mem (InitDecoder m)"
  obtain m2 where 2: "ConsumeOpcodeBytes T ?cb mem m1 () = (m2, ())" by (metis surj_pair old.unit.exhaust)
  obtain m3 where 3: "ConsumeModRM T ?cb mem m2 () = (m3, ())" by (metis surj_pair old.unit.exhaust)
  obtain m4 where 4: "ConsumeSIB ?cb mem m3 () = (m4, ())" by (metis surj_pair old.unit.exhaust)
  obtain m5 where 5: "ConsumeID ?cb m4 () = (m5, ())" by (metis surj_pair old.unit.exhaust)
  define e where "e = p + len (decode_at T mem v p)"
  have m0: "nextbyte m = mpc m" "mpc m = p" by (simp_all add: m_def)
  have l: "decode_at T mem v p = MaybeGet3ByteOpInfo T mem m5"
    by (simp add: decode_at_def DecodeInst_def 2 3 4 5 flip: m1_def m_def)
  have e: "nextbyte m5 = e" "inst_length (inst m5) = inst_length (inst (decode_at T mem v p))"
    using DecodeInst_end(6) [OF m0(1), of T ?cb mem "()"] l m0 unfolding e_def decode_at_def
    by (simp_all flip: m_def)
  have s1: "stage 4 (InitDecoder m) m1" unfolding m1_def by (rule stage_ConsumePrefixBytes)
  have s2: "stage 3 m1 m2" using stage_ConsumeOpcodeBytes [of m1 T ?cb mem "()"] by (simp add: 2)
  have s3: "stage 1 m2 m3" using stage_ConsumeModRM [of m2 T ?cb mem "()"] by (simp add: 3)
  have s4: "stage 1 m3 m4" using stage_ConsumeSIB [of m3 ?cb mem "()"] by (simp add: 4)
  have s5: "nextbyte m4 \<le> nextbyte m5 \<and> mpc m5 = mpc m4" using 5 by (auto simp: ConsumeID_def Let_def)
  have pre: "nextbyte m1 = mpc m1 + unat (prefixbytes (inst m1))"
    using prefixbytes_loop [of "InitDecoder m" 4 T mem] s1 m0
    by (simp add: m1_def ConsumePrefixBytes_def kMaxPrefixBytes_def InitDecoder_def stage_def)
  note op = ConsumeOpcodeBytes_prefix [OF pre, where T = T and mem = mem and cb = ?cb and v = "()", unfolded 2 fst_conv]
  have pb: "prefixbytes (inst m5) = prefixbytes (inst m1)"
    using op(1) keeps_prefixbytes(1) [of T ?cb mem m2 "()"] keeps_prefixbytes(2) [of ?cb mem m3 "()"]
      keeps_prefixbytes(3) [of ?cb m4 "()"] by (simp add: 3 4 5)
  have pc: "mpc m1 = p" "mpc m2 = p" "mpc m3 = p" "mpc m5 = p" "maddr (inst m2) = p"
    "p \<le> nextbyte m1" "nextbyte m1 < nextbyte m2" "nextbyte m2 \<le> nextbyte m3"
    "nextbyte m3 \<le> nextbyte m4" "nextbyte m4 \<le> e"
    using s1 s2 s3 s4 s5 op(2) e m0 by (auto simp: stage_def)
  have sub: "agrees_on mem mem' a b" if "p \<le> a" "b \<le> e" for a b
    using ag that by (auto simp: agrees_on_def e_def)
  have l1: "ConsumePrefixBytes T mem' (InitDecoder m) = m1"
    using local_ConsumePrefixBytes_loop [of mem mem' "InitDecoder m" T kMaxPrefixBytes] sub m0 pc
    by (simp add: m1_def ConsumePrefixBytes_def)
  have l2: "ConsumeOpcodeBytes T ?cb mem' m1 () = (m2, ())"
    using local_ConsumeOpcodeBytes [of mem mem' m1 T ?cb "()"] sub pc by (simp add: 2)
  have l3: "ConsumeModRM T ?cb mem' m2 () = (m3, ())"
    using local_ConsumeModRM [of mem mem' m2 T ?cb "()"] sub pc op(1) pre by (simp add: 3)
  have l4: "ConsumeSIB ?cb mem' m3 () = (m4, ())"
    using local_ConsumeSIB [of mem mem' m3 ?cb "()"] sub pc by (simp add: 4)
  have "MaybeGet3ByteOpInfo T mem' m5 = MaybeGet3ByteOpInfo T mem m5"
  proof -
    let ?k = "unat (prefixbytes (inst m5))"
    have "0 < len (decode_at T mem v p)" by (simp flip: word_less_nat_alt [of 0, simplified])
    then have "mem' (mpc m5 + (len m5 - 1)) = mem (mpc m5 + (len m5 - 1))"
      unfolding e(2) by (intro agrees_onD [OF ag]) (simp_all add: pc)
    moreover have o: "mem' (mpc m5 + ?k) = mem (mpc m5 + ?k)"
      using pc pre pb by (intro agrees_onD [OF sub, of p e]) simp_all
    moreover have "mem (mpc m5 + ?k) = kTwoByteOpcodeByte1 \<Longrightarrow>
        mem' (mpc m5 + (?k + 1)) = mem (mpc m5 + (?k + 1))"
      using pc pre pb op(3) by (intro agrees_onD [OF sub, of p e]) simp_all
    ultimately show ?thesis by (auto simp: MaybeGet3ByteOpInfo_def Let_def)
  qed
  then show ?thesis
    unfolding l by (simp add: decode_at_def DecodeInst_def l1 l2 l3 l4 5 flip: m_def)
qed

subsection \<open>Properties of the client's state that the callbacks keep\<close>

locale client_invariant =
  fixes cb :: "'v NCDecodeCallbacks"
    and P :: "'v \<Rightarrow> bool"
  assumes internal_error_keeps: "P v \<Longrightarrow> P (g_InternalError cb v)"
    and segfault_keeps: "P v \<Longrightarrow> P (g_SegFault cb v)"
    and new_segment_keeps: "P v \<Longrightarrow> P (g_NewSegment cb v)"
    and action_keeps: "P v \<Longrightarrow> P (snd (g_DecoderAction cb buf i mem v))"
begin

lemma parts_keep:
  assumes "P v"
  shows "P (snd (GetExtendedOpInfo T cb m b v))" "P (snd (Consume3ByteOpcode T cb o2 o3 m v))"
    "P (snd (GetX87OpInfo T cb mem m v))" "P (snd (ModRM_dispbytes cb b m v))"
    "P (snd (ConsumeSIB cb mem m v))" "P (snd (ConsumeID cb m v))"
  using assms
  by (simp_all add: GetExtendedOpInfo_def Consume3ByteOpcode_def GetX87OpInfo_def
      ModRM_dispbytes_def ConsumeSIB_def ConsumeID_def ErrorInternal_def Let_def
      internal_error_keeps)

lemma ConsumeOpcodeBytes_keeps:
  assumes "P v"
  shows "P (snd (ConsumeOpcodeBytes T cb mem m v))"
proof -
  let ?m = "m\<lparr>opinfo := kDecode1ByteOp T (mem (nextbyte m)), nextbyte := nextbyte m + 1\<rparr>"
  obtain p w where 1: "GetExtendedOpInfo T cb ?m (mem (nextbyte m + 1)) v = (p, w)" by fastforce
  then have "P w" using parts_keep(1) [OF assms, of T ?m "mem (nextbyte m + 1)"] by simp
  then show ?thesis
    using 1 assms parts_keep(2) [of w]
    by (auto simp: ConsumeOpcodeBytes_def Let_def split: prod.splits) (metis snd_conv)+
qed

lemma ConsumeModRM_keeps:
  assumes "P v"
  shows "P (snd (ConsumeModRM T cb mem m v))"
proof -
  let ?m = "m\<lparr>inst := (inst m)\<lparr>mrm := mem (nextbyte m)\<rparr>, nextbyte := nextbyte m + 1\<rparr>"
  obtain n w where 1: "GetX87OpInfo T cb mem ?m v = (n, w)" by fastforce
  then have "P w" using parts_keep(3) [OF assms, of T mem ?m] by simp
  then show ?thesis
    using 1 assms parts_keep(4) [of w] parts_keep(4) [of v] by (auto simp: ConsumeModRM_def Let_def)
qed

lemma DecodeInst_keeps:
  assumes "P v"
  shows "P (snd (DecodeInst T cb mem m v))"
proof -
  define m1 where "m1 = ConsumePrefixBytes T mem (InitDecoder m)"
  obtain m2 v2 where 2: "ConsumeOpcodeBytes T cb mem m1 v = (m2, v2)" by fastforce
  obtain m3 v3 where 3: "ConsumeModRM T cb mem m2 v2 = (m3, v3)" by fastforce
  obtain m4 v4 where 4: "ConsumeSIB cb mem m3 v3 = (m4, v4)" by fastforce
  obtain m5 v5 where 5: "ConsumeID cb m4 v4 = (m5, v5)" by fastforce
  have "P v2" using ConsumeOpcodeBytes_keeps [OF assms, of T mem m1] 2 by simp
  then have "P v3" using ConsumeModRM_keeps [of v2 T mem m2] 3 by simp
  then have "P v4" using parts_keep(5) [of v3 mem m3] 4 by simp
  then have "P v5" using parts_keep(6) [of v4 m4] 5 by simp
  then show ?thesis by (simp add: DecodeInst_def 2 3 4 5 flip: m1_def)
qed

lemma loop_keeps:
  "NCDecodeSegment_loop T cb vlimit fuel buf cur dbi mem v = Some (mem', v') \<Longrightarrow> P v \<Longrightarrow> P v'"
proof (induction fuel arbitrary: buf cur dbi mem v)
  case 0
  then show ?case by simp
next
  case (Suc fuel)
  obtain m w where m: "DecodeInst T cb mem (buf ! cur) v = (m, w)" by fastforce
  obtain mem1 w1 where a: "g_DecoderAction cb (buf[cur := m]) cur mem w = (mem1, w1)" by fastforce
  have "P w" using DecodeInst_keeps [OF Suc.prems(2), of T mem "buf ! cur"] m by simp
  then have "P w1" using action_keeps [of w "buf[cur := m]" cur mem] a by simp
  with Suc.prems m a \<open>P w\<close> show ?case
    by (auto simp: Let_def ErrorSegmentation_def segfault_keeps split: if_splits intro: Suc.IH)
qed

lemma NCDecodeSegment_keeps:
  "NCDecodeSegment T cb mbase vbase sz mem v = Some (mem', v') \<Longrightarrow> P v \<Longrightarrow> P v'"
  unfolding NCDecodeSegment_def Let_def by (rule loop_keeps, assumption, rule new_segment_keeps)

end

text \<open>Whatever the outcome, a run writes inside the segment only.\<close>

context decoder_client
begin

lemma loop_frame:
  assumes nowrap: "unat vlimit + 19 < 2 ^ 32"
  shows "NCDecodeSegment_loop T cb vlimit fuel buf cur dbi mem v = Some (mem', v') \<Longrightarrow>
    buffer_ok buf cur dbi \<Longrightarrow>
    a < mpc (buf ! cur) \<or> mpc (buf ! cur) + (unat vlimit - unat (vpc (buf ! cur))) \<le> a \<Longrightarrow>
    mem' a = mem a"
proof (induction fuel arbitrary: buf cur dbi mem v)
  case 0
  then show ?case by simp
next
  case (Suc fuel)
  let ?c = "buf ! cur"
  show ?case
  proof (cases "vpc ?c < vlimit")
    case False
    then show ?thesis using Suc.prems(1) by simp
  next
    case True
    obtain m w where m: "DecodeInst T cb mem ?c v = (m, w)" by fastforce
    have nb: "nextbyte ?c = mpc ?c" and cur: "cur < length buf" "dbindex ?c = cur"
      using Suc.prems(2) by (simp_all add: buffer_ok_def)
    have mp: "mpc m = mpc ?c" "vpc m = vpc ?c" "dbindex m = cur" "nextbyte m = mpc ?c + len m" "len m \<le> 19"
      "maddr (inst m) = mpc ?c"
      using DecodeInst_end [OF nb, of T cb mem v] cur by (simp_all add: m)
    let ?buf = "buf[cur := m]"
    let ?pc = "vpc m + ucast (inst_length (inst m))"
    have pc: "unat ?pc = unat (vpc ?c) + len m"
      using True nowrap mp(5) by (simp add: mp(2) unat_add_u8 word_less_nat_alt)
    obtain mem1 w1 where a: "g_DecoderAction cb ?buf cur mem w = (mem1, w1)" by fastforce
    show ?thesis
    proof (cases "?pc > vlimit")
      case gt: True
      then show ?thesis using Suc.prems(1) True m by (simp add: Let_def)
    next
      case le: False
      note bs = buffer_step [OF Suc.prems(2) mp(3), where v = ?pc and p = "mpc ?c + len m"]
      have pl: "unat (vpc ?c) + len m \<le> unat vlimit" using le pc by (simp add: word_le_nat_alt not_less)
      then have out: "a < mpc ?c \<or> mpc ?c + len m \<le> a" using Suc.prems(3) by auto
      then have "mem1 a = mem a"
        using action_frame [of a ?buf cur mem w] cur mp(6) a by simp
      moreover have "mem' a = mem1 a"
        using Suc.IH [OF _ bs(1), of mem1 w1] bs(2,3) Suc.prems(1,3) True le m a mp pc pl
        by (auto simp: Let_def)
      ultimately show ?thesis by simp
    qed
  qed
qed

lemma loop_memory:
  assumes "\<And>buf i mem v. R mem (fst (g_DecoderAction cb buf i mem v))"
    and "\<And>mem. R mem mem" and tr: "\<And>m1 m2 m3. R m1 m2 \<Longrightarrow> R m2 m3 \<Longrightarrow> R m1 m3"
  shows "NCDecodeSegment_loop T cb vlimit fuel buf cur dbi mem v = Some (mem', v') \<Longrightarrow> R mem mem'"
proof (induction fuel arbitrary: buf cur dbi mem v)
  case 0
  then show ?case by simp
next
  case (Suc fuel)
  obtain m w where m: "DecodeInst T cb mem (buf ! cur) v = (m, w)" by fastforce
  obtain mem1 w1 where a: "g_DecoderAction cb (buf[cur := m]) cur mem w = (mem1, w1)" by fastforce
  have "R mem mem1" using assms(1) [of mem "buf[cur := m]" cur w] a by simp
  with Suc.prems m a assms(2) show ?case
    by (auto simp: Let_def split: if_splits intro: tr [OF _ Suc.IH])
qed

end

subsection \<open>Properties\<close>

text \<open>
  C14: an instruction is determined by its own bytes. Decoding consumes between 1 and 19 bytes, and any
  memory that agrees on the bytes consumed gives the same instruction, whatever follows them.
\<close>

theorem decode_own_bytes:
  assumes "agrees_on mem mem' p (p + len (decode_at T mem v p))"
  shows "decode_at T mem' v p = decode_at T mem v p \<and> 0 < len (decode_at T mem v p) \<and> len (decode_at T mem v p) \<le> 19"
  using decode_local [OF assms] decode_at_len decode_at_props(3) [of T mem v p]
  by (simp add: unat_gt_0 word_neq_0_conv)

theorem decode_own_bytes_witness:
  "\<forall>T. decode_at T (\<lambda>a. if a < 19 then 0x90 else 0xc3) 0 0 = decode_at T (\<lambda>_. 0x90) 0 0"
proof
  fix T
  have "agrees_on (\<lambda>_. 0x90) (\<lambda>a. if a < 19 then 0x90 else 0xc3) 0 (0 + len (decode_at T (\<lambda>_. 0x90) 0 0))"
    using decode_at_len [of T "\<lambda>_. 0x90" 0 0] by (simp add: agrees_on_def)
  from decode_own_bytes [OF this]
  show "decode_at T (\<lambda>a. if a < 19 then 0x90 else 0xc3) 0 0 = decode_at T (\<lambda>_. 0x90) 0 0" by simp
qed

end
