(* ===== verification/NC_Validate.thy ===== *)
theory NC_Validate
  imports NC_Decode
begin

text \<open>
  The 32-bit x86 validator, \<open>validator_x86/ncvalidate.c\<close>: its state (\<open>NCValidatorState\<close>,
  \<open>SummaryStats\<close>, \<open>CPUFeatures\<close>), the two jump-target bit tables, the check of one instruction
  (\<open>ValidateInst\<close>, registered as the decoder's action) and the final pass \<open>NCValidateFinish\<close>.
  Diagnostic printing is left out. \<open>GetCPUFeatures\<close> reads the CPU; its result is the argument
  \<open>cpu\<close>. The outcome of each \<open>calloc\<close> is the argument \<open>alloc\<close> (allocation number to success).
\<close>

subsection \<open>State\<close>

definition kNaClFullStop :: u8 where [nacl_consts]: "kNaClFullStop = 0xf4"

record CPUFeatures =
  f_386 :: bool
  f_x87 :: bool
  f_MMX :: bool
  f_SSE :: bool
  f_SSE2 :: bool
  f_SSE3 :: bool
  f_SSSE3 :: bool
  f_SSE41 :: bool
  f_SSE42 :: bool
  f_MOVBE :: bool
  f_POPCNT :: bool
  f_CX8 :: bool
  f_CX16 :: bool
  f_CMOV :: bool
  f_MON :: bool
  f_FXSR :: bool
  f_CLFLUSH :: bool
  f_TSC :: bool
  f_MSR :: bool
  f_VME :: bool
  f_PSN :: bool
  f_VMX :: bool
  f_3DNOW :: bool
  f_EMMX :: bool
  f_E3DNOW :: bool
  f_LZCNT :: bool
  f_SSE4A :: bool
  f_LM :: bool
  f_SVM :: bool

record SummaryStats =
  instructions :: u32
  checktarget :: u32
  targetindirect :: u32
  segments :: u32
  badtarget :: u32
  unsafeindirect :: u32
  returns :: u32
  illegalinst :: u32
  badalignment :: u32
  segfaults :: u32
  badprefix :: u32
  badinstlength :: u32
  internalerrors :: u32
  badcpu :: u32
  sawfailure :: bool

record NCValidatorState =
  cpufeatures :: CPUFeatures
  iadrbase :: u32
  iadrlimit :: u32
  alignment :: u8
  alignmask :: u32
  stats :: SummaryStats
  opcodehisto :: "u8 \<Rightarrow> u32"
  vttable :: "u8 list"
  kttable :: "u8 list"
  do_stub_out :: bool

subsection \<open>Statistics\<close>

abbreviation upd_stats :: "(SummaryStats \<Rightarrow> SummaryStats) \<Rightarrow> NCValidatorState \<Rightarrow> NCValidatorState" where
  "upd_stats f v \<equiv> v\<lparr>stats := f (stats v)\<rparr>"

definition OpcodeHisto :: "u8 \<Rightarrow> NCValidatorState \<Rightarrow> NCValidatorState" where
  "OpcodeHisto byte1 v = v\<lparr>opcodehisto := (opcodehisto v)(byte1 := opcodehisto v byte1 + 1)\<rparr>"

definition InitOpcodeHisto :: "NCValidatorState \<Rightarrow> NCValidatorState" where
  "InitOpcodeHisto v = v\<lparr>opcodehisto := (\<lambda>_. 0)\<rparr>"

definition Stats_Inst :: "NCValidatorState \<Rightarrow> NCValidatorState" where
  "Stats_Inst v = upd_stats (\<lambda>s. s\<lparr>instructions := instructions s + 1\<rparr>) v"

definition Stats_CheckTarget :: "NCValidatorState \<Rightarrow> NCValidatorState" where
  "Stats_CheckTarget v = upd_stats (\<lambda>s. s\<lparr>checktarget := checktarget s + 1\<rparr>) v"

definition Stats_TargetIndirect :: "NCValidatorState \<Rightarrow> NCValidatorState" where
  "Stats_TargetIndirect v = upd_stats (\<lambda>s. s\<lparr>targetindirect := targetindirect s + 1\<rparr>) v"

definition Stats_SawFailure :: "NCValidatorState \<Rightarrow> NCValidatorState" where
  "Stats_SawFailure v = upd_stats (\<lambda>s. s\<lparr>sawfailure := True\<rparr>) v"

definition Stats_InternalError :: "NCValidatorState \<Rightarrow> NCValidatorState" where
  "Stats_InternalError v =
     Stats_SawFailure (upd_stats (\<lambda>s. s\<lparr>internalerrors := internalerrors s + 1\<rparr>) v)"

definition Stats_BadCPU :: "NCValidatorState \<Rightarrow> NCValidatorState" where
  "Stats_BadCPU v = Stats_SawFailure (upd_stats (\<lambda>s. s\<lparr>badcpu := badcpu s + 1\<rparr>) v)"

definition Stats_BadAlignment :: "NCValidatorState \<Rightarrow> NCValidatorState" where
  "Stats_BadAlignment v =
     Stats_SawFailure (upd_stats (\<lambda>s. s\<lparr>badalignment := badalignment s + 1\<rparr>) v)"

definition Stats_SegFault :: "NCValidatorState \<Rightarrow> NCValidatorState" where
  "Stats_SegFault v = Stats_SawFailure (upd_stats (\<lambda>s. s\<lparr>segfaults := segfaults s + 1\<rparr>) v)"

definition Stats_NewSegment :: "NCValidatorState \<Rightarrow> NCValidatorState" where
  "Stats_NewSegment v =
     (let v = upd_stats (\<lambda>s. s\<lparr>segments := segments s + 1\<rparr>) v
      in if segments (stats v) > 1 then Stats_SawFailure v else v)"

definition Stats_BadTarget :: "NCValidatorState \<Rightarrow> NCValidatorState" where
  "Stats_BadTarget v = Stats_SawFailure (upd_stats (\<lambda>s. s\<lparr>badtarget := badtarget s + 1\<rparr>) v)"

definition Stats_UnsafeIndirect :: "NCValidatorState \<Rightarrow> NCValidatorState" where
  "Stats_UnsafeIndirect v =
     Stats_SawFailure (upd_stats (\<lambda>s. s\<lparr>unsafeindirect := unsafeindirect s + 1\<rparr>) v)"

definition Stats_Return :: "NCValidatorState \<Rightarrow> NCValidatorState" where
  "Stats_Return v =
     Stats_SawFailure (Stats_UnsafeIndirect (upd_stats (\<lambda>s. s\<lparr>returns := returns s + 1\<rparr>) v))"

definition Stats_IllegalInst :: "NCValidatorState \<Rightarrow> NCValidatorState" where
  "Stats_IllegalInst v =
     Stats_SawFailure (upd_stats (\<lambda>s. s\<lparr>illegalinst := illegalinst s + 1\<rparr>) v)"

definition Stats_BadPrefix :: "NCValidatorState \<Rightarrow> NCValidatorState" where
  "Stats_BadPrefix v =
     Stats_SawFailure (upd_stats (\<lambda>s. s\<lparr>badprefix := badprefix s + 1, illegalinst := illegalinst s + 1\<rparr>) v)"

definition Stats_BadInstLength :: "NCValidatorState \<Rightarrow> NCValidatorState" where
  "Stats_BadInstLength v =
     Stats_SawFailure (upd_stats (\<lambda>s. s\<lparr>badinstlength := badinstlength s + 1\<rparr>) v)"

text \<open>\<open>inited\<close> is the function's static variable: only the first call in a process clears.\<close>

definition Stats_Init :: "bool \<Rightarrow> NCValidatorState \<Rightarrow> bool \<times> NCValidatorState" where
  "Stats_Init inited v =
     (if inited then (inited, v)
      else (True, InitOpcodeHisto (upd_stats (\<lambda>s. s
        \<lparr>instructions := 0, segments := 0, checktarget := 0, targetindirect := 0, badtarget := 0,
         unsafeindirect := 0, returns := 0, illegalinst := 0, badalignment := 0,
         internalerrors := 0, badcpu := 0, badinstlength := 0, badprefix := 0,
         sawfailure := False\<rparr>) v)))"

subsection \<open>The jump target tables\<close>

definition IATOffset :: "u32 \<Rightarrow> nat" where
  "IATOffset ia = unat (drop_bit 3 ia)"

definition iadrmasks :: "u8 list" where
  "iadrmasks = [0x01, 0x02, 0x04, 0x08, 0x10, 0x20, 0x40, 0x80]"

definition IATMask :: "u32 \<Rightarrow> u8" where
  "IATMask ia = iadrmasks ! unat (ia AND 0x7)"

definition SetAdrTable :: "u32 \<Rightarrow> u8 list \<Rightarrow> u8 list" where
  "SetAdrTable ioff table = table[IATOffset ioff := table ! IATOffset ioff OR IATMask ioff]"

definition ClearAdrTable :: "u32 \<Rightarrow> u8 list \<Rightarrow> u8 list" where
  "ClearAdrTable ioff table = table[IATOffset ioff := table ! IATOffset ioff AND NOT (IATMask ioff)]"

definition GetAdrTable :: "u32 \<Rightarrow> u8 list \<Rightarrow> bool" where
  "GetAdrTable ioff table \<longleftrightarrow> table ! IATOffset ioff AND IATMask ioff \<noteq> 0"

subsection \<open>Set-up\<close>

fun BadPrefixMask :: "NaClInstType \<Rightarrow> u32" where
  "BadPrefixMask NACLi_386 = NOT (kPrefixDATA16 OR kPrefixSEGGS)"
| "BadPrefixMask NACLi_386L = NOT (kPrefixDATA16 OR kPrefixLOCK)"
| "BadPrefixMask NACLi_386R = NOT (kPrefixDATA16 OR kPrefixREP)"
| "BadPrefixMask NACLi_386RE = NOT (kPrefixDATA16 OR kPrefixREP OR kPrefixREPNE)"
| "BadPrefixMask NACLi_JMP8 = NOT (kPrefixSEGCS OR kPrefixSEGDS)"
| "BadPrefixMask NACLi_JMPZ = NOT (kPrefixSEGCS OR kPrefixSEGDS)"
| "BadPrefixMask NACLi_CMPXCHG8B = NOT kPrefixLOCK"
| "BadPrefixMask _ = 0xffffffff"

definition zero_cpu :: CPUFeatures where
  "zero_cpu = \<lparr>f_386 = False, f_x87 = False, f_MMX = False, f_SSE = False, f_SSE2 = False,
     f_SSE3 = False, f_SSSE3 = False, f_SSE41 = False, f_SSE42 = False, f_MOVBE = False,
     f_POPCNT = False, f_CX8 = False, f_CX16 = False, f_CMOV = False, f_MON = False,
     f_FXSR = False, f_CLFLUSH = False, f_TSC = False, f_MSR = False, f_VME = False,
     f_PSN = False, f_VMX = False, f_3DNOW = False, f_EMMX = False, f_E3DNOW = False,
     f_LZCNT = False, f_SSE4A = False, f_LM = False, f_SVM = False\<rparr>"

definition zero_stats :: SummaryStats where
  "zero_stats = \<lparr>instructions = 0, checktarget = 0, targetindirect = 0, segments = 0,
     badtarget = 0, unsafeindirect = 0, returns = 0, illegalinst = 0, badalignment = 0,
     segfaults = 0, badprefix = 0, badinstlength = 0, internalerrors = 0, badcpu = 0,
     sawfailure = False\<rparr>"

text \<open>
  \<open>calloc\<close> zeroes the state and the tables. The result is the new value of the static \<open>inited\<close> and the
  state, \<open>None\<close> for the null pointer.
\<close>

definition NCValidateInit ::
    "(nat \<Rightarrow> bool) \<Rightarrow> bool \<Rightarrow> u32 \<Rightarrow> u32 \<Rightarrow> u8 \<Rightarrow> bool \<times> NCValidatorState option" where
  "NCValidateInit alloc inited vbase vlimit algn =
     (if vlimit \<le> vbase then (inited, None)
      else if algn \<noteq> 16 \<and> algn \<noteq> 32 then (inited, None)
      else if vbase AND ucast (algn - 1) \<noteq> 0 then (inited, None)
      else if \<not> alloc 0 then (inited, None)
      else if \<not> alloc 1 \<or> \<not> alloc 2 then (inited, None)
      else
        let n = IATOffset (vlimit - vbase) + 1;
            v = \<lparr>cpufeatures = zero_cpu, iadrbase = vbase, iadrlimit = vlimit,
                 alignment = algn, alignmask = ucast algn - 1, stats = zero_stats,
                 opcodehisto = (\<lambda>_. 0), vttable = replicate n 0, kttable = replicate n 0,
                 do_stub_out = False\<rparr>;
            (inited, v) = Stats_Init inited v
        in (inited, Some v))"

definition NCValidateSetStubOutMode :: "NCValidatorState \<Rightarrow> bool \<Rightarrow> NCValidatorState" where
  "NCValidateSetStubOutMode v b = v\<lparr>do_stub_out := b\<rparr>"

subsection \<open>Remembering instructions and targets\<close>

definition RememberIP :: "u32 \<Rightarrow> NCValidatorState \<Rightarrow> NCValidatorState" where
  "RememberIP ip v =
     (let ioffset = ip - iadrbase v
      in if ip < iadrbase v \<or> ip \<ge> iadrlimit v then Stats_BadTarget v
         else if GetAdrTable ioffset (vttable v) then Stats_InternalError v
         else let v = Stats_Inst v in v\<lparr>vttable := SetAdrTable ioffset (vttable v)\<rparr>)"

definition RememberTP :: "u32 \<Rightarrow> NCValidatorState \<Rightarrow> NCValidatorState" where
  "RememberTP target v =
     (let ioffset = target - iadrbase v
      in if iadrbase v \<le> target \<and> target < iadrlimit v
         then v\<lparr>kttable := SetAdrTable ioffset (kttable v)\<rparr>
         else if target AND alignmask v = 0 then v
         else Stats_BadTarget v)"

definition ForgetIP :: "u32 \<Rightarrow> NCValidatorState \<Rightarrow> NCValidatorState" where
  "ForgetIP ip v =
     (let ioffset = ip - iadrbase v
      in if ip < iadrbase v \<or> ip \<ge> iadrlimit v then Stats_BadTarget v
         else v\<lparr>vttable := ClearAdrTable ioffset (vttable v)\<rparr>)"

text \<open>The two loops of the final pass; a loop that never ends is \<open>None\<close>.\<close>

definition Finish_CheckTarget :: "u32 \<Rightarrow> NCValidatorState \<Rightarrow> NCValidatorState" where
  "Finish_CheckTarget offset v =
     (if GetAdrTable offset (kttable v) then
        let v = Stats_CheckTarget v
        in if \<not> GetAdrTable offset (vttable v) then Stats_BadTarget v else v
      else v)"

definition Finish_CheckBlock :: "u32 \<Rightarrow> NCValidatorState \<Rightarrow> NCValidatorState" where
  "Finish_CheckBlock offset v =
     (if \<not> GetAdrTable offset (vttable v) then Stats_BadAlignment v else v)"

definition NCValidateFinish :: "NCValidatorState option \<Rightarrow> (bool \<times> NCValidatorState option) option" where
  "NCValidateFinish vo =
     (case vo of
        None \<Rightarrow> Some (True, None)
      | Some v \<Rightarrow>
          let n = iadrlimit v - iadrbase v
          in case for_u32 (Suc (unat n)) n 1 0 Finish_CheckTarget v of
               None \<Rightarrow> None
             | Some v \<Rightarrow>
                 let v = (if iadrbase v AND alignmask v \<noteq> 0 then Stats_BadAlignment v else v)
                 in case for_u32 (Suc (unat n)) n (ucast (alignment v)) 0 Finish_CheckBlock v of
                      None \<Rightarrow> None
                    | Some v \<Rightarrow> Some (sawfailure (stats v), Some v))"

subsection \<open>Checking one instruction\<close>

definition BadInstructionError :: "NCDecoderState \<Rightarrow> memory \<Rightarrow> NCValidatorState \<Rightarrow> memory" where
  "BadInstructionError m mem v =
     (if do_stub_out v then memset mem (maddr (inst m)) kNaClFullStop (len m) else mem)"

definition ValidateSFenceClFlush :: "NCDecoderState \<Rightarrow> memory \<Rightarrow> NCValidatorState \<Rightarrow> bool" where
  "ValidateSFenceClFlush m mem v =
     (let mrmb = mem (maddr (inst m) + 2)
      in if modrm_mod mrmb = 3 then \<not> f_FXSR (cpufeatures v) else \<not> f_CLFLUSH (cpufeatures v))"

definition ValidateCallAlignment :: "NCDecoderState \<Rightarrow> NCValidatorState \<Rightarrow> NCValidatorState" where
  "ValidateCallAlignment m v =
     (let fallthru = vaddr (inst m) + ucast (inst_length (inst m))
      in if fallthru AND alignmask v \<noteq> 0 then Stats_BadAlignment v else v)"

definition ValidateJmp8 :: "NCDecoderState \<Rightarrow> memory \<Rightarrow> NCValidatorState \<Rightarrow> NCValidatorState" where
  "ValidateJmp8 m mem v =
     (let opcode = mem (maddr (inst m) + unat (prefixbytes (inst m)));
          offset = mem (maddr (inst m) + (unat (prefixbytes (inst m)) + 1));
          target = vaddr (inst m) + ucast (inst_length (inst m)) + scast offset;
          v = Stats_CheckTarget v
      in if opcode AND 0xf0 = 0x70 \<or> opcode = 0xeb \<or> opcode = 0xe0 \<or> opcode = 0xe1 \<or>
            opcode = 0xe2 \<or> opcode = 0xe3
         then RememberTP target v
         else Stats_InternalError v)"

definition ValidateJmpz :: "NCDecoderState \<Rightarrow> memory \<Rightarrow> NCValidatorState \<Rightarrow> NCValidatorState" where
  "ValidateJmpz m mem v =
     (let opcode = maddr (inst m) + unat (prefixbytes (inst m));
          next = vaddr (inst m) + ucast (inst_length (inst m));
          v = Stats_CheckTarget v
      in if mem opcode = 0xe8 \<or> mem opcode = 0xe9 then
           let v = RememberTP (next + read32 mem (opcode + 1)) v
           in if mem opcode = 0xe8 then ValidateCallAlignment m v else v
         else if mem opcode = 0x0f then
           if mem (opcode + 1) AND 0xf0 = 0x80
           then RememberTP (next + read32 mem (opcode + 2)) v
           else v
         else Stats_InternalError v)"

definition ValidateIndirect5 ::
    "NCDecoderState list \<Rightarrow> nat \<Rightarrow> memory \<Rightarrow> NCValidatorState \<Rightarrow> memory \<times> NCValidatorState" where
  "ValidateIndirect5 buf i mem v =
     (let m = buf ! i;
          andinst = PreviousInst buf i (-1)
      in if inst_length (inst andinst) = 0
         then (BadInstructionError m mem v, Stats_UnsafeIndirect v)
         else
           let jmpopcode = maddr (inst m);
               andopcode = maddr (inst andinst);
               mrmb = mem (jmpopcode + 1);
               targetreg = modrm_rm mrmb;
               kReg_ESP = 4;
               v = Stats_CheckTarget v;
               v = Stats_TargetIndirect v
           in if prefixbytes (inst m) = 0 \<and> prefixbytes (inst andinst) = 0 \<and>
                 mem jmpopcode = 0xff \<and>
                 \<not> (modrm_reg mrmb \<noteq> 2 \<and> modrm_reg mrmb \<noteq> 4) \<and>
                 modrm_mod mrmb = 3 \<and>
                 targetreg \<noteq> kReg_ESP \<and>
                 mem andopcode = 0x83 \<and>
                 mem (andopcode + 1) = (0xe0 OR targetreg) \<and>
                 ucast (mem (andopcode + 2)) = (0xff AND NOT (alignmask v))
              then
                let v = ForgetIP (vaddr (inst m)) v
                in (mem, if modrm_reg mrmb = 2 then ValidateCallAlignment m v else v)
              else (BadInstructionError m mem v, Stats_UnsafeIndirect v))"

definition kMaxValidPrefixBytes :: u32 where [nacl_consts]: "kMaxValidPrefixBytes = 1"
definition kMaxValidInstLength :: u32 where [nacl_consts]: "kMaxValidInstLength = 11"

text \<open>The prefix check: the cases in which the source leaves its \<open>do ... while (0)\<close> block.\<close>

definition prefix_usage_ok :: "NCDecoderState \<Rightarrow> bool" where
  "prefix_usage_ok m =
     (if prefixbytes (inst m) = 0 then True
      else if ucast (prefixbytes (inst m)) \<le> kMaxValidPrefixBytes then
        if hasopbyte2 (inst m) \<noteq> 0 then
          if prefixmask (inst m) AND kPrefixLOCK \<noteq> 0
          then insttype (opinfo m) = NACLi_386L \<or> insttype (opinfo m) = NACLi_CMPXCHG8B
          else True
        else prefixmask (inst m) AND BadPrefixMask (insttype (opinfo m)) = 0
      else False)"

definition ValidateIllegal ::
    "NCDecoderState \<Rightarrow> memory \<Rightarrow> NCValidatorState \<Rightarrow> memory \<times> NCValidatorState \<times> bool" where
  "ValidateIllegal m mem v = (BadInstructionError m mem v, Stats_IllegalInst v, False)"

text \<open>
  The switch on the instruction type; the last component is \<open>squashme\<close>. Every type of the
  enumeration has a case, so the source's \<open>default\<close> is not reachable.
\<close>

definition ValidateInst_switch ::
    "NCDecoderState list \<Rightarrow> nat \<Rightarrow> memory \<Rightarrow> NCValidatorState \<Rightarrow> memory \<times> NCValidatorState \<times> bool" where
  "ValidateInst_switch buf i mem v =
     (let m = buf ! i; cpu = cpufeatures v
      in case insttype (opinfo m) of
           NACLi_386 \<Rightarrow> (mem, v, False)
         | NACLi_386L \<Rightarrow> (mem, v, False)
         | NACLi_386R \<Rightarrow> (mem, v, False)
         | NACLi_386RE \<Rightarrow> (mem, v, False)
         | NACLi_JMP8 \<Rightarrow> (mem, ValidateJmp8 m mem v, False)
         | NACLi_JMPZ \<Rightarrow> (mem, ValidateJmpz m mem v, False)
         | NACLi_INDIRECT \<Rightarrow> (let (mem, v) = ValidateIndirect5 buf i mem v in (mem, v, False))
         | NACLi_X87 \<Rightarrow> (mem, v, \<not> f_x87 cpu)
         | NACLi_SFENCE_CLFLUSH \<Rightarrow> (mem, v, ValidateSFenceClFlush m mem v)
         | NACLi_CMPXCHG8B \<Rightarrow> (mem, v, \<not> f_CX8 cpu)
         | NACLi_CMOV \<Rightarrow> (mem, v, \<not> f_CMOV cpu)
         | NACLi_FCMOV \<Rightarrow> (mem, v, \<not> (f_CMOV cpu \<and> f_x87 cpu))
         | NACLi_RDTSC \<Rightarrow> (mem, v, \<not> f_TSC cpu)
         | NACLi_MMX \<Rightarrow> (mem, v, \<not> f_MMX cpu)
         | NACLi_MMXSSE2 \<Rightarrow> (mem, v, \<not> (f_MMX cpu \<or> f_SSE2 cpu))
         | NACLi_SSE \<Rightarrow> (mem, v, \<not> f_SSE cpu)
         | NACLi_SSE2 \<Rightarrow> (mem, v, \<not> f_SSE2 cpu)
         | NACLi_SSE3 \<Rightarrow> (mem, v, \<not> f_SSE3 cpu)
         | NACLi_SSE4A \<Rightarrow> (mem, v, \<not> f_SSE4A cpu)
         | NACLi_SSE41 \<Rightarrow> (mem, v, \<not> f_SSE41 cpu)
         | NACLi_SSE42 \<Rightarrow> (mem, v, \<not> f_SSE42 cpu)
         | NACLi_MOVBE \<Rightarrow> (mem, v, \<not> f_MOVBE cpu)
         | NACLi_POPCNT \<Rightarrow> (mem, v, \<not> f_POPCNT cpu)
         | NACLi_LZCNT \<Rightarrow> (mem, v, \<not> f_LZCNT cpu)
         | NACLi_SSSE3 \<Rightarrow> (mem, v, \<not> f_SSSE3 cpu)
         | NACLi_3DNOW \<Rightarrow> (mem, v, \<not> f_3DNOW cpu)
         | NACLi_E3DNOW \<Rightarrow> (mem, v, \<not> f_E3DNOW cpu)
         | NACLi_SSE2x \<Rightarrow>
             (if prefixmask (inst m) AND kPrefixDATA16 = 0
              then (BadInstructionError m mem v, Stats_BadPrefix v, \<not> f_SSE2 cpu)
              else (mem, v, \<not> f_SSE2 cpu))
         | NACLi_RETURN \<Rightarrow> ValidateIllegal m (BadInstructionError m mem v) (Stats_Return v)
         | NACLi_EMMX \<Rightarrow> ValidateIllegal m mem v
         | NACLi_INVALID \<Rightarrow> ValidateIllegal m mem v
         | NACLi_ILLEGAL \<Rightarrow> ValidateIllegal m mem v
         | NACLi_SYSTEM \<Rightarrow> ValidateIllegal m mem v
         | NACLi_RDMSR \<Rightarrow> ValidateIllegal m mem v
         | NACLi_RDTSCP \<Rightarrow> ValidateIllegal m mem v
         | NACLi_SYSCALL \<Rightarrow> ValidateIllegal m mem v
         | NACLi_SYSENTER \<Rightarrow> ValidateIllegal m mem v
         | NACLi_LONGMODE \<Rightarrow> ValidateIllegal m mem v
         | NACLi_SVM \<Rightarrow> ValidateIllegal m mem v
         | NACLi_OPINMRM \<Rightarrow> ValidateIllegal m mem v
         | NACLi_3BYTE \<Rightarrow> ValidateIllegal m mem v
         | NACLi_CMPXCHG16B \<Rightarrow> ValidateIllegal m mem v
         | NACLi_UNDEFINED \<Rightarrow>
             (BadInstructionError m mem v, Stats_InternalError (Stats_IllegalInst v), False))"

definition ValidateInst ::
    "NCDecoderState list \<Rightarrow> nat \<Rightarrow> memory \<Rightarrow> NCValidatorState \<Rightarrow> memory \<times> NCValidatorState" where
  "ValidateInst buf i mem v =
     (let m = buf ! i;
          v = OpcodeHisto (mem (maddr (inst m) + unat (prefixbytes (inst m)))) v;
          v = RememberIP (vaddr (inst m)) v;
          (mem, v) = (if prefix_usage_ok m then (mem, v)
                      else (BadInstructionError m mem v, Stats_BadPrefix v));
          (mem, v) = (if ucast (inst_length (inst m)) - ucast (prefixbytes (inst m)) > kMaxValidInstLength
                      then (BadInstructionError m mem v, Stats_BadInstLength v) else (mem, v));
          (mem, v, squashme) = ValidateInst_switch buf i mem v
      in (if squashme then memset mem (maddr (inst m)) kNaClFullStop (len m) else mem, v))"

text \<open>The callbacks as \<open>NCValidateInit\<close> registers them.\<close>

definition ncv_callbacks :: "NCValidatorState NCDecodeCallbacks" where
  "ncv_callbacks =
     NCDecodeRegisterCallbacks (Some ValidateInst) (Some Stats_NewSegment) (Some Stats_SegFault)
       (Some Stats_InternalError) default_callbacks"

definition NCValidateSegment ::
    "DecodeTables \<Rightarrow> CPUFeatures \<Rightarrow> nat \<Rightarrow> u32 \<Rightarrow> u32 \<Rightarrow> memory \<Rightarrow> NCValidatorState \<Rightarrow>
     (memory \<times> NCValidatorState) option" where
  "NCValidateSegment T cpu mbase vbase sz mem v =
     (if sz = 0 then Some (mem, Stats_SegFault v)
      else
        let v = v\<lparr>cpufeatures := cpu\<rparr>
        in if \<not> f_386 (cpufeatures v) then Some (mem, Stats_BadCPU v)
           else NCDecodeSegment T ncv_callbacks mbase vbase sz mem v)"

subsection \<open>The jump target tables as sets of offsets\<close>

text \<open>
  The contract of an address table: a set of offsets, with \<open>ok\<close> the offsets that are in
  bounds. \<open>RememberIP\<close>, \<open>RememberTP\<close> and \<open>ForgetIP\<close> use the tables through these laws.
\<close>

locale adr_table =
  fixes get :: "u32 \<Rightarrow> 't \<Rightarrow> bool"
    and set_adr :: "u32 \<Rightarrow> 't \<Rightarrow> 't"
    and clear :: "u32 \<Rightarrow> 't \<Rightarrow> 't"
    and ok :: "'t \<Rightarrow> u32 \<Rightarrow> bool"
  assumes get_set: "ok t i \<Longrightarrow> ok t j \<Longrightarrow> get j (set_adr i t) \<longleftrightarrow> j = i \<or> get j t"
    and get_clear: "ok t i \<Longrightarrow> ok t j \<Longrightarrow> get j (clear i t) \<longleftrightarrow> j \<noteq> i \<and> get j t"
    and ok_set [simp]: "ok (set_adr i t) j \<longleftrightarrow> ok t j"
    and ok_clear [simp]: "ok (clear i t) j \<longleftrightarrow> ok t j"
begin

definition members :: "'t \<Rightarrow> u32 set" where
  "members t = {i. ok t i \<and> get i t}"

lemma members_set: "ok t i \<Longrightarrow> members (set_adr i t) = insert i (members t)"
  by (auto simp: members_def get_set)

lemma members_clear: "ok t i \<Longrightarrow> members (clear i t) = members t - {i}"
  by (auto simp: members_def get_clear)

lemma get_members: "ok t i \<Longrightarrow> get i t \<longleftrightarrow> i \<in> members t"
  by (simp add: members_def)

end

definition in_table :: "u8 list \<Rightarrow> u32 \<Rightarrow> bool" where
  "in_table t i \<longleftrightarrow> IATOffset i < length t"

definition iat_bit :: "u32 \<Rightarrow> nat" where
  "iat_bit i = unat i mod 8"

lemma IATOffset_div: "IATOffset i = unat i div 8"
  by (simp add: IATOffset_def drop_bit_eq_div unat_div)

lemma unat_and_7: "unat ((i :: u32) AND 7) = iat_bit i"
proof -
  have "i AND 7 = take_bit 3 i" by (simp add: take_bit_eq_mask mask_eq_exp_minus_1)
  then show ?thesis by (simp add: iat_bit_def take_bit_eq_mod unat_mod)
qed

lemma iat_bit_less [simp]: "iat_bit i < 8"
  by (simp add: iat_bit_def)

lemma IATMask_bit: "IATMask i = 2 ^ iat_bit i"
proof -
  have "iadrmasks ! n = 2 ^ n" if "n < 8" for n
    using that by (auto simp: iadrmasks_def less_Suc_eq numeral_eq_Suc)
  then show ?thesis by (simp add: IATMask_def unat_and_7)
qed

lemma and_bit_nonzero: "(x :: u8) AND 2 ^ n \<noteq> 0 \<longleftrightarrow> bit x n"
  by (simp add: and_exp_eq_0_iff_not_bit)

lemma GetAdrTable_bit: "GetAdrTable i t \<longleftrightarrow> bit (t ! IATOffset i) (iat_bit i)"
  by (simp add: GetAdrTable_def IATMask_bit and_bit_nonzero)

lemma iat_eq: "i = j \<longleftrightarrow> IATOffset i = IATOffset j \<and> iat_bit i = iat_bit j"
  unfolding IATOffset_div iat_bit_def by (metis div_mult_mod_eq word_unat_eq_iff)

interpretation iat: adr_table GetAdrTable SetAdrTable ClearAdrTable in_table
proof
  fix t i j
  assume "in_table t i" "in_table t j"
  then show "GetAdrTable j (SetAdrTable i t) \<longleftrightarrow> j = i \<or> GetAdrTable j t"
    by (auto simp: GetAdrTable_bit SetAdrTable_def in_table_def IATMask_bit bit_simps
        nth_list_update iat_eq [of j i])
next
  fix t i j
  assume "in_table t i" "in_table t j"
  then show "GetAdrTable j (ClearAdrTable i t) \<longleftrightarrow> j \<noteq> i \<and> GetAdrTable j t"
    by (auto simp: GetAdrTable_bit ClearAdrTable_def in_table_def IATMask_bit bit_simps
        nth_list_update iat_eq [of j i])
qed (simp_all add: in_table_def SetAdrTable_def ClearAdrTable_def)

subsection \<open>The error flag\<close>

definition failed :: "NCValidatorState \<Rightarrow> bool" where
  "failed v \<longleftrightarrow> sawfailure (stats v)"

lemmas stats_defs =
  OpcodeHisto_def Stats_Inst_def Stats_CheckTarget_def Stats_TargetIndirect_def
  Stats_SawFailure_def Stats_InternalError_def Stats_BadCPU_def Stats_BadAlignment_def
  Stats_SegFault_def Stats_BadTarget_def Stats_UnsafeIndirect_def
  Stats_Return_def Stats_IllegalInst_def Stats_BadPrefix_def Stats_BadInstLength_def

lemma failed_stats [simp]:
  "failed (Stats_InternalError v)" "failed (Stats_BadCPU v)" "failed (Stats_BadAlignment v)"
  "failed (Stats_SegFault v)" "failed (Stats_BadTarget v)" "failed (Stats_UnsafeIndirect v)"
  "failed (Stats_Return v)" "failed (Stats_IllegalInst v)" "failed (Stats_BadPrefix v)"
  "failed (Stats_BadInstLength v)"
  "failed (OpcodeHisto b v) = failed v" "failed (Stats_Inst v) = failed v"
  "failed (Stats_CheckTarget v) = failed v" "failed (Stats_TargetIndirect v) = failed v"
  by (simp_all add: failed_def stats_defs)

text \<open>What the parts of the check leave alone.\<close>

definition same_config :: "NCValidatorState \<Rightarrow> NCValidatorState \<Rightarrow> bool" where
  "same_config v v' \<longleftrightarrow>
     iadrbase v' = iadrbase v \<and> iadrlimit v' = iadrlimit v \<and> alignment v' = alignment v \<and>
     alignmask v' = alignmask v \<and> do_stub_out v' = do_stub_out v \<and>
     cpufeatures v' = cpufeatures v \<and>
     length (vttable v') = length (vttable v) \<and> length (kttable v') = length (kttable v)"

lemma same_config_trans: "same_config u v \<Longrightarrow> same_config v w \<Longrightarrow> same_config u w"
  by (simp add: same_config_def)

lemma same_config_stats [simp]:
  "same_config v (OpcodeHisto b v)" "same_config v (Stats_Inst v)" "same_config v (Stats_CheckTarget v)"
  "same_config v (Stats_TargetIndirect v)" "same_config v (Stats_InternalError v)"
  "same_config v (Stats_BadAlignment v)" "same_config v (Stats_BadTarget v)"
  "same_config v (Stats_UnsafeIndirect v)" "same_config v (Stats_Return v)"
  "same_config v (Stats_IllegalInst v)" "same_config v (Stats_BadPrefix v)"
  "same_config v (Stats_BadInstLength v)" "same_config v v"
  by (simp_all add: same_config_def stats_defs)

lemma RememberIP_ok:
  "\<not> failed (RememberIP ip v) \<Longrightarrow>
   \<not> failed v \<and> iadrbase v \<le> ip \<and> ip < iadrlimit v \<and> \<not> GetAdrTable (ip - iadrbase v) (vttable v) \<and>
   vttable (RememberIP ip v) = SetAdrTable (ip - iadrbase v) (vttable v) \<and>
   kttable (RememberIP ip v) = kttable v \<and> same_config v (RememberIP ip v)"
  by (auto simp: RememberIP_def Let_def failed_def same_config_def stats_defs SetAdrTable_def split: if_splits)

lemma RememberTP_ok:
  "\<not> failed (RememberTP t v) \<Longrightarrow>
   \<not> failed v \<and> vttable (RememberTP t v) = vttable v \<and> same_config v (RememberTP t v) \<and>
   (if iadrbase v \<le> t \<and> t < iadrlimit v
    then kttable (RememberTP t v) = SetAdrTable (t - iadrbase v) (kttable v)
    else kttable (RememberTP t v) = kttable v \<and> t AND alignmask v = 0)"
  by (auto simp: RememberTP_def Let_def failed_def same_config_def stats_defs SetAdrTable_def split: if_splits)

lemma ForgetIP_ok:
  "\<not> failed (ForgetIP ip v) \<Longrightarrow>
   \<not> failed v \<and> iadrbase v \<le> ip \<and> ip < iadrlimit v \<and>
   vttable (ForgetIP ip v) = ClearAdrTable (ip - iadrbase v) (vttable v) \<and>
   kttable (ForgetIP ip v) = kttable v \<and> same_config v (ForgetIP ip v)"
  by (auto simp: ForgetIP_def Let_def failed_def same_config_def stats_defs ClearAdrTable_def split: if_splits)

lemma ValidateCallAlignment_ok:
  "\<not> failed (ValidateCallAlignment m v) \<Longrightarrow> ValidateCallAlignment m v = v \<and> \<not> failed v"
  by (auto simp: ValidateCallAlignment_def Let_def split: if_splits)

subsection \<open>What an accepted instruction is\<close>

text \<open>The target of a direct jump or call.\<close>

definition direct_target :: "memory \<Rightarrow> NCDecoderState \<Rightarrow> u32 option" where
  "direct_target mem m =
     (let opcode = maddr (inst m) + unat (prefixbytes (inst m));
          next = vaddr (inst m) + ucast (inst_length (inst m))
      in case insttype (opinfo m) of
           NACLi_JMP8 \<Rightarrow> Some (next + scast (mem (opcode + 1)))
         | NACLi_JMPZ \<Rightarrow>
             (if mem opcode = 0xe8 \<or> mem opcode = 0xe9 then Some (next + read32 mem (opcode + 1))
              else if mem opcode = 0x0f \<and> mem (opcode + 1) AND 0xf0 = 0x80
              then Some (next + read32 mem (opcode + 2))
              else None)
         | _ \<Rightarrow> None)"

text \<open>The masked indirect jump: \<open>and $mask,%reg\<close> directly followed by \<open>jmp\<close> or \<open>call *%reg\<close>.\<close>

definition masked_pair :: "memory \<Rightarrow> u32 \<Rightarrow> NCDecoderState \<Rightarrow> NCDecoderState \<Rightarrow> bool" where
  "masked_pair mem msk a j \<longleftrightarrow>
     (let mrmb = mem (maddr (inst j) + 1)
      in prefixbytes (inst j) = 0 \<and> prefixbytes (inst a) = 0 \<and>
         mem (maddr (inst j)) = 0xff \<and> (modrm_reg mrmb = 2 \<or> modrm_reg mrmb = 4) \<and>
         modrm_mod mrmb = 3 \<and> modrm_rm mrmb \<noteq> 4 \<and>
         mem (maddr (inst a)) = 0x83 \<and> mem (maddr (inst a) + 1) = (0xe0 OR modrm_rm mrmb) \<and>
         ucast (mem (maddr (inst a) + 2)) = (0xff AND NOT msk))"

definition legal_type :: "NaClInstType \<Rightarrow> bool" where
  "legal_type t \<longleftrightarrow> t \<in> {NACLi_386, NACLi_386L, NACLi_386R, NACLi_386RE, NACLi_JMP8, NACLi_JMPZ,
     NACLi_INDIRECT, NACLi_X87, NACLi_SFENCE_CLFLUSH, NACLi_CMPXCHG8B, NACLi_CMOV, NACLi_FCMOV,
     NACLi_RDTSC, NACLi_MMX, NACLi_MMXSSE2, NACLi_SSE, NACLi_SSE2, NACLi_SSE3, NACLi_SSE4A,
     NACLi_SSE41, NACLi_SSE42, NACLi_MOVBE, NACLi_POPCNT, NACLi_LZCNT, NACLi_SSSE3, NACLi_3DNOW,
     NACLi_E3DNOW, NACLi_SSE2x}"

lemma ValidateJmp8_ok:
  assumes "\<not> failed (ValidateJmp8 m mem v)" and "insttype (opinfo m) = NACLi_JMP8"
  shows "\<exists>t. direct_target mem m = Some t \<and> ValidateJmp8 m mem v = RememberTP t (Stats_CheckTarget v)"
  using assms by (auto simp: ValidateJmp8_def direct_target_def Let_def add.assoc split: if_splits)

lemma ValidateJmpz_ok:
  assumes "\<not> failed (ValidateJmpz m mem v)" and "insttype (opinfo m) = NACLi_JMPZ"
  shows "case direct_target mem m of
      None \<Rightarrow> ValidateJmpz m mem v = Stats_CheckTarget v
    | Some t \<Rightarrow> ValidateJmpz m mem v = RememberTP t (Stats_CheckTarget v)"
proof -
  let ?op = "maddr (inst m) + unat (prefixbytes (inst m))"
  let ?t = "vaddr (inst m) + ucast (inst_length (inst m)) + read32 mem (?op + 1)"
  show ?thesis
    using assms ValidateCallAlignment_ok [of m "RememberTP ?t (Stats_CheckTarget v)"]
    by (cases "mem ?op = 0xe8"; cases "mem ?op = 0xe9"; cases "mem ?op = 0x0f")
      (simp_all add: ValidateJmpz_def direct_target_def Let_def)
qed

lemma ValidateIndirect5_ok:
  assumes "\<not> failed (snd (ValidateIndirect5 buf i mem v))"
  shows "inst_length (inst (PreviousInst buf i (-1))) \<noteq> 0 \<and>
    masked_pair mem (alignmask v) (PreviousInst buf i (-1)) (buf ! i) \<and>
    ValidateIndirect5 buf i mem v =
      (mem, ForgetIP (vaddr (inst (buf ! i))) (Stats_TargetIndirect (Stats_CheckTarget v)))"
proof -
  let ?a = "PreviousInst buf i (-1)" and ?m = "buf ! i"
  let ?v = "ForgetIP (vaddr (inst ?m)) (Stats_TargetIndirect (Stats_CheckTarget v))"
  have al: "alignmask (Stats_TargetIndirect (Stats_CheckTarget v)) = alignmask v"
    by (simp add: stats_defs)
  have nz: "inst_length (inst ?a) \<noteq> 0"
    using assms by (auto simp: ValidateIndirect5_def Let_def)
  have mp: "masked_pair mem (alignmask v) ?a ?m"
  proof (rule ccontr)
    assume "\<not> masked_pair mem (alignmask v) ?a ?m"
    then have "snd (ValidateIndirect5 buf i mem v) = Stats_UnsafeIndirect (Stats_TargetIndirect (Stats_CheckTarget v))"
      using nz unfolding masked_pair_def ValidateIndirect5_def Let_def al by (simp only: if_False if_True) auto
    with assms show False by simp
  qed
  have "ValidateIndirect5 buf i mem v =
      (mem, if modrm_reg (mem (maddr (inst ?m) + 1)) = 2 then ValidateCallAlignment ?m ?v else ?v)"
    using nz mp unfolding masked_pair_def ValidateIndirect5_def Let_def al by auto
  with assms nz mp ValidateCallAlignment_ok [of ?m ?v] show ?thesis by (simp split: if_splits)
qed

lemma ValidateInst_switch_ok:
  assumes "ValidateInst_switch buf i mem v = (mem', v', sq)" and "\<not> failed v'"
  shows "mem' = mem" and "legal_type (insttype (opinfo (buf ! i)))"
    and "v' = (case insttype (opinfo (buf ! i)) of
        NACLi_JMP8 \<Rightarrow> ValidateJmp8 (buf ! i) mem v
      | NACLi_JMPZ \<Rightarrow> ValidateJmpz (buf ! i) mem v
      | NACLi_INDIRECT \<Rightarrow> snd (ValidateIndirect5 buf i mem v)
      | _ \<Rightarrow> v)"
  using assms ValidateIndirect5_ok [of buf i mem v]
  by (cases "insttype (opinfo (buf ! i))";
      auto simp: ValidateInst_switch_def ValidateIllegal_def Let_def legal_type_def
        split: if_splits prod.splits)+

lemma sticky_parts [simp]:
  "failed v \<Longrightarrow> failed (RememberIP ip v)" "failed v \<Longrightarrow> failed (RememberTP t v)"
  "failed v \<Longrightarrow> failed (ForgetIP ip v)" "failed v \<Longrightarrow> failed (ValidateCallAlignment m v)"
  using RememberIP_ok RememberTP_ok ForgetIP_ok ValidateCallAlignment_ok by blast+

lemma ValidateInst_switch_sticky:
  assumes "ValidateInst_switch buf i mem v = (mem', v', sq)" and "failed v"
  shows "failed v'"
proof -
  have "failed (ValidateJmp8 m mem v)" "failed (ValidateJmpz m mem v)"
    "failed (snd (ValidateIndirect5 buf i mem v))" for m
    using assms(2)
    by (auto simp: ValidateJmp8_def ValidateJmpz_def ValidateIndirect5_def Let_def)
  with assms show ?thesis
    by (cases "insttype (opinfo (buf ! i))";
        auto simp: ValidateInst_switch_def ValidateIllegal_def Let_def split: if_splits prod.splits)
qed

lemma ValidateInst_ok:
  assumes "ValidateInst buf i mem v = (mem', v')" and "\<not> failed v'"
  defines "m \<equiv> buf ! i"
  defines "v1 \<equiv> RememberIP (vaddr (inst m)) (OpcodeHisto (mem (maddr (inst m) + unat (prefixbytes (inst m)))) v)"
  obtains sq where "ValidateInst_switch buf i mem v1 = (mem, v', sq)"
    and "mem' = (if sq then memset mem (maddr (inst m)) kNaClFullStop (len m) else mem)"
    and "prefix_usage_ok m" and "ucast (inst_length (inst m)) - ucast (prefixbytes (inst m)) \<le> kMaxValidInstLength"
    and "\<not> failed v1"
proof -
  let ?long = "ucast (inst_length (inst m)) - ucast (prefixbytes (inst m)) > kMaxValidInstLength"
  define w2 where "w2 = (if prefix_usage_ok m then (mem, v1) else (BadInstructionError m mem v1, Stats_BadPrefix v1))"
  define w3 where "w3 = (if ?long then (BadInstructionError m (fst w2) (snd w2), Stats_BadInstLength (snd w2)) else w2)"
  obtain mem4 v4 sq where s: "ValidateInst_switch buf i (fst w3) (snd w3) = (mem4, v4, sq)"
    by (metis prod_cases3)
  have eq: "ValidateInst buf i mem v =
      (if sq then memset mem4 (maddr (inst m)) kNaClFullStop (len m) else mem4, v4)"
    using s by (simp add: ValidateInst_def Let_def w2_def w3_def v1_def m_def split: if_splits)
  then have v4: "v4 = v'" and mem': "mem' = (if sq then memset mem4 (maddr (inst m)) kNaClFullStop (len m) else mem4)"
    using assms(1) by simp_all
  have "\<not> failed (snd w3)" using ValidateInst_switch_sticky [OF s] assms(2) v4 by blast
  then have l: "\<not> ?long" and "\<not> failed (snd w2)" by (auto simp: w3_def split: if_splits)
  then have p: "prefix_usage_ok m" and nf: "\<not> failed v1" by (auto simp: w2_def split: if_splits)
  have w3: "w3 = (mem, v1)" using l p by (simp add: w3_def w2_def)
  have "mem4 = mem" using ValidateInst_switch_ok(1) [OF s] assms(2) v4 w3 by simp
  with s w3 v4 mem' have "ValidateInst_switch buf i mem v1 = (mem, v', sq)"
    "mem' = (if sq then memset mem (maddr (inst m)) kNaClFullStop (len m) else mem)" by simp_all
  with p l nf that show thesis by (simp add: not_less)
qed

lemma ValidateInst_sticky: "failed v \<Longrightarrow> failed (snd (ValidateInst buf i mem v))"
  using ValidateInst_ok [of buf i mem v "fst (ValidateInst buf i mem v)" "snd (ValidateInst buf i mem v)"]
    RememberIP_ok by (metis failed_stats(11) prod.collapse)

text \<open>The check writes only the bytes of the instruction, and only the halt instruction.\<close>


definition halts_inst :: "NCDecoderState \<Rightarrow> memory \<Rightarrow> memory \<Rightarrow> bool" where
  "halts_inst m mem mem' \<longleftrightarrow> mem' = mem \<or> mem' = memset mem (maddr (inst m)) kNaClFullStop (len m)"

lemma halts_inst_refl [simp]: "halts_inst m mem mem"
  by (simp add: halts_inst_def)

lemma halts_inst_memset [simp]: "halts_inst m mem (memset mem (maddr (inst m)) kNaClFullStop (len m))"
  by (simp add: halts_inst_def)

lemma memset_twice: "memset (memset mem p b n) p b n = memset mem p b n"
  by (auto simp: memset_def)

lemma halts_inst_trans: "halts_inst m a b \<Longrightarrow> halts_inst m b c \<Longrightarrow> halts_inst m a c"
  by (auto simp: halts_inst_def memset_twice)

lemma halts_inst_Bad [simp]: "halts_inst m mem (BadInstructionError m mem v)"
  by (simp add: BadInstructionError_def)

lemma halts_inst_switch: "halts_inst (buf ! i) mem (fst (ValidateInst_switch buf i mem v))"
  by (cases "insttype (opinfo (buf ! i))";
      simp add: ValidateInst_switch_def ValidateIllegal_def ValidateIndirect5_def Let_def)
    (blast intro: halts_inst_trans halts_inst_Bad)

lemma ValidateInst_mem: "halts_inst (buf ! i) mem (fst (ValidateInst buf i mem v))"
proof -
  define m where "m = buf ! i"
  define v1 where "v1 = RememberIP (vaddr (inst m)) (OpcodeHisto (mem (maddr (inst m) + unat (prefixbytes (inst m)))) v)"
  define w2 where "w2 = (if prefix_usage_ok m then (mem, v1) else (BadInstructionError m mem v1, Stats_BadPrefix v1))"
  define w3 where "w3 = (if ucast (inst_length (inst m)) - ucast (prefixbytes (inst m)) > kMaxValidInstLength
    then (BadInstructionError m (fst w2) (snd w2), Stats_BadInstLength (snd w2)) else w2)"
  obtain mem4 v4 sq where s: "ValidateInst_switch buf i (fst w3) (snd w3) = (mem4, v4, sq)"
    by (metis prod_cases3)
  have eq: "ValidateInst buf i mem v =
      (if sq then memset mem4 (maddr (inst m)) kNaClFullStop (len m) else mem4, v4)"
    using s by (simp add: ValidateInst_def Let_def w2_def w3_def v1_def m_def split: if_splits)
  have "halts_inst m mem (fst w2)" by (simp add: w2_def)
  moreover have "halts_inst m (fst w2) (fst w3)" by (simp add: w3_def)
  moreover have "halts_inst m (fst w3) mem4" using halts_inst_switch [of buf i "fst w3" "snd w3"] s by (simp add: m_def)
  moreover have "halts_inst m mem4 (fst (ValidateInst buf i mem v))" by (simp add: eq)
  ultimately show ?thesis unfolding m_def by (blast intro: halts_inst_trans)
qed

lemma ncv_callbacks_sel [simp]:
  "g_DecoderAction ncv_callbacks = ValidateInst" "g_NewSegment ncv_callbacks = Stats_NewSegment"
  "g_SegFault ncv_callbacks = Stats_SegFault" "g_InternalError ncv_callbacks = Stats_InternalError"
  by (simp_all add: ncv_callbacks_def NCDecodeRegisterCallbacks_def)

interpretation ncv: decoder_client ncv_callbacks failed
proof
  show "failed (snd (g_DecoderAction ncv_callbacks buf i mem v))" if "failed v" for v buf i mem
    using ValidateInst_sticky [OF that] by simp
  show "fst (g_DecoderAction ncv_callbacks buf i mem v) a = mem a"
    if "a < maddr (inst (buf ! i)) \<or> maddr (inst (buf ! i)) + len (buf ! i) \<le> a" for a buf i mem v
    using ValidateInst_mem [of buf i mem v] memset_outside [OF that] by (auto simp: halts_inst_def)
qed simp_all

subsection \<open>The invariant of a validation run\<close>

text \<open>The addresses a jump may go to: instruction starts, but not the second half of a masked pair.\<close>

definition jump_starts :: "NCDecoderState list \<Rightarrow> u32 set" where
  "jump_starts ms = {vaddr (inst m) |m. m \<in> set ms \<and> insttype (opinfo m) \<noteq> NACLi_INDIRECT}"

definition direct_targets :: "memory \<Rightarrow> u32 \<Rightarrow> u32 \<Rightarrow> NCDecoderState list \<Rightarrow> u32 set" where
  "direct_targets mem base limit ms =
     {t. base \<le> t \<and> t < limit \<and> (\<exists>m\<in>set ms. direct_target mem m = Some t)}"

definition accepted :: "memory \<Rightarrow> u32 \<Rightarrow> u32 \<Rightarrow> u32 \<Rightarrow> NCDecoderState \<Rightarrow> bool" where
  "accepted mem base limit msk m \<longleftrightarrow>
     base \<le> vaddr (inst m) \<and> vaddr (inst m) < limit \<and>
     legal_type (insttype (opinfo m)) \<and> prefix_usage_ok m \<and>
     (\<forall>t. direct_target mem m = Some t \<longrightarrow> base \<le> t \<and> t < limit \<or> t AND msk = 0)"

definition pairs_ok :: "memory \<Rightarrow> u32 \<Rightarrow> NCDecoderState list \<Rightarrow> bool" where
  "pairs_ok mem msk ms \<longleftrightarrow>
     (\<forall>i<length ms. insttype (opinfo (ms ! i)) = NACLi_INDIRECT \<longrightarrow>
        0 < i \<and> masked_pair mem msk (ms ! (i - 1)) (ms ! i))"

definition vinv ::
    "memory \<Rightarrow> u32 \<Rightarrow> u32 \<Rightarrow> u32 \<Rightarrow> NCDecoderState list \<Rightarrow> memory \<Rightarrow> NCValidatorState \<Rightarrow> bool" where
  "vinv mem0 base limit msk ms mem v \<longleftrightarrow>
     iadrbase v = base \<and> iadrlimit v = limit \<and> alignmask v = msk \<and>
     ucast (alignment v) = msk + 1 \<and>
     (\<forall>off<limit - base. in_table (vttable v) off \<and> in_table (kttable v) off) \<and>
     iat.members (vttable v) = (\<lambda>a. a - base) ` jump_starts ms \<and>
     iat.members (kttable v) = (\<lambda>a. a - base) ` direct_targets mem0 base limit ms \<and>
     (\<forall>m\<in>set ms. accepted mem0 base limit msk m) \<and> pairs_ok mem0 msk ms \<and>
     (\<forall>a. mem a = mem0 a \<or> mem a = kNaClFullStop)"

lemma jump_starts_snoc:
  "jump_starts (ms @ [m]) =
     (if insttype (opinfo m) = NACLi_INDIRECT then jump_starts ms else insert (vaddr (inst m)) (jump_starts ms))"
  by (auto simp: jump_starts_def)

lemma direct_targets_snoc:
  "direct_targets mem base limit (ms @ [m]) = direct_targets mem base limit ms \<union>
     (case direct_target mem m of None \<Rightarrow> {} | Some t \<Rightarrow> if base \<le> t \<and> t < limit then {t} else {})"
  by (auto simp: direct_targets_def split: option.splits if_splits)

lemma pairs_ok_snoc:
  "pairs_ok mem msk (ms @ [m]) \<longleftrightarrow> pairs_ok mem msk ms \<and>
     (insttype (opinfo m) = NACLi_INDIRECT \<longrightarrow> ms \<noteq> [] \<and> masked_pair mem msk (last ms) m)"
  by (auto simp: pairs_ok_def nth_append less_Suc_eq last_conv_nth all_conj_distrib)

lemma direct_target_cong:
  assumes "agrees_from mem mem0 (maddr (inst m))" and "inst m' = inst m" and "opinfo m' = opinfo m"
  shows "direct_target mem m' = direct_target mem0 m"
proof -
  let ?op = "maddr (inst m) + unat (prefixbytes (inst m))"
  have "mem ?op = mem0 ?op" "mem (?op + 1) = mem0 (?op + 1)"
    using assms(1) by (simp_all add: agrees_from_def)
  moreover have "read32 mem (?op + 1) = read32 mem0 (?op + 1)" "read32 mem (?op + 2) = read32 mem0 (?op + 2)"
    using assms(1) by (auto simp: agrees_from_def intro!: read32_cong)
  ultimately show ?thesis
    unfolding direct_target_def Let_def assms(2,3) by (simp only:)
qed

lemma offset_less: "base \<le> a \<Longrightarrow> a < limit \<Longrightarrow> a - base < limit - (base :: u32)"
  by (simp add: word_less_nat_alt word_le_nat_alt unat_sub_le diff_less_mono)

text \<open>The bytes of a mask instruction are not halt bytes, so they are the bytes of the code.\<close>

lemma masked_pair_original:
  assumes mp: "masked_pair mem msk a j" and msk: "msk = 15 \<or> msk = 31"
    and old: "\<forall>a. mem a = mem0 a \<or> mem a = kNaClFullStop" and ag: "agrees_from mem mem0 (maddr (inst j))"
  shows "masked_pair mem0 msk a j"
proof -
  let ?r = "modrm_rm (mem (maddr (inst j) + 1))"
  have j: "mem (maddr (inst j)) = mem0 (maddr (inst j))" "mem (maddr (inst j) + 1) = mem0 (maddr (inst j) + 1)"
    using ag by (simp_all add: agrees_from_def)
  have "\<not> bit (0xe0 OR ?r) 4" by (simp add: modrm_rm_def bit_simps)
  moreover have "bit (0xf4 :: u8) 4" by simp
  ultimately have r: "0xe0 OR ?r \<noteq> 0xf4" by metis
  have k: "(0xff AND NOT msk :: u32) \<noteq> ucast (0xf4 :: u8)" using msk by auto
  have "mem (maddr (inst a)) = mem0 (maddr (inst a))" "mem (maddr (inst a) + 1) = mem0 (maddr (inst a) + 1)"
    "mem (maddr (inst a) + 2) = mem0 (maddr (inst a) + 2)"
    using mp r k old [rule_format, of "maddr (inst a)"] old [rule_format, of "maddr (inst a) + 1"]
      old [rule_format, of "maddr (inst a) + 2"]
    unfolding masked_pair_def Let_def kNaClFullStop_def by auto
  with mp j show ?thesis unfolding masked_pair_def Let_def by simp
qed


lemma vinv_snocI:
  assumes "vinv mem0 base limit msk ms mem v" and "same_config v v'"
    and "iat.members (vttable v') = (\<lambda>a. a - base) ` jump_starts (ms @ [m])"
    and "iat.members (kttable v') = (\<lambda>a. a - base) ` direct_targets mem0 base limit (ms @ [m])"
    and "accepted mem0 base limit msk m" and "pairs_ok mem0 msk (ms @ [m])"
    and "\<forall>a. mem' a = mem0 a \<or> mem' a = kNaClFullStop"
  shows "vinv mem0 base limit msk (ms @ [m]) mem' v'"
  using assms by (auto simp: vinv_def same_config_def in_table_def)

lemma vinv_step:
  assumes inv: "vinv mem0 base limit msk ms mem v" and msk: "msk = 15 \<or> msk = 31"
    and prev: "prev_is buf i ms" and same: "same_inst (buf ! i) m"
    and ag: "agrees_from mem mem0 (maddr (inst m))"
    and run: "ValidateInst buf i mem v = (mem', v')" and nf: "\<not> failed v'"
  shows "vinv mem0 base limit msk (ms @ [m]) mem' v'"
proof -
  define a where "a = vaddr (inst m)"
  have io: "inst (buf ! i) = inst m" "opinfo (buf ! i) = opinfo m"
    using same by (simp_all add: same_inst_def)
  define v1 where "v1 = RememberIP a (OpcodeHisto (mem (maddr (inst m) + unat (prefixbytes (inst m)))) v)"
  obtain sq where sw: "ValidateInst_switch buf i mem v1 = (mem, v', sq)"
    and mem': "mem' = (if sq then memset mem (maddr (inst m)) kNaClFullStop (len m) else mem)"
    and pre: "prefix_usage_ok (buf ! i)" and nf1: "\<not> failed v1"
    using ValidateInst_ok [OF run nf] unfolding v1_def a_def io by blast
  note sw' = ValidateInst_switch_ok(2,3) [OF sw nf, unfolded io]
  note r = RememberIP_ok [OF nf1 [unfolded v1_def], folded v1_def]
  have cfg: "iadrbase v1 = base" "iadrlimit v1 = limit" "alignmask v1 = msk"
    and rng: "base \<le> a" "a < limit" and vt1: "vttable v1 = SetAdrTable (a - base) (vttable v)"
    and kt1: "kttable v1 = kttable v" and new: "\<not> GetAdrTable (a - base) (vttable v)"
    using inv r by (simp_all add: vinv_def same_config_def stats_defs)
  have tab: "in_table (vttable v) off" "in_table (kttable v) off" if "off < limit - base" for off
    using inv that by (auto simp: vinv_def)
  note oa = offset_less [OF rng]
  have m1: "iat.members (vttable v1) = insert (a - base) (iat.members (vttable v))"
    unfolding vt1 by (rule iat.members_set [OF tab(1) [OF oa]])
  have notin: "a - base \<notin> iat.members (vttable v)"
    using new iat.get_members [OF tab(1) [OF oa]] by simp
  have dt: "direct_target mem (buf ! i) = direct_target mem0 m"
    by (rule direct_target_cong [OF ag io])
  have mem_old: "\<forall>x. mem' x = mem0 x \<or> mem' x = kNaClFullStop"
    using inv memset_cases mem' unfolding vinv_def by (metis (full_types))
  have pm: "prefix_usage_ok m" using pre unfolding prefix_usage_ok_def io .
  have pairs: "pairs_ok mem0 msk ms" and mem_v: "\<forall>x. mem x = mem0 x \<or> mem x = kNaClFullStop"
    using inv by (simp_all add: vinv_def)
  have sc1: "same_config v v1"
    using r same_config_trans same_config_stats(1) by blast
  have mv: "iat.members (vttable v) = (\<lambda>a. a - base) ` jump_starts ms"
    and mk: "iat.members (kttable v) = (\<lambda>a. a - base) ` direct_targets mem0 base limit ms"
    using inv by (simp_all add: vinv_def)
  have acc: "accepted mem0 base limit msk m"
    if "\<And>t. direct_target mem0 m = Some t \<Longrightarrow> base \<le> t \<and> t < limit \<or> t AND msk = 0"
    using that rng sw'(1) pm by (auto simp: accepted_def a_def)
  show ?thesis
  proof (cases "insttype (opinfo m) = NACLi_INDIRECT")
    case True
    then have v': "v' = snd (ValidateIndirect5 buf i mem v1)" using sw'(2) by simp
    note ok = ValidateIndirect5_ok [OF nf [unfolded v']]
    let ?w = "Stats_TargetIndirect (Stats_CheckTarget v1)"
    have v'': "v' = ForgetIP a ?w" using ok v' by (simp add: a_def io)
    note f = ForgetIP_ok [OF nf [unfolded v''], folded v'']
    have w: "vttable ?w = vttable v1" "kttable ?w = kttable v1" "iadrbase ?w = base"
      "same_config v1 ?w" using cfg by (simp_all add: stats_defs same_config_def)
    have "ms \<noteq> [] \<and> masked_pair mem msk (last ms) m"
      using ok prev io cfg by (auto simp: prev_is_def same_inst_def masked_pair_def split: if_splits)
    then have "pairs_ok mem0 msk (ms @ [m])"
      using pairs masked_pair_original [OF _ msk mem_v ag] by (simp add: pairs_ok_snoc)
    moreover have "iat.members (vttable v') = iat.members (vttable v)"
      using f w m1 notin tab(1) [OF oa] vt1 by (simp add: iat.members_clear)
    moreover have dn: "direct_target mem0 m = None" using True by (simp add: direct_target_def)
    moreover have "same_config v v'" using sc1 w(4) f same_config_trans by blast
    moreover have "kttable v' = kttable v" using f w kt1 by simp
    ultimately show ?thesis
      using True acc mv mk dn mem_old
      by (intro vinv_snocI [OF inv]) (simp_all add: jump_starts_snoc direct_targets_snoc)
  next
    case False
    have starts: "iat.members (vttable v1) = (\<lambda>a. a - base) ` jump_starts (ms @ [m])"
      using False m1 mv by (simp add: jump_starts_snoc a_def)
    have pairs': "pairs_ok mem0 msk (ms @ [m])" using False pairs by (simp add: pairs_ok_snoc)
    show ?thesis
    proof (cases "direct_target mem0 m")
      case None
      have "v' = v1 \<or> v' = Stats_CheckTarget v1"
      proof (cases "insttype (opinfo m) = NACLi_JMPZ")
        case True
        with sw'(2) nf ValidateJmpz_ok [of "buf ! i" mem v1] dt None io show ?thesis by simp
      next
        case f: False
        have "insttype (opinfo m) \<noteq> NACLi_JMP8" using None by (auto simp: direct_target_def Let_def)
        with f False sw'(2) show ?thesis by (cases "insttype (opinfo m)") simp_all
      qed
      then have "vttable v' = vttable v1" "kttable v' = kttable v" "same_config v v'"
        using kt1 sc1 by (auto simp: stats_defs same_config_def)
      with starts pairs' acc mk None mem_old show ?thesis
        by (intro vinv_snocI [OF inv]) (simp_all add: direct_targets_snoc)
    next
      case (Some t)
      have v': "v' = RememberTP t (Stats_CheckTarget v1)"
      proof (cases "insttype (opinfo m) = NACLi_JMPZ")
        case True
        with sw'(2) nf ValidateJmpz_ok [of "buf ! i" mem v1] dt Some io show ?thesis by simp
      next
        case f: False
        then have "insttype (opinfo m) = NACLi_JMP8"
          using Some by (auto simp: direct_target_def Let_def split: NaClInstType.splits)
        with sw'(2) nf ValidateJmp8_ok [of "buf ! i" mem v1] dt Some io show ?thesis by auto
      qed
      note t = RememberTP_ok [OF nf [unfolded v'], folded v']
      have w: "vttable (Stats_CheckTarget v1) = vttable v1" "kttable (Stats_CheckTarget v1) = kttable v1"
        "iadrbase (Stats_CheckTarget v1) = base" "iadrlimit (Stats_CheckTarget v1) = limit"
        "alignmask (Stats_CheckTarget v1) = msk" "same_config v1 (Stats_CheckTarget v1)"
        using cfg by (simp_all add: stats_defs same_config_def)
      have "iat.members (kttable v') = (\<lambda>a. a - base) ` direct_targets mem0 base limit (ms @ [m])"
        using t w kt1 mk tab(2) [OF offset_less] Some
        by (auto simp: direct_targets_snoc iat.members_set split: if_splits)
      moreover have "same_config v v'" using sc1 w(6) t same_config_trans by blast
      moreover have "accepted mem0 base limit msk m"
        using t w Some by (intro acc) (auto split: if_splits)
      moreover have "vttable v' = vttable v1" using t w by simp
      ultimately show ?thesis
        using starts pairs' mem_old by (intro vinv_snocI [OF inv]) simp_all
    qed
  qed
qed

subsection \<open>The final pass\<close>

lemma Finish_same:
  "vttable (Finish_CheckTarget off v) = vttable v \<and> kttable (Finish_CheckTarget off v) = kttable v \<and>
   same_config v (Finish_CheckTarget off v)"
  "vttable (Finish_CheckBlock off v) = vttable v \<and> kttable (Finish_CheckBlock off v) = kttable v \<and>
   same_config v (Finish_CheckBlock off v)"
  by (simp_all add: Finish_CheckTarget_def Finish_CheckBlock_def Let_def stats_defs same_config_def)

text \<open>A fold of checks that keep the tables and only raise the error flag: it ends without the
  flag if and only if it began so and every check passed.\<close>

locale table_checks =
  fixes check :: "u32 \<Rightarrow> NCValidatorState \<Rightarrow> NCValidatorState"
    and passes :: "u8 list \<Rightarrow> u8 list \<Rightarrow> u32 \<Rightarrow> bool"
  assumes check_failed: "failed (check off v) \<longleftrightarrow> failed v \<or> \<not> passes (vttable v) (kttable v) off"
    and check_same: "vttable (check off v) = vttable v \<and> kttable (check off v) = kttable v \<and>
      same_config v (check off v)"
begin

lemma fold_same:
  "vttable (fold check offs v) = vttable v \<and> kttable (fold check offs v) = kttable v \<and>
   same_config v (fold check offs v)"
proof (induction offs arbitrary: v)
  case (Cons off offs)
  show ?case
    using Cons.IH [of "check off v"] check_same [of off v] same_config_trans by auto
qed simp

lemma fold_failed:
  "failed (fold check offs v) \<longleftrightarrow> failed v \<or> (\<exists>off\<in>set offs. \<not> passes (vttable v) (kttable v) off)"
  by (induction offs arbitrary: v) (auto simp: check_failed check_same)

end

interpretation targets: table_checks Finish_CheckTarget
  "\<lambda>vt kt off. GetAdrTable off kt \<longrightarrow> GetAdrTable off vt"
proof
  fix off v
  have "vttable (Stats_CheckTarget v) = vttable v" by (simp add: stats_defs)
  then show "failed (Finish_CheckTarget off v) \<longleftrightarrow>
      failed v \<or> \<not> (GetAdrTable off (kttable v) \<longrightarrow> GetAdrTable off (vttable v))"
    by (auto simp: Finish_CheckTarget_def Let_def)
qed (rule Finish_same)

interpretation blocks: table_checks Finish_CheckBlock "\<lambda>vt kt off. GetAdrTable off vt"
proof
  fix off v
  show "failed (Finish_CheckBlock off v) \<longleftrightarrow> failed v \<or> \<not> GetAdrTable off (vttable v)"
    by (auto simp: Finish_CheckBlock_def)
qed (rule Finish_same)

text \<open>When the last block's end does not wrap, the pass returns, and it returns success exactly
  when no error was seen, every recorded target and every bundle boundary is a recorded
  instruction start.\<close>

lemma NCValidateFinish_iff:
  assumes al: "alignment v = 16 \<or> alignment v = 32"
    and nowrap: "unat (iadrlimit v - iadrbase v) + 32 \<le> 2 ^ 32"
  defines "n \<equiv> iadrlimit v - iadrbase v"
  obtains r v' where "NCValidateFinish (Some v) = Some (r, Some v')"
    and "\<not> r \<longleftrightarrow> \<not> failed v \<and> iadrbase v AND alignmask v = 0 \<and>
      (\<forall>off<n. GetAdrTable off (kttable v) \<longrightarrow> GetAdrTable off (vttable v)) \<and>
      (\<forall>off<n. unat (alignment v) dvd unat off \<longrightarrow> GetAdrTable off (vttable v))"
proof -
  let ?a = "ucast (alignment v) :: u32"
  have a: "0 < ?a" "unat ?a \<le> 32" "unat ?a = unat (alignment v)" using al by auto
  have n: "unat n + unat ?a \<le> 2 ^ 32" "unat n + unat (1 :: u32) \<le> 2 ^ 32"
    using nowrap a by (simp_all add: n_def)
  define v1 where "v1 = fold Finish_CheckTarget (for_offsets n 1 0) v"
  define v2 where "v2 = (if iadrbase v1 AND alignmask v1 \<noteq> 0 then Stats_BadAlignment v1 else v1)"
  define v3 where "v3 = fold Finish_CheckBlock (for_offsets n ?a 0) v2"
  have s1: "vttable v1 = vttable v" "kttable v1 = kttable v" "alignment v1 = alignment v"
    "iadrbase v1 = iadrbase v" "alignmask v1 = alignmask v"
    using targets.fold_same [of "for_offsets n 1 0" v] by (simp_all add: v1_def same_config_def)
  have s2: "vttable v2 = vttable v" "alignment v2 = alignment v"
    "failed v2 \<longleftrightarrow> failed v1 \<or> iadrbase v AND alignmask v \<noteq> 0"
    using s1 by (auto simp: v2_def stats_defs failed_def)
  have "for_u32 (Suc (unat n)) n 1 0 Finish_CheckTarget v = Some v1"
    unfolding v1_def by (rule for_u32_fold) (use n in simp_all)
  moreover have "for_u32 (Suc (unat n)) n (ucast (alignment v2)) 0 Finish_CheckBlock v2 = Some v3"
    unfolding v3_def s2(2) by (rule for_u32_fold) (use n a in simp_all)
  ultimately have run: "NCValidateFinish (Some v) = Some (failed v3, Some v3)"
    by (simp add: NCValidateFinish_def Let_def failed_def flip: n_def v2_def)
  have o1: "set (for_offsets n 1 0) = {i. i < n}"
    using set_for_offsets [OF _ n(2)] by simp
  have o2: "set (for_offsets n ?a 0) = {i. i < n \<and> unat (alignment v) dvd unat i}"
    using set_for_offsets [OF a(1) n(1)] a(3) by simp
  have "\<not> failed v3 \<longleftrightarrow> \<not> failed v \<and> iadrbase v AND alignmask v = 0 \<and>
      (\<forall>off<n. GetAdrTable off (kttable v) \<longrightarrow> GetAdrTable off (vttable v)) \<and>
      (\<forall>off<n. unat (alignment v) dvd unat off \<longrightarrow> GetAdrTable off (vttable v))"
    unfolding v3_def blocks.fold_failed s2 v1_def targets.fold_failed o1 o2 by auto
  with run that show thesis by blast
qed

lemma for_u32_inv:
  "for_u32 fuel n step i body v = Some v' \<Longrightarrow> P v \<Longrightarrow> (\<And>i v. P v \<Longrightarrow> P (body i v)) \<Longrightarrow> P v'"
  by (induction fuel arbitrary: i v) (auto split: if_splits)

lemma NCValidateFinish_sticky: "NCValidateFinish (Some v) = Some (False, v') \<Longrightarrow> \<not> failed v"
proof
  assume fin: "NCValidateFinish (Some v) = Some (False, v')" and "failed v"
  let ?n = "iadrlimit v - iadrbase v"
  obtain v1 where v1: "for_u32 (Suc (unat ?n)) ?n 1 0 Finish_CheckTarget v = Some v1"
    using fin by (auto simp: NCValidateFinish_def Let_def split: option.splits)
  define w where "w = (if iadrbase v1 AND alignmask v1 \<noteq> 0 then Stats_BadAlignment v1 else v1)"
  obtain v2 where v2: "for_u32 (Suc (unat ?n)) ?n (ucast (alignment w)) 0 Finish_CheckBlock w = Some v2"
    and "\<not> failed v2"
    using fin v1 by (auto simp: NCValidateFinish_def Let_def failed_def simp flip: w_def split: option.splits)
  have "failed v1" by (rule for_u32_inv [where P = failed, OF v1 \<open>failed v\<close>]) (simp add: targets.check_failed)
  then have "failed w" by (simp add: w_def)
  have "failed v2" by (rule for_u32_inv [where P = failed, OF v2 \<open>failed w\<close>]) (simp add: blocks.check_failed)
  with \<open>\<not> failed v2\<close> show False ..
qed

subsection \<open>The code layout\<close>

lemma decodes_layout:
  "decodes T mem ms p v q w \<Longrightarrow>
   p \<le> q \<and> unat v \<le> unat w \<and> q - p = unat w - unat v \<and>
   (\<forall>m\<in>set ms. p \<le> maddr (inst m) \<and> maddr (inst m) + len m \<le> q \<and>
      unat v \<le> unat (vaddr (inst m)) \<and> unat (vaddr (inst m)) + len m \<le> unat w \<and>
      maddr (inst m) - p = unat (vaddr (inst m)) - unat v \<and>
      m = decode_at T mem (vaddr (inst m)) (maddr (inst m)))"
proof (induction ms arbitrary: p v)
  case Nil
  then show ?case by simp
next
  case (Cons m ms)
  have m: "m = decode_at T mem v p" and lt: "unat v + len m < 2 ^ 32"
    and ds: "decodes T mem ms (p + len m) (v + ucast (inst_length (inst m))) q w"
    using Cons.prems unfolding decodes.simps by blast+
  have "unat (v + ucast (inst_length (inst m))) = unat v + len m" by (rule unat_add_u8 [OF lt])
  moreover have "maddr (inst m) = p" "vaddr (inst m) = v" by (simp_all add: m)
  ultimately show ?case using Cons.IH [OF ds] m by auto
qed

text \<open>What a run does to the code: an instruction is left as it is or overwritten by halts.\<close>

definition intact_or_halt :: "memory \<Rightarrow> memory \<Rightarrow> NCDecoderState \<Rightarrow> bool" where
  "intact_or_halt mem0 mem m \<longleftrightarrow>
     (\<forall>a. maddr (inst m) \<le> a \<longrightarrow> a < maddr (inst m) + len m \<longrightarrow> mem a = mem0 a) \<or>
     (\<forall>a. maddr (inst m) \<le> a \<longrightarrow> a < maddr (inst m) + len m \<longrightarrow> mem a = kNaClFullStop)"

definition code_bytes :: "NCDecoderState list \<Rightarrow> nat set" where
  "code_bytes ms = (\<Union>m\<in>set ms. {maddr (inst m)..<maddr (inst m) + len m})"

definition minv :: "memory \<Rightarrow> NCDecoderState list \<Rightarrow> memory \<Rightarrow> bool" where
  "minv mem0 ms mem \<longleftrightarrow>
     (\<forall>m\<in>set ms. intact_or_halt mem0 mem m) \<and> (\<forall>a. a \<notin> code_bytes ms \<longrightarrow> mem a = mem0 a)"

lemma minv_step:
  assumes inv: "minv mem0 ms mem" and lay: "decodes T mem0 ms p0 v0 (maddr (inst m)) (vaddr (inst m))"
    and ag: "agrees_from mem mem0 (maddr (inst m))" and run: "halts_inst m mem mem'"
  shows "minv mem0 (ms @ [m]) mem'"
proof -
  let ?p = "maddr (inst m)"
  have old: "mem' a = mem a" if "a < ?p \<or> ?p + len m \<le> a" for a
    using run memset_outside [OF that] by (auto simp: halts_inst_def)
  have "maddr (inst n) + len n \<le> ?p" if "n \<in> set ms" for n
    using decodes_layout [OF lay] that by auto
  then have "intact_or_halt mem0 mem' n" if "n \<in> set ms" for n
    using inv that old unfolding minv_def intact_or_halt_def by (metis order_less_le_trans)
  moreover have "intact_or_halt mem0 mem' m"
    using run ag by (auto simp: halts_inst_def intact_or_halt_def agrees_from_def)
  ultimately show ?thesis
    using inv old by (auto simp: minv_def code_bytes_def)
qed

subsection \<open>What validation establishes\<close>

text \<open>
  \<open>validated T mem mbase base limit msk ms mem'\<close>: the code \<open>mem\<close> from \<open>mbase\<close> on, linked at
  \<open>base\<close>, is exactly the instruction sequence \<open>ms\<close>; each is of a permitted type with permitted
  prefixes; every direct jump inside the region goes to the start of an instruction that is
  not the jump of a masked pair, every other one to a bundle boundary; every indirect jump is
  directly preceded by its mask; every bundle boundary is such a start; and \<open>mem'\<close>, the memory
  after the run, is \<open>mem\<close> with some instructions overwritten by halts.
\<close>

definition validated ::
    "DecodeTables \<Rightarrow> memory \<Rightarrow> nat \<Rightarrow> u32 \<Rightarrow> u32 \<Rightarrow> u32 \<Rightarrow> NCDecoderState list \<Rightarrow> memory \<Rightarrow> bool" where
  "validated T mem mbase base limit msk ms mem' \<longleftrightarrow>
     decodes T mem ms mbase base (mbase + unat (limit - base)) limit \<and>
     (\<forall>m\<in>set ms. accepted mem base limit msk m) \<and>
     pairs_ok mem msk ms \<and>
     direct_targets mem base limit ms \<subseteq> jump_starts ms \<and>
     (\<forall>a. base \<le> a \<longrightarrow> a < limit \<longrightarrow> a AND msk = 0 \<longrightarrow> a \<in> jump_starts ms) \<and>
     (\<forall>m\<in>set ms. intact_or_halt mem mem' m) \<and>
     (\<forall>a. a < mbase \<or> mbase + unat (limit - base) \<le> a \<longrightarrow> mem' a = mem a)"

lemma and_mask_dvd:
  assumes "al = 16 \<or> al = (32 :: u8)"
  shows "(a :: u32) AND (ucast al - 1) = 0 \<longleftrightarrow> unat al dvd unat a"
proof -
  have "a AND 15 = take_bit 4 a" "a AND 31 = take_bit 5 a"
    by (simp_all add: take_bit_eq_mask mask_eq_exp_minus_1)
  moreover have "take_bit k a = 0 \<longleftrightarrow> 2 ^ k dvd unat a" for k
  proof -
    have "take_bit k a = 0 \<longleftrightarrow> unat (take_bit k a) = 0" by (simp only: unsigned_eq_0_iff)
    also have "\<dots> \<longleftrightarrow> unat a mod 2 ^ k = 0" by (simp only: unsigned_take_bit_eq flip: take_bit_eq_mod)
    finally show ?thesis by (simp only: dvd_eq_mod_eq_0)
  qed
  from this [of 4] this [of 5] have "take_bit 4 a = 0 \<longleftrightarrow> 16 dvd unat a" "take_bit 5 a = 0 \<longleftrightarrow> 32 dvd unat a"
    by simp_all
  ultimately show ?thesis using assms by auto
qed

lemma NCValidateInit_Some:
  assumes "NCValidateInit alloc inited vbase vlimit al = (inited', Some v)"
  shows "vbase < vlimit" and "al = 16 \<or> al = 32" and "vbase AND (ucast al - 1) = 0"
    and "iadrbase v = vbase" "iadrlimit v = vlimit" "alignment v = al" "alignmask v = ucast al - 1"
    and "\<not> failed v" "segments (stats v) = 0" "do_stub_out v = False"
    and "vttable v = replicate (IATOffset (vlimit - vbase) + 1) 0"
    and "kttable v = replicate (IATOffset (vlimit - vbase) + 1) 0"
proof -
  have u: "ucast (al - 1) = (ucast al - 1 :: u32)" if "al = 16 \<or> al = 32" using that by auto
  note d = assms [unfolded NCValidateInit_def Let_def Stats_Init_def InitOpcodeHisto_def zero_stats_def]
  show g: "vbase < vlimit" "al = 16 \<or> al = 32" using d by (auto split: if_splits)
  show "vbase AND (ucast al - 1) = 0" using d u [OF g(2)] by (simp split: if_splits)
  show "iadrbase v = vbase" "iadrlimit v = vlimit" "alignment v = al" "alignmask v = ucast al - 1"
    "\<not> failed v" "segments (stats v) = 0" "do_stub_out v = False"
    "vttable v = replicate (IATOffset (vlimit - vbase) + 1) 0"
    "kttable v = replicate (IATOffset (vlimit - vbase) + 1) 0"
    using d by (auto simp: failed_def split: if_splits)
qed

lemma vinv_initial:
  assumes t: "vttable v = replicate (IATOffset (limit - base) + 1) 0"
      "kttable v = replicate (IATOffset (limit - base) + 1) 0"
    and c: "iadrbase v = base" "iadrlimit v = limit" "alignmask v = msk" "ucast (alignment v) = msk + 1"
  shows "vinv mem base limit msk [] mem v"
proof -
  have "IATOffset off \<le> IATOffset (limit - base)" if "off < limit - base" for off
    using that by (simp add: IATOffset_div word_less_nat_alt div_le_mono)
  then have "in_table (vttable v) off" "in_table (kttable v) off" if "off < limit - base" for off
    using that by (simp_all add: in_table_def t less_Suc_eq_le)
  moreover have "iat.members (replicate n 0) = {}" for n
    by (auto simp: iat.members_def in_table_def GetAdrTable_bit)
  ultimately show ?thesis
    using c by (simp add: vinv_def jump_starts_def direct_targets_def pairs_ok_def t del: replicate.simps replicate_Suc)
qed

lemma init_decodebuffer_ok:
  "buffer_ok (init_decodebuffer p v) 0 kDecodeBufferSize"
  "prev_is (init_decodebuffer p v) 0 []"
  "mpc (init_decodebuffer p v ! 0) = p" "vpc (init_decodebuffer p v ! 0) = v"
proof -
  have eq: "init_decodebuffer p v =
      [(init_entry 0)\<lparr>mpc := p, nextbyte := p, vpc := v\<rparr>, init_entry 1, init_entry 2, init_entry 3]"
    by (simp add: init_decodebuffer_def kDecodeBufferSize_def upt_rec numeral_eq_Suc)
  show "buffer_ok (init_decodebuffer p v) 0 kDecodeBufferSize"
    by (auto simp: buffer_ok_def eq init_entry_def kDecodeBufferSize_def less_Suc_eq numeral_eq_Suc)
  show "prev_is (init_decodebuffer p v) 0 []"
    by (simp add: prev_is_def PreviousInst_eq eq init_entry_def)
  show "mpc (init_decodebuffer p v ! 0) = p" "vpc (init_decodebuffer p v ! 0) = v"
    by (simp_all add: eq)
qed


lemma vinv_finish:
  assumes ds: "decodes T mem ms mbase base q limit" and vi: "vinv mem base limit msk ms mem' v"
    and mi: "minv mem ms mem'" and fin: "NCValidateFinish (Some v) = Some (False, v2)"
    and al: "al = 16 \<or> al = (32 :: u8)" "msk = ucast al - 1" "base AND msk = 0"
    and le: "base \<le> limit" and nowrap: "unat limit + 32 \<le> 2 ^ 32"
  shows "validated T mem mbase base limit msk ms mem'"
proof -
  have c: "iadrbase v = base" "iadrlimit v = limit" "ucast (alignment v) = msk + 1"
    using vi by (simp_all add: vinv_def)
  have "alignment v = al" using c(3) al(2) ucast_u8_inject [of "alignment v" al] by simp
  then have a: "alignment v = 16 \<or> alignment v = 32" and av: "alignment v = al" using al by auto
  have sub: "unat (limit - base) = unat limit - unat base" using le by (rule unat_sub_le)
  have nw: "unat (iadrlimit v - iadrbase v) + 32 \<le> 2 ^ 32" using nowrap sub by (simp add: c)
  obtain r v3 where r: "NCValidateFinish (Some v) = Some (r, Some v3)"
    and iff: "\<not> r \<longleftrightarrow> \<not> failed v \<and> base AND alignmask v = 0 \<and>
      (\<forall>off<limit - base. GetAdrTable off (kttable v) \<longrightarrow> GetAdrTable off (vttable v)) \<and>
      (\<forall>off<limit - base. unat al dvd unat off \<longrightarrow> GetAdrTable off (vttable v))"
    by (rule NCValidateFinish_iff [OF a nw, unfolded c(1,2) av])
  then have tgt: "GetAdrTable off (kttable v) \<Longrightarrow> GetAdrTable off (vttable v)"
    and blk: "unat al dvd unat off \<Longrightarrow> GetAdrTable off (vttable v)" if "off < limit - base" for off
    using fin that by auto
  have start: "a \<in> jump_starts ms" if "base \<le> a" "a < limit" "GetAdrTable (a - base) (vttable v)" for a
  proof -
    have "a - base \<in> iat.members (vttable v)"
      using vi that offset_less [OF that(1,2)] iat.get_members by (simp add: vinv_def)
    then show ?thesis using vi by (auto simp: vinv_def)
  qed
  have "direct_targets mem base limit ms \<subseteq> jump_starts ms"
  proof
    fix t assume t: "t \<in> direct_targets mem base limit ms"
    then have rng: "base \<le> t" "t < limit" by (auto simp: direct_targets_def)
    have "t - base \<in> iat.members (kttable v)" using vi t by (auto simp: vinv_def)
    then show "t \<in> jump_starts ms"
      using start [OF rng] tgt [OF offset_less [OF rng]] by (simp add: iat.members_def)
  qed
  moreover have "a \<in> jump_starts ms" if "base \<le> a" "a < limit" "a AND msk = 0" for a
  proof -
    have "unat al dvd unat a" "unat al dvd unat base"
      using that(3) al(3) and_mask_dvd [OF al(1)] unfolding al(2) by simp_all
    then have "unat al dvd unat (a - base)" by (simp add: unat_sub_le [OF that(1)] dvd_diff_nat)
    then show ?thesis using start [OF that(1,2)] blk [OF offset_less [OF that(1,2)]] by simp
  qed
  moreover have q: "q = mbase + unat (limit - base)" using decodes_layout [OF ds] sub by auto
  moreover have "mem' a = mem a" if "a < mbase \<or> mbase + unat (limit - base) \<le> a" for a
  proof -
    have "a \<notin> code_bytes ms"
      using decodes_layout [OF ds] that q by (fastforce simp: code_bytes_def)
    then show ?thesis using mi by (simp add: minv_def)
  qed
  ultimately show ?thesis using vi mi ds by (auto simp: validated_def vinv_def minv_def)
qed

text \<open>The soundness of one run of the validator.\<close>

lemma NCValidateSegment_sound:
  assumes init: "NCValidateInit alloc inited vbase (vbase + sz) al = (inited', Some v0)"
    and nowrap: "unat vbase + unat sz + 32 \<le> 2 ^ 32"
    and seg: "NCValidateSegment T cpu mbase vbase sz mem (NCValidateSetStubOutMode v0 stub) = Some (mem', v1)"
    and fin: "NCValidateFinish (Some v1) = Some (False, v2)"
  shows "\<exists>ms. validated T mem mbase vbase (vbase + sz) (ucast al - 1) ms mem'"
proof -
  let ?limit = "vbase + sz" and ?msk = "ucast al - 1 :: u32"
  note i = NCValidateInit_Some [OF init]
  have lim: "unat ?limit = unat vbase + unat sz"
    using nowrap by (intro unat_add_no_wrap) simp
  have msk: "?msk = 15 \<or> ?msk = 31" using i(2) by auto
  define w where "w = (NCValidateSetStubOutMode v0 stub)\<lparr>cpufeatures := cpu\<rparr>"
  have w: "vttable w = vttable v0" "kttable w = kttable v0" "iadrbase w = vbase" "iadrlimit w = ?limit"
    "alignmask w = ?msk" "alignment w = al" "\<not> failed w" "segments (stats w) = 0"
    using i by (simp_all add: w_def NCValidateSetStubOutMode_def failed_def)
  have nf1: "\<not> failed v1" by (rule NCValidateFinish_sticky [OF fin])
  have sz: "sz \<noteq> 0" and dec: "NCDecodeSegment T ncv_callbacks mbase vbase sz mem w = Some (mem', v1)"
    using seg nf1 by (auto simp: NCValidateSegment_def w_def Let_def split: if_splits)
  define w' where "w' = Stats_NewSegment w"
  have w': "vttable w' = vttable w" "kttable w' = kttable w" "iadrbase w' = vbase" "iadrlimit w' = ?limit"
    "alignmask w' = ?msk" "alignment w' = al" "\<not> failed w'"
    using w by (simp_all add: w'_def Stats_NewSegment_def Let_def failed_def)
  let ?b = "init_decodebuffer mbase vbase"
  have loop: "NCDecodeSegment_loop T ncv_callbacks ?limit (Suc (unat sz)) ?b 0 kDecodeBufferSize mem w' = Some (mem', v1)"
    using dec by (simp add: NCDecodeSegment_def w'_def Let_def)
  let ?Inv = "\<lambda>ms mem1 v. vinv mem vbase ?limit ?msk ms mem1 v \<and> minv mem ms mem1"
  have "\<exists>ms q. decodes T mem ms mbase vbase q ?limit \<and> ?Inv ms mem' v1"
  proof (rule ncv.loop_rule [where Inv = ?Inv and ms = "[]", OF _ _ loop nf1])
    fix ms m buf j mem1 v
    assume inv: "?Inv ms mem1 v" and st: "prev_is buf j ms" "same_inst (buf ! j) m"
      and ag: "agrees_from mem1 mem (maddr (inst m))"
      and ds: "decodes T mem ms mbase vbase (maddr (inst m)) (vaddr (inst m))"
      and nf: "\<not> failed (snd (g_DecoderAction ncv_callbacks buf j mem1 v))"
    obtain mem2 v2 where r: "ValidateInst buf j mem1 v = (mem2, v2)" by fastforce
    have "halts_inst m mem1 mem2"
      using ValidateInst_mem [of buf j mem1 v] st(2) r by (simp add: halts_inst_def same_inst_def)
    then have "minv mem (ms @ [m]) mem2" using minv_step [OF _ ds ag] inv by blast
    moreover have "vinv mem vbase ?limit ?msk (ms @ [m]) mem2 v2"
      using vinv_step [OF _ msk st ag r] inv nf r by simp
    ultimately show "?Inv (ms @ [m]) (fst (g_DecoderAction ncv_callbacks buf j mem1 v))
        (snd (g_DecoderAction ncv_callbacks buf j mem1 v))" by (simp add: r)
  next
    show "?Inv [] mem w'"
      using i w w' msk by (auto simp: minv_def intro!: vinv_initial)
  qed (use lim nowrap i(1) in \<open>simp_all add: init_decodebuffer_ok agrees_from_def\<close>)
  then obtain ms q where ds: "decodes T mem ms mbase vbase q ?limit"
    and vi: "vinv mem vbase ?limit ?msk ms mem' v1" and mi: "minv mem ms mem'" by blast
  have "vbase \<le> ?limit" using i(1) by simp
  then show ?thesis
    using vinv_finish [OF ds vi mi fin i(2) refl i(3)] lim nowrap by auto
qed

subsection \<open>A run always returns\<close>

lemma config_parts [simp]:
  "same_config v (RememberIP ip v)" "same_config v (RememberTP ip v)" "same_config v (ForgetIP ip v)"
  "same_config v (ValidateCallAlignment m v)" "same_config v (Stats_SegFault v)"
  "same_config v (Stats_BadCPU v)" "same_config v (Stats_NewSegment v)"
  by (simp_all add: RememberIP_def RememberTP_def ForgetIP_def ValidateCallAlignment_def
      Stats_NewSegment_def Let_def same_config_def stats_defs SetAdrTable_def ClearAdrTable_def)

lemma config_jumps:
  "same_config v (ValidateJmp8 m mem v)" "same_config v (ValidateJmpz m mem v)"
  "same_config v (snd (ValidateIndirect5 buf i mem v))"
proof -
  have c: "same_config v (RememberTP t (Stats_CheckTarget v))" for t
    using same_config_trans same_config_stats(3) config_parts(2) by blast
  have d: "same_config v (ValidateCallAlignment m (RememberTP t (Stats_CheckTarget v)))" for t
    using same_config_trans c config_parts(4) by blast
  have e: "same_config v (Stats_InternalError (Stats_CheckTarget v))"
    using same_config_trans same_config_stats(3,5) by blast
  show "same_config v (ValidateJmp8 m mem v)" "same_config v (ValidateJmpz m mem v)"
    using c d e by (simp_all add: ValidateJmp8_def ValidateJmpz_def Let_def)
  define w where "w = Stats_TargetIndirect (Stats_CheckTarget v)"
  have w: "same_config v w" unfolding w_def using same_config_trans same_config_stats(3,4) by blast
  have "same_config v (Stats_UnsafeIndirect w)" "same_config v (ForgetIP a w)"
    "same_config v (ValidateCallAlignment n (ForgetIP a w))" for n a
    using same_config_trans w same_config_stats(8) config_parts(3,4) by blast+
  then show "same_config v (snd (ValidateIndirect5 buf i mem v))"
    unfolding ValidateIndirect5_def Let_def w_def [symmetric] by simp
qed

lemma ValidateInst_switch_config: "same_config v (fst (snd (ValidateInst_switch buf i mem v)))"
proof -
  have "same_config v (Stats_IllegalInst (Stats_Return v))" "same_config v (Stats_InternalError (Stats_IllegalInst v))"
    using same_config_trans same_config_stats by blast+
  then show ?thesis
    using config_jumps
    by (cases "insttype (opinfo (buf ! i))";
        simp add: ValidateInst_switch_def ValidateIllegal_def Let_def split: prod.splits) (metis snd_conv)
qed

lemma ValidateInst_config: "same_config v (snd (ValidateInst buf i mem v))"
proof -
  define m where "m = buf ! i"
  define v1 where "v1 = RememberIP (vaddr (inst m)) (OpcodeHisto (mem (maddr (inst m) + unat (prefixbytes (inst m)))) v)"
  define w2 where "w2 = (if prefix_usage_ok m then (mem, v1) else (BadInstructionError m mem v1, Stats_BadPrefix v1))"
  define w3 where "w3 = (if ucast (inst_length (inst m)) - ucast (prefixbytes (inst m)) > kMaxValidInstLength
    then (BadInstructionError m (fst w2) (snd w2), Stats_BadInstLength (snd w2)) else w2)"
  obtain mem4 v4 sq where s: "ValidateInst_switch buf i (fst w3) (snd w3) = (mem4, v4, sq)"
    by (metis prod_cases3)
  have "snd (ValidateInst buf i mem v) = v4"
    using s by (simp add: ValidateInst_def Let_def w2_def w3_def v1_def m_def split: if_splits)
  moreover have "same_config v v1"
    unfolding v1_def using same_config_trans same_config_stats(1) config_parts(1) by blast
  moreover have "same_config v1 (snd w2)" "same_config (snd w2) (snd w3)"
    by (simp_all add: w2_def w3_def)
  moreover have "same_config (snd w3) v4"
    using ValidateInst_switch_config [of "snd w3" buf i "fst w3"] by (simp add: s)
  ultimately show ?thesis by (metis same_config_trans)
qed

interpretation ncv_config: client_invariant ncv_callbacks "same_config v0" for v0
  by unfold_locales
    (simp_all, (blast intro: same_config_trans ValidateInst_config config_parts same_config_stats)+)

lemma NCValidateSegment_returns:
  assumes "unat vbase + unat sz + 32 \<le> 2 ^ 32"
  obtains mem' v' where "NCValidateSegment T cpu mbase vbase sz mem v = Some (mem', v')"
    and "same_config (v\<lparr>cpufeatures := cpufeatures v'\<rparr>) v'"
proof -
  let ?w = "v\<lparr>cpufeatures := cpu\<rparr>" and ?b = "init_decodebuffer mbase vbase"
  have lim: "unat (vbase + sz) = unat vbase + unat sz"
    using assms by (intro unat_add_no_wrap) simp
  have "\<exists>r. NCDecodeSegment_loop T ncv_callbacks (vbase + sz) (Suc (unat sz)) ?b 0 kDecodeBufferSize mem
      (Stats_NewSegment ?w) = Some r"
    using assms by (intro loop_returns) (simp_all add: lim init_decodebuffer_ok)
  then obtain mem' v' where d: "NCDecodeSegment T ncv_callbacks mbase vbase sz mem ?w = Some (mem', v')"
    unfolding NCDecodeSegment_def Let_def ncv_callbacks_sel by auto
  have "same_config ?w v'" by (rule ncv_config.NCDecodeSegment_keeps [OF d]) simp
  then have c: "same_config (v\<lparr>cpufeatures := cpufeatures v'\<rparr>) v'" by (simp add: same_config_def)
  show thesis
  proof (cases "sz = 0 \<or> \<not> f_386 cpu")
    case False
    then show ?thesis using that [OF _ c, of mem'] d by (simp add: NCValidateSegment_def)
  next
    case True
    let ?v = "if sz = 0 then Stats_SegFault v else Stats_BadCPU ?w"
    have "NCValidateSegment T cpu mbase vbase sz mem v = Some (mem, ?v)"
      using True by (auto simp: NCValidateSegment_def)
    moreover have "same_config (v\<lparr>cpufeatures := cpufeatures ?v\<rparr>) ?v"
      by (simp add: same_config_def stats_defs)
    ultimately show ?thesis by (rule that)
  qed
qed

lemma NCValidateSegment_mem:
  assumes "NCValidateSegment T cpu mbase vbase sz mem v = Some (mem', v')"
    and "unat vbase + unat sz + 32 \<le> 2 ^ 32"
  shows "mem' a = mem a \<or> mbase \<le> a \<and> a < mbase + unat sz \<and> mem' a = kNaClFullStop"
proof (cases "sz = 0 \<or> \<not> f_386 cpu")
  case True
  then have "mem' = mem" using assms(1) by (auto simp: NCValidateSegment_def split: if_splits)
  then show ?thesis by simp
next
  case False
  let ?b = "init_decodebuffer mbase vbase" and ?w = "Stats_NewSegment (v\<lparr>cpufeatures := cpu\<rparr>)"
  have lim: "unat (vbase + sz) = unat vbase + unat sz"
    using assms(2) by (intro unat_add_no_wrap) simp
  have loop: "NCDecodeSegment_loop T ncv_callbacks (vbase + sz) (Suc (unat sz)) ?b 0 kDecodeBufferSize mem ?w
      = Some (mem', v')"
    using assms(1) False unfolding NCValidateSegment_def NCDecodeSegment_def Let_def ncv_callbacks_sel
    by (simp del: NCDecodeSegment_loop.simps)
  define R where "R m1 m2 \<longleftrightarrow> (\<forall>a. m2 a = m1 a \<or> m2 a = kNaClFullStop)" for m1 m2 :: memory
  have "R mem mem'"
  proof (rule ncv.loop_memory [OF _ _ _ loop])
    show "R m (fst (g_DecoderAction ncv_callbacks buf i m w))" for buf i m w
      using ValidateInst_mem [of buf i m w] by (auto simp: R_def halts_inst_def memset_def)
  qed (simp_all add: R_def, metis)
  moreover have "mem' a = mem a" if "a < mbase \<or> mbase + unat sz \<le> a"
    using ncv.loop_frame [OF _ loop] that assms(2) by (simp add: init_decodebuffer_ok lim)
  ultimately show ?thesis by (auto simp: R_def not_less [symmetric])
qed

text \<open>
  The states a validator can be in: what \<open>NCValidateInit\<close> returns, after any sequence of the public calls and,
  inside a segment, of the decoder's callbacks.
\<close>

inductive validator_state :: "NCValidatorState \<Rightarrow> bool" where
  init: "NCValidateInit alloc inited vbase vlimit al = (inited', Some v) \<Longrightarrow> validator_state v"
| stub: "validator_state v \<Longrightarrow> validator_state (NCValidateSetStubOutMode v b)"
| cpu: "validator_state v \<Longrightarrow> validator_state (v\<lparr>cpufeatures := cpu\<rparr>)"
| new_segment: "validator_state v \<Longrightarrow> validator_state (g_NewSegment ncv_callbacks v)"
| segfault: "validator_state v \<Longrightarrow> validator_state (g_SegFault ncv_callbacks v)"
| internal_error: "validator_state v \<Longrightarrow> validator_state (g_InternalError ncv_callbacks v)"
| action: "validator_state v \<Longrightarrow> validator_state (snd (g_DecoderAction ncv_callbacks buf i mem v))"
| segment: "validator_state v \<Longrightarrow> NCValidateSegment T cpu mbase vbase sz mem v = Some (mem', v') \<Longrightarrow> validator_state v'"
| finish: "validator_state v \<Longrightarrow> NCValidateFinish (Some v) = Some (r, Some v') \<Longrightarrow> validator_state v'"

definition vstate_ok :: "NCValidatorState \<Rightarrow> bool" where
  "vstate_ok v \<longleftrightarrow>
     iadrbase v < iadrlimit v \<and> (alignment v = 16 \<or> alignment v = 32) \<and> alignmask v = ucast (alignment v) - 1 \<and>
     unat (alignment v) dvd unat (iadrbase v) \<and>
     (\<forall>off\<le>iadrlimit v - iadrbase v. in_table (vttable v) off \<and> in_table (kttable v) off)"

lemma vstate_ok_init: "NCValidateInit alloc inited vbase vlimit al = (inited', Some v) \<Longrightarrow> vstate_ok v"
proof -
  assume "NCValidateInit alloc inited vbase vlimit al = (inited', Some v)"
  note i = NCValidateInit_Some [OF this]
  have "IATOffset off \<le> IATOffset (vlimit - vbase)" if "off \<le> vlimit - vbase" for off
    using that by (simp add: IATOffset_div word_le_nat_alt div_le_mono)
  moreover have "unat al dvd unat vbase" using i(3) and_mask_dvd [OF i(2)] by simp
  ultimately show ?thesis using i(1,2) unfolding vstate_ok_def in_table_def i(4-7,11,12) by (simp add: less_Suc_eq_le)
qed

lemma vstate_ok_config: "same_config v v' \<Longrightarrow> vstate_ok v \<Longrightarrow> vstate_ok v'"
  by (simp add: same_config_def vstate_ok_def in_table_def)

lemma vstate_ok_other [simp]:
  "vstate_ok (v\<lparr>cpufeatures := cpu\<rparr>) = vstate_ok v" "vstate_ok (NCValidateSetStubOutMode v b) = vstate_ok v"
  by (simp_all add: vstate_ok_def NCValidateSetStubOutMode_def)

interpretation ncv_state: client_invariant ncv_callbacks vstate_ok
  by unfold_locales
    (simp_all, (blast intro: vstate_ok_config ValidateInst_config config_parts same_config_stats)+)

lemma vstate_ok_segment:
  assumes "NCValidateSegment T cpu mbase vbase sz mem v = Some (mem', v')" and "vstate_ok v"
  shows "vstate_ok v'"
proof -
  have "vstate_ok (Stats_SegFault v)" "vstate_ok (Stats_BadCPU (v\<lparr>cpufeatures := cpu\<rparr>))"
    using vstate_ok_config [OF _ assms(2)] vstate_ok_config [of "v\<lparr>cpufeatures := cpu\<rparr>"] assms(2) by simp_all
  then show ?thesis
    using assms ncv_state.NCDecodeSegment_keeps [of T mbase vbase sz mem "v\<lparr>cpufeatures := cpu\<rparr>" mem' v']
    by (auto simp: NCValidateSegment_def Let_def split: if_splits)
qed

lemma vstate_ok_finish:
  assumes "NCValidateFinish (Some v) = Some (r, Some v')" and "vstate_ok v"
  shows "vstate_ok v'"
proof -
  let ?n = "iadrlimit v - iadrbase v"
  obtain v1 where v1: "for_u32 (Suc (unat ?n)) ?n 1 0 Finish_CheckTarget v = Some v1"
    using assms(1) by (auto simp: NCValidateFinish_def Let_def split: option.splits)
  define w where "w = (if iadrbase v1 AND alignmask v1 \<noteq> 0 then Stats_BadAlignment v1 else v1)"
  have v2: "for_u32 (Suc (unat ?n)) ?n (ucast (alignment w)) 0 Finish_CheckBlock w = Some v'"
    using assms(1) v1 by (auto simp: NCValidateFinish_def Let_def simp flip: w_def split: option.splits)
  have "vstate_ok v1"
    by (rule for_u32_inv [where P = vstate_ok, OF v1 assms(2)]) (use Finish_same(1) vstate_ok_config in blast)
  then have "vstate_ok w" using vstate_ok_config [OF same_config_stats(6)] by (simp add: w_def)
  then show ?thesis by (rule for_u32_inv [where P = vstate_ok, OF v2]) (use Finish_same(2) vstate_ok_config in blast)
qed

lemma validator_state_vstate_ok: "validator_state v \<Longrightarrow> vstate_ok v"
  by (induction rule: validator_state.induct)
    (blast intro: vstate_ok_init vstate_ok_segment vstate_ok_finish vstate_ok_other [THEN iffD2]
      ncv_state.new_segment_keeps ncv_state.segfault_keeps ncv_state.internal_error_keeps ncv_state.action_keeps)+

subsection \<open>Properties\<close>



text \<open>
  C8: the verdict of \<open>NCValidateFinish\<close>. The final pass ends, and it reports success exactly when no
  check of the run failed, the region starts at a bundle boundary, every recorded jump target is
  a recorded instruction start and every bundle boundary is one.
\<close>

theorem NCValidateFinish_verdict:
  assumes al: "alignment v = 16 \<or> alignment v = 32"
    and nowrap: "unat (iadrlimit v - iadrbase v) + 32 \<le> 2 ^ 32"
  shows "\<exists>r v'. NCValidateFinish (Some v) = Some (r, Some v') \<and>
    (r = False \<longleftrightarrow> \<not> failed v \<and> iadrbase v AND alignmask v = 0 \<and>
      (\<forall>off<iadrlimit v - iadrbase v. GetAdrTable off (kttable v) \<longrightarrow> GetAdrTable off (vttable v)) \<and>
      (\<forall>off<iadrlimit v - iadrbase v. unat (alignment v) dvd unat off \<longrightarrow> GetAdrTable off (vttable v)))"
  using NCValidateFinish_iff [OF assms] by metis

theorem NCValidateFinish_verdict_witness:
  "\<exists>v r v'. NCValidateInit (\<lambda>_. True) False 0 16 16 = (True, Some v) \<and> NCValidateFinish (Some v) = Some (r, Some v') \<and> r"
proof -
  obtain v where i: "NCValidateInit (\<lambda>_. True) False 0 16 16 = (True, Some v)"
    by (auto simp: NCValidateInit_def Let_def Stats_Init_def)
  note iv = NCValidateInit_Some [OF i]
  have n: "unat (iadrlimit v - iadrbase v) + 32 \<le> 2 ^ 32" by (simp add: iv)
  have "alignment v = 16 \<or> alignment v = 32" by (simp add: iv)
  from NCValidateFinish_verdict [OF this n] obtain r v' where f: "NCValidateFinish (Some v) = Some (r, Some v')"
    and r: "r = False \<longrightarrow> (\<forall>off<iadrlimit v - iadrbase v. unat (alignment v) dvd unat off \<longrightarrow> GetAdrTable off (vttable v))"
    by blast
  have "\<not> GetAdrTable 0 (vttable v)" by (simp add: iv GetAdrTable_def IATOffset_def)
  then have r using r by (auto simp: iv)
  with i f show ?thesis by blast
qed

text \<open>
  C15: the jump target tables are sets of offsets. After \<open>SetAdrTable\<close> or \<open>ClearAdrTable\<close> at an offset inside the
  table, \<open>GetAdrTable\<close> sees that offset set or clear, and every other offset as before.
\<close>

theorem adr_table_roundtrip:
  assumes "in_table t i" and "in_table t j"
  shows "GetAdrTable j (SetAdrTable i t) = (j = i \<or> GetAdrTable j t)
    \<and> GetAdrTable j (ClearAdrTable i t) = (j \<noteq> i \<and> GetAdrTable j t)"
  using assms iat.get_set iat.get_clear by auto

theorem adr_table_roundtrip_witness:
  "GetAdrTable 9 (SetAdrTable 9 [0, 0]) \<and> \<not> GetAdrTable 9 (ClearAdrTable 9 [0xff, 0xff])"
  using adr_table_roundtrip [of "[0, 0]" 9 9] adr_table_roundtrip [of "[0xff, 0xff]" 9 9]
  by (simp add: in_table_def IATOffset_def)

end
