(* ===== verification/Validate_Image.thy ===== *)
theory Validate_Image
  imports NC_Validate NaCl_App
begin

text \<open>
  \<open>service_runtime/sel_validate_image.c\<close>: the loader's use of the validator, and what a
  successful validation means for the code when it runs. \<open>NaClValidateCode\<close> runs the
  validator twice in stub-out mode. The static flag \<open>inited\<close> of \<open>Stats_Init\<close> is passed through;
  \<open>alloc p\<close> gives the outcomes of the allocations of pass \<open>p\<close>. A result \<open>None\<close> is a run that does
  not end. The second half defines the control flow of the loaded code as a step relation and
  proves that it stays on validated instructions.
\<close>

subsection \<open>Validating a code region\<close>

definition validator_pass ::
    "DecodeTables \<Rightarrow> CPUFeatures \<Rightarrow> (nat \<Rightarrow> bool) \<Rightarrow> bool \<Rightarrow> NaClApp \<Rightarrow> bool \<Rightarrow> u32 \<Rightarrow> nat \<Rightarrow> u32 \<Rightarrow> memory \<Rightarrow>
     (memory \<times> bool \<times> NaClErrorCode) option" where
  "validator_pass T cpu alloc inited nap stub guest_addr data sz mem =
     (case NCValidateInit alloc inited guest_addr (guest_addr + sz) (word_of_int (bundle_size nap)) of
        (inited, None) \<Rightarrow> Some (mem, inited, LOAD_BAD_FILE)
      | (inited, Some vstate) \<Rightarrow>
          case NCValidateSegment T cpu data guest_addr sz mem
                 (if stub then NCValidateSetStubOutMode vstate True else vstate) of
            None \<Rightarrow> None
          | Some (mem, vstate) \<Rightarrow>
              case NCValidateFinish (Some vstate) of
                None \<Rightarrow> None
              | Some (validator_result, _) \<Rightarrow>
                  Some (mem, inited, if validator_result then LOAD_VALIDATION_FAILED else LOAD_OK))"

definition NaClValidateCode ::
    "DecodeTables \<Rightarrow> CPUFeatures \<Rightarrow> (nat \<Rightarrow> nat \<Rightarrow> bool) \<Rightarrow> bool \<Rightarrow> NaClApp \<Rightarrow> u32 \<Rightarrow> nat \<Rightarrow> u32 \<Rightarrow> memory \<Rightarrow>
     (memory \<times> bool \<times> NaClErrorCode) option" where
  "NaClValidateCode T cpu alloc inited nap guest_addr data sz mem =
     (if validator_stub_out_mode nap then
        case validator_pass T cpu (alloc 0) inited nap True guest_addr data sz mem of
          None \<Rightarrow> None
        | Some (mem, inited, rc) \<Rightarrow>
            if rc = LOAD_BAD_FILE then Some (mem, inited, LOAD_BAD_FILE)
            else validator_pass T cpu (alloc 1) inited nap False guest_addr data sz mem
      else validator_pass T cpu (alloc 1) inited nap False guest_addr data sz mem)"

definition NaClValidateImage ::
    "DecodeTables \<Rightarrow> CPUFeatures \<Rightarrow> (nat \<Rightarrow> nat \<Rightarrow> bool) \<Rightarrow> bool \<Rightarrow> NaClApp \<Rightarrow> memory \<Rightarrow>
     (memory \<times> bool \<times> NaClErrorCode) option" where
  "NaClValidateImage T cpu alloc inited nap mem =
     (let memp = mem_start nap + NACL_TRAMPOLINE_END;
          endp = mem_start nap + static_text_end nap;
          regionsize = endp - memp
      in if endp < memp then Some (mem, inited, LOAD_NO_MEMORY)
         else
           case NaClValidateCode T cpu alloc inited nap NACL_TRAMPOLINE_END (unat memp) regionsize mem of
             None \<Rightarrow> None
           | Some (mem, inited, rcode) \<Rightarrow>
               if rcode \<noteq> LOAD_OK then
                 if ignore_validator_result nap then Some (mem, inited, LOAD_OK)
                 else Some (mem, inited, LOAD_VALIDATION_FAILED)
               else Some (mem, inited, rcode))"

subsection \<open>What a pass establishes\<close>

definition bundle_mask :: "NaClApp \<Rightarrow> u32" where
  "bundle_mask nap = ucast (word_of_int (bundle_size nap) :: u8) - 1"

lemma validator_pass_sound:
  assumes "validator_pass T cpu alloc inited nap stub guest data sz mem = Some (mem', inited', LOAD_OK)"
    and "unat guest + unat sz + 32 \<le> 2 ^ 32"
  shows "\<exists>ms. validated T mem data guest (guest + sz) (bundle_mask nap) ms mem'"
    and "bundle_mask nap = 15 \<or> bundle_mask nap = 31" and "guest < guest + sz"
proof -
  let ?al = "word_of_int (bundle_size nap) :: u8"
  obtain i v where init: "NCValidateInit alloc inited guest (guest + sz) ?al = (i, Some v)"
    using assms(1) by (auto simp: validator_pass_def split: prod.splits option.splits)
  note iv = NCValidateInit_Some [OF init]
  show "bundle_mask nap = 15 \<or> bundle_mask nap = 31" using iv(2) by (auto simp: bundle_mask_def)
  show "guest < guest + sz" by (rule iv(1))
  have stub: "NCValidateSetStubOutMode v stub = (if stub then NCValidateSetStubOutMode v True else v)"
    using iv(10) by (simp add: NCValidateSetStubOutMode_def)
  obtain v1 where seg: "NCValidateSegment T cpu data guest sz mem (NCValidateSetStubOutMode v stub) = Some (mem', v1)"
    and fin: "\<exists>v2. NCValidateFinish (Some v1) = Some (False, v2)"
    using assms(1) init unfolding stub
    by (auto simp: validator_pass_def split: prod.splits option.splits if_splits)
  then show "\<exists>ms. validated T mem data guest (guest + sz) (bundle_mask nap) ms mem'"
    using NCValidateSegment_sound [OF init assms(2) seg] by (auto simp: bundle_mask_def)
qed

lemma validator_pass_mem:
  assumes "validator_pass T cpu alloc inited nap stub guest data sz mem = Some (mem', inited', rc)"
    and "unat guest + unat sz + 32 \<le> 2 ^ 32"
  shows "mem' a = mem a \<or> data \<le> a \<and> a < data + unat sz \<and> mem' a = kNaClFullStop"
proof -
  let ?al = "word_of_int (bundle_size nap) :: u8"
  obtain i vo where init: "NCValidateInit alloc inited guest (guest + sz) ?al = (i, vo)" by fastforce
  show ?thesis
  proof (cases vo)
    case None
    then show ?thesis using assms(1) init by (simp add: validator_pass_def)
  next
    case (Some v)
    then obtain v1 where "NCValidateSegment T cpu data guest sz mem
        (if stub then NCValidateSetStubOutMode v True else v) = Some (mem', v1)"
      using assms(1) init by (auto simp: validator_pass_def split: prod.splits option.splits)
    then show ?thesis by (rule NCValidateSegment_mem [OF _ assms(2)])
  qed
qed

lemma validator_pass_returns:
  assumes "unat guest + unat sz + 32 \<le> 2 ^ 32"
  shows "\<exists>r. validator_pass T cpu alloc inited nap stub guest data sz mem = Some r"
proof -
  let ?al = "word_of_int (bundle_size nap) :: u8"
  obtain i vo where init: "NCValidateInit alloc inited guest (guest + sz) ?al = (i, vo)" by fastforce
  show ?thesis
  proof (cases vo)
    case None
    then show ?thesis using init by (simp add: validator_pass_def)
  next
    case (Some v)
    note iv = NCValidateInit_Some [OF init [unfolded Some]]
    let ?v = "if stub then NCValidateSetStubOutMode v True else v"
    obtain mem1 v1 where seg: "NCValidateSegment T cpu data guest sz mem ?v = Some (mem1, v1)"
      and c: "same_config (?v\<lparr>cpufeatures := cpufeatures v1\<rparr>) v1"
      by (rule NCValidateSegment_returns [OF assms])
    have "alignment v1 = ?al" "iadrbase v1 = guest" "iadrlimit v1 = guest + sz"
      using c iv by (simp_all add: same_config_def NCValidateSetStubOutMode_def split: if_splits)
    moreover have "unat sz + 32 \<le> 2 ^ 32" using assms by simp
    ultimately obtain r v2 where "NCValidateFinish (Some v1) = Some (r, Some v2)"
      using NCValidateFinish_iff [of v1] iv(2) by (metis add_diff_cancel_left')
    then show ?thesis using init Some seg by (simp add: validator_pass_def)
  qed
qed

lemma region_size:
  assumes "unat ste + 32 \<le> 2 ^ 32" and "NACL_TRAMPOLINE_END \<le> ste"
  shows "NACL_TRAMPOLINE_END + (ms + ste - (ms + NACL_TRAMPOLINE_END)) = (ste :: u32)"
    and "unat NACL_TRAMPOLINE_END + unat (ms + ste - (ms + NACL_TRAMPOLINE_END)) + 32 \<le> 2 ^ 32"
proof -
  show "NACL_TRAMPOLINE_END + (ms + ste - (ms + NACL_TRAMPOLINE_END)) = ste" by simp
  have "unat (ste - NACL_TRAMPOLINE_END) = unat ste - unat NACL_TRAMPOLINE_END"
    using assms(2) by (rule unat_sub_le)
  then show "unat NACL_TRAMPOLINE_END + unat (ms + ste - (ms + NACL_TRAMPOLINE_END)) + 32 \<le> 2 ^ 32"
    using assms by (simp add: word_le_nat_alt)
qed

lemma validator_pass_small:
  assumes "ste \<le> NACL_TRAMPOLINE_END"
  shows "validator_pass T cpu alloc inited nap stub NACL_TRAMPOLINE_END data
     (ms + ste - (ms + NACL_TRAMPOLINE_END)) mem = Some (mem, inited, LOAD_BAD_FILE)"
  using assms by (simp add: validator_pass_def NCValidateInit_def)

text \<open>The memory a second pass starts from: the code with halts in it, or the code itself.\<close>

definition stubbed :: "bool \<Rightarrow> memory \<Rightarrow> memory \<Rightarrow> bool" where
  "stubbed stub mem mem1 \<longleftrightarrow>
     (if stub then \<forall>a. mem1 a = mem a \<or> mem1 a = kNaClFullStop else mem1 = mem)"

lemma NaClValidateCode_sound:
  assumes "NaClValidateCode T cpu alloc inited nap guest data sz mem = Some (mem', inited', LOAD_OK)"
    and nw: "unat guest + unat sz + 32 \<le> 2 ^ 32"
  shows "\<exists>mem1 ms. validated T mem1 data guest (guest + sz) (bundle_mask nap) ms mem' \<and>
      stubbed (validator_stub_out_mode nap) mem mem1"
    and "bundle_mask nap = 15 \<or> bundle_mask nap = 31"
proof -
  obtain mem1 i where p: "validator_pass T cpu (alloc 1) i nap False guest data sz mem1 = Some (mem', inited', LOAD_OK)"
    and s: "stubbed (validator_stub_out_mode nap) mem mem1"
  proof (cases "validator_stub_out_mode nap")
    case False
    then show thesis using that [of inited mem] assms(1) by (simp add: NaClValidateCode_def stubbed_def)
  next
    case True
    then obtain mem1 i rc where 1: "validator_pass T cpu (alloc 0) inited nap True guest data sz mem = Some (mem1, i, rc)"
      and "validator_pass T cpu (alloc 1) i nap False guest data sz mem1 = Some (mem', inited', LOAD_OK)"
      using assms(1) by (auto simp: NaClValidateCode_def split: option.splits if_splits)
    then show thesis
      using that True validator_pass_mem [OF 1 nw] by (fastforce simp: stubbed_def)
  qed
  show "\<exists>mem1 ms. validated T mem1 data guest (guest + sz) (bundle_mask nap) ms mem' \<and>
      stubbed (validator_stub_out_mode nap) mem mem1"
    using validator_pass_sound(1) [OF p nw] s by blast
  show "bundle_mask nap = 15 \<or> bundle_mask nap = 31" by (rule validator_pass_sound(2) [OF p nw])
qed

lemma NaClValidateImage_code:
  assumes "NaClValidateImage T cpu alloc inited nap mem = Some (mem', inited', LOAD_OK)"
    and "\<not> ignore_validator_result nap"
  shows "NaClValidateCode T cpu alloc inited nap NACL_TRAMPOLINE_END (unat (mem_start nap + NACL_TRAMPOLINE_END))
      (mem_start nap + static_text_end nap - (mem_start nap + NACL_TRAMPOLINE_END)) mem = Some (mem', inited', LOAD_OK)"
    and "NACL_TRAMPOLINE_END < static_text_end nap"
proof -
  show c: "NaClValidateCode T cpu alloc inited nap NACL_TRAMPOLINE_END (unat (mem_start nap + NACL_TRAMPOLINE_END))
      (mem_start nap + static_text_end nap - (mem_start nap + NACL_TRAMPOLINE_END)) mem = Some (mem', inited', LOAD_OK)"
    using assms by (auto simp: NaClValidateImage_def Let_def split: if_splits option.splits prod.splits)
  show "NACL_TRAMPOLINE_END < static_text_end nap"
  proof (rule ccontr)
    assume "\<not> NACL_TRAMPOLINE_END < static_text_end nap"
    then have "static_text_end nap \<le> NACL_TRAMPOLINE_END" by simp
    note small = validator_pass_small [OF this]
    show False using c unfolding NaClValidateCode_def small by (simp split: if_splits)
  qed
qed

lemma NaClValidateCode_returns:
  assumes "unat guest + unat sz + 32 \<le> 2 ^ 32"
  shows "\<exists>r. NaClValidateCode T cpu alloc inited nap guest data sz mem = Some r"
proof -
  obtain mem1 i rc where "validator_pass T cpu (alloc 0) inited nap True guest data sz mem = Some (mem1, i, rc)"
    using validator_pass_returns [OF assms] by (metis prod_cases3)
  then show ?thesis
    using validator_pass_returns [OF assms] by (simp add: NaClValidateCode_def)
qed

lemma NaClValidateCode_mem:
  assumes "NaClValidateCode T cpu alloc inited nap guest data sz mem = Some (mem', inited', rc)"
    and nw: "unat guest + unat sz + 32 \<le> 2 ^ 32"
  shows "mem' a = mem a \<or> data \<le> a \<and> a < data + unat sz \<and> mem' a = kNaClFullStop"
proof (cases "validator_stub_out_mode nap")
  case False
  then have "validator_pass T cpu (alloc 1) inited nap False guest data sz mem = Some (mem', inited', rc)"
    using assms(1) by (simp add: NaClValidateCode_def)
  then show ?thesis by (rule validator_pass_mem [OF _ nw])
next
  case True
  obtain mem1 i rc1 where 1: "validator_pass T cpu (alloc 0) inited nap True guest data sz mem = Some (mem1, i, rc1)"
    using validator_pass_returns [OF nw] by (metis prod_cases3)
  have 2: "mem' = mem1 \<or> validator_pass T cpu (alloc 1) i nap False guest data sz mem1 = Some (mem', inited', rc)"
    using assms(1) True by (simp add: NaClValidateCode_def 1 split: if_splits)
  note p = validator_pass_mem [OF 1 nw, of a]
  show ?thesis
  proof (cases "mem' = mem1")
    case False
    with 2 have "validator_pass T cpu (alloc 1) i nap False guest data sz mem1 = Some (mem', inited', rc)" by simp
    from validator_pass_mem [OF this nw, of a] p show ?thesis by auto
  qed (use p in simp)
qed

subsection \<open>Control flow of the loaded code\<close>

text \<open>
  The control flow of the code region \<open>[base, limit)\<close>, found in memory at \<open>mbase\<close>, as the
  processor runs it: an instruction of a jump type goes to its target or falls through, an
  indirect jump through a register goes where the register points, any other indirect jump
  goes anywhere, \<open>and $imm8,%reg\<close> masks its register, every other instruction changes the registers
  at will and falls through. \<open>hlt\<close> stops. Outside the region nothing is said.
\<close>

type_synonym cf_state = "u32 \<times> (u8 \<Rightarrow> u32)"

definition is_mask_and :: "memory \<Rightarrow> NCDecoderState \<Rightarrow> bool" where
  "is_mask_and mem m \<longleftrightarrow>
     prefixbytes (inst m) = 0 \<and> mem (maddr (inst m)) = 0x83 \<and>
     modrm_mod (mem (maddr (inst m) + 1)) = 3 \<and> modrm_reg (mem (maddr (inst m) + 1)) = 4"

definition is_reg_jump :: "memory \<Rightarrow> NCDecoderState \<Rightarrow> bool" where
  "is_reg_jump mem m \<longleftrightarrow>
     prefixbytes (inst m) = 0 \<and> mem (maddr (inst m)) = 0xff \<and>
     modrm_mod (mem (maddr (inst m) + 1)) = 3 \<and>
     (modrm_reg (mem (maddr (inst m) + 1)) = 2 \<or> modrm_reg (mem (maddr (inst m) + 1)) = 4)"

definition fetches :: "DecodeTables \<Rightarrow> memory \<Rightarrow> nat \<Rightarrow> u32 \<Rightarrow> u32 \<Rightarrow> u32 \<Rightarrow> NCDecoderState \<Rightarrow> bool" where
  "fetches T mem mbase base limit pc m \<longleftrightarrow>
     base \<le> pc \<and> pc < limit \<and> m = decode_at T mem pc (mbase + unat (pc - base)) \<and>
     mem (maddr (inst m)) \<noteq> kNaClFullStop"

inductive cf_step :: "DecodeTables \<Rightarrow> memory \<Rightarrow> nat \<Rightarrow> u32 \<Rightarrow> u32 \<Rightarrow> cf_state \<Rightarrow> cf_state \<Rightarrow> bool"
  for T mem mbase base limit
where
  mask: "fetches T mem mbase base limit pc m \<Longrightarrow> is_mask_and mem m \<Longrightarrow>
     r = modrm_rm (mem (maddr (inst m) + 1)) \<Longrightarrow>
     cf_step T mem mbase base limit (pc, regs)
       (pc + ucast (inst_length (inst m)), regs(r := regs r AND scast (mem (maddr (inst m) + 2))))"
| fall: "fetches T mem mbase base limit pc m \<Longrightarrow> \<not> is_mask_and mem m \<Longrightarrow>
     insttype (opinfo m) \<noteq> NACLi_INDIRECT \<Longrightarrow>
     cf_step T mem mbase base limit (pc, regs) (pc + ucast (inst_length (inst m)), regs')"
| direct: "fetches T mem mbase base limit pc m \<Longrightarrow> \<not> is_mask_and mem m \<Longrightarrow>
     direct_target mem m = Some t \<Longrightarrow> cf_step T mem mbase base limit (pc, regs) (t, regs')"
| reg_jump: "fetches T mem mbase base limit pc m \<Longrightarrow> \<not> is_mask_and mem m \<Longrightarrow>
     insttype (opinfo m) = NACLi_INDIRECT \<Longrightarrow> is_reg_jump mem m \<Longrightarrow>
     cf_step T mem mbase base limit (pc, regs) (regs (modrm_rm (mem (maddr (inst m) + 1))), regs')"
| wild_jump: "fetches T mem mbase base limit pc m \<Longrightarrow> \<not> is_mask_and mem m \<Longrightarrow>
     insttype (opinfo m) = NACLi_INDIRECT \<Longrightarrow> \<not> is_reg_jump mem m \<Longrightarrow>
     cf_step T mem mbase base limit (pc, regs) (pc', regs')"

text \<open>
  What is relied on from the generated tables: the operand bytes of the jumps and of the
  masking \<open>and\<close> lie inside the instruction, when its prefixes are permitted.
\<close>

definition operand_inside :: "memory \<Rightarrow> NCDecoderState \<Rightarrow> bool" where
  "operand_inside mem m \<longleftrightarrow>
     (let k = unat (prefixbytes (inst m)); op = mem (maddr (inst m) + k)
      in (insttype (opinfo m) = NACLi_JMP8 \<longrightarrow> k + 2 \<le> len m) \<and>
         (insttype (opinfo m) = NACLi_JMPZ \<longrightarrow> k + (if op = 0x0f then 6 else 5) \<le> len m) \<and>
         (insttype (opinfo m) = NACLi_INDIRECT \<longrightarrow> k + 2 \<le> len m) \<and>
         (k = 0 \<longrightarrow> op = 0x83 \<longrightarrow> 3 \<le> len m))"

definition tables_ok :: "DecodeTables \<Rightarrow> bool" where
  "tables_ok T \<longleftrightarrow>
     (\<forall>mem v p. prefix_usage_ok (decode_at T mem v p) \<longrightarrow>
        legal_type (insttype (opinfo (decode_at T mem v p))) \<longrightarrow> operand_inside mem (decode_at T mem v p))"

text \<open>
  Where execution may be: at a validated instruction (at a jump of a masked pair with its
  register masked), at the end of the region, or at a bundle boundary outside the region.
\<close>

definition cf_ok :: "memory \<Rightarrow> u32 \<Rightarrow> u32 \<Rightarrow> u32 \<Rightarrow> NCDecoderState list \<Rightarrow> cf_state \<Rightarrow> bool" where
  "cf_ok mem0 base limit msk ms s \<longleftrightarrow>
     (\<exists>i<length ms. vaddr (inst (ms ! i)) = fst s \<and>
        (insttype (opinfo (ms ! i)) = NACLi_INDIRECT \<longrightarrow>
           snd s (modrm_rm (mem0 (maddr (inst (ms ! i)) + 1))) AND msk = 0)) \<or>
     fst s = limit \<or> \<not> (base \<le> fst s \<and> fst s < limit) \<and> fst s AND msk = 0"

lemma decode_at_pos: "0 < len (decode_at T mem v p)"
  by (metis decode_at_props(3) unat_gt_0 word_neq_0_conv)

lemma decodes_next:
  "decodes T mem ms p v q w \<Longrightarrow> i < length ms \<Longrightarrow>
   vaddr (inst (ms ! i)) + ucast (inst_length (inst (ms ! i))) =
     (if Suc i < length ms then vaddr (inst (ms ! Suc i)) else w)"
proof (induction ms arbitrary: p v i)
  case (Cons m ms)
  show ?case
  proof (cases i)
    case (Suc k)
    then show ?thesis using Cons.IH [of _ _ k] Cons.prems by auto
  next
    case 0
    then show ?thesis using Cons.prems by (cases ms) auto
  qed
qed simp

lemma jump_target_ok:
  assumes "validated T mem0 mbase base limit msk ms mem"
    and "base \<le> t \<and> t < limit \<longrightarrow> t \<in> jump_starts ms" and "\<not> (base \<le> t \<and> t < limit) \<longrightarrow> t AND msk = 0"
  shows "cf_ok mem0 base limit msk ms (t, regs)"
proof (cases "base \<le> t \<and> t < limit")
  case True
  then obtain m where "m \<in> set ms" "vaddr (inst m) = t" "insttype (opinfo m) \<noteq> NACLi_INDIRECT"
    using assms(2) by (auto simp: jump_starts_def)
  then show ?thesis by (auto simp: cf_ok_def in_set_conv_nth)
qed (use assms(3) in \<open>simp add: cf_ok_def\<close>)

text \<open>What runs at a validated place is the validated instruction.\<close>

lemma fetches_validated:
  assumes v: "validated T mem0 mbase base limit msk ms mem" and f: "fetches T mem mbase base limit pc m"
    and i: "i < length ms" "vaddr (inst (ms ! i)) = pc" and le: "base \<le> limit"
  shows "m = ms ! i"
    and "\<And>a. maddr (inst m) \<le> a \<Longrightarrow> a < maddr (inst m) + len m \<Longrightarrow> mem a = mem0 a"
proof -
  let ?n = "ms ! i"
  have n: "?n \<in> set ms" using i(1) by simp
  have ds: "decodes T mem0 ms mbase base (mbase + unat (limit - base)) limit"
    and io: "intact_or_halt mem0 mem ?n" using v n by (auto simp: validated_def)
  note lay = decodes_layout [OF ds]
  have pc: "base \<le> pc" "pc < limit" using f by (simp_all add: fetches_def)
  have ma: "maddr (inst ?n) = mbase + unat (pc - base)" and dn: "?n = decode_at T mem0 pc (maddr (inst ?n))"
    using lay n i(2) unat_sub_le [OF pc(1)] by force+
  have m: "m = decode_at T mem pc (maddr (inst ?n))" and nh: "mem (maddr (inst ?n)) \<noteq> kNaClFullStop"
    using f ma by (auto simp: fetches_def)
  have "0 < len ?n" using decode_at_pos dn by metis
  then have same: "mem a = mem0 a" if "maddr (inst ?n) \<le> a" "a < maddr (inst ?n) + len ?n" for a
    using io nh that unfolding intact_or_halt_def by (metis add.right_neutral add_less_cancel_left le_refl)
  have "decode_at T mem pc (maddr (inst ?n)) = decode_at T mem0 pc (maddr (inst ?n))"
    using same dn by (intro decode_local) (auto simp: agrees_on_def)
  then show "m = ?n" using m dn by simp
  then show "\<And>a. maddr (inst m) \<le> a \<Longrightarrow> a < maddr (inst m) + len m \<Longrightarrow> mem a = mem0 a"
    using same by simp
qed

lemma modrm_e0:
  "modrm_mod (0xe0 OR modrm_rm x) = 3" "modrm_reg (0xe0 OR modrm_rm x) = 4"
  "modrm_rm (0xe0 OR modrm_rm x) = modrm_rm x"
proof -
  have "modrm_rm x \<in> {0, 1, 2, 3, 4, 5, 6, 7}"
  proof -
    have "modrm_rm x = take_bit 3 x" by (simp add: modrm_rm_def take_bit_eq_mask mask_eq_exp_minus_1)
    then have "unat (modrm_rm x) = unat x mod 8" by (simp add: take_bit_eq_mod unat_mod)
    then have "unat (modrm_rm x) < 8" by simp
    then have "unat (modrm_rm x) \<in> {0, 1, 2, 3, 4, 5, 6, 7}" by auto
    moreover have "modrm_rm x = of_nat (unat (modrm_rm x))" by simp
    ultimately show ?thesis by (auto simp del: of_nat_unat)
  qed
  then show "modrm_mod (0xe0 OR modrm_rm x) = 3" "modrm_reg (0xe0 OR modrm_rm x) = 4"
    "modrm_rm (0xe0 OR modrm_rm x) = modrm_rm x"
    by (auto simp: modrm_mod_def modrm_reg_def modrm_rm_def)
qed

lemma masked_aligned:
  assumes "msk = 15 \<or> msk = (31 :: u32)" and "ucast (b :: u8) = (0xff AND NOT msk)"
  shows "(x AND scast b) AND msk = 0"
proof -
  have "b = 0xf0 \<and> msk = 15 \<or> b = 0xe0 \<and> msk = 31"
    using assms ucast_u8_inject [of b "0xf0"] ucast_u8_inject [of b "0xe0"] by auto
  then have "scast b AND msk = 0" by auto
  then show ?thesis by (simp add: and.assoc)
qed


lemma direct_target_inside:
  assumes "operand_inside mem m"
    and "\<And>a. maddr (inst m) \<le> a \<Longrightarrow> a < maddr (inst m) + len m \<Longrightarrow> mem a = mem0 a"
  shows "direct_target mem m = direct_target mem0 m"
proof -
  let ?k = "unat (prefixbytes (inst m))"
  let ?p = "maddr (inst m) + ?k"
  have same: "mem (?p + j) = mem0 (?p + j)" if "?k + j < len m" for j
    using assms(2) [of "?p + j"] that by simp
  have r: "read32 mem (?p + j) = read32 mem0 (?p + j)" if "?k + j + 3 < len m" for j
    using that same [of j] same [of "j + 1"] same [of "j + 2"] same [of "j + 3"]
    by (simp add: read32_def add.assoc)
  show ?thesis
  proof (cases "insttype (opinfo m)")
    case NACLi_JMP8
    then show ?thesis using assms(1) same [of 1] by (simp add: direct_target_def operand_inside_def Let_def)
  next
    case NACLi_JMPZ
    then have l: "?k + (if mem ?p = 0x0f then 6 else 5) \<le> len m"
      using assms(1) by (simp add: operand_inside_def Let_def)
    then have "mem ?p = mem0 ?p" "mem (?p + 1) = mem0 (?p + 1)" "read32 mem (?p + 1) = read32 mem0 (?p + 1)"
      using same [of 0] same [of 1] r [of 1] by (auto split: if_splits)
    moreover have "mem ?p = 0x0f \<Longrightarrow> read32 mem (?p + 2) = read32 mem0 (?p + 2)"
      using l r [of 2] by simp
    ultimately show ?thesis using NACLi_JMPZ by (simp add: direct_target_def Let_def)
  qed (simp_all add: direct_target_def)
qed

lemma cf_step_ok:
  assumes v: "validated T mem0 mbase base limit msk ms mem" and msk: "msk = 15 \<or> msk = 31"
    and T: "tables_ok T" and le: "base \<le> limit"
    and step: "cf_step T mem mbase base limit s s'" and ok: "cf_ok mem0 base limit msk ms s"
  shows "cf_ok mem0 base limit msk ms s'"
proof -
  obtain pc regs pc' regs' where s: "s = (pc, regs)" "s' = (pc', regs')" by fastforce
  note st = step [unfolded s]
  from st obtain m where f: "fetches T mem mbase base limit pc m" by (auto elim: cf_step.cases)
  then have pc: "base \<le> pc" "pc < limit" by (simp_all add: fetches_def)
  then obtain i where i: "i < length ms" "vaddr (inst (ms ! i)) = pc"
    and ri: "insttype (opinfo (ms ! i)) = NACLi_INDIRECT \<Longrightarrow>
      regs (modrm_rm (mem0 (maddr (inst (ms ! i)) + 1))) AND msk = 0"
    using ok s by (auto simp: cf_ok_def)
  have fv: "n = ms ! i" if "fetches T mem mbase base limit pc n" for n
    by (rule fetches_validated(1) [OF v that i le])
  note m = fv [OF f] and same = fetches_validated(2) [OF v f i le]
  have ds: "decodes T mem0 ms mbase base (mbase + unat (limit - base)) limit"
    and acc: "accepted mem0 base limit msk m" and pairs: "pairs_ok mem0 msk ms"
    and dts: "direct_targets mem0 base limit ms \<subseteq> jump_starts ms"
    and bundles: "\<And>a. base \<le> a \<Longrightarrow> a < limit \<Longrightarrow> a AND msk = 0 \<Longrightarrow> a \<in> jump_starts ms"
    using v i(1) m by (auto simp: validated_def)
  have oi: "operand_inside mem m"
    using T f acc unfolding tables_ok_def fetches_def accepted_def by blast
  note nx = decodes_next [OF ds i(1), unfolded i(2)]
  have falls: "cf_ok mem0 base limit msk ms (pc + ucast (inst_length (inst (ms ! i))), rg)"
    if "Suc i < length ms \<Longrightarrow> insttype (opinfo (ms ! Suc i)) = NACLi_INDIRECT \<Longrightarrow>
      rg (modrm_rm (mem0 (maddr (inst (ms ! Suc i)) + 1))) AND msk = 0" for rg
    using that nx by (auto simp: cf_ok_def split: if_splits)
  have pair: "masked_pair mem0 msk (ms ! i) (ms ! Suc i)"
    if "Suc i < length ms" "insttype (opinfo (ms ! Suc i)) = NACLi_INDIRECT"
    using pairs that unfolding pairs_ok_def by (metis diff_Suc_1)
  have len0: "0 < len m" using f decode_at_pos by (simp add: fetches_def)
  have b0: "mem (maddr (inst m)) = mem0 (maddr (inst m))" using same len0 by simp
  have b1: "mem (maddr (inst m) + 1) = mem0 (maddr (inst m) + 1)" if "2 \<le> len m" using same that by simp
  from st show ?thesis unfolding s
  proof (cases rule: cf_step.cases)
    case (mask n r)
    have n: "n = m" using fv [OF mask(3)] m by simp
    have three: "3 \<le> len m"
      using mask(4) oi unfolding n is_mask_and_def operand_inside_def Let_def by simp
    show "cf_ok mem0 base limit msk ms (pc', regs')"
      unfolding mask(1,2,5) n m
    proof (rule falls)
      assume "Suc i < length ms" "insttype (opinfo (ms ! Suc i)) = NACLi_INDIRECT"
      note p = pair [OF this, folded m]
      let ?r = "modrm_rm (mem0 (maddr (inst (ms ! Suc i)) + 1))"
      have "mem (maddr (inst m) + 1) = (0xe0 OR ?r)" "mem (maddr (inst m) + 2) = mem0 (maddr (inst m) + 2)"
        using p b1 same three by (simp_all add: masked_pair_def Let_def)
      then show "(regs(modrm_rm (mem (maddr (inst (ms ! i)) + 1)) := regs (modrm_rm (mem (maddr (inst (ms ! i)) + 1))) AND
          scast (mem (maddr (inst (ms ! i)) + 2)))) ?r AND msk = 0"
        using p masked_aligned [OF msk] m by (simp add: modrm_e0 masked_pair_def Let_def)
    qed
  next
    case (fall n)
    have n: "n = m" using fv [OF fall(2)] m by simp
    have "\<not> (Suc i < length ms \<and> insttype (opinfo (ms ! Suc i)) = NACLi_INDIRECT)"
    proof
      assume "Suc i < length ms \<and> insttype (opinfo (ms ! Suc i)) = NACLi_INDIRECT"
      then have p: "masked_pair mem0 msk m (ms ! Suc i)" using pair m by blast
      then have "mem (maddr (inst m)) = 0x83" "prefixbytes (inst m) = 0"
        using b0 by (simp_all add: masked_pair_def Let_def)
      moreover from this have "3 \<le> len m" using oi by (simp add: operand_inside_def)
      ultimately have "is_mask_and mem m"
        using p b1 by (simp add: is_mask_and_def masked_pair_def Let_def modrm_e0)
      with fall(3) n show False by simp
    qed
    then show "cf_ok mem0 base limit msk ms (pc', regs')"
      unfolding fall(1) n m by (intro falls) blast
  next
    case (direct n)
    have n: "n = m" using fv [OF direct(1)] m by simp
    have t: "direct_target mem0 m = Some pc'"
      using direct_target_inside [OF oi same] direct(3) n by simp
    have "base \<le> pc' \<and> pc' < limit \<longrightarrow> pc' \<in> jump_starts ms"
      using dts t m nth_mem [OF i(1)] unfolding direct_targets_def by blast
    moreover have "\<not> (base \<le> pc' \<and> pc' < limit) \<longrightarrow> pc' AND msk = 0"
      using acc t by (auto simp: accepted_def)
    ultimately show "cf_ok mem0 base limit msk ms (pc', regs')" by (rule jump_target_ok [OF v])
  next
    case (reg_jump n)
    have n: "n = m" using fv [OF reg_jump(2)] m by simp
    have "2 \<le> len m" using oi reg_jump(4) n by (simp add: operand_inside_def Let_def)
    then have "pc' AND msk = 0" using ri reg_jump(1,4) b1 n m by simp
    then show "cf_ok mem0 base limit msk ms (pc', regs')"
      using bundles by (intro jump_target_ok [OF v]) blast+
  next
    case (wild_jump n)
    have n: "n = m" using fv [OF wild_jump(1)] m by simp
    have "2 \<le> len m" using oi wild_jump(3) n by (simp add: operand_inside_def Let_def)
    moreover have "masked_pair mem0 msk (ms ! (i - 1)) m"
      using pairs i(1) wild_jump(3) n m by (simp add: pairs_ok_def)
    ultimately have "is_reg_jump mem m"
      using b0 b1 by (auto simp: is_reg_jump_def masked_pair_def Let_def)
    with wild_jump(4) n show "cf_ok mem0 base limit msk ms (pc', regs')" by simp
  qed
qed

text \<open>Execution that starts at a place where it may be stays at such places.\<close>

lemma cf_reachable_ok:
  assumes "validated T mem0 mbase base limit msk ms mem" and "msk = 15 \<or> msk = 31"
    and "tables_ok T" and "base \<le> limit"
    and "(cf_step T mem mbase base limit)\<^sup>*\<^sup>* s s'" and "cf_ok mem0 base limit msk ms s"
  shows "cf_ok mem0 base limit msk ms s'"
  using assms(5,6) by induction (auto intro: cf_step_ok [OF assms(1-4)])

end
