(* ===== verification/Plain_Code.thy ===== *)
theory Plain_Code
  imports Validate_Image
begin

text \<open>
  The validator accepts something: a region whose bytes are all one-byte instructions without prefix or operand, such as halts and
  no-operations, passes and is left as it is. The loader pads code with halts, so this is part of what loading relies on.
\<close>

definition plain :: "DecodeTables \<Rightarrow> u8 \<Rightarrow> bool" where
  "plain T b \<longleftrightarrow> kPrefixTable T b = 0 \<and> b \<noteq> kTwoByteOpcodeByte1 \<and> insttype (kDecode1ByteOp T b) = NACLi_386 \<and>
     hasmrmbyte (kDecode1ByteOp T b) = 0 \<and> op_immtype (kDecode1ByteOp T b) = IMM_NONE"

lemma DecodeInst_plain:
  assumes "plain T (mem (mpc m))" "nextbyte m = mpc m"
  obtains m' where "DecodeInst T cb mem m v = (m', v)" "inst_length (inst m') = 1" "prefixbytes (inst m') = 0"
    "insttype (opinfo m') = NACLi_386"
proof -
  define m1 where "m1 = InitDecoder m"
  have m1: "nextbyte m1 = mpc m" "mpc m1 = mpc m" "prefixbytes (inst m1) = 0" "prefixmask (inst m1) = 0" "hassibbyte (inst m1) = 0"
    "dispbytes (inst m1) = 0"
    using assms(2) by (simp_all add: m1_def InitDecoder_def)
  have p: "ConsumePrefixBytes T mem m1 = m1"
    using assms(1) m1(1) by (simp add: ConsumePrefixBytes_def kMaxPrefixBytes_def numeral_eq_Suc plain_def Let_def)
  define m2 where "m2 = m1\<lparr>opinfo := kDecode1ByteOp T (mem (mpc m)), nextbyte := mpc m + 1, inst := (inst m1)\<lparr>immtype := IMM_NONE\<rparr>\<rparr>"
  have o: "ConsumeOpcodeBytes T cb mem m1 v = (m2, v)"
    using assms(1) m1(1) by (simp add: ConsumeOpcodeBytes_def plain_def Let_def m2_def)
  have mr: "ConsumeModRM T cb mem m2 v = (m2, v)" using assms(1) by (simp add: ConsumeModRM_def plain_def m2_def)
  have sib: "ConsumeSIB cb mem m2 v = (m2, v)" using m1(5) by (simp add: ConsumeSIB_def m2_def)
  define m3 where "m3 = m2\<lparr>inst := (inst m2)\<lparr>inst_length := 1\<rparr>\<rparr>"
  have i: "ConsumeID cb m2 v = (m3, v)" using m1 by (simp add: ConsumeID_def Let_def m2_def m3_def)
  have three: "MaybeGet3ByteOpInfo T mem m3 = m3" using assms(1) by (simp add: MaybeGet3ByteOpInfo_def m3_def m2_def plain_def)
  have "DecodeInst T cb mem m v = (m3, v)"
    unfolding DecodeInst_def Let_def m1_def [symmetric] p o prod.case mr sib i three by simp
  then show thesis by (rule that) (use m1 assms(1) in \<open>simp_all add: m3_def m2_def plain_def\<close>)
qed

lemma ValidateInst_plain:
  assumes m: "inst_length (inst (buf ! i)) = 1" "prefixbytes (inst (buf ! i)) = 0" "insttype (opinfo (buf ! i)) = NACLi_386"
    and a: "iadrbase v \<le> vaddr (inst (buf ! i))" "vaddr (inst (buf ! i)) < iadrlimit v" and new: "\<not> GetAdrTable (vaddr (inst (buf ! i)) - iadrbase v) (vttable v)"
    and nf: "\<not> failed v"
  obtains v' where "ValidateInst buf i mem v = (mem, v')" "\<not> failed v'" "same_config v v'" "kttable v' = kttable v"
    "vttable v' = SetAdrTable (vaddr (inst (buf ! i)) - iadrbase v) (vttable v)"
proof -
  define v' where "v' = RememberIP (vaddr (inst (buf ! i))) (OpcodeHisto (mem (maddr (inst (buf ! i)))) v)"
  have "ValidateInst buf i mem v = (mem, v')"
    using m by (simp add: ValidateInst_def Let_def v'_def prefix_usage_ok_def ValidateInst_switch_def nacl_consts)
  moreover have "\<not> failed v'" "same_config v v'" "kttable v' = kttable v"
      "vttable v' = SetAdrTable (vaddr (inst (buf ! i)) - iadrbase v) (vttable v)"
    using a new nf by (auto simp: v'_def RememberIP_def Let_def failed_def same_config_def stats_defs SetAdrTable_def)
  ultimately show thesis by (rule that)
qed

text \<open>The state after the first \<open>k\<close> bytes: exactly their offsets are recorded, and no target.\<close>

definition seen :: "u32 \<Rightarrow> u32 \<Rightarrow> nat \<Rightarrow> NCValidatorState \<Rightarrow> bool" where
  "seen base limit k v \<longleftrightarrow> \<not> failed v \<and> iadrbase v = base \<and> iadrlimit v = limit \<and>
     (\<forall>off<limit - base. in_table (vttable v) off \<and> (GetAdrTable off (vttable v) \<longleftrightarrow> unat off < k) \<and> \<not> GetAdrTable off (kttable v))"

lemma seen_step:
  assumes s: "seen base limit k v" and n: "k < unat (limit - base)" and c: "same_config v v'" "\<not> failed v'" "kttable v' = kttable v"
    and t: "vttable v' = SetAdrTable (of_nat k) (vttable v)"
  shows "seen base limit (Suc k) v'"
proof -
  have ku: "unat (of_nat k :: u32) = k" using n unsigned_less [of "limit - base", where ?'a = nat] by (simp only: unat_of_nat) simp
  then have kl: "(of_nat k :: u32) < limit - base" using n by (simp add: word_less_nat_alt)
  have "in_table (vttable v') off \<and> (GetAdrTable off (vttable v') \<longleftrightarrow> unat off < Suc k) \<and> \<not> GetAdrTable off (kttable v')" if "off < limit - base" for off
  proof -
    have ok: "in_table (vttable v) off" "in_table (vttable v) (of_nat k)" using s that kl by (simp_all add: seen_def)
    have "GetAdrTable off (vttable v') \<longleftrightarrow> off = of_nat k \<or> GetAdrTable off (vttable v)" unfolding t by (rule iat.get_set [OF ok(2,1)])
    moreover have "off = of_nat k \<longleftrightarrow> unat off = k" using ku by (metis word_unat_eq_iff)
    ultimately show ?thesis using s that ok(1) c(3) t by (auto simp: seen_def less_Suc_eq)
  qed
  then show ?thesis using s c(1,2) by (simp add: seen_def same_config_def)
qed

lemma loop_plain:
  assumes nowrap: "unat limit + 19 < 2 ^ 32" and bl: "base \<le> limit" and n: "n = unat limit - unat base"
    and plain: "\<forall>i<n. plain T (mem (p + i))"
  shows "buffer_ok buf cur dbi \<Longrightarrow> vpc (buf ! cur) = base + of_nat k \<Longrightarrow> mpc (buf ! cur) = p + k \<Longrightarrow> k \<le> n \<Longrightarrow> n - k < fuel \<Longrightarrow>
    seen base limit k v \<Longrightarrow> \<exists>v'. NCDecodeSegment_loop T ncv_callbacks limit fuel buf cur dbi mem v = Some (mem, v') \<and> seen base limit n v' \<and> same_config v v'"
proof (induction fuel arbitrary: buf cur dbi k v)
  case 0
  then show ?case by simp
next
  case (Suc fuel)
  let ?c = "buf ! cur"
  have nl: "unat (limit - base) = n" using bl n by (simp add: unat_sub_le)
  have n32: "n < 2 ^ 32" using n unsigned_less [of limit, where ?'a = nat] by simp
  have ku: "unat (of_nat k :: u32) = k" using Suc.prems(4) n32 by (simp only: unat_of_nat) simp
  have pcu: "unat (vpc ?c) = unat base + k"
    using Suc.prems(2,4) ku n nowrap bl unat_add_no_wrap [of base "of_nat k"] by (simp add: word_le_nat_alt)
  show ?case
  proof (cases "k = n")
    case True
    then have "\<not> vpc ?c < limit" using pcu n bl by (simp add: word_less_nat_alt word_le_nat_alt)
    then show ?thesis using Suc.prems(6) True by simp
  next
    case False
    then have kn: "k < n" using Suc.prems(4) by simp
    then have lt: "vpc ?c < limit" using pcu n by (simp add: word_less_nat_alt)
    have nb: "nextbyte ?c = mpc ?c" and cur: "cur < length buf" "dbindex ?c = cur" using Suc.prems(1) by (simp_all add: buffer_ok_def)
    have pl: "plain T (mem (mpc ?c))" using plain kn Suc.prems(3) by simp
    obtain m where m: "DecodeInst T ncv_callbacks mem ?c v = (m, v)" "inst_length (inst m) = 1" "prefixbytes (inst m) = 0" "insttype (opinfo m) = NACLi_386"
      by (rule DecodeInst_plain [of T mem ?c ncv_callbacks v, OF pl nb])
    have mp: "mpc m = mpc ?c" "vpc m = vpc ?c" "dbindex m = cur" "nextbyte m = mpc ?c + 1" "vaddr (inst m) = vpc ?c"
      using DecodeInst_end [OF nb, of T ncv_callbacks mem v] cur by (simp_all add: m)
    let ?buf = "buf[cur := m]" and ?pc = "vpc ?c + 1"
    have pc: "unat ?pc = unat base + Suc k" using pcu nowrap lt unat_add_no_wrap [of "vpc ?c" 1] by (simp add: word_less_nat_alt)
    have le: "\<not> ?pc > limit" using pc kn n by (simp add: word_less_nat_alt)
    have off: "vpc ?c - base = of_nat k" using Suc.prems(2) by simp
    have in_code: "iadrbase v \<le> vpc ?c" "vpc ?c < iadrlimit v" "\<not> failed v" "iadrbase v = base"
      using Suc.prems(6) lt pcu by (simp_all add: seen_def word_le_nat_alt)
    have "(of_nat k :: u32) < limit - base" using ku kn nl by (simp add: word_less_nat_alt)
    then have new: "\<not> GetAdrTable (of_nat k) (vttable v)" using Suc.prems(6) ku by (simp add: seen_def)
    have bm: "?buf ! cur = m" using cur by simp
    obtain v1 where v1: "ValidateInst ?buf cur mem v = (mem, v1)" "\<not> failed v1" "same_config v v1" "kttable v1 = kttable v"
        "vttable v1 = SetAdrTable (vaddr (inst (?buf ! cur)) - iadrbase v) (vttable v)"
      by (rule ValidateInst_plain [of ?buf cur v mem]) (simp_all add: bm m mp in_code off new, use in_code new off in auto)
    have sn: "seen base limit (Suc k) v1"
      using seen_step [OF Suc.prems(6) _ v1(3,2,4)] v1(5) kn nl by (simp add: bm mp in_code(4) off)
    define dbi' where "dbi' = (dbi + 1) AND (kDecodeBufferSize - 1)"
    define buf' where "buf' = ?buf[dbi' := (?buf ! dbi')\<lparr>vpc := ?pc, mpc := mpc ?c + 1, nextbyte := mpc ?c + 1\<rparr>]"
    note bs = buffer_step [OF Suc.prems(1) mp(3), where v = ?pc and p = "mpc ?c + 1", folded dbi'_def, folded buf'_def]
    have step: "NCDecodeSegment_loop T ncv_callbacks limit (Suc fuel) buf cur dbi mem v = NCDecodeSegment_loop T ncv_callbacks limit fuel buf' dbi' dbi' mem v1"
      using lt m mp le v1(1) by (simp add: Let_def buf'_def dbi'_def)
    have "\<exists>v'. NCDecodeSegment_loop T ncv_callbacks limit fuel buf' dbi' dbi' mem v1 = Some (mem, v') \<and> seen base limit n v' \<and> same_config v1 v'"
      by (rule Suc.IH [OF bs(1), of "Suc k"]) (use bs(2,3) Suc.prems(2,3,5) kn sn in \<open>simp_all add: algebra_simps\<close>)
    then show ?thesis unfolding step using v1(3) same_config_trans by blast
  qed
qed

lemma NCValidateInit_alloc:
  assumes "vbase < vlimit" "al = 16 \<or> al = 32" "unat al dvd unat vbase" "\<forall>i. alloc i"
  obtains v where "NCValidateInit alloc inited vbase vlimit al = (True, Some v)"
proof -
  have "vbase AND ucast (al - 1) = 0"
  proof -
    have "unat (vbase AND mask 4) = unat vbase mod 2 ^ 4" "unat (vbase AND mask 5) = unat vbase mod 2 ^ 5"
      by (metis take_bit_eq_mask take_bit_eq_mod unsigned_take_bit_eq)+
    moreover have "al = 16 \<Longrightarrow> ucast (al - 1) = (mask 4 :: u32)" "al = 32 \<Longrightarrow> ucast (al - 1) = (mask 5 :: u32)"
      by (simp_all add: mask_eq_exp_minus_1)
    ultimately show ?thesis using assms(2,3) by (auto simp: dvd_eq_mod_eq_0 unat_eq_0 [symmetric] simp del: unat_eq_0)
  qed
  then have "\<exists>v. NCValidateInit alloc inited vbase vlimit al = (True, Some v)"
    using assms by (auto simp: NCValidateInit_def Let_def Stats_Init_def not_le)
  then show thesis using that by blast
qed

lemma validator_pass_plain:
  assumes b: "bundle_size nap = 16 \<or> bundle_size nap = 32" and al: "nat (bundle_size nap) dvd unat guest" and sz: "sz \<noteq> 0"
    and nowrap: "unat guest + unat sz + 32 \<le> 2 ^ 32" and alloc: "\<forall>i. alloc i" and cpu: "f_386 cpu"
    and plain: "\<forall>i<unat sz. plain T (mem (data + i))"
  shows "validator_pass T cpu alloc inited nap stub guest data sz mem = Some (mem, True, LOAD_OK)"
proof -
  let ?al = "word_of_int (bundle_size nap) :: u8" and ?lim = "guest + sz"
  have lim: "unat ?lim = unat guest + unat sz" using nowrap by (intro unat_add_no_wrap) simp
  have lt: "guest < ?lim" using sz unfolding word_less_nat_alt lim by (simp add: unat_gt_0)
  have al': "?al = 16 \<or> ?al = 32" "unat ?al dvd unat guest" using b al by auto
  obtain v where v: "NCValidateInit alloc inited guest ?lim ?al = (True, Some v)" by (rule NCValidateInit_alloc [OF lt al' alloc])
  note iv = NCValidateInit_Some [OF v]
  define w where "w = Stats_NewSegment ((if stub then NCValidateSetStubOutMode v True else v)\<lparr>cpufeatures := cpu\<rparr>)"
  have w: "\<not> failed w" "iadrbase w = guest" "iadrlimit w = ?lim" "alignment w = ?al" "alignmask w = ucast ?al - 1" "vttable w = vttable v" "kttable w = kttable v"
    using iv by (simp_all add: w_def Stats_NewSegment_def NCValidateSetStubOutMode_def failed_def Let_def)
  have vi: "vinv mem guest ?lim (ucast ?al - 1) [] mem w"
    by (rule vinv_initial) (use w iv in simp_all)
  have tab: "in_table (vttable w) off" "\<not> GetAdrTable off (vttable w)" "\<not> GetAdrTable off (kttable w)" if "off < ?lim - guest" for off
  proof -
    have "IATOffset off \<le> IATOffset (?lim - guest)" using that by (simp add: IATOffset_div word_less_nat_alt div_le_mono)
    then show "in_table (vttable w) off" "\<not> GetAdrTable off (vttable w)" "\<not> GetAdrTable off (kttable w)"
      using iv(11,12) w(6,7) by (simp_all add: in_table_def GetAdrTable_bit less_Suc_eq_le del: replicate_Suc)
  qed
  then have s0: "seen guest ?lim 0 w" using w by (simp add: seen_def)
  have n: "unat sz = unat ?lim - unat guest" using lim by simp
  let ?b = "init_decodebuffer data guest"
  have "\<exists>v'. NCDecodeSegment_loop T ncv_callbacks ?lim (Suc (unat sz)) ?b 0 kDecodeBufferSize mem w = Some (mem, v') \<and> seen guest ?lim (unat sz) v' \<and> same_config w v'"
    by (rule loop_plain [where base = guest and k = 0, OF _ _ n plain]) (use lt nowrap s0 in \<open>simp_all add: lim init_decodebuffer_ok\<close>)
  then obtain v' where v': "NCDecodeSegment_loop T ncv_callbacks ?lim (Suc (unat sz)) ?b 0 kDecodeBufferSize mem w = Some (mem, v')"
      "seen guest ?lim (unat sz) v'" "same_config w v'" by blast
  have seg: "NCValidateSegment T cpu data guest sz mem (if stub then NCValidateSetStubOutMode v True else v) = Some (mem, v')"
    using sz cpu v'(1) by (simp add: NCValidateSegment_def NCDecodeSegment_def Let_def w_def)
  have c: "alignment v' = ?al" "iadrbase v' = guest" "iadrlimit v' = ?lim" "alignmask v' = ucast ?al - 1" using v'(3) w by (simp_all add: same_config_def)
  obtain r v2 where f: "NCValidateFinish (Some v') = Some (r, Some v2)"
      "\<not> r \<longleftrightarrow> \<not> failed v' \<and> iadrbase v' AND alignmask v' = 0 \<and>
        (\<forall>off<iadrlimit v' - iadrbase v'. GetAdrTable off (kttable v') \<longrightarrow> GetAdrTable off (vttable v')) \<and>
        (\<forall>off<iadrlimit v' - iadrbase v'. unat (alignment v') dvd unat off \<longrightarrow> GetAdrTable off (vttable v'))"
    by (rule NCValidateFinish_iff [of v']) (use c al'(1) nowrap in simp_all)
  have "\<not> r" unfolding f(2) c using v'(2) iv(3) by (auto simp: seen_def word_less_nat_alt)
  then show ?thesis using v seg f(1) by (simp add: validator_pass_def)
qed

lemma NaClValidateCode_plain:
  assumes "bundle_size nap = 16 \<or> bundle_size nap = 32" "nat (bundle_size nap) dvd unat guest" "sz \<noteq> 0"
    "unat guest + unat sz + 32 \<le> 2 ^ 32" "\<forall>p i. alloc p i" "f_386 cpu" "\<forall>i<unat sz. plain T (mem (data + i))"
  shows "NaClValidateCode T cpu alloc inited nap guest data sz mem = Some (mem, True, LOAD_OK)"
  using assms by (simp add: NaClValidateCode_def validator_pass_plain)

lemma NaClValidateImage_plain:
  assumes b: "bundle_size nap = 16 \<or> bundle_size nap = 32"
    and text_end: "NACL_TRAMPOLINE_END < static_text_end nap" "unat (mem_start nap) + unat (static_text_end nap) < 2 ^ 32"
      "unat (static_text_end nap) + 32 \<le> 2 ^ 32"
    and alloc: "\<forall>p i. alloc p i" and cpu: "f_386 cpu"
    and plain: "\<forall>a. 0x20000 \<le> a \<and> a < unat (static_text_end nap) \<longrightarrow> plain T (mem (unat (mem_start nap) + a))"
  shows "NaClValidateImage T cpu alloc inited nap mem = Some (mem, True, LOAD_OK)"
proof -
  let ?ms = "mem_start nap" and ?e = "static_text_end nap"
  have e: "0x20000 < unat ?e" using text_end(1) by (simp add: word_less_nat_alt NACL_TRAMPOLINE_END_val)
  have m: "unat (?ms + NACL_TRAMPOLINE_END) = unat ?ms + 0x20000"
    using e text_end(2) unat_add_no_wrap [of ?ms NACL_TRAMPOLINE_END] by (simp add: NACL_TRAMPOLINE_END_val)
  have me: "unat (?ms + ?e) = unat ?ms + unat ?e" using text_end(2) by (intro unat_add_no_wrap) simp
  have order: "\<not> ?ms + ?e < ?ms + NACL_TRAMPOLINE_END" using e unfolding word_less_nat_alt m me by simp
  have sz: "unat (?ms + ?e - (?ms + NACL_TRAMPOLINE_END)) = unat ?e - 0x20000"
    using order unat_sub_le [of "?ms + NACL_TRAMPOLINE_END" "?ms + ?e"] by (simp add: m me not_less)
  have "NaClValidateCode T cpu alloc inited nap NACL_TRAMPOLINE_END (unat (?ms + NACL_TRAMPOLINE_END))
      (?ms + ?e - (?ms + NACL_TRAMPOLINE_END)) mem = Some (mem, True, LOAD_OK)"
  proof (rule NaClValidateCode_plain [OF b _ _ _ alloc cpu])
    show "nat (bundle_size nap) dvd unat NACL_TRAMPOLINE_END" using b by (auto simp: NACL_TRAMPOLINE_END_val)
    show "?ms + ?e - (?ms + NACL_TRAMPOLINE_END) \<noteq> 0" using sz e by (metis less_irrefl unat_0 zero_less_diff)
    show "unat NACL_TRAMPOLINE_END + unat (?ms + ?e - (?ms + NACL_TRAMPOLINE_END)) + 32 \<le> 2 ^ 32"
      using sz e text_end(3) by (simp add: NACL_TRAMPOLINE_END_val)
    show "\<forall>i<unat (?ms + ?e - (?ms + NACL_TRAMPOLINE_END)). plain T (mem (unat (?ms + NACL_TRAMPOLINE_END) + i))"
      unfolding sz m using plain by (auto simp: add.assoc)
  qed
  then show ?thesis using order by (simp add: NaClValidateImage_def Let_def)
qed

end
