(* ===== verification/NC_Decode_Table.thy ===== *)
theory NC_Decode_Table
  imports NC_Decode
begin

text \<open>
  The generator of the decoding tables, \<open>validator_x86/ncdecode_table.c\<close>: the program that
  writes \<open>ncdecodetab.h\<close>, the tables \<open>ncdecode.c\<close> is compiled with. Its global tables are the
  record \<open>MetaTables\<close>; every \<open>Encode...\<close> and \<open>Set...\<close> function is a definition that updates them;
  \<open>BuildMetaTables\<close> runs the calls in the order of the source, one list of calls per stretch of
  the function. A table entry \<open>None\<close> is the address of the shared \<open>DecodeUndefinedInstInfo\<close>.
  The command line flag \<open>FLAGS_run_mode\<close> is the argument \<open>run\<close> of every operation. The
  disassembly formats (\<open>disfmt\<close>) only reach \<open>ncdisasmtab.h\<close> and are left out, so an \<open>OpMetaInfo\<close>
  is an \<open>OpInfo\<close>. A failed \<open>assert\<close> of a function that builds the tables sets \<open>assert_failed\<close>; in
  a function that prints it is the result \<open>None\<close>. \<open>main\<close> ends in \<open>Abort\<close> in both cases. The
  \<open>malloc\<close> calls of the generator succeed.
\<close>

subsection \<open>Data\<close>

datatype RunMode = X86_32 | X86_64 | RunModeSize

text \<open>The \<open>default\<close> branch of the \<open>switch\<close>, an \<open>assert(0)\<close>, is \<open>None\<close>.\<close>

definition RunModeName :: "RunMode \<Rightarrow> string option" where
  "RunModeName md =
     (case md of X86_32 \<Rightarrow> Some ''x86-32 bit mode'' | X86_64 \<Rightarrow> Some ''x86-64 bit mode'' | RunModeSize \<Rightarrow> None)"

datatype DecodeOpsKind = DECODE_OPS_DEFAULT_64 | DECODE_OPS_DEFAULT_32 | DECODE_OPS_FORCE_64

text \<open>
  The \<open>default\<close> branch of this \<open>switch\<close> has no value to be taken on: the enumeration has three
  members, and nothing else is ever stored in the tables of this type.
\<close>

definition DecodeOpsKindName :: "DecodeOpsKind \<Rightarrow> string option" where
  "DecodeOpsKindName k =
     (case k of DECODE_OPS_DEFAULT_64 \<Rightarrow> Some ''DECODE_OPS_DEFAULT_64''
      | DECODE_OPS_DEFAULT_32 \<Rightarrow> Some ''DECODE_OPS_DEFAULT_32''
      | DECODE_OPS_FORCE_64 \<Rightarrow> Some ''DECODE_OPS_FORCE_64'')"

definition NCDTABLESIZE :: nat where [nacl_consts]: "NCDTABLESIZE = 256"
definition kNaClMRMGroupsRange :: nat where [nacl_consts]: "kNaClMRMGroupsRange = 20"
definition kModRMOpcodeGroupSize :: nat where [nacl_consts]: "kModRMOpcodeGroupSize = 8"

definition NOGROUP :: u8 where [nacl_consts]: "NOGROUP = 0"
definition GROUP1 :: u8 where [nacl_consts]: "GROUP1 = 1"
definition GROUP2 :: u8 where [nacl_consts]: "GROUP2 = 2"
definition GROUP3 :: u8 where [nacl_consts]: "GROUP3 = 3"
definition GROUP4 :: u8 where [nacl_consts]: "GROUP4 = 4"
definition GROUP5 :: u8 where [nacl_consts]: "GROUP5 = 5"
definition GROUP6 :: u8 where [nacl_consts]: "GROUP6 = 6"
definition GROUP7 :: u8 where [nacl_consts]: "GROUP7 = 7"
definition GROUP8 :: u8 where [nacl_consts]: "GROUP8 = 8"
definition GROUP9 :: u8 where [nacl_consts]: "GROUP9 = 9"
definition GROUP10 :: u8 where [nacl_consts]: "GROUP10 = 10"
definition GROUP11 :: u8 where [nacl_consts]: "GROUP11 = 11"
definition GROUP12 :: u8 where [nacl_consts]: "GROUP12 = 12"
definition GROUP13 :: u8 where [nacl_consts]: "GROUP13 = 13"
definition GROUP14 :: u8 where [nacl_consts]: "GROUP14 = 14"
definition GROUP15 :: u8 where [nacl_consts]: "GROUP15 = 15"
definition GROUP16 :: u8 where [nacl_consts]: "GROUP16 = 16"
definition GROUP17 :: u8 where [nacl_consts]: "GROUP17 = 17"
definition GROUP1A :: u8 where [nacl_consts]: "GROUP1A = 18"
definition GROUPP :: u8 where [nacl_consts]: "GROUPP = 19"

record MetaTables =
  g_Op1ByteTable :: "u8 \<Rightarrow> OpInfo option"
  g_PrefixTable :: "u8 \<Rightarrow> u32"
  g_Op0FXXMetaTable :: "u8 \<Rightarrow> OpInfo option"
  g_OpF20FXXTable :: "u8 \<Rightarrow> OpInfo option"
  g_OpF30FXXTable :: "u8 \<Rightarrow> OpInfo option"
  g_Op660FXXTable :: "u8 \<Rightarrow> OpInfo option"
  g_Op0F0FTable :: "u8 \<Rightarrow> OpInfo option"
  g_Op0F38Table :: "u8 \<Rightarrow> OpInfo option"
  g_Op660F38Table :: "u8 \<Rightarrow> OpInfo option"
  g_OpF20F38Table :: "u8 \<Rightarrow> OpInfo option"
  g_Op0F3ATable :: "u8 \<Rightarrow> OpInfo option"
  g_Op660F3ATable :: "u8 \<Rightarrow> OpInfo option"
  g_ModRMOpTable :: "u8 \<Rightarrow> u8 \<Rightarrow> OpInfo option"
  g_Op87 :: "u8 \<Rightarrow> u8 \<Rightarrow> OpInfo option"
  g_OpDecodeOpsKind :: "u8 \<Rightarrow> DecodeOpsKind"
  g_Op0FDecodeOpsKind :: "u8 \<Rightarrow> DecodeOpsKind"
  g_ModRMOpDecodeOpsKind :: "u8 \<Rightarrow> u8 \<Rightarrow> DecodeOpsKind"
  assert_failed :: bool

type_synonym build = "RunMode \<Rightarrow> MetaTables \<Rightarrow> MetaTables"

definition DecodeUndefinedInstInfo :: OpInfo where
  "DecodeUndefinedInstInfo =
     \<lparr>insttype = NACLi_UNDEFINED, hasmrmbyte = 0, op_immtype = IMM_NONE, opinmrm = 0\<rparr>"

subsection \<open>Table entries\<close>

definition NewMetaDefn :: "u8 \<Rightarrow> NCDecodeImmediateType \<Rightarrow> NaClInstType \<Rightarrow> OpInfo" where
  "NewMetaDefn mrmbyte immt itype =
     \<lparr>insttype = itype, hasmrmbyte = mrmbyte, op_immtype = immt, opinmrm = 0\<rparr>"

definition NUM_GP_X86_32_REGS :: nat where [nacl_consts]: "NUM_GP_X86_32_REGS = 8"

definition gp_x86_32_regs :: "string list" where
  "gp_x86_32_regs = [''%eax'', ''%ecx'', ''%edx'', ''%ebx'', ''%esp'', ''%ebp'', ''%esi'', ''%edi'']"

definition corresp_gp_x86_64_regs :: "string list" where
  "corresp_gp_x86_64_regs = [''%rax'', ''%rcx'', ''%rdx'', ''%rbx'', ''%rsp'', ''%rbp'', ''%rsi'', ''%rdi'']"

text \<open>The inner loop of \<open>ModedGenRegs\<close>: every occurrence that \<open>strstr\<close> finds, from left to right.\<close>

fun replace_reg :: "string \<Rightarrow> string \<Rightarrow> string \<Rightarrow> string" where
  "replace_reg old new s =
     (if s = [] \<or> old = [] then s
      else if take (length old) s = old then new @ replace_reg old new (drop (length old) s)
      else hd s # replace_reg old new (tl s))"

declare replace_reg.simps [simp del]

fun ModedGenRegs_loop :: "nat \<Rightarrow> nat \<Rightarrow> string \<Rightarrow> string option" where
  "ModedGenRegs_loop i 0 rformat = Some rformat"
| "ModedGenRegs_loop i (Suc k) rformat =
     (let name_size = length (gp_x86_32_regs ! i)
      in if name_size = length (corresp_gp_x86_64_regs ! i)
         then ModedGenRegs_loop (i + 1) k (replace_reg (gp_x86_32_regs ! i) (corresp_gp_x86_64_regs ! i) rformat)
         else None)"

definition ModedGenRegs :: "string \<Rightarrow> RunMode \<Rightarrow> string option" where
  "ModedGenRegs fmt md =
     (case md of X86_32 \<Rightarrow> Some fmt
      | X86_64 \<Rightarrow> ModedGenRegs_loop 0 NUM_GP_X86_32_REGS fmt
      | RunModeSize \<Rightarrow> None)"

lemma ModedGenRegs_loop_format: "(ModedGenRegs_loop i k f = None) = (ModedGenRegs_loop i k g = None)"
  by (induction k arbitrary: i f g) (simp_all add: Let_def)

text \<open>
  Whether an assert of \<open>ModedGenRegs\<close> fails does not depend on the format, so its callers, which have
  no format here, call it with the empty one.
\<close>

lemma ModedGenRegs_format: "(ModedGenRegs f md = None) = (ModedGenRegs g md = None)"
  using ModedGenRegs_loop_format [of 0 NUM_GP_X86_32_REGS f g] by (cases md) (simp_all add: ModedGenRegs_def)

definition call_ModedGenRegs :: build where
  "call_ModedGenRegs run mt = (if ModedGenRegs [] run = None then mt\<lparr>assert_failed := True\<rparr> else mt)"

definition EncodeModedOp :: "u8 \<Rightarrow> u8 \<Rightarrow> NCDecodeImmediateType \<Rightarrow> NaClInstType \<Rightarrow> RunMode \<Rightarrow> build" where
  "EncodeModedOp byte mrmbyte immt itype mode run mt =
     (if run = mode then mt\<lparr>g_Op1ByteTable := (g_Op1ByteTable mt)(byte := Some (NewMetaDefn mrmbyte immt itype))\<rparr>
      else mt)"

definition EncodeOp :: "u8 \<Rightarrow> u8 \<Rightarrow> NCDecodeImmediateType \<Rightarrow> NaClInstType \<Rightarrow> build" where
  "EncodeOp byte mrmbyte immt itype run mt = EncodeModedOp byte mrmbyte immt itype run run mt"

definition EncodeModedPrefixName :: "u8 \<Rightarrow> u32 \<Rightarrow> RunMode \<Rightarrow> build" where
  "EncodeModedPrefixName byte name mode run mt =
     (if run = mode then mt\<lparr>g_PrefixTable := (g_PrefixTable mt)(byte := name)\<rparr> else mt)"

definition EncodePrefixName :: "u8 \<Rightarrow> u32 \<Rightarrow> build" where
  "EncodePrefixName byte name run mt = EncodeModedPrefixName byte name run run mt"

definition EncodeOpRegs :: "u8 \<Rightarrow> u8 \<Rightarrow> NCDecodeImmediateType \<Rightarrow> NaClInstType \<Rightarrow> build" where
  "EncodeOpRegs byte mrmbyte immt itype run mt =
     EncodeModedOp byte mrmbyte immt itype run run (call_ModedGenRegs run mt)"

definition UpdateDecodeOpsKind :: "(u8 \<Rightarrow> DecodeOpsKind) \<Rightarrow> u8 \<Rightarrow> DecodeOpsKind \<Rightarrow> u8 \<Rightarrow> DecodeOpsKind" where
  "UpdateDecodeOpsKind gtbl byte new_kind = gtbl(byte := new_kind)"

definition SetOpDefaultSize64 :: "u8 \<Rightarrow> build" where
  "SetOpDefaultSize64 byte run mt =
     mt\<lparr>g_OpDecodeOpsKind := UpdateDecodeOpsKind (g_OpDecodeOpsKind mt) byte DECODE_OPS_DEFAULT_64\<rparr>"

definition SetOpForceSize64 :: "u8 \<Rightarrow> build" where
  "SetOpForceSize64 byte run mt =
     mt\<lparr>g_OpDecodeOpsKind := UpdateDecodeOpsKind (g_OpDecodeOpsKind mt) byte DECODE_OPS_FORCE_64\<rparr>"

definition EncodeModedOp0F :: "u8 \<Rightarrow> u8 \<Rightarrow> NCDecodeImmediateType \<Rightarrow> NaClInstType \<Rightarrow> RunMode \<Rightarrow> build" where
  "EncodeModedOp0F byte mrmbyte immt itype mode run mt =
     (if run = mode then mt\<lparr>g_Op0FXXMetaTable := (g_Op0FXXMetaTable mt)(byte := Some (NewMetaDefn mrmbyte immt itype))\<rparr>
      else mt)"

definition EncodeOp0F :: "u8 \<Rightarrow> u8 \<Rightarrow> NCDecodeImmediateType \<Rightarrow> NaClInstType \<Rightarrow> build" where
  "EncodeOp0F byte mrmbyte immt itype run mt = EncodeModedOp0F byte mrmbyte immt itype run run mt"

definition SetOp0FDefaultSize64 :: "u8 \<Rightarrow> build" where
  "SetOp0FDefaultSize64 byte run mt =
     mt\<lparr>g_Op0FDecodeOpsKind := UpdateDecodeOpsKind (g_Op0FDecodeOpsKind mt) byte DECODE_OPS_DEFAULT_64\<rparr>"

definition SetOp0FForceSize64 :: "u8 \<Rightarrow> build" where
  "SetOp0FForceSize64 byte run mt =
     mt\<lparr>g_Op0FDecodeOpsKind := UpdateDecodeOpsKind (g_Op0FDecodeOpsKind mt) byte DECODE_OPS_FORCE_64\<rparr>"

definition EncodeModedOp660F :: "u8 \<Rightarrow> u8 \<Rightarrow> NCDecodeImmediateType \<Rightarrow> NaClInstType \<Rightarrow> RunMode \<Rightarrow> build" where
  "EncodeModedOp660F byte mrmbyte immt itype mode run mt =
     (if run = mode then mt\<lparr>g_Op660FXXTable := (g_Op660FXXTable mt)(byte := Some (NewMetaDefn mrmbyte immt itype))\<rparr>
      else mt)"

definition EncodeOp660F :: "u8 \<Rightarrow> u8 \<Rightarrow> NCDecodeImmediateType \<Rightarrow> NaClInstType \<Rightarrow> build" where
  "EncodeOp660F byte mrmbyte immt itype run mt = EncodeModedOp660F byte mrmbyte immt itype run run mt"

definition EncodeModedOpF20F :: "u8 \<Rightarrow> u8 \<Rightarrow> NCDecodeImmediateType \<Rightarrow> NaClInstType \<Rightarrow> RunMode \<Rightarrow> build" where
  "EncodeModedOpF20F byte mrmbyte immt itype mode run mt =
     (if run = mode then mt\<lparr>g_OpF20FXXTable := (g_OpF20FXXTable mt)(byte := Some (NewMetaDefn mrmbyte immt itype))\<rparr>
      else mt)"

definition EncodeOpF20F :: "u8 \<Rightarrow> u8 \<Rightarrow> NCDecodeImmediateType \<Rightarrow> NaClInstType \<Rightarrow> build" where
  "EncodeOpF20F byte mrmbyte immt itype run mt = EncodeModedOpF20F byte mrmbyte immt itype run run mt"

definition EncodeModedOpF30F :: "u8 \<Rightarrow> u8 \<Rightarrow> NCDecodeImmediateType \<Rightarrow> NaClInstType \<Rightarrow> RunMode \<Rightarrow> build" where
  "EncodeModedOpF30F byte mrmbyte immt itype mode run mt =
     (if run = mode then mt\<lparr>g_OpF30FXXTable := (g_OpF30FXXTable mt)(byte := Some (NewMetaDefn mrmbyte immt itype))\<rparr>
      else mt)"

definition EncodeOpF30F :: "u8 \<Rightarrow> u8 \<Rightarrow> NCDecodeImmediateType \<Rightarrow> NaClInstType \<Rightarrow> build" where
  "EncodeOpF30F byte mrmbyte immt itype run mt = EncodeModedOpF30F byte mrmbyte immt itype run run mt"

definition EncodeModedOp0F0F :: "u8 \<Rightarrow> u8 \<Rightarrow> NCDecodeImmediateType \<Rightarrow> NaClInstType \<Rightarrow> RunMode \<Rightarrow> build" where
  "EncodeModedOp0F0F byte mrmbyte immt itype mode run mt =
     (if run = mode then mt\<lparr>g_Op0F0FTable := (g_Op0F0FTable mt)(byte := Some (NewMetaDefn mrmbyte immt itype))\<rparr>
      else mt)"

definition EncodeOp0F0F :: "u8 \<Rightarrow> u8 \<Rightarrow> NCDecodeImmediateType \<Rightarrow> NaClInstType \<Rightarrow> build" where
  "EncodeOp0F0F byte mrmbyte immt itype run mt = EncodeModedOp0F0F byte mrmbyte immt itype run run mt"

definition EncodeModedOp0F38 :: "u8 \<Rightarrow> u8 \<Rightarrow> NCDecodeImmediateType \<Rightarrow> NaClInstType \<Rightarrow> RunMode \<Rightarrow> build" where
  "EncodeModedOp0F38 byte mrmbyte immt itype mode run mt =
     (if run = mode then mt\<lparr>g_Op0F38Table := (g_Op0F38Table mt)(byte := Some (NewMetaDefn mrmbyte immt itype))\<rparr>
      else mt)"

definition EncodeOp0F38 :: "u8 \<Rightarrow> u8 \<Rightarrow> NCDecodeImmediateType \<Rightarrow> NaClInstType \<Rightarrow> build" where
  "EncodeOp0F38 byte mrmbyte immt itype run mt = EncodeModedOp0F38 byte mrmbyte immt itype run run mt"

definition EncodeModedOp660F38 :: "u8 \<Rightarrow> u8 \<Rightarrow> NCDecodeImmediateType \<Rightarrow> NaClInstType \<Rightarrow> RunMode \<Rightarrow> build" where
  "EncodeModedOp660F38 byte mrmbyte immt itype mode run mt =
     (if run = mode then mt\<lparr>g_Op660F38Table := (g_Op660F38Table mt)(byte := Some (NewMetaDefn mrmbyte immt itype))\<rparr>
      else mt)"

definition EncodeOp660F38 :: "u8 \<Rightarrow> u8 \<Rightarrow> NCDecodeImmediateType \<Rightarrow> NaClInstType \<Rightarrow> build" where
  "EncodeOp660F38 byte mrmbyte immt itype run mt = EncodeModedOp660F38 byte mrmbyte immt itype run run mt"

definition EncodeModedOpF20F38 :: "u8 \<Rightarrow> u8 \<Rightarrow> NCDecodeImmediateType \<Rightarrow> NaClInstType \<Rightarrow> RunMode \<Rightarrow> build" where
  "EncodeModedOpF20F38 byte mrmbyte immt itype mode run mt =
     (if run = mode then mt\<lparr>g_OpF20F38Table := (g_OpF20F38Table mt)(byte := Some (NewMetaDefn mrmbyte immt itype))\<rparr>
      else mt)"

definition EncodeOpF20F38 :: "u8 \<Rightarrow> u8 \<Rightarrow> NCDecodeImmediateType \<Rightarrow> NaClInstType \<Rightarrow> build" where
  "EncodeOpF20F38 byte mrmbyte immt itype run mt = EncodeModedOpF20F38 byte mrmbyte immt itype run run mt"

definition EncodeModedOp0F3A :: "u8 \<Rightarrow> u8 \<Rightarrow> NCDecodeImmediateType \<Rightarrow> NaClInstType \<Rightarrow> RunMode \<Rightarrow> build" where
  "EncodeModedOp0F3A byte mrmbyte immt itype mode run mt =
     (if run = mode then mt\<lparr>g_Op0F3ATable := (g_Op0F3ATable mt)(byte := Some (NewMetaDefn mrmbyte immt itype))\<rparr>
      else mt)"

definition EncodeOp0F3A :: "u8 \<Rightarrow> u8 \<Rightarrow> NCDecodeImmediateType \<Rightarrow> NaClInstType \<Rightarrow> build" where
  "EncodeOp0F3A byte mrmbyte immt itype run mt = EncodeModedOp0F3A byte mrmbyte immt itype run run mt"

definition EncodeModedOp660F3A :: "u8 \<Rightarrow> u8 \<Rightarrow> NCDecodeImmediateType \<Rightarrow> NaClInstType \<Rightarrow> RunMode \<Rightarrow> build" where
  "EncodeModedOp660F3A byte mrmbyte immt itype mode run mt =
     (if run = mode then mt\<lparr>g_Op660F3ATable := (g_Op660F3ATable mt)(byte := Some (NewMetaDefn mrmbyte immt itype))\<rparr>
      else mt)"

definition EncodeOp660F3A :: "u8 \<Rightarrow> u8 \<Rightarrow> NCDecodeImmediateType \<Rightarrow> NaClInstType \<Rightarrow> build" where
  "EncodeOp660F3A byte mrmbyte immt itype run mt = EncodeModedOp660F3A byte mrmbyte immt itype run run mt"

definition EncodeModedModRMOp :: "u8 \<Rightarrow> u8 \<Rightarrow> NaClInstType \<Rightarrow> RunMode \<Rightarrow> build" where
  "EncodeModedModRMOp grp nnn itype mode run mt =
     (if run = mode then
        mt\<lparr>g_ModRMOpTable := (g_ModRMOpTable mt)
             (grp := (g_ModRMOpTable mt grp)(nnn := Some (NewMetaDefn 1 IMM_NONE itype)))\<rparr>
      else mt)"

definition EncodeModRMOp :: "u8 \<Rightarrow> u8 \<Rightarrow> NaClInstType \<Rightarrow> build" where
  "EncodeModRMOp grp nnn itype run mt = EncodeModedModRMOp grp nnn itype run run mt"

definition EncodeModRMOpRegs :: "u8 \<Rightarrow> u8 \<Rightarrow> NaClInstType \<Rightarrow> build" where
  "EncodeModRMOpRegs grp nnn itype run mt = EncodeModedModRMOp grp nnn itype run run (call_ModedGenRegs run mt)"

definition SetModRMOpDefaultSize64 :: "u8 \<Rightarrow> u8 \<Rightarrow> build" where
  "SetModRMOpDefaultSize64 grp nnn run mt =
     mt\<lparr>g_ModRMOpDecodeOpsKind := (g_ModRMOpDecodeOpsKind mt)
          (grp := UpdateDecodeOpsKind (g_ModRMOpDecodeOpsKind mt grp) nnn DECODE_OPS_DEFAULT_64)\<rparr>"

definition SetModRMOpForceSize64 :: "u8 \<Rightarrow> u8 \<Rightarrow> build" where
  "SetModRMOpForceSize64 grp nnn run mt =
     mt\<lparr>g_ModRMOpDecodeOpsKind := (g_ModRMOpDecodeOpsKind mt)
          (grp := UpdateDecodeOpsKind (g_ModRMOpDecodeOpsKind mt grp) nnn DECODE_OPS_FORCE_64)\<rparr>"

definition SetModedOpOpInMRM :: "u8 \<Rightarrow> u8 \<Rightarrow> RunMode \<Rightarrow> build" where
  "SetModedOpOpInMRM byte grp mode run mt =
     (if run = mode then
        case g_Op1ByteTable mt byte of
          None \<Rightarrow> mt\<lparr>assert_failed := True\<rparr>
        | Some e \<Rightarrow> mt\<lparr>g_Op1ByteTable := (g_Op1ByteTable mt)(byte := Some (e\<lparr>opinmrm := grp\<rparr>))\<rparr>
      else mt)"

definition SetOpOpInMRM :: "u8 \<Rightarrow> u8 \<Rightarrow> build" where
  "SetOpOpInMRM byte grp run mt = SetModedOpOpInMRM byte grp run run mt"

definition SetModedOp0FOpInMRM :: "u8 \<Rightarrow> u8 \<Rightarrow> RunMode \<Rightarrow> build" where
  "SetModedOp0FOpInMRM byte grp mode run mt =
     (if run = mode then
        case g_Op0FXXMetaTable mt byte of
          None \<Rightarrow> mt\<lparr>assert_failed := True\<rparr>
        | Some e \<Rightarrow> mt\<lparr>g_Op0FXXMetaTable := (g_Op0FXXMetaTable mt)(byte := Some (e\<lparr>opinmrm := grp\<rparr>))\<rparr>
      else mt)"

definition SetOp0FOpInMRM :: "u8 \<Rightarrow> u8 \<Rightarrow> build" where
  "SetOp0FOpInMRM byte grp run mt = SetModedOp0FOpInMRM byte grp run run mt"

definition SetModedOp66OpInMRM :: "u8 \<Rightarrow> u8 \<Rightarrow> RunMode \<Rightarrow> build" where
  "SetModedOp66OpInMRM byte grp mode run mt =
     (if run = mode then
        case g_Op660FXXTable mt byte of
          None \<Rightarrow> mt\<lparr>assert_failed := True\<rparr>
        | Some e \<Rightarrow> mt\<lparr>g_Op660FXXTable := (g_Op660FXXTable mt)(byte := Some (e\<lparr>opinmrm := grp\<rparr>))\<rparr>
      else mt)"

definition SetOp66OpInMRM :: "u8 \<Rightarrow> u8 \<Rightarrow> build" where
  "SetOp66OpInMRM byte grp run mt = SetModedOp66OpInMRM byte grp run run mt"

definition ALUOperandVariants00_05 :: "u8 \<Rightarrow> NaClInstType \<Rightarrow> build" where
  "ALUOperandVariants00_05 base itype run mt =
     (let mt = EncodeOp base 1 IMM_NONE itype run mt;
          mt = EncodeOp (base + 1) 1 IMM_NONE itype run mt;
          mt = EncodeOp (base + 2) 1 IMM_NONE itype run mt;
          mt = EncodeOp (base + 3) 1 IMM_NONE itype run mt;
          mt = EncodeOp (base + 4) 0 IMM_FIXED1 itype run mt
      in EncodeOpRegs (base + 5) 0 IMM_DATAV itype run mt)"

definition OneRegVariant :: "u8 \<Rightarrow> NaClInstType \<Rightarrow> bool \<Rightarrow> build" where
  "OneRegVariant byte itype has_mode_64 run mt =
     (let mt = EncodeModedOp byte 0 IMM_NONE itype X86_32 run mt
      in if has_mode_64
         then SetOpDefaultSize64 byte run (EncodeModedOp byte 0 IMM_NONE itype X86_64 run mt)
         else EncodeModedPrefixName byte kPrefixREX X86_64 run
                (EncodeModedOp byte 0 IMM_NONE NACLi_ILLEGAL X86_64 run mt))"

definition OneRegVariants00_07 :: "u8 \<Rightarrow> NaClInstType \<Rightarrow> bool \<Rightarrow> build" where
  "OneRegVariants00_07 base itype has_mode_64 run mt =
     fold (\<lambda>i. OneRegVariant (base + of_nat i) itype has_mode_64 run) [0..<NUM_GP_X86_32_REGS] mt"

definition InitializeGlobalTables :: MetaTables where
  "InitializeGlobalTables =
     \<lparr>g_Op1ByteTable = (\<lambda>_. None), g_PrefixTable = (\<lambda>_. 0), g_Op0FXXMetaTable = (\<lambda>_. None),
      g_OpF20FXXTable = (\<lambda>_. None), g_OpF30FXXTable = (\<lambda>_. None), g_Op660FXXTable = (\<lambda>_. None),
      g_Op0F0FTable = (\<lambda>_. None), g_Op0F38Table = (\<lambda>_. None), g_Op660F38Table = (\<lambda>_. None),
      g_OpF20F38Table = (\<lambda>_. None), g_Op0F3ATable = (\<lambda>_. None), g_Op660F3ATable = (\<lambda>_. None),
      g_ModRMOpTable = (\<lambda>_ _. None), g_Op87 = (\<lambda>_ _. None),
      g_OpDecodeOpsKind = (\<lambda>_. DECODE_OPS_DEFAULT_32), g_Op0FDecodeOpsKind = (\<lambda>_. DECODE_OPS_DEFAULT_32),
      g_ModRMOpDecodeOpsKind = (\<lambda>_ _. DECODE_OPS_DEFAULT_32), assert_failed = False\<rparr>"

subsection \<open>The x87 tables\<close>

text \<open>
  The eight tables \<open>g_Op87D8\<close> to \<open>g_Op87DF\<close> are \<open>g_Op87\<close>, indexed by the opcode less \<open>0xd8\<close>. The two
  loops of \<open>EncodeModed87Op\<close> set every entry of a table; an absent name (\<open>NULL\<close>) is \<open>None\<close>.
\<close>

definition EncodeModed87Op :: "u8 \<Rightarrow> string option list \<Rightarrow> string option list \<Rightarrow> RunMode \<Rightarrow> build" where
  "EncodeModed87Op tab set1 set2 mode run mt =
     (if run = mode then
        mt\<lparr>g_Op87 := (g_Op87 mt)(tab := (\<lambda>i.
             let name = (if i < 0xc0 then set1 ! unat (modrm_reg i) else set2 ! (unat i - 0xc0))
             in Some (NewMetaDefn 1 IMM_NONE (if name = None then NACLi_INVALID else NACLi_X87))))\<rparr>
      else mt)"

definition Encode87Op :: "u8 \<Rightarrow> string option list \<Rightarrow> string option list \<Rightarrow> build" where
  "Encode87Op tab set1 set2 run mt = EncodeModed87Op tab set1 set2 run run mt"

definition k87D8Table1 :: "string option list" where
  "k87D8Table1 =
    [Some ''fadd'', Some ''fmul'', Some ''fcom'', Some ''fcomp'', Some ''fsub'', Some ''fsubr'', Some ''fdiv'', Some ''fdivr'']"

definition k87D8Table2 :: "string option list" where
  "k87D8Table2 =
    [Some ''fadd'', Some ''fadd'', Some ''fadd'', Some ''fadd'', Some ''fadd'', Some ''fadd'', Some ''fadd'', Some ''fadd'',
     Some ''fmul'', Some ''fmul'', Some ''fmul'', Some ''fmul'', Some ''fmul'', Some ''fmul'', Some ''fmul'', Some ''fmul'',
     Some ''fcom'', Some ''fcom'', Some ''fcom'', Some ''fcom'', Some ''fcom'', Some ''fcom'', Some ''fcom'', Some ''fcom'',
     Some ''fcomp'', Some ''fcomp'', Some ''fcomp'', Some ''fcomp'', Some ''fcomp'', Some ''fcomp'', Some ''fcomp'', Some ''fcomp'',
     Some ''fsub'', Some ''fsub'', Some ''fsub'', Some ''fsub'', Some ''fsub'', Some ''fsub'', Some ''fsub'', Some ''fsub'',
     Some ''fsubr'', Some ''fsubr'', Some ''fsubr'', Some ''fsubr'', Some ''fsubr'', Some ''fsubr'', Some ''fsubr'', Some ''fsubr'',
     Some ''fdiv'', Some ''fdiv'', Some ''fdiv'', Some ''fdiv'', Some ''fdiv'', Some ''fdiv'', Some ''fdiv'', Some ''fdiv'',
     Some ''fdivr'', Some ''fdivr'', Some ''fdivr'', Some ''fdivr'', Some ''fdivr'', Some ''fdivr'', Some ''fdivr'', Some ''fdivr'']"

definition k87D9Table1 :: "string option list" where
  "k87D9Table1 =
    [Some ''fld'', None, Some ''fst'', Some ''fstp'', Some ''fldenv'', Some ''fldcw'', Some ''fnstenv'', Some ''fnstcw'']"

definition k87D9Table2 :: "string option list" where
  "k87D9Table2 =
    [Some ''fld'', Some ''fld'', Some ''fld'', Some ''fld'', Some ''fld'', Some ''fld'', Some ''fld'', Some ''fld'',
     Some ''fxch'', Some ''fxch'', Some ''fxch'', Some ''fxch'', Some ''fxch'', Some ''fxch'', Some ''fxch'', Some ''fxch'',
     Some ''fnop'', None, None, None, None, None, None, None,
     None, None, None, None, None, None, None, None,
     Some ''fchs'', Some ''fabs'', None, None, Some ''ftst'', Some ''fxam'', None, None,
     Some ''fld1'', Some ''fldl2t'', Some ''fldl2e'', Some ''fldpi'', Some ''fldlg2'', Some ''fldln2'', Some ''fldz'', None,
     Some ''f2xm1'', Some ''fyl2x'', Some ''fptan'', Some ''fpatan'', Some ''fxtract'', Some ''fprem1'', Some ''fdecstp'', Some ''fincstp'',
     Some ''fprem'', Some ''fyl2xp1'', Some ''fsqrt'', Some ''fsincos'', Some ''frndint'', Some ''fscale'', Some ''fsin'', Some ''fcos'']"

definition k87DATable1 :: "string option list" where
  "k87DATable1 =
    [Some ''fiadd'', Some ''fimul'', Some ''ficom'', Some ''ficomp'', Some ''fisub'', Some ''fisubr'', Some ''fidiv'', Some ''fidivr'']"

definition k87DATable2 :: "string option list" where
  "k87DATable2 =
    [Some ''fcmovb'', Some ''fcmovb'', Some ''fcmovb'', Some ''fcmovb'', Some ''fcmovb'', Some ''fcmovb'', Some ''fcmovb'', Some ''fcmovb'',
     Some ''fcmove'', Some ''fcmove'', Some ''fcmove'', Some ''fcmove'', Some ''fcmove'', Some ''fcmove'', Some ''fcmove'', Some ''fcmove'',
     Some ''fcmovbe'', Some ''fcmovbe'', Some ''fcmovbe'', Some ''fcmovbe'', Some ''fcmovbe'', Some ''fcmovbe'', Some ''fcmovbe'', Some ''fcmovbe'',
     Some ''fcmovu'', Some ''fcmovu'', Some ''fcmovu'', Some ''fcmovu'', Some ''fcmovu'', Some ''fcmovu'', Some ''fcmovu'', Some ''fcmovu'',
     None, None, None, None, None, None, None, None,
     None, Some ''fucompp'', None, None, None, None, None, None,
     None, None, None, None, None, None, None, None,
     None, None, None, None, None, None, None, None]"

definition k87DBTable1 :: "string option list" where
  "k87DBTable1 =
    [Some ''fild'', Some ''fisttp'', Some ''fist'', Some ''fistp'', None, Some ''fld'', None, Some ''fstp'']"

definition k87DBTable2 :: "string option list" where
  "k87DBTable2 =
    [Some ''fcmovnb'', Some ''fcmovnb'', Some ''fcmovnb'', Some ''fcmovnb'', Some ''fcmovnb'', Some ''fcmovnb'', Some ''fcmovnb'', Some ''fcmovnb'',
     Some ''fcmovne'', Some ''fcmovne'', Some ''fcmovne'', Some ''fcmovne'', Some ''fcmovne'', Some ''fcmovne'', Some ''fcmovne'', Some ''fcmovne'',
     Some ''fcmovnbe'', Some ''fcmovnbe'', Some ''fcmovnbe'', Some ''fcmovnbe'', Some ''fcmovnbe'', Some ''fcmovnbe'', Some ''fcmovnbe'', Some ''fcmovnbe'',
     Some ''fcmovnu'', Some ''fcmovnu'', Some ''fcmovnu'', Some ''fcmovnu'', Some ''fcmovnu'', Some ''fcmovnu'', Some ''fcmovnu'', Some ''fcmovnu'',
     None, None, Some ''fnclex'', Some ''fninit'', None, None, None, None,
     Some ''fucomi'', Some ''fucomi'', Some ''fucomi'', Some ''fucomi'', Some ''fucomi'', Some ''fucomi'', Some ''fucomi'', Some ''fucomi'',
     Some ''fcomi'', Some ''fcomi'', Some ''fcomi'', Some ''fcomi'', Some ''fcomi'', Some ''fcomi'', Some ''fcomi'', Some ''fcomi'',
     None, None, None, None, None, None, None, None]"

definition k87DCTable1 :: "string option list" where
  "k87DCTable1 =
    [Some ''fadd'', Some ''fmul'', Some ''fcom'', Some ''fcomp'', Some ''fsub'', Some ''fsubr'', Some ''fdiv'', Some ''fdivr'']"

definition k87DCTable2 :: "string option list" where
  "k87DCTable2 =
    [Some ''fadd'', Some ''fadd'', Some ''fadd'', Some ''fadd'', Some ''fadd'', Some ''fadd'', Some ''fadd'', Some ''fadd'',
     Some ''fmul'', Some ''fmul'', Some ''fmul'', Some ''fmul'', Some ''fmul'', Some ''fmul'', Some ''fmul'', Some ''fmul'',
     None, None, None, None, None, None, None, None,
     None, None, None, None, None, None, None, None,
     Some ''fsubr'', Some ''fsubr'', Some ''fsubr'', Some ''fsubr'', Some ''fsubr'', Some ''fsubr'', Some ''fsubr'', Some ''fsubr'',
     Some ''fsub'', Some ''fsub'', Some ''fsub'', Some ''fsub'', Some ''fsub'', Some ''fsub'', Some ''fsub'', Some ''fsub'',
     Some ''fdivr'', Some ''fdivr'', Some ''fdivr'', Some ''fdivr'', Some ''fdivr'', Some ''fdivr'', Some ''fdivr'', Some ''fdivr'',
     Some ''fdiv'', Some ''fdiv'', Some ''fdiv'', Some ''fdiv'', Some ''fdiv'', Some ''fdiv'', Some ''fdiv'', Some ''fdiv'']"

definition k87DDTable1 :: "string option list" where
  "k87DDTable1 =
    [Some ''fld'', Some ''fisttp'', Some ''fst'', Some ''fstp'', Some ''frstor'', None, Some ''fnsave'', Some ''fnstsw'']"

definition k87DDTable2 :: "string option list" where
  "k87DDTable2 =
    [Some ''ffree'', Some ''ffree'', Some ''ffree'', Some ''ffree'', Some ''ffree'', Some ''ffree'', Some ''ffree'', Some ''ffree'',
     None, None, None, None, None, None, None, None,
     Some ''fst'', Some ''fst'', Some ''fst'', Some ''fst'', Some ''fst'', Some ''fst'', Some ''fst'', Some ''fst'',
     Some ''fstp'', Some ''fstp'', Some ''fstp'', Some ''fstp'', Some ''fstp'', Some ''fstp'', Some ''fstp'', Some ''fstp'',
     Some ''fucom'', Some ''fucom'', Some ''fucom'', Some ''fucom'', Some ''fucom'', Some ''fucom'', Some ''fucom'', Some ''fucom'',
     Some ''fucomp'', Some ''fucomp'', Some ''fucomp'', Some ''fucomp'', Some ''fucomp'', Some ''fucomp'', Some ''fucomp'', Some ''fucomp'',
     None, None, None, None, None, None, None, None,
     None, None, None, None, None, None, None, None]"

definition k87DETable1 :: "string option list" where
  "k87DETable1 =
    [Some ''fiadd'', Some ''fimul'', Some ''ficom'', Some ''ficomp'', Some ''fisub'', Some ''fisubr'', Some ''fidiv'', Some ''fidivr'']"

definition k87DETable2 :: "string option list" where
  "k87DETable2 =
    [Some ''faddp'', Some ''faddp'', Some ''faddp'', Some ''faddp'', Some ''faddp'', Some ''faddp'', Some ''faddp'', Some ''faddp'',
     Some ''fmulp'', Some ''fmulp'', Some ''fmulp'', Some ''fmulp'', Some ''fmulp'', Some ''fmulp'', Some ''fmulp'', Some ''fmulp'',
     None, None, None, None, None, None, None, None,
     None, Some ''fcompp'', None, None, None, None, None, None,
     Some ''fsubrp'', Some ''fsubrp'', Some ''fsubrp'', Some ''fsubrp'', Some ''fsubrp'', Some ''fsubrp'', Some ''fsubrp'', Some ''fsubrp'',
     Some ''fsubp'', Some ''fsubp'', Some ''fsubp'', Some ''fsubp'', Some ''fsubp'', Some ''fsubp'', Some ''fsubp'', Some ''fsubp'',
     Some ''fdivrp'', Some ''fdivrp'', Some ''fdivrp'', Some ''fdivrp'', Some ''fdivrp'', Some ''fdivrp'', Some ''fdivrp'', Some ''fdivrp'',
     Some ''fdivp'', Some ''fdivp'', Some ''fdivp'', Some ''fdivp'', Some ''fdivp'', Some ''fdivp'', Some ''fdivp'', Some ''fdivp'']"

definition k87DFTable1 :: "string option list" where
  "k87DFTable1 =
    [Some ''fild'', Some ''fisttp'', Some ''fist'', Some ''fistp'', Some ''fbld'', Some ''fild'', Some ''fbstp'', Some ''fistp'']"

definition k87DFTable2 :: "string option list" where
  "k87DFTable2 =
    [None, None, None, None, None, None, None, None,
     None, None, None, None, None, None, None, None,
     None, None, None, None, None, None, None, None,
     None, None, None, None, None, None, None, None,
     Some ''fnstsw'', None, None, None, None, None, None, None,
     Some ''fucomip'', Some ''fucomip'', Some ''fucomip'', Some ''fucomip'', Some ''fucomip'', Some ''fucomip'', Some ''fucomip'', Some ''fucomip'',
     Some ''fcomip'', Some ''fcomip'', Some ''fcomip'', Some ''fcomip'', Some ''fcomip'', Some ''fcomip'', Some ''fcomip'', Some ''fcomip'',
     None, None, None, None, None, None, None, None]"

text \<open>The loop that gives the x87 conditional moves their type.\<close>

definition set_insttype :: "NaClInstType \<Rightarrow> OpInfo option \<Rightarrow> OpInfo option" where
  "set_insttype itype e = map_option (\<lambda>e. e\<lparr>insttype := itype\<rparr>) e"

definition fix_FCMOV :: "u8 \<Rightarrow> build" where
  "fix_FCMOV i run mt =
     fold (\<lambda>(tab, byte) mt. mt\<lparr>g_Op87 := (g_Op87 mt)(tab := (g_Op87 mt tab)
            (byte := set_insttype NACLi_FCMOV (g_Op87 mt tab byte)))\<rparr>)
       [(2, 0xc0 + i), (2, 0xc8 + i), (2, 0xd0 + i), (2, 0xd8 + i),
        (3, 0xc0 + i), (3, 0xc8 + i), (3, 0xd0 + i), (3, 0xd8 + i)] mt"

definition Buildx87Tables :: "build list" where
  "Buildx87Tables =
    [Encode87Op 0 k87D8Table1 k87D8Table2, Encode87Op 1 k87D9Table1 k87D9Table2,
     Encode87Op 2 k87DATable1 k87DATable2, Encode87Op 3 k87DBTable1 k87DBTable2,
     Encode87Op 4 k87DCTable1 k87DCTable2, Encode87Op 5 k87DDTable1 k87DDTable2,
     Encode87Op 6 k87DETable1 k87DETable2, Encode87Op 7 k87DFTable1 k87DFTable2,
     fix_FCMOV 0, fix_FCMOV 1, fix_FCMOV 2, fix_FCMOV 3, fix_FCMOV 4, fix_FCMOV 5, fix_FCMOV 6, fix_FCMOV 7]"

subsection \<open>The SSE4 tables\<close>

definition BuildSSE4Tables :: "build list" where
  "BuildSSE4Tables =
    [EncodeOp660F 0x38 1 IMM_NONE NACLi_3BYTE, EncodeOp660F 0x3a 1 IMM_FIXED1 NACLi_3BYTE,
     EncodeOpF20F 0x38 0 IMM_NONE NACLi_3BYTE, EncodeOp660F38 0x00 1 IMM_NONE NACLi_SSSE3,
     EncodeOp660F38 0x01 1 IMM_NONE NACLi_SSSE3, EncodeOp660F38 0x02 1 IMM_NONE NACLi_SSSE3,
     EncodeOp660F38 0x03 1 IMM_NONE NACLi_SSSE3, EncodeOp660F38 0x04 1 IMM_NONE NACLi_SSSE3,
     EncodeOp660F38 0x05 1 IMM_NONE NACLi_SSSE3, EncodeOp660F38 0x06 1 IMM_NONE NACLi_SSSE3,
     EncodeOp660F38 0x07 1 IMM_NONE NACLi_SSSE3, EncodeOp660F38 0x10 1 IMM_NONE NACLi_SSE41,
     EncodeOp660F38 0x14 1 IMM_NONE NACLi_SSE41, EncodeOp660F38 0x15 1 IMM_NONE NACLi_SSE41,
     EncodeOp660F38 0x17 1 IMM_NONE NACLi_SSE41, EncodeOp660F38 0x20 1 IMM_NONE NACLi_SSE41,
     EncodeOp660F38 0x21 1 IMM_NONE NACLi_SSE41, EncodeOp660F38 0x22 1 IMM_NONE NACLi_SSE41,
     EncodeOp660F38 0x23 1 IMM_NONE NACLi_SSE41, EncodeOp660F38 0x24 1 IMM_NONE NACLi_SSE41,
     EncodeOp660F38 0x25 1 IMM_NONE NACLi_SSE41, EncodeOp660F38 0x30 1 IMM_NONE NACLi_SSE41,
     EncodeOp660F38 0x31 1 IMM_NONE NACLi_SSE41, EncodeOp660F38 0x32 1 IMM_NONE NACLi_SSE41,
     EncodeOp660F38 0x33 1 IMM_NONE NACLi_SSE41, EncodeOp660F38 0x34 1 IMM_NONE NACLi_SSE41,
     EncodeOp660F38 0x35 1 IMM_NONE NACLi_SSE41, EncodeOp660F38 0x37 1 IMM_NONE NACLi_SSE42,
     EncodeOp660F38 0x40 1 IMM_NONE NACLi_SSE41, EncodeOp660F38 0x41 1 IMM_NONE NACLi_SSE41,
     EncodeOp660F38 0x80 1 IMM_NONE NACLi_INVALID, EncodeOp660F38 0x81 1 IMM_NONE NACLi_INVALID,
     EncodeOp0F38 0xf0 1 IMM_NONE NACLi_MOVBE, EncodeOp0F38 0xf1 1 IMM_NONE NACLi_MOVBE,
     EncodeOpF20F38 0xf0 1 IMM_NONE NACLi_SSE42, EncodeOpF20F38 0xf1 1 IMM_NONE NACLi_SSE42,
     EncodeOp660F38 0x08 1 IMM_NONE NACLi_SSSE3, EncodeOp660F38 0x09 1 IMM_NONE NACLi_SSSE3,
     EncodeOp660F38 0x0a 1 IMM_NONE NACLi_SSSE3, EncodeOp660F38 0x0b 1 IMM_NONE NACLi_SSSE3,
     EncodeOp660F38 0x1c 1 IMM_NONE NACLi_SSSE3, EncodeOp660F38 0x1d 1 IMM_NONE NACLi_SSSE3,
     EncodeOp660F38 0x1e 1 IMM_NONE NACLi_SSSE3, EncodeOp660F38 0x28 1 IMM_NONE NACLi_SSE41,
     EncodeOp660F38 0x29 1 IMM_NONE NACLi_SSE41, EncodeOp660F38 0x2a 1 IMM_NONE NACLi_SSE41,
     EncodeOp660F38 0x2b 1 IMM_NONE NACLi_SSE41, EncodeOp660F38 0x38 1 IMM_NONE NACLi_SSE41,
     EncodeOp660F38 0x39 1 IMM_NONE NACLi_SSE41, EncodeOp660F38 0x3a 1 IMM_NONE NACLi_SSE41,
     EncodeOp660F38 0x3b 1 IMM_NONE NACLi_SSE41, EncodeOp660F38 0x3c 1 IMM_NONE NACLi_SSE41,
     EncodeOp660F38 0x3d 1 IMM_NONE NACLi_SSE41, EncodeOp660F38 0x3e 1 IMM_NONE NACLi_SSE41,
     EncodeOp660F38 0x3f 1 IMM_NONE NACLi_SSE41, EncodeOp660F3A 0x14 1 IMM_FIXED1 NACLi_SSE41,
     EncodeOp660F3A 0x15 1 IMM_FIXED1 NACLi_SSE41, EncodeOp660F3A 0x16 1 IMM_FIXED1 NACLi_SSE41,
     EncodeOp660F3A 0x17 1 IMM_FIXED1 NACLi_SSE41, EncodeOp660F3A 0x20 1 IMM_FIXED1 NACLi_SSE41,
     EncodeOp660F3A 0x21 1 IMM_FIXED1 NACLi_SSE41, EncodeOp660F3A 0x22 1 IMM_FIXED1 NACLi_SSE41,
     EncodeOp660F3A 0x40 1 IMM_FIXED1 NACLi_SSE41, EncodeOp660F3A 0x41 1 IMM_FIXED1 NACLi_SSE41,
     EncodeOp660F3A 0x42 1 IMM_FIXED1 NACLi_SSE41, EncodeOp660F3A 0x60 1 IMM_FIXED1 NACLi_SSE42,
     EncodeOp660F3A 0x61 1 IMM_FIXED1 NACLi_SSE42, EncodeOp660F3A 0x62 1 IMM_FIXED1 NACLi_SSE42,
     EncodeOp660F3A 0x63 1 IMM_FIXED1 NACLi_SSE42, EncodeOp660F3A 0x08 1 IMM_FIXED1 NACLi_SSE41,
     EncodeOp660F3A 0x09 1 IMM_FIXED1 NACLi_SSE41, EncodeOp660F3A 0x0a 1 IMM_FIXED1 NACLi_SSE41,
     EncodeOp660F3A 0x0b 1 IMM_FIXED1 NACLi_SSE41, EncodeOp660F3A 0x0c 1 IMM_FIXED1 NACLi_SSE41,
     EncodeOp660F3A 0x0d 1 IMM_FIXED1 NACLi_SSE41, EncodeOp660F3A 0x0e 1 IMM_FIXED1 NACLi_SSE41,
     EncodeOp660F3A 0x0f 1 IMM_FIXED1 NACLi_SSSE3]"

subsection \<open>The calls of \<open>BuildMetaTables\<close>\<close>

definition BuildMetaTables_01 :: "build list" where
  "BuildMetaTables_01 =
    [ALUOperandVariants00_05 0x00 NACLi_386L, ALUOperandVariants00_05 0x08 NACLi_386L,
     ALUOperandVariants00_05 0x10 NACLi_386L, ALUOperandVariants00_05 0x18 NACLi_386L,
     ALUOperandVariants00_05 0x20 NACLi_386L, ALUOperandVariants00_05 0x28 NACLi_386L,
     ALUOperandVariants00_05 0x30 NACLi_386L, ALUOperandVariants00_05 0x38 NACLi_386,
     EncodeModedOp 0x06 0 IMM_NONE NACLi_ILLEGAL X86_32, EncodeModedOp 0x16 0 IMM_NONE NACLi_ILLEGAL X86_32,
     EncodeOp 0x26 0 IMM_NONE NACLi_ILLEGAL, EncodePrefixName 0x26 kPrefixSEGES,
     EncodeOp 0x36 0 IMM_NONE NACLi_ILLEGAL, EncodePrefixName 0x36 kPrefixSEGSS,
     EncodeModedOp 0x07 0 IMM_NONE NACLi_ILLEGAL X86_32, EncodeModedOp 0x17 0 IMM_NONE NACLi_ILLEGAL X86_32,
     EncodeModedOp 0x27 0 IMM_NONE NACLi_ILLEGAL X86_32, EncodeModedOp 0x37 0 IMM_NONE NACLi_ILLEGAL X86_32,
     EncodeModedOp 0x0e 0 IMM_NONE NACLi_ILLEGAL X86_32, EncodeModedOp 0x1e 0 IMM_NONE NACLi_ILLEGAL X86_32,
     EncodeOp 0x2e 0 IMM_NONE NACLi_ILLEGAL, EncodePrefixName 0x2e kPrefixSEGCS,
     EncodeOp 0x3e 0 IMM_NONE NACLi_ILLEGAL, EncodePrefixName 0x3e kPrefixSEGDS,
     EncodeOp 0x0f 0 IMM_NONE NACLi_UNDEFINED, EncodeModedOp 0x1f 0 IMM_NONE NACLi_ILLEGAL X86_32,
     EncodeOp 0x2f 0 IMM_NONE NACLi_ILLEGAL, EncodeOp 0x3f 0 IMM_NONE NACLi_ILLEGAL,
     OneRegVariants00_07 0x40 NACLi_386L False, OneRegVariants00_07 0x48 NACLi_386L False,
     OneRegVariants00_07 0x50 NACLi_386 True, OneRegVariants00_07 0x58 NACLi_386 True,
     EncodeModedOp 0x60 0 IMM_NONE NACLi_ILLEGAL X86_32, EncodeModedOp 0x61 0 IMM_NONE NACLi_ILLEGAL X86_32,
     EncodeModedOp 0x62 1 IMM_NONE NACLi_ILLEGAL X86_32, EncodeModedOp 0x63 1 IMM_NONE NACLi_SYSTEM X86_32,
     EncodeModedOp 0x63 1 IMM_NONE NACLi_SYSTEM X86_64, EncodeOp 0x64 0 IMM_NONE NACLi_ILLEGAL,
     EncodePrefixName 0x64 kPrefixSEGFS, EncodeOp 0x65 0 IMM_NONE NACLi_ILLEGAL,
     EncodePrefixName 0x65 kPrefixSEGGS, EncodeOp 0x66 0 IMM_NONE NACLi_ILLEGAL,
     EncodePrefixName 0x66 kPrefixDATA16, EncodeOp 0x67 0 IMM_NONE NACLi_ILLEGAL,
     EncodePrefixName 0x67 kPrefixADDR16, EncodeOp 0x68 0 IMM_DATAV NACLi_386, SetOpDefaultSize64 0x68,
     EncodeOp 0x69 1 IMM_DATAV NACLi_386, EncodeOp 0x6a 0 IMM_FIXED1 NACLi_386, SetOpDefaultSize64 0x6a,
     EncodeOp 0x6b 1 IMM_FIXED1 NACLi_386, EncodeOp 0x6c 0 IMM_NONE NACLi_ILLEGAL,
     EncodeOp 0x6d 0 IMM_NONE NACLi_ILLEGAL, EncodeOp 0x6e 0 IMM_NONE NACLi_ILLEGAL,
     EncodeOp 0x6f 0 IMM_NONE NACLi_ILLEGAL, EncodeOp 0x70 0 IMM_FIXED1 NACLi_JMP8, SetOpForceSize64 0x70,
     EncodeOp 0x71 0 IMM_FIXED1 NACLi_JMP8, SetOpForceSize64 0x71, EncodeOp 0x72 0 IMM_FIXED1 NACLi_JMP8,
     SetOpForceSize64 0x72, EncodeOp 0x73 0 IMM_FIXED1 NACLi_JMP8, SetOpForceSize64 0x73,
     EncodeOp 0x74 0 IMM_FIXED1 NACLi_JMP8, SetOpForceSize64 0x74, EncodeOp 0x75 0 IMM_FIXED1 NACLi_JMP8,
     SetOpForceSize64 0x75, EncodeOp 0x76 0 IMM_FIXED1 NACLi_JMP8, SetOpForceSize64 0x76,
     EncodeOp 0x77 0 IMM_FIXED1 NACLi_JMP8, SetOpForceSize64 0x77, EncodeOp 0x78 0 IMM_FIXED1 NACLi_JMP8,
     SetOpForceSize64 0x78, EncodeOp 0x79 0 IMM_FIXED1 NACLi_JMP8, SetOpForceSize64 0x79,
     EncodeOp 0x7a 0 IMM_FIXED1 NACLi_JMP8, SetOpForceSize64 0x7a, EncodeOp 0x7b 0 IMM_FIXED1 NACLi_JMP8,
     SetOpForceSize64 0x7b, EncodeOp 0x7c 0 IMM_FIXED1 NACLi_JMP8, SetOpForceSize64 0x7c,
     EncodeOp 0x7d 0 IMM_FIXED1 NACLi_JMP8, SetOpForceSize64 0x7d, EncodeOp 0x7e 0 IMM_FIXED1 NACLi_JMP8,
     SetOpForceSize64 0x7e, EncodeOp 0x7f 0 IMM_FIXED1 NACLi_JMP8, SetOpForceSize64 0x7f,
     EncodeOp 0x80 1 IMM_FIXED1 NACLi_OPINMRM, SetOpOpInMRM 0x80 GROUP1,
     EncodeOp 0x81 1 IMM_DATAV NACLi_OPINMRM, SetOpOpInMRM 0x81 GROUP1,
     EncodeModedOp 0x82 1 IMM_FIXED1 NACLi_ILLEGAL X86_32, EncodeOp 0x83 1 IMM_FIXED1 NACLi_OPINMRM,
     SetOpOpInMRM 0x83 GROUP1, EncodeOp 0x84 1 IMM_NONE NACLi_386, EncodeOp 0x85 1 IMM_NONE NACLi_386,
     EncodeOp 0x86 1 IMM_NONE NACLi_386L, EncodeOp 0x87 1 IMM_NONE NACLi_386L,
     EncodeOp 0x88 1 IMM_NONE NACLi_386, EncodeOp 0x89 1 IMM_NONE NACLi_386,
     EncodeOp 0x8a 1 IMM_NONE NACLi_386, EncodeOp 0x8b 1 IMM_NONE NACLi_386,
     EncodeOp 0x8c 1 IMM_NONE NACLi_ILLEGAL, EncodeOp 0x8d 1 IMM_NONE NACLi_386,
     EncodeOp 0x8e 1 IMM_NONE NACLi_ILLEGAL, EncodeOp 0x8f 1 IMM_NONE NACLi_OPINMRM, SetOpOpInMRM 0x8f GROUP1A,
     SetOpDefaultSize64 0x8f, EncodeOp 0x90 0 IMM_NONE NACLi_386R]"

definition BuildMetaTables_02 :: "build list" where
  "BuildMetaTables_02 =
    [EncodeOpRegs 0x91 0 IMM_NONE NACLi_386L, EncodeOpRegs 0x92 0 IMM_NONE NACLi_386L,
     EncodeOpRegs 0x93 0 IMM_NONE NACLi_386L, EncodeOpRegs 0x94 0 IMM_NONE NACLi_386L,
     EncodeOpRegs 0x95 0 IMM_NONE NACLi_386L, EncodeOpRegs 0x96 0 IMM_NONE NACLi_386L,
     EncodeOpRegs 0x97 0 IMM_NONE NACLi_386L, EncodeOp 0x98 0 IMM_NONE NACLi_386,
     EncodeOp 0x99 0 IMM_NONE NACLi_386, EncodeModedOp 0x9a 0 IMM_FARPTR NACLi_ILLEGAL X86_32,
     EncodeOp 0x9b 0 IMM_NONE NACLi_X87, EncodeOp 0x9c 0 IMM_NONE NACLi_ILLEGAL, SetOpDefaultSize64 0x9c,
     EncodeOp 0x9d 0 IMM_NONE NACLi_ILLEGAL, SetOpDefaultSize64 0x9d, EncodeOp 0x9e 0 IMM_NONE NACLi_386,
     EncodeOp 0x9f 0 IMM_NONE NACLi_386, EncodeOp 0xa0 0 IMM_ADDRV NACLi_386,
     EncodeOpRegs 0xa1 0 IMM_ADDRV NACLi_386, EncodeOp 0xa2 0 IMM_ADDRV NACLi_386,
     EncodeOpRegs 0xa3 0 IMM_ADDRV NACLi_386, EncodeOp 0xa4 0 IMM_NONE NACLi_386R,
     EncodeOp 0xa5 0 IMM_NONE NACLi_386R, EncodeOp 0xa6 0 IMM_NONE NACLi_386RE,
     EncodeOp 0xa7 0 IMM_NONE NACLi_386RE, EncodeOp 0xa8 0 IMM_FIXED1 NACLi_386,
     EncodeOpRegs 0xa9 0 IMM_DATAV NACLi_386, EncodeOp 0xaa 0 IMM_NONE NACLi_386R,
     EncodeOpRegs 0xab 0 IMM_NONE NACLi_386R, EncodeOp 0xac 0 IMM_NONE NACLi_ILLEGAL,
     EncodeOpRegs 0xad 0 IMM_NONE NACLi_ILLEGAL, EncodeOp 0xae 0 IMM_NONE NACLi_386RE,
     EncodeOpRegs 0xaf 0 IMM_NONE NACLi_386RE, EncodeModedOp 0xb0 0 IMM_FIXED1 NACLi_386 X86_32,
     EncodeModedOp 0xb1 0 IMM_FIXED1 NACLi_386 X86_32, EncodeModedOp 0xb2 0 IMM_FIXED1 NACLi_386 X86_32,
     EncodeModedOp 0xb3 0 IMM_FIXED1 NACLi_386 X86_32, EncodeModedOp 0xb4 0 IMM_FIXED1 NACLi_386 X86_32,
     EncodeModedOp 0xb5 0 IMM_FIXED1 NACLi_386 X86_32, EncodeModedOp 0xb6 0 IMM_FIXED1 NACLi_386 X86_32,
     EncodeModedOp 0xb7 0 IMM_FIXED1 NACLi_386 X86_32, EncodeOp 0xb8 0 IMM_MOV_DATAV NACLi_386,
     EncodeOp 0xb9 0 IMM_MOV_DATAV NACLi_386, EncodeOp 0xba 0 IMM_MOV_DATAV NACLi_386,
     EncodeOp 0xbb 0 IMM_MOV_DATAV NACLi_386, EncodeOp 0xbc 0 IMM_MOV_DATAV NACLi_386,
     EncodeOp 0xbd 0 IMM_MOV_DATAV NACLi_386, EncodeOp 0xbe 0 IMM_MOV_DATAV NACLi_386,
     EncodeOp 0xbf 0 IMM_MOV_DATAV NACLi_386, EncodeOp 0xc0 1 IMM_FIXED1 NACLi_OPINMRM,
     SetOpOpInMRM 0xc0 GROUP2, EncodeOp 0xc1 1 IMM_FIXED1 NACLi_OPINMRM, SetOpOpInMRM 0xc1 GROUP2,
     EncodeOp 0xc2 0 IMM_FIXED2 NACLi_RETURN, SetOpForceSize64 0xc2, EncodeOp 0xc3 0 IMM_NONE NACLi_RETURN,
     SetOpForceSize64 0xc3, EncodeModedOp 0xc4 1 IMM_NONE NACLi_ILLEGAL X86_32,
     EncodeModedOp 0xc5 1 IMM_NONE NACLi_ILLEGAL X86_32, EncodeOp 0xc6 1 IMM_FIXED1 NACLi_OPINMRM,
     SetOpOpInMRM 0xc6 GROUP11, EncodeOp 0xc7 1 IMM_DATAV NACLi_OPINMRM, SetOpOpInMRM 0xc7 GROUP11,
     EncodeOp 0xc8 0 IMM_FIXED3 NACLi_ILLEGAL, EncodeOp 0xc9 0 IMM_NONE NACLi_386, SetOpDefaultSize64 0xc9,
     EncodeOp 0xca 0 IMM_FIXED2 NACLi_RETURN, EncodeOp 0xcb 0 IMM_NONE NACLi_RETURN,
     EncodeOp 0xcc 0 IMM_NONE NACLi_ILLEGAL, EncodeOp 0xcd 0 IMM_FIXED1 NACLi_ILLEGAL,
     EncodeModedOp 0xce 0 IMM_NONE NACLi_ILLEGAL X86_32, EncodeOp 0xcf 0 IMM_NONE NACLi_SYSTEM,
     EncodeOp 0xd0 1 IMM_NONE NACLi_OPINMRM, SetOpOpInMRM 0xd0 GROUP2, EncodeOp 0xd1 1 IMM_NONE NACLi_OPINMRM,
     SetOpOpInMRM 0xd1 GROUP2, EncodeOp 0xd2 1 IMM_NONE NACLi_OPINMRM, SetOpOpInMRM 0xd2 GROUP2,
     EncodeOp 0xd3 1 IMM_NONE NACLi_OPINMRM, SetOpOpInMRM 0xd3 GROUP2,
     EncodeModedOp 0xd4 0 IMM_FIXED1 NACLi_ILLEGAL X86_32,
     EncodeModedOp 0xd5 0 IMM_FIXED1 NACLi_ILLEGAL X86_32, EncodeOp 0xd6 0 IMM_NONE NACLi_ILLEGAL,
     EncodeOp 0xd7 0 IMM_NONE NACLi_ILLEGAL, EncodeOp 0xd8 1 IMM_NONE NACLi_X87,
     EncodeOp 0xd9 1 IMM_NONE NACLi_X87, EncodeOp 0xda 1 IMM_NONE NACLi_X87,
     EncodeOp 0xdb 1 IMM_NONE NACLi_X87, EncodeOp 0xdc 1 IMM_NONE NACLi_X87,
     EncodeOp 0xdd 1 IMM_NONE NACLi_X87, EncodeOp 0xde 1 IMM_NONE NACLi_X87,
     EncodeOp 0xdf 1 IMM_NONE NACLi_X87, EncodeOp 0xe0 0 IMM_FIXED1 NACLi_ILLEGAL, SetOpForceSize64 0xe0,
     EncodeOp 0xe1 0 IMM_FIXED1 NACLi_ILLEGAL, SetOpForceSize64 0xe1, EncodeOp 0xe2 0 IMM_FIXED1 NACLi_ILLEGAL,
     SetOpForceSize64 0xe2, EncodeOp 0xe3 0 IMM_FIXED1 NACLi_ILLEGAL, SetOpForceSize64 0xe3,
     EncodeOp 0xe4 0 IMM_FIXED1 NACLi_ILLEGAL, EncodeOp 0xe5 0 IMM_FIXED1 NACLi_ILLEGAL,
     EncodeOp 0xe6 0 IMM_FIXED1 NACLi_ILLEGAL, EncodeOp 0xe7 0 IMM_FIXED1 NACLi_ILLEGAL,
     EncodeOp 0xe8 0 IMM_DATAV NACLi_JMPZ, SetOpForceSize64 0xe8, EncodeOp 0xe9 0 IMM_DATAV NACLi_JMPZ,
     SetOpForceSize64 0xe9, EncodeModedOp 0xea 0 IMM_FARPTR NACLi_ILLEGAL X86_32,
     EncodeOp 0xeb 0 IMM_FIXED1 NACLi_JMP8]"

definition BuildMetaTables_03 :: "build list" where
  "BuildMetaTables_03 =
    [SetOpForceSize64 0xeb, EncodeOp 0xec 0 IMM_NONE NACLi_ILLEGAL, EncodeOp 0xed 0 IMM_NONE NACLi_ILLEGAL,
     EncodeOp 0xee 0 IMM_NONE NACLi_ILLEGAL, EncodeOp 0xef 0 IMM_NONE NACLi_ILLEGAL,
     EncodeOp 0xf0 0 IMM_NONE NACLi_ILLEGAL, EncodePrefixName 0xf0 kPrefixLOCK,
     EncodeOp 0xf1 0 IMM_NONE NACLi_ILLEGAL, EncodeOp 0xf2 0 IMM_NONE NACLi_ILLEGAL,
     EncodePrefixName 0xf2 kPrefixREPNE, EncodeOp 0xf3 0 IMM_NONE NACLi_ILLEGAL,
     EncodePrefixName 0xf3 kPrefixREP, EncodeOp 0xf4 0 IMM_NONE NACLi_386, EncodeOp 0xf5 0 IMM_NONE NACLi_386,
     EncodeOp 0xf6 1 IMM_GROUP3_F6 NACLi_OPINMRM, SetOpOpInMRM 0xf6 GROUP3,
     EncodeOp 0xf7 1 IMM_GROUP3_F7 NACLi_OPINMRM, SetOpOpInMRM 0xf7 GROUP3, EncodeOp 0xf8 0 IMM_NONE NACLi_386,
     EncodeOp 0xf9 0 IMM_NONE NACLi_386, EncodeOp 0xfa 0 IMM_NONE NACLi_SYSTEM,
     EncodeOp 0xfb 0 IMM_NONE NACLi_SYSTEM, EncodeOp 0xfc 0 IMM_NONE NACLi_386,
     EncodeOp 0xfd 0 IMM_NONE NACLi_386, EncodeOp 0xfe 1 IMM_NONE NACLi_OPINMRM, SetOpOpInMRM 0xfe GROUP4,
     EncodeOp 0xff 1 IMM_NONE NACLi_OPINMRM, SetOpOpInMRM 0xff GROUP5, EncodeModRMOp GROUP1 0 NACLi_386L,
     EncodeModRMOp GROUP1 1 NACLi_386L, EncodeModRMOp GROUP1 2 NACLi_386L, EncodeModRMOp GROUP1 3 NACLi_386L,
     EncodeModRMOp GROUP1 4 NACLi_386L, EncodeModRMOp GROUP1 5 NACLi_386L, EncodeModRMOp GROUP1 6 NACLi_386L,
     EncodeModRMOp GROUP1 7 NACLi_386, EncodeModRMOp GROUP1A 0 NACLi_386, EncodeModRMOp GROUP2 0 NACLi_386,
     EncodeModRMOp GROUP2 1 NACLi_386, EncodeModRMOp GROUP2 2 NACLi_386, EncodeModRMOp GROUP2 3 NACLi_386,
     EncodeModRMOp GROUP2 4 NACLi_386, EncodeModRMOp GROUP2 5 NACLi_386, EncodeModRMOp GROUP2 7 NACLi_386,
     EncodeModRMOp GROUP3 0 NACLi_386, EncodeModRMOp GROUP3 2 NACLi_386L, EncodeModRMOp GROUP3 3 NACLi_386L,
     EncodeModRMOpRegs GROUP3 4 NACLi_386, EncodeModRMOpRegs GROUP3 5 NACLi_386,
     EncodeModRMOpRegs GROUP3 6 NACLi_386, EncodeModRMOpRegs GROUP3 7 NACLi_386,
     EncodeModRMOp GROUP4 0 NACLi_386L, EncodeModRMOp GROUP4 1 NACLi_386L, EncodeModRMOp GROUP5 0 NACLi_386L,
     EncodeModRMOp GROUP5 1 NACLi_386L, EncodeModRMOp GROUP5 2 NACLi_INDIRECT, SetModRMOpForceSize64 GROUP5 2,
     EncodeModRMOp GROUP5 3 NACLi_ILLEGAL, EncodeModRMOp GROUP5 4 NACLi_INDIRECT,
     SetModRMOpForceSize64 GROUP5 4, EncodeModRMOp GROUP5 5 NACLi_ILLEGAL, EncodeModRMOp GROUP5 6 NACLi_386,
     SetModRMOpDefaultSize64 GROUP5 6, EncodeModRMOp GROUP6 0 NACLi_SYSTEM,
     EncodeModRMOp GROUP6 1 NACLi_SYSTEM, EncodeModRMOp GROUP6 2 NACLi_SYSTEM,
     EncodeModRMOp GROUP6 3 NACLi_SYSTEM, EncodeModRMOp GROUP6 4 NACLi_SYSTEM,
     EncodeModRMOp GROUP6 5 NACLi_SYSTEM, EncodeModRMOp GROUP7 0 NACLi_SYSTEM,
     EncodeModRMOp GROUP7 1 NACLi_SYSTEM, EncodeModRMOp GROUP7 2 NACLi_SYSTEM,
     EncodeModRMOp GROUP7 3 NACLi_SYSTEM, EncodeModRMOp GROUP7 4 NACLi_SYSTEM,
     EncodeModRMOp GROUP7 6 NACLi_SYSTEM, EncodeModRMOp GROUP7 7 NACLi_SYSTEM,
     EncodeModRMOp GROUP8 4 NACLi_ILLEGAL, EncodeModRMOp GROUP8 5 NACLi_ILLEGAL,
     EncodeModRMOp GROUP8 6 NACLi_ILLEGAL, EncodeModRMOp GROUP8 7 NACLi_ILLEGAL,
     EncodeModRMOp GROUP9 1 NACLi_CMPXCHG8B, EncodeModRMOp GROUP11 0 NACLi_386,
     EncodeModRMOp GROUP12 2 NACLi_MMXSSE2, EncodeModRMOp GROUP12 4 NACLi_MMXSSE2]"

definition BuildMetaTables_04 :: "build list" where
  "BuildMetaTables_04 =
    [EncodeModRMOp GROUP12 6 NACLi_MMXSSE2, EncodeModRMOp GROUP13 2 NACLi_MMXSSE2,
     EncodeModRMOp GROUP13 4 NACLi_MMXSSE2, EncodeModRMOp GROUP13 6 NACLi_MMXSSE2,
     EncodeModRMOp GROUP14 2 NACLi_MMXSSE2, EncodeModRMOp GROUP14 3 NACLi_SSE2x,
     EncodeModRMOp GROUP14 6 NACLi_MMXSSE2, EncodeModRMOp GROUP14 7 NACLi_SSE2x,
     EncodeModRMOp GROUP15 0 NACLi_ILLEGAL, EncodeModRMOp GROUP15 1 NACLi_ILLEGAL,
     EncodeModRMOp GROUP15 2 NACLi_ILLEGAL, EncodeModRMOp GROUP15 3 NACLi_ILLEGAL,
     EncodeModRMOp GROUP15 4 NACLi_ILLEGAL, EncodeModRMOp GROUP15 5 NACLi_SSE2,
     EncodeModRMOp GROUP15 6 NACLi_SSE2, EncodeModRMOp GROUP15 7 NACLi_SFENCE_CLFLUSH,
     EncodeModRMOp GROUP16 0 NACLi_SSE, EncodeModRMOp GROUP16 1 NACLi_SSE, EncodeModRMOp GROUP16 2 NACLi_SSE,
     EncodeModRMOp GROUP16 3 NACLi_SSE, EncodeModRMOp GROUP16 4 NACLi_ILLEGAL,
     EncodeModRMOp GROUP16 5 NACLi_ILLEGAL, EncodeModRMOp GROUP16 6 NACLi_ILLEGAL,
     EncodeModRMOp GROUP16 7 NACLi_ILLEGAL, EncodeModRMOp GROUPP 0 NACLi_3DNOW,
     EncodeModRMOp GROUPP 1 NACLi_3DNOW, EncodeModRMOp GROUPP 2 NACLi_ILLEGAL,
     EncodeModRMOp GROUPP 3 NACLi_ILLEGAL, EncodeModRMOp GROUPP 4 NACLi_ILLEGAL,
     EncodeModRMOp GROUPP 5 NACLi_ILLEGAL, EncodeModRMOp GROUPP 6 NACLi_ILLEGAL,
     EncodeModRMOp GROUPP 7 NACLi_ILLEGAL, EncodeOp0F 0x00 1 IMM_NONE NACLi_OPINMRM, SetOp0FOpInMRM 0x0 GROUP6,
     EncodeOp0F 0x01 1 IMM_NONE NACLi_OPINMRM, SetOp0FOpInMRM 0x01 GROUP7,
     EncodeOp0F 0x02 1 IMM_NONE NACLi_SYSTEM, EncodeOp0F 0x03 1 IMM_NONE NACLi_ILLEGAL,
     EncodeModedOp0F 0x05 0 IMM_NONE NACLi_SYSCALL X86_64, EncodeOp0F 0x06 0 IMM_NONE NACLi_SYSTEM,
     EncodeModedOp0F 0x07 0 IMM_NONE NACLi_ILLEGAL X86_64, EncodeOp0F 0x08 0 IMM_NONE NACLi_SYSTEM,
     EncodeOp0F 0x09 0 IMM_NONE NACLi_SYSTEM, EncodeOp0F 0x0b 0 IMM_NONE NACLi_ILLEGAL,
     EncodeOp0F 0x0d 1 IMM_NONE NACLi_OPINMRM, SetOp0FOpInMRM 0x0d GROUPP,
     EncodeOp0F 0x0e 0 IMM_NONE NACLi_3DNOW, EncodeOp0F 0x0f 1 IMM_FIXED1 NACLi_3DNOW,
     EncodeOp0F 0x18 1 IMM_NONE NACLi_OPINMRM, SetOp0FOpInMRM 0x18 GROUP16,
     EncodeOp0F 0x1f 1 IMM_NONE NACLi_386, EncodeOp0F 0x20 1 IMM_NONE NACLi_SYSTEM,
     EncodeOp0F 0x21 1 IMM_NONE NACLi_SYSTEM, EncodeOp0F 0x22 1 IMM_NONE NACLi_SYSTEM,
     EncodeOp0F 0x23 1 IMM_NONE NACLi_SYSTEM, EncodeOp0F 0x30 0 IMM_NONE NACLi_RDMSR,
     EncodeOp0F 0x31 0 IMM_NONE NACLi_RDTSC, EncodeOp0F 0x32 0 IMM_NONE NACLi_RDMSR,
     EncodeOp0F 0x33 0 IMM_NONE NACLi_SYSTEM, EncodeOp0F 0x34 0 IMM_NONE NACLi_SYSENTER,
     EncodeOp0F 0x35 0 IMM_NONE NACLi_SYSENTER, EncodeOp0F 0x37 0 IMM_NONE NACLi_ILLEGAL,
     EncodeOp0F 0x38 1 IMM_NONE NACLi_3BYTE, EncodeOp0F 0x3a 1 IMM_FIXED1 NACLi_3BYTE,
     EncodeOp0F 0x40 1 IMM_NONE NACLi_CMOV, EncodeOp0F 0x41 1 IMM_NONE NACLi_CMOV,
     EncodeOp0F 0x42 1 IMM_NONE NACLi_CMOV, EncodeOp0F 0x43 1 IMM_NONE NACLi_CMOV,
     EncodeOp0F 0x44 1 IMM_NONE NACLi_CMOV, EncodeOp0F 0x45 1 IMM_NONE NACLi_CMOV,
     EncodeOp0F 0x46 1 IMM_NONE NACLi_CMOV, EncodeOp0F 0x47 1 IMM_NONE NACLi_CMOV,
     EncodeOp0F 0x48 1 IMM_NONE NACLi_CMOV, EncodeOp0F 0x49 1 IMM_NONE NACLi_CMOV,
     EncodeOp0F 0x4a 1 IMM_NONE NACLi_CMOV, EncodeOp0F 0x4b 1 IMM_NONE NACLi_CMOV,
     EncodeOp0F 0x4c 1 IMM_NONE NACLi_CMOV, EncodeOp0F 0x4d 1 IMM_NONE NACLi_CMOV,
     EncodeOp0F 0x4e 1 IMM_NONE NACLi_CMOV, EncodeOp0F 0x4f 1 IMM_NONE NACLi_CMOV,
     EncodeOp660F 0x40 1 IMM_NONE NACLi_CMOV, EncodeOp660F 0x41 1 IMM_NONE NACLi_CMOV,
     EncodeOp660F 0x42 1 IMM_NONE NACLi_CMOV, EncodeOp660F 0x43 1 IMM_NONE NACLi_CMOV,
     EncodeOp660F 0x44 1 IMM_NONE NACLi_CMOV, EncodeOp660F 0x45 1 IMM_NONE NACLi_CMOV,
     EncodeOp660F 0x46 1 IMM_NONE NACLi_CMOV, EncodeOp660F 0x47 1 IMM_NONE NACLi_CMOV,
     EncodeOp660F 0x48 1 IMM_NONE NACLi_CMOV]"

definition BuildMetaTables_05 :: "build list" where
  "BuildMetaTables_05 =
    [EncodeOp660F 0x49 1 IMM_NONE NACLi_CMOV, EncodeOp660F 0x4a 1 IMM_NONE NACLi_CMOV,
     EncodeOp660F 0x4b 1 IMM_NONE NACLi_CMOV, EncodeOp660F 0x4c 1 IMM_NONE NACLi_CMOV,
     EncodeOp660F 0x4d 1 IMM_NONE NACLi_CMOV, EncodeOp660F 0x4e 1 IMM_NONE NACLi_CMOV,
     EncodeOp660F 0x4f 1 IMM_NONE NACLi_CMOV, EncodeOp0F 0x80 0 IMM_DATAV NACLi_JMPZ, SetOp0FForceSize64 0x80,
     EncodeOp0F 0x81 0 IMM_DATAV NACLi_JMPZ, SetOp0FForceSize64 0x81, EncodeOp0F 0x82 0 IMM_DATAV NACLi_JMPZ,
     SetOp0FForceSize64 0x82, EncodeOp0F 0x83 0 IMM_DATAV NACLi_JMPZ, SetOp0FForceSize64 0x83,
     EncodeOp0F 0x84 0 IMM_DATAV NACLi_JMPZ, SetOp0FForceSize64 0x84, EncodeOp0F 0x85 0 IMM_DATAV NACLi_JMPZ,
     SetOp0FForceSize64 0x85, EncodeOp0F 0x86 0 IMM_DATAV NACLi_JMPZ, SetOp0FForceSize64 0x86,
     EncodeOp0F 0x87 0 IMM_DATAV NACLi_JMPZ, SetOp0FForceSize64 0x87, EncodeOp0F 0x88 0 IMM_DATAV NACLi_JMPZ,
     SetOp0FForceSize64 0x88, EncodeOp0F 0x89 0 IMM_DATAV NACLi_JMPZ, SetOp0FForceSize64 0x89,
     EncodeOp0F 0x8a 0 IMM_DATAV NACLi_JMPZ, SetOp0FForceSize64 0x8a, EncodeOp0F 0x8b 0 IMM_DATAV NACLi_JMPZ,
     SetOp0FForceSize64 0x8b, EncodeOp0F 0x8c 0 IMM_DATAV NACLi_JMPZ, SetOp0FForceSize64 0x8c,
     EncodeOp0F 0x8d 0 IMM_DATAV NACLi_JMPZ, SetOp0FForceSize64 0x8d, EncodeOp0F 0x8e 0 IMM_DATAV NACLi_JMPZ,
     SetOp0FForceSize64 0x8e, EncodeOp0F 0x8f 0 IMM_DATAV NACLi_JMPZ, SetOp0FForceSize64 0x8f,
     EncodeOp0F 0x90 1 IMM_NONE NACLi_386, EncodeOp0F 0x91 1 IMM_NONE NACLi_386,
     EncodeOp0F 0x92 1 IMM_NONE NACLi_386, EncodeOp0F 0x93 1 IMM_NONE NACLi_386,
     EncodeOp0F 0x94 1 IMM_NONE NACLi_386, EncodeOp0F 0x95 1 IMM_NONE NACLi_386,
     EncodeOp0F 0x96 1 IMM_NONE NACLi_386, EncodeOp0F 0x97 1 IMM_NONE NACLi_386,
     EncodeOp0F 0x98 1 IMM_NONE NACLi_386, EncodeOp0F 0x99 1 IMM_NONE NACLi_386,
     EncodeOp0F 0x9a 1 IMM_NONE NACLi_386, EncodeOp0F 0x9b 1 IMM_NONE NACLi_386,
     EncodeOp0F 0x9c 1 IMM_NONE NACLi_386, EncodeOp0F 0x9d 1 IMM_NONE NACLi_386,
     EncodeOp0F 0x9e 1 IMM_NONE NACLi_386, EncodeOp0F 0x9f 1 IMM_NONE NACLi_386,
     EncodeOp0F 0xa0 0 IMM_NONE NACLi_ILLEGAL, SetOp0FDefaultSize64 0xa0,
     EncodeOp0F 0xa1 0 IMM_NONE NACLi_ILLEGAL, SetOp0FDefaultSize64 0xa1, EncodeOp0F 0xa2 0 IMM_NONE NACLi_386,
     EncodeOp0F 0xa3 1 IMM_NONE NACLi_ILLEGAL, EncodeOp0F 0xa4 1 IMM_FIXED1 NACLi_386,
     EncodeOp0F 0xa5 1 IMM_NONE NACLi_386, EncodeOp0F 0xa6 0 IMM_NONE NACLi_INVALID,
     EncodeOp0F 0xa7 0 IMM_NONE NACLi_INVALID, EncodeOp0F 0xa8 0 IMM_NONE NACLi_ILLEGAL,
     SetOp0FDefaultSize64 0xa8, EncodeOp0F 0xa9 0 IMM_NONE NACLi_ILLEGAL, SetOp0FDefaultSize64 0xa9,
     EncodeOp0F 0xaa 0 IMM_NONE NACLi_SYSTEM, EncodeOp0F 0xab 1 IMM_NONE NACLi_ILLEGAL,
     EncodeOp0F 0xac 1 IMM_FIXED1 NACLi_386, EncodeOp0F 0xad 1 IMM_NONE NACLi_386,
     EncodeOp0F 0xae 1 IMM_NONE NACLi_OPINMRM, SetOp0FOpInMRM 0xae GROUP15,
     EncodeOp0F 0xaf 1 IMM_NONE NACLi_386, EncodeOp660F 0xaf 1 IMM_NONE NACLi_386,
     EncodeOp0F 0xb0 1 IMM_NONE NACLi_386L, EncodeOp0F 0xb1 1 IMM_NONE NACLi_386L,
     EncodeOp0F 0xb2 1 IMM_NONE NACLi_ILLEGAL, EncodeOp0F 0xb3 1 IMM_NONE NACLi_ILLEGAL,
     EncodeOp0F 0xb4 1 IMM_NONE NACLi_ILLEGAL, EncodeOp0F 0xb5 1 IMM_NONE NACLi_ILLEGAL,
     EncodeOp0F 0xb6 1 IMM_NONE NACLi_386, EncodeOp660F 0xb6 1 IMM_NONE NACLi_386,
     EncodeOp0F 0xb7 1 IMM_NONE NACLi_386, EncodeOp660F 0xb7 1 IMM_NONE NACLi_386,
     EncodeModedOp0F 0xc8 0 IMM_NONE NACLi_386 X86_32, EncodeModedOp0F 0xc9 0 IMM_NONE NACLi_386 X86_32,
     EncodeModedOp0F 0xca 0 IMM_NONE NACLi_386 X86_32, EncodeModedOp0F 0xcb 0 IMM_NONE NACLi_386 X86_32,
     EncodeModedOp0F 0xcc 0 IMM_NONE NACLi_386 X86_32, EncodeModedOp0F 0xcd 0 IMM_NONE NACLi_386 X86_32,
     EncodeModedOp0F 0xce 0 IMM_NONE NACLi_386 X86_32, EncodeModedOp0F 0xcf 0 IMM_NONE NACLi_386 X86_32,
     EncodeOp0F 0x10 1 IMM_NONE NACLi_SSE, EncodeOpF30F 0x10 1 IMM_NONE NACLi_SSE,
     EncodeOp660F 0x10 1 IMM_NONE NACLi_SSE2, EncodeOpF20F 0x10 1 IMM_NONE NACLi_SSE2,
     EncodeOp0F 0x11 1 IMM_NONE NACLi_SSE, EncodeOpF30F 0x11 1 IMM_NONE NACLi_SSE,
     EncodeOp660F 0x11 1 IMM_NONE NACLi_SSE2, EncodeOpF20F 0x11 1 IMM_NONE NACLi_SSE2,
     EncodeOp0F 0x12 1 IMM_NONE NACLi_SSE, EncodeOpF30F 0x12 1 IMM_NONE NACLi_SSE3,
     EncodeOp660F 0x12 1 IMM_NONE NACLi_SSE2, EncodeOpF20F 0x12 1 IMM_NONE NACLi_SSE3,
     EncodeOp0F 0x13 1 IMM_NONE NACLi_SSE, EncodeOpF30F 0x13 0 IMM_NONE NACLi_INVALID,
     EncodeOp660F 0x13 1 IMM_NONE NACLi_SSE2, EncodeOpF20F 0x13 0 IMM_NONE NACLi_INVALID]"

definition BuildMetaTables_06 :: "build list" where
  "BuildMetaTables_06 =
    [EncodeOp0F 0x14 1 IMM_NONE NACLi_SSE, EncodeOpF30F 0x14 0 IMM_NONE NACLi_INVALID,
     EncodeOp660F 0x14 1 IMM_NONE NACLi_SSE2, EncodeOpF20F 0x14 0 IMM_NONE NACLi_INVALID,
     EncodeOp0F 0x15 1 IMM_NONE NACLi_SSE, EncodeOpF30F 0x15 0 IMM_NONE NACLi_INVALID,
     EncodeOp660F 0x15 1 IMM_NONE NACLi_SSE2, EncodeOpF20F 0x15 0 IMM_NONE NACLi_INVALID,
     EncodeOp0F 0x16 1 IMM_NONE NACLi_SSE, EncodeOpF30F 0x16 1 IMM_NONE NACLi_SSE3,
     EncodeOp660F 0x16 1 IMM_NONE NACLi_SSE2, EncodeOpF20F 0x16 0 IMM_NONE NACLi_INVALID,
     EncodeOp0F 0x17 1 IMM_NONE NACLi_SSE, EncodeOpF30F 0x17 0 IMM_NONE NACLi_INVALID,
     EncodeOp660F 0x17 1 IMM_NONE NACLi_SSE2, EncodeOpF20F 0x17 0 IMM_NONE NACLi_INVALID,
     EncodeOp0F 0x28 1 IMM_NONE NACLi_SSE, EncodeOpF30F 0x28 0 IMM_NONE NACLi_INVALID,
     EncodeOp660F 0x28 1 IMM_NONE NACLi_SSE2, EncodeOpF20F 0x28 0 IMM_NONE NACLi_INVALID,
     EncodeOp0F 0x29 1 IMM_NONE NACLi_SSE, EncodeOpF30F 0x29 0 IMM_NONE NACLi_INVALID,
     EncodeOp660F 0x29 1 IMM_NONE NACLi_SSE2, EncodeOpF20F 0x29 0 IMM_NONE NACLi_INVALID,
     EncodeOp0F 0x2a 1 IMM_NONE NACLi_SSE, EncodeOpF30F 0x2a 1 IMM_NONE NACLi_SSE,
     EncodeOp660F 0x2a 1 IMM_NONE NACLi_SSE2, EncodeOpF20F 0x2a 1 IMM_NONE NACLi_SSE2,
     EncodeOp0F 0x2b 1 IMM_NONE NACLi_SSE, EncodeOpF30F 0x2b 1 IMM_NONE NACLi_SSE4A,
     EncodeOp660F 0x2b 1 IMM_NONE NACLi_SSE2, EncodeOpF20F 0x2b 1 IMM_NONE NACLi_SSE4A,
     EncodeOp0F 0x2c 1 IMM_NONE NACLi_SSE, EncodeOpF30F 0x2c 1 IMM_NONE NACLi_SSE,
     EncodeOp660F 0x2c 1 IMM_NONE NACLi_SSE2, EncodeOpF20F 0x2c 1 IMM_NONE NACLi_SSE2,
     EncodeOp0F 0x2d 1 IMM_NONE NACLi_SSE, EncodeOpF30F 0x2d 1 IMM_NONE NACLi_SSE,
     EncodeOp660F 0x2d 1 IMM_NONE NACLi_SSE2, EncodeOpF20F 0x2d 1 IMM_NONE NACLi_SSE2,
     EncodeOp0F 0x2e 1 IMM_NONE NACLi_SSE, EncodeOpF30F 0x2e 0 IMM_NONE NACLi_INVALID,
     EncodeOp660F 0x2e 1 IMM_NONE NACLi_SSE2, EncodeOpF20F 0x2e 0 IMM_NONE NACLi_INVALID,
     EncodeOp0F 0x2f 1 IMM_NONE NACLi_SSE, EncodeOpF30F 0x2f 0 IMM_NONE NACLi_INVALID,
     EncodeOp660F 0x2f 1 IMM_NONE NACLi_SSE2, EncodeOpF20F 0x2f 0 IMM_NONE NACLi_INVALID,
     EncodeOp0F 0x50 1 IMM_NONE NACLi_SSE, EncodeOpF30F 0x50 0 IMM_NONE NACLi_INVALID,
     EncodeOp660F 0x50 1 IMM_NONE NACLi_SSE2, EncodeOpF20F 0x50 0 IMM_NONE NACLi_INVALID,
     EncodeOp0F 0x51 1 IMM_NONE NACLi_SSE, EncodeOpF30F 0x51 1 IMM_NONE NACLi_SSE,
     EncodeOp660F 0x51 1 IMM_NONE NACLi_SSE2, EncodeOpF20F 0x51 1 IMM_NONE NACLi_SSE2,
     EncodeOp0F 0x52 1 IMM_NONE NACLi_SSE, EncodeOpF30F 0x52 1 IMM_NONE NACLi_SSE,
     EncodeOp660F 0x52 0 IMM_NONE NACLi_INVALID, EncodeOpF20F 0x52 0 IMM_NONE NACLi_INVALID,
     EncodeOp0F 0x53 1 IMM_NONE NACLi_SSE, EncodeOpF30F 0x53 1 IMM_NONE NACLi_SSE,
     EncodeOp660F 0x53 0 IMM_NONE NACLi_INVALID, EncodeOpF20F 0x53 0 IMM_NONE NACLi_INVALID,
     EncodeOp0F 0x54 1 IMM_NONE NACLi_SSE, EncodeOpF30F 0x54 0 IMM_NONE NACLi_INVALID,
     EncodeOp660F 0x54 1 IMM_NONE NACLi_SSE2, EncodeOpF20F 0x54 0 IMM_NONE NACLi_INVALID,
     EncodeOp0F 0x55 1 IMM_NONE NACLi_SSE, EncodeOpF30F 0x55 0 IMM_NONE NACLi_INVALID,
     EncodeOp660F 0x55 1 IMM_NONE NACLi_SSE2, EncodeOpF20F 0x55 0 IMM_NONE NACLi_INVALID,
     EncodeOp0F 0x56 1 IMM_NONE NACLi_SSE, EncodeOpF30F 0x56 1 IMM_NONE NACLi_INVALID,
     EncodeOp660F 0x56 1 IMM_NONE NACLi_SSE2, EncodeOpF20F 0x56 0 IMM_NONE NACLi_INVALID,
     EncodeOp0F 0x57 1 IMM_NONE NACLi_SSE, EncodeOpF30F 0x57 0 IMM_NONE NACLi_INVALID,
     EncodeOp660F 0x57 1 IMM_NONE NACLi_SSE2, EncodeOpF20F 0x57 0 IMM_NONE NACLi_INVALID,
     EncodeOp0F 0x58 1 IMM_NONE NACLi_SSE, EncodeOpF30F 0x58 1 IMM_NONE NACLi_SSE,
     EncodeOp660F 0x58 1 IMM_NONE NACLi_SSE2, EncodeOpF20F 0x58 1 IMM_NONE NACLi_SSE2,
     EncodeOp0F 0x59 1 IMM_NONE NACLi_SSE, EncodeOpF30F 0x59 1 IMM_NONE NACLi_SSE,
     EncodeOp660F 0x59 1 IMM_NONE NACLi_SSE2, EncodeOpF20F 0x59 1 IMM_NONE NACLi_SSE2,
     EncodeOp0F 0x5a 1 IMM_NONE NACLi_SSE2, EncodeOpF30F 0x5a 1 IMM_NONE NACLi_SSE2,
     EncodeOp660F 0x5a 1 IMM_NONE NACLi_SSE2, EncodeOpF20F 0x5a 1 IMM_NONE NACLi_SSE2,
     EncodeOp0F 0x5b 1 IMM_NONE NACLi_SSE2, EncodeOpF30F 0x5b 1 IMM_NONE NACLi_SSE2,
     EncodeOp660F 0x5b 1 IMM_NONE NACLi_SSE2, EncodeOpF20F 0x5b 0 IMM_NONE NACLi_INVALID,
     EncodeOp0F 0x5c 1 IMM_NONE NACLi_SSE, EncodeOpF30F 0x5c 1 IMM_NONE NACLi_SSE,
     EncodeOp660F 0x5c 1 IMM_NONE NACLi_SSE2, EncodeOpF20F 0x5c 1 IMM_NONE NACLi_SSE2,
     EncodeOp0F 0x5d 1 IMM_NONE NACLi_SSE, EncodeOpF30F 0x5d 1 IMM_NONE NACLi_SSE,
     EncodeOp660F 0x5d 1 IMM_NONE NACLi_SSE2, EncodeOpF20F 0x5d 1 IMM_NONE NACLi_SSE2,
     EncodeOp0F 0x5e 1 IMM_NONE NACLi_SSE, EncodeOpF30F 0x5e 1 IMM_NONE NACLi_SSE,
     EncodeOp660F 0x5e 1 IMM_NONE NACLi_SSE2]"

definition BuildMetaTables_07 :: "build list" where
  "BuildMetaTables_07 =
    [EncodeOpF20F 0x5e 1 IMM_NONE NACLi_SSE2, EncodeOp0F 0x5f 1 IMM_NONE NACLi_SSE,
     EncodeOpF30F 0x5f 1 IMM_NONE NACLi_SSE, EncodeOp660F 0x5f 1 IMM_NONE NACLi_SSE2,
     EncodeOpF20F 0x5f 1 IMM_NONE NACLi_SSE2, EncodeOp0F 0x60 1 IMM_NONE NACLi_MMX,
     EncodeOpF30F 0x60 0 IMM_NONE NACLi_INVALID, EncodeOp660F 0x60 1 IMM_NONE NACLi_SSE2,
     EncodeOpF20F 0x60 0 IMM_NONE NACLi_INVALID, EncodeOp0F 0x61 1 IMM_NONE NACLi_MMX,
     EncodeOpF30F 0x61 0 IMM_NONE NACLi_INVALID, EncodeOp660F 0x61 1 IMM_NONE NACLi_SSE2,
     EncodeOpF20F 0x61 0 IMM_NONE NACLi_INVALID, EncodeOp0F 0x62 1 IMM_NONE NACLi_MMX,
     EncodeOpF30F 0x62 0 IMM_NONE NACLi_INVALID, EncodeOp660F 0x62 1 IMM_NONE NACLi_SSE2,
     EncodeOpF20F 0x62 0 IMM_NONE NACLi_INVALID, EncodeOp0F 0x63 1 IMM_NONE NACLi_MMX,
     EncodeOpF30F 0x63 0 IMM_NONE NACLi_INVALID, EncodeOp660F 0x63 1 IMM_NONE NACLi_SSE2,
     EncodeOpF20F 0x63 0 IMM_NONE NACLi_INVALID, EncodeOp0F 0x64 1 IMM_NONE NACLi_MMX,
     EncodeOpF30F 0x64 0 IMM_NONE NACLi_INVALID, EncodeOp660F 0x64 1 IMM_NONE NACLi_SSE2,
     EncodeOpF20F 0x64 0 IMM_NONE NACLi_INVALID, EncodeOp0F 0x65 1 IMM_NONE NACLi_MMX,
     EncodeOpF30F 0x65 0 IMM_NONE NACLi_INVALID, EncodeOp660F 0x65 1 IMM_NONE NACLi_SSE2,
     EncodeOpF20F 0x65 0 IMM_NONE NACLi_INVALID, EncodeOp0F 0x66 1 IMM_NONE NACLi_MMX,
     EncodeOpF30F 0x66 0 IMM_NONE NACLi_INVALID, EncodeOp660F 0x66 1 IMM_NONE NACLi_SSE2,
     EncodeOpF20F 0x66 0 IMM_NONE NACLi_INVALID, EncodeOp0F 0x67 1 IMM_NONE NACLi_MMX,
     EncodeOpF30F 0x67 0 IMM_NONE NACLi_INVALID, EncodeOp660F 0x67 1 IMM_NONE NACLi_SSE2,
     EncodeOpF20F 0x67 0 IMM_NONE NACLi_INVALID, EncodeOp0F 0x68 1 IMM_NONE NACLi_MMX,
     EncodeOpF30F 0x68 0 IMM_NONE NACLi_INVALID, EncodeOp660F 0x68 1 IMM_NONE NACLi_SSE2,
     EncodeOpF20F 0x68 0 IMM_NONE NACLi_INVALID, EncodeOp0F 0x69 1 IMM_NONE NACLi_MMX,
     EncodeOpF30F 0x69 0 IMM_NONE NACLi_INVALID, EncodeOp660F 0x69 1 IMM_NONE NACLi_SSE2,
     EncodeOpF20F 0x69 0 IMM_NONE NACLi_INVALID, EncodeOp0F 0x6a 1 IMM_NONE NACLi_MMX,
     EncodeOpF30F 0x6a 0 IMM_NONE NACLi_INVALID, EncodeOp660F 0x6a 1 IMM_NONE NACLi_SSE2,
     EncodeOpF20F 0x6a 0 IMM_NONE NACLi_INVALID, EncodeOp0F 0x6b 1 IMM_NONE NACLi_MMX,
     EncodeOpF30F 0x6b 0 IMM_NONE NACLi_INVALID, EncodeOp660F 0x6b 1 IMM_NONE NACLi_SSE2,
     EncodeOpF20F 0x6b 0 IMM_NONE NACLi_INVALID, EncodeOp0F 0x6c 0 IMM_NONE NACLi_INVALID,
     EncodeOpF30F 0x6c 0 IMM_NONE NACLi_INVALID, EncodeOp660F 0x6c 1 IMM_NONE NACLi_SSE2,
     EncodeOpF20F 0x6c 0 IMM_NONE NACLi_INVALID, EncodeOp0F 0x6d 0 IMM_NONE NACLi_INVALID,
     EncodeOpF30F 0x6d 0 IMM_NONE NACLi_INVALID, EncodeOp660F 0x6d 1 IMM_NONE NACLi_SSE2,
     EncodeOpF20F 0x6d 0 IMM_NONE NACLi_INVALID, EncodeOp0F 0x6e 1 IMM_NONE NACLi_MMX,
     EncodeOpF30F 0x6e 0 IMM_NONE NACLi_INVALID, EncodeOp660F 0x6e 1 IMM_NONE NACLi_SSE2,
     EncodeOpF20F 0x6e 0 IMM_NONE NACLi_INVALID, EncodeOp0F 0x6f 1 IMM_NONE NACLi_MMX,
     EncodeOpF30F 0x6f 1 IMM_NONE NACLi_SSE2, EncodeOp660F 0x6f 1 IMM_NONE NACLi_SSE2,
     EncodeOpF20F 0x6f 0 IMM_NONE NACLi_INVALID, EncodeOp0F 0x70 1 IMM_FIXED1 NACLi_SSE,
     EncodeOpF30F 0x70 1 IMM_FIXED1 NACLi_SSE2, EncodeOp660F 0x70 1 IMM_FIXED1 NACLi_SSE2,
     EncodeOpF20F 0x70 1 IMM_FIXED1 NACLi_SSE2, EncodeOp0F 0x71 1 IMM_FIXED1 NACLi_OPINMRM,
     EncodeOpF30F 0x71 0 IMM_NONE NACLi_INVALID, EncodeOp660F 0x71 1 IMM_FIXED1 NACLi_OPINMRM,
     EncodeOpF20F 0x71 0 IMM_NONE NACLi_INVALID, SetOp0FOpInMRM 0x71 GROUP12, SetOp66OpInMRM 0x71 GROUP12,
     EncodeOp0F 0x72 1 IMM_FIXED1 NACLi_OPINMRM, EncodeOpF30F 0x72 0 IMM_NONE NACLi_INVALID,
     EncodeOp660F 0x72 1 IMM_FIXED1 NACLi_OPINMRM, EncodeOpF20F 0x72 0 IMM_NONE NACLi_INVALID,
     SetOp0FOpInMRM 0x72 GROUP13, SetOp66OpInMRM 0x72 GROUP13, EncodeOp0F 0x73 1 IMM_FIXED1 NACLi_OPINMRM,
     EncodeOpF30F 0x73 0 IMM_NONE NACLi_INVALID, EncodeOp660F 0x73 1 IMM_FIXED1 NACLi_OPINMRM,
     EncodeOpF20F 0x73 0 IMM_NONE NACLi_INVALID, SetOp0FOpInMRM 0x73 GROUP14, SetOp66OpInMRM 0x73 GROUP14,
     EncodeOp0F 0x74 1 IMM_NONE NACLi_MMX, EncodeOpF30F 0x74 0 IMM_NONE NACLi_INVALID,
     EncodeOp660F 0x74 1 IMM_NONE NACLi_SSE2, EncodeOpF20F 0x74 0 IMM_NONE NACLi_INVALID,
     EncodeOp0F 0x75 1 IMM_NONE NACLi_MMX, EncodeOpF30F 0x75 0 IMM_NONE NACLi_INVALID,
     EncodeOp660F 0x75 1 IMM_NONE NACLi_SSE2, EncodeOpF20F 0x75 0 IMM_NONE NACLi_INVALID,
     EncodeOp0F 0x76 1 IMM_NONE NACLi_MMX, EncodeOpF30F 0x76 1 IMM_NONE NACLi_INVALID,
     EncodeOp660F 0x76 1 IMM_NONE NACLi_SSE2, EncodeOpF20F 0x76 0 IMM_NONE NACLi_INVALID,
     EncodeOp0F 0x77 0 IMM_NONE NACLi_MMX, EncodeOpF30F 0x77 0 IMM_NONE NACLi_INVALID,
     EncodeOp660F 0x77 0 IMM_NONE NACLi_INVALID, EncodeOpF20F 0x77 0 IMM_NONE NACLi_INVALID,
     EncodeOp0F 0x78 0 IMM_NONE NACLi_INVALID, EncodeOpF30F 0x78 0 IMM_NONE NACLi_INVALID,
     EncodeOp660F 0x78 1 IMM_FIXED1 NACLi_OPINMRM, SetOp66OpInMRM 0x78 GROUP17,
     EncodeOpF20F 0x78 1 IMM_FIXED2 NACLi_SSE4A]"

definition BuildMetaTables_08 :: "build list" where
  "BuildMetaTables_08 =
    [EncodeOp0F 0x79 0 IMM_NONE NACLi_INVALID, EncodeOpF30F 0x79 0 IMM_NONE NACLi_INVALID,
     EncodeOp660F 0x79 1 IMM_NONE NACLi_SSE4A, EncodeOpF20F 0x79 1 IMM_NONE NACLi_SSE4A,
     EncodeOp0F 0x7a 0 IMM_NONE NACLi_INVALID, EncodeOpF30F 0x7a 0 IMM_NONE NACLi_INVALID,
     EncodeOp660F 0x7a 0 IMM_NONE NACLi_INVALID, EncodeOpF20F 0x7a 0 IMM_NONE NACLi_INVALID,
     EncodeOp0F 0x7b 0 IMM_NONE NACLi_INVALID, EncodeOpF30F 0x7b 0 IMM_NONE NACLi_INVALID,
     EncodeOp660F 0x7b 0 IMM_NONE NACLi_INVALID, EncodeOpF20F 0x7b 0 IMM_NONE NACLi_INVALID,
     EncodeOp0F 0x7c 0 IMM_NONE NACLi_INVALID, EncodeOpF30F 0x7c 0 IMM_NONE NACLi_INVALID,
     EncodeOp660F 0x7c 1 IMM_NONE NACLi_SSE3, EncodeOpF20F 0x7c 1 IMM_NONE NACLi_SSE3,
     EncodeOp0F 0x7d 0 IMM_NONE NACLi_INVALID, EncodeOpF30F 0x7d 0 IMM_NONE NACLi_INVALID,
     EncodeOp660F 0x7d 1 IMM_NONE NACLi_SSE3, EncodeOpF20F 0x7d 1 IMM_NONE NACLi_SSE3,
     EncodeOp0F 0x7e 1 IMM_NONE NACLi_MMX, EncodeOpF30F 0x7e 1 IMM_NONE NACLi_SSE2,
     EncodeOp660F 0x7e 1 IMM_NONE NACLi_SSE2, EncodeOpF20F 0x7e 0 IMM_NONE NACLi_INVALID,
     EncodeOp0F 0x7f 1 IMM_NONE NACLi_MMX, EncodeOpF30F 0x7f 1 IMM_NONE NACLi_SSE2,
     EncodeOp660F 0x7f 1 IMM_NONE NACLi_SSE2, EncodeOpF20F 0x7f 0 IMM_NONE NACLi_INVALID,
     EncodeOp0F 0xb8 0 IMM_NONE NACLi_INVALID, EncodeOpF30F 0xb8 1 IMM_NONE NACLi_POPCNT,
     EncodeOpF20F 0xb8 0 IMM_NONE NACLi_INVALID, EncodeOp0F 0xb9 1 IMM_NONE NACLi_OPINMRM,
     EncodeOpF30F 0xb9 0 IMM_NONE NACLi_INVALID, EncodeOpF20F 0xb9 0 IMM_NONE NACLi_INVALID,
     EncodeOp0F 0xba 1 IMM_FIXED1 NACLi_OPINMRM, EncodeOpF30F 0xba 0 IMM_FIXED1 NACLi_INVALID,
     EncodeOpF20F 0xba 0 IMM_NONE NACLi_INVALID, SetOp0FOpInMRM 0xba GROUP8,
     EncodeOp0F 0xbb 1 IMM_NONE NACLi_ILLEGAL, EncodeOpF30F 0xbb 0 IMM_NONE NACLi_INVALID,
     EncodeOpF20F 0xbb 0 IMM_NONE NACLi_INVALID, EncodeOp0F 0xbc 1 IMM_NONE NACLi_386,
     EncodeOpF30F 0xbc 0 IMM_NONE NACLi_INVALID, EncodeOpF20F 0xbc 0 IMM_NONE NACLi_INVALID,
     EncodeOp0F 0xbd 1 IMM_NONE NACLi_386, EncodeOpF30F 0xbd 1 IMM_NONE NACLi_LZCNT,
     EncodeOpF20F 0xbd 0 IMM_NONE NACLi_INVALID, EncodeOp0F 0xbe 1 IMM_NONE NACLi_386,
     EncodeOp660F 0xbe 1 IMM_NONE NACLi_386, EncodeOpF30F 0xbe 1 IMM_NONE NACLi_INVALID,
     EncodeOpF20F 0xbe 1 IMM_NONE NACLi_INVALID, EncodeOp0F 0xbf 1 IMM_NONE NACLi_386,
     EncodeOp660F 0xbf 1 IMM_NONE NACLi_386, EncodeOpF30F 0xbf 0 IMM_NONE NACLi_INVALID,
     EncodeOpF20F 0xbf 0 IMM_NONE NACLi_INVALID, EncodeOp0F 0xc0 1 IMM_NONE NACLi_386L,
     EncodeOp0F 0xc1 1 IMM_NONE NACLi_386L, EncodeOp0F 0xc2 1 IMM_FIXED1 NACLi_SSE,
     EncodeOpF30F 0xc2 1 IMM_FIXED1 NACLi_SSE, EncodeOp660F 0xc2 1 IMM_FIXED1 NACLi_SSE2,
     EncodeOpF20F 0xc2 1 IMM_FIXED1 NACLi_SSE2, EncodeOp0F 0xc3 1 IMM_NONE NACLi_SSE2,
     EncodeOpF30F 0xc3 0 IMM_NONE NACLi_INVALID, EncodeOp660F 0xc3 0 IMM_NONE NACLi_INVALID,
     EncodeOpF20F 0xc3 0 IMM_NONE NACLi_INVALID, EncodeOp0F 0xc4 1 IMM_FIXED1 NACLi_SSE,
     EncodeOpF30F 0xc4 0 IMM_NONE NACLi_INVALID, EncodeOp660F 0xc4 1 IMM_FIXED1 NACLi_SSE2,
     EncodeOpF20F 0xc4 0 IMM_NONE NACLi_INVALID, EncodeOp0F 0xc5 1 IMM_FIXED1 NACLi_SSE,
     EncodeOpF30F 0xc5 0 IMM_NONE NACLi_INVALID, EncodeOp660F 0xc5 1 IMM_FIXED1 NACLi_SSE2,
     EncodeOpF20F 0xc5 0 IMM_NONE NACLi_INVALID, EncodeOp0F 0xc6 1 IMM_FIXED1 NACLi_SSE,
     EncodeOpF30F 0xc6 0 IMM_NONE NACLi_INVALID, EncodeOp660F 0xc6 1 IMM_FIXED1 NACLi_SSE2,
     EncodeOpF20F 0xc6 0 IMM_NONE NACLi_INVALID, EncodeOp0F 0xc7 1 IMM_NONE NACLi_OPINMRM,
     SetOp0FOpInMRM 0xc7 GROUP9, EncodeOp0F 0xd0 0 IMM_NONE NACLi_INVALID,
     EncodeOpF30F 0xd0 0 IMM_NONE NACLi_INVALID, EncodeOp660F 0xd0 1 IMM_NONE NACLi_SSE3,
     EncodeOpF20F 0xd0 1 IMM_NONE NACLi_SSE3, EncodeOp0F 0xd1 1 IMM_NONE NACLi_MMX,
     EncodeOpF30F 0xd1 0 IMM_NONE NACLi_INVALID, EncodeOp660F 0xd1 1 IMM_NONE NACLi_SSE2,
     EncodeOpF20F 0xd1 0 IMM_NONE NACLi_INVALID, EncodeOp0F 0xd2 1 IMM_NONE NACLi_MMX,
     EncodeOpF30F 0xd2 0 IMM_NONE NACLi_INVALID, EncodeOp660F 0xd2 1 IMM_NONE NACLi_SSE2,
     EncodeOpF20F 0xd2 0 IMM_NONE NACLi_INVALID, EncodeOp0F 0xd3 1 IMM_NONE NACLi_MMX,
     EncodeOpF30F 0xd3 0 IMM_NONE NACLi_INVALID, EncodeOp660F 0xd3 1 IMM_NONE NACLi_SSE2,
     EncodeOpF20F 0xd3 0 IMM_NONE NACLi_INVALID, EncodeOp0F 0xd4 1 IMM_NONE NACLi_SSE2,
     EncodeOpF30F 0xd4 0 IMM_NONE NACLi_INVALID, EncodeOp660F 0xd4 1 IMM_NONE NACLi_SSE2,
     EncodeOpF20F 0xd4 0 IMM_NONE NACLi_INVALID, EncodeOp0F 0xd5 1 IMM_NONE NACLi_MMX,
     EncodeOpF30F 0xd5 0 IMM_NONE NACLi_INVALID, EncodeOp660F 0xd5 1 IMM_NONE NACLi_SSE2,
     EncodeOpF20F 0xd5 0 IMM_NONE NACLi_INVALID, EncodeOp0F 0xd6 0 IMM_NONE NACLi_INVALID]"

definition BuildMetaTables_09 :: "build list" where
  "BuildMetaTables_09 =
    [EncodeOpF30F 0xd6 1 IMM_NONE NACLi_SSE2, EncodeOp660F 0xd6 1 IMM_NONE NACLi_SSE2,
     EncodeOpF20F 0xd6 1 IMM_NONE NACLi_SSE2, EncodeOp0F 0xd7 1 IMM_NONE NACLi_SSE,
     EncodeOpF30F 0xd7 0 IMM_NONE NACLi_INVALID, EncodeOp660F 0xd7 1 IMM_NONE NACLi_SSE2,
     EncodeOpF20F 0xd7 0 IMM_NONE NACLi_INVALID, EncodeOp0F 0xd8 1 IMM_NONE NACLi_MMX,
     EncodeOpF30F 0xd8 0 IMM_NONE NACLi_INVALID, EncodeOp660F 0xd8 1 IMM_NONE NACLi_SSE2,
     EncodeOpF20F 0xd8 0 IMM_NONE NACLi_INVALID, EncodeOp0F 0xd9 1 IMM_NONE NACLi_MMX,
     EncodeOpF30F 0xd9 0 IMM_NONE NACLi_INVALID, EncodeOp660F 0xd9 1 IMM_NONE NACLi_SSE2,
     EncodeOpF20F 0xd9 0 IMM_NONE NACLi_INVALID, EncodeOp0F 0xda 1 IMM_NONE NACLi_SSE,
     EncodeOpF30F 0xda 0 IMM_NONE NACLi_INVALID, EncodeOp660F 0xda 1 IMM_NONE NACLi_SSE2,
     EncodeOpF20F 0xda 0 IMM_NONE NACLi_INVALID, EncodeOp0F 0xdb 1 IMM_NONE NACLi_MMX,
     EncodeOpF30F 0xdb 0 IMM_NONE NACLi_INVALID, EncodeOp660F 0xdb 1 IMM_NONE NACLi_SSE2,
     EncodeOpF20F 0xdb 0 IMM_NONE NACLi_INVALID, EncodeOp0F 0xdc 1 IMM_NONE NACLi_MMX,
     EncodeOpF30F 0xdc 0 IMM_NONE NACLi_INVALID, EncodeOp660F 0xdc 1 IMM_NONE NACLi_SSE2,
     EncodeOpF20F 0xdc 0 IMM_NONE NACLi_INVALID, EncodeOp0F 0xdd 1 IMM_NONE NACLi_MMX,
     EncodeOpF30F 0xdd 0 IMM_NONE NACLi_INVALID, EncodeOp660F 0xdd 1 IMM_NONE NACLi_SSE2,
     EncodeOpF20F 0xdd 0 IMM_NONE NACLi_INVALID, EncodeOp0F 0xde 1 IMM_NONE NACLi_SSE,
     EncodeOpF30F 0xde 0 IMM_NONE NACLi_INVALID, EncodeOp660F 0xde 1 IMM_NONE NACLi_SSE2,
     EncodeOpF20F 0xde 0 IMM_NONE NACLi_INVALID, EncodeOp0F 0xdf 1 IMM_NONE NACLi_MMX,
     EncodeOpF30F 0xdf 0 IMM_NONE NACLi_INVALID, EncodeOp660F 0xdf 1 IMM_NONE NACLi_SSE2,
     EncodeOpF20F 0xdf 0 IMM_NONE NACLi_INVALID, EncodeOp0F 0xe0 1 IMM_NONE NACLi_SSE,
     EncodeOpF30F 0xe0 0 IMM_NONE NACLi_INVALID, EncodeOp660F 0xe0 1 IMM_NONE NACLi_SSE2,
     EncodeOpF20F 0xe0 0 IMM_NONE NACLi_INVALID, EncodeOp0F 0xe1 1 IMM_NONE NACLi_MMX,
     EncodeOpF30F 0xe1 0 IMM_NONE NACLi_INVALID, EncodeOp660F 0xe1 1 IMM_NONE NACLi_SSE2,
     EncodeOpF20F 0xe1 0 IMM_NONE NACLi_INVALID, EncodeOp0F 0xe2 1 IMM_NONE NACLi_MMX,
     EncodeOpF30F 0xe2 0 IMM_NONE NACLi_INVALID, EncodeOp660F 0xe2 1 IMM_NONE NACLi_SSE2,
     EncodeOpF20F 0xe2 0 IMM_NONE NACLi_INVALID, EncodeOp0F 0xe3 1 IMM_NONE NACLi_SSE,
     EncodeOpF30F 0xe3 0 IMM_NONE NACLi_INVALID, EncodeOp660F 0xe3 1 IMM_NONE NACLi_SSE2,
     EncodeOpF20F 0xe3 0 IMM_NONE NACLi_INVALID, EncodeOp0F 0xe4 1 IMM_NONE NACLi_SSE,
     EncodeOpF30F 0xe4 0 IMM_NONE NACLi_INVALID, EncodeOp660F 0xe4 1 IMM_NONE NACLi_SSE2,
     EncodeOpF20F 0xe4 0 IMM_NONE NACLi_INVALID, EncodeOp0F 0xe5 1 IMM_NONE NACLi_MMX,
     EncodeOpF30F 0xe5 0 IMM_NONE NACLi_INVALID, EncodeOp660F 0xe5 1 IMM_NONE NACLi_SSE2,
     EncodeOpF20F 0xe5 0 IMM_NONE NACLi_INVALID, EncodeOp0F 0xe6 0 IMM_NONE NACLi_INVALID,
     EncodeOpF30F 0xe6 1 IMM_NONE NACLi_SSE2, EncodeOp660F 0xe6 1 IMM_NONE NACLi_SSE2,
     EncodeOpF20F 0xe6 1 IMM_NONE NACLi_SSE2, EncodeOp0F 0xe7 1 IMM_NONE NACLi_SSE,
     EncodeOpF30F 0xe7 0 IMM_NONE NACLi_INVALID, EncodeOp660F 0xe7 1 IMM_NONE NACLi_SSE2,
     EncodeOpF20F 0xe7 0 IMM_NONE NACLi_INVALID, EncodeOp0F 0xe8 1 IMM_NONE NACLi_MMX,
     EncodeOpF30F 0xe8 0 IMM_NONE NACLi_INVALID, EncodeOp660F 0xe8 1 IMM_NONE NACLi_SSE2,
     EncodeOpF20F 0xe8 0 IMM_NONE NACLi_INVALID, EncodeOp0F 0xe9 1 IMM_NONE NACLi_MMX,
     EncodeOpF30F 0xe9 0 IMM_NONE NACLi_INVALID, EncodeOp660F 0xe9 1 IMM_NONE NACLi_SSE2,
     EncodeOpF20F 0xe9 0 IMM_NONE NACLi_INVALID, EncodeOp0F 0xea 1 IMM_NONE NACLi_SSE,
     EncodeOpF30F 0xea 0 IMM_NONE NACLi_INVALID, EncodeOp660F 0xea 1 IMM_NONE NACLi_SSE2,
     EncodeOpF20F 0xea 0 IMM_NONE NACLi_INVALID, EncodeOp0F 0xeb 1 IMM_NONE NACLi_MMX,
     EncodeOpF30F 0xeb 0 IMM_NONE NACLi_INVALID, EncodeOp660F 0xeb 1 IMM_NONE NACLi_SSE2,
     EncodeOpF20F 0xeb 0 IMM_NONE NACLi_INVALID, EncodeOp0F 0xec 1 IMM_NONE NACLi_MMX,
     EncodeOpF30F 0xec 0 IMM_NONE NACLi_INVALID, EncodeOp660F 0xec 1 IMM_NONE NACLi_SSE2,
     EncodeOpF20F 0xec 0 IMM_NONE NACLi_INVALID, EncodeOp0F 0xed 1 IMM_NONE NACLi_MMX,
     EncodeOpF30F 0xed 0 IMM_NONE NACLi_INVALID, EncodeOp660F 0xed 1 IMM_NONE NACLi_SSE2,
     EncodeOpF20F 0xed 0 IMM_NONE NACLi_INVALID, EncodeOp0F 0xee 1 IMM_NONE NACLi_SSE,
     EncodeOpF30F 0xee 0 IMM_NONE NACLi_INVALID, EncodeOp660F 0xee 1 IMM_NONE NACLi_SSE2,
     EncodeOpF20F 0xee 0 IMM_NONE NACLi_INVALID, EncodeOp0F 0xef 1 IMM_NONE NACLi_MMX,
     EncodeOpF30F 0xef 0 IMM_NONE NACLi_INVALID, EncodeOp660F 0xef 1 IMM_NONE NACLi_SSE2,
     EncodeOpF20F 0xef 0 IMM_NONE NACLi_INVALID, EncodeOp0F 0xf0 0 IMM_NONE NACLi_INVALID,
     EncodeOpF30F 0xf0 0 IMM_NONE NACLi_INVALID, EncodeOp660F 0xf0 0 IMM_NONE NACLi_INVALID,
     EncodeOpF20F 0xf0 1 IMM_NONE NACLi_SSE3, EncodeOp0F 0xf1 1 IMM_NONE NACLi_MMX,
     EncodeOpF30F 0xf1 0 IMM_NONE NACLi_INVALID, EncodeOp660F 0xf1 1 IMM_NONE NACLi_SSE2,
     EncodeOpF20F 0xf1 0 IMM_NONE NACLi_INVALID]"

definition BuildMetaTables_10 :: "build list" where
  "BuildMetaTables_10 =
    [EncodeOp0F 0xf2 1 IMM_NONE NACLi_MMX, EncodeOpF30F 0xf2 0 IMM_NONE NACLi_INVALID,
     EncodeOp660F 0xf2 1 IMM_NONE NACLi_SSE2, EncodeOpF20F 0xf2 0 IMM_NONE NACLi_INVALID,
     EncodeOp0F 0xf3 1 IMM_NONE NACLi_MMX, EncodeOpF30F 0xf3 0 IMM_NONE NACLi_INVALID,
     EncodeOp660F 0xf3 1 IMM_NONE NACLi_SSE2, EncodeOpF20F 0xf3 0 IMM_NONE NACLi_INVALID,
     EncodeOp0F 0xf4 1 IMM_NONE NACLi_SSE2, EncodeOpF30F 0xf4 0 IMM_NONE NACLi_INVALID,
     EncodeOp660F 0xf4 1 IMM_NONE NACLi_SSE2, EncodeOpF20F 0xf4 0 IMM_NONE NACLi_INVALID,
     EncodeOp0F 0xf5 1 IMM_NONE NACLi_MMX, EncodeOpF30F 0xf5 0 IMM_NONE NACLi_INVALID,
     EncodeOp660F 0xf5 1 IMM_NONE NACLi_SSE2, EncodeOpF20F 0xf5 0 IMM_NONE NACLi_INVALID,
     EncodeOp0F 0xf6 1 IMM_NONE NACLi_SSE, EncodeOpF30F 0xf6 0 IMM_NONE NACLi_INVALID,
     EncodeOp660F 0xf6 1 IMM_NONE NACLi_SSE2, EncodeOpF20F 0xf6 0 IMM_NONE NACLi_INVALID,
     EncodeOp0F 0xf7 1 IMM_NONE NACLi_SSE, EncodeOpF30F 0xf7 0 IMM_NONE NACLi_INVALID,
     EncodeOp660F 0xf7 1 IMM_NONE NACLi_SSE2, EncodeOpF20F 0xf7 0 IMM_NONE NACLi_INVALID,
     EncodeOp0F 0xf8 1 IMM_NONE NACLi_MMX, EncodeOpF30F 0xf8 0 IMM_NONE NACLi_INVALID,
     EncodeOp660F 0xf8 1 IMM_NONE NACLi_SSE2, EncodeOpF20F 0xf8 0 IMM_NONE NACLi_INVALID,
     EncodeOp0F 0xf9 1 IMM_NONE NACLi_MMX, EncodeOpF30F 0xf9 0 IMM_NONE NACLi_INVALID,
     EncodeOp660F 0xf9 1 IMM_NONE NACLi_SSE2, EncodeOpF20F 0xf9 0 IMM_NONE NACLi_INVALID,
     EncodeOp0F 0xfa 1 IMM_NONE NACLi_MMX, EncodeOpF30F 0xfa 0 IMM_NONE NACLi_INVALID,
     EncodeOp660F 0xfa 1 IMM_NONE NACLi_SSE2, EncodeOpF20F 0xfa 0 IMM_NONE NACLi_INVALID,
     EncodeOp0F 0xfb 1 IMM_NONE NACLi_SSE2, EncodeOpF30F 0xfb 0 IMM_NONE NACLi_INVALID,
     EncodeOp660F 0xfb 1 IMM_NONE NACLi_SSE2, EncodeOpF20F 0xfb 0 IMM_NONE NACLi_INVALID,
     EncodeOp0F 0xfc 1 IMM_NONE NACLi_MMX, EncodeOpF30F 0xfc 0 IMM_NONE NACLi_INVALID,
     EncodeOp660F 0xfc 1 IMM_NONE NACLi_SSE2, EncodeOpF20F 0xfc 0 IMM_NONE NACLi_INVALID,
     EncodeOp0F 0xfd 1 IMM_NONE NACLi_MMX, EncodeOpF30F 0xfd 0 IMM_NONE NACLi_INVALID,
     EncodeOp660F 0xfd 1 IMM_NONE NACLi_SSE2, EncodeOpF20F 0xfd 0 IMM_NONE NACLi_INVALID,
     EncodeOp0F 0xfe 1 IMM_NONE NACLi_MMX, EncodeOpF30F 0xfe 0 IMM_NONE NACLi_INVALID,
     EncodeOp660F 0xfe 1 IMM_NONE NACLi_SSE2, EncodeOpF20F 0xfe 0 IMM_NONE NACLi_INVALID,
     EncodeOp0F 0xff 0 IMM_NONE NACLi_INVALID, EncodeOpF30F 0xff 0 IMM_NONE NACLi_INVALID,
     EncodeOp660F 0xff 0 IMM_NONE NACLi_INVALID, EncodeOpF20F 0xff 0 IMM_NONE NACLi_INVALID,
     EncodeOp0F0F 0x90 1 IMM_NONE NACLi_3DNOW, EncodeOp0F0F 0x94 1 IMM_NONE NACLi_3DNOW,
     EncodeOp0F0F 0x96 1 IMM_NONE NACLi_3DNOW, EncodeOp0F0F 0x97 1 IMM_NONE NACLi_3DNOW,
     EncodeOp0F0F 0xa0 1 IMM_NONE NACLi_3DNOW, EncodeOp0F0F 0xa4 1 IMM_NONE NACLi_3DNOW,
     EncodeOp0F0F 0xa6 1 IMM_NONE NACLi_3DNOW, EncodeOp0F0F 0xa7 1 IMM_NONE NACLi_3DNOW,
     EncodeOp0F0F 0xb0 1 IMM_NONE NACLi_3DNOW, EncodeOp0F0F 0xb4 1 IMM_NONE NACLi_3DNOW,
     EncodeOp0F0F 0xb6 1 IMM_NONE NACLi_3DNOW, EncodeOp0F0F 0xb7 1 IMM_NONE NACLi_3DNOW,
     EncodeOp0F0F 0x0c 1 IMM_NONE NACLi_E3DNOW, EncodeOp0F0F 0x0d 1 IMM_NONE NACLi_3DNOW,
     EncodeOp0F0F 0x1c 1 IMM_NONE NACLi_E3DNOW, EncodeOp0F0F 0x1d 1 IMM_NONE NACLi_3DNOW,
     EncodeOp0F0F 0x8a 1 IMM_NONE NACLi_E3DNOW, EncodeOp0F0F 0x8e 1 IMM_NONE NACLi_E3DNOW,
     EncodeOp0F0F 0x9a 1 IMM_NONE NACLi_3DNOW, EncodeOp0F0F 0x9e 1 IMM_NONE NACLi_3DNOW,
     EncodeOp0F0F 0xaa 1 IMM_NONE NACLi_3DNOW, EncodeOp0F0F 0xae 1 IMM_NONE NACLi_3DNOW,
     EncodeOp0F0F 0xbb 1 IMM_NONE NACLi_E3DNOW, EncodeOp0F0F 0xbf 1 IMM_NONE NACLi_3DNOW,
     EncodeOp0F38 0x00 1 IMM_NONE NACLi_SSSE3, EncodeOp0F38 0x01 1 IMM_NONE NACLi_SSSE3,
     EncodeOp0F38 0x02 1 IMM_NONE NACLi_SSSE3, EncodeOp0F38 0x03 1 IMM_NONE NACLi_SSSE3,
     EncodeOp0F38 0x04 1 IMM_NONE NACLi_SSSE3, EncodeOp0F38 0x05 1 IMM_NONE NACLi_SSSE3,
     EncodeOp0F38 0x06 1 IMM_NONE NACLi_SSSE3, EncodeOp0F38 0x07 1 IMM_NONE NACLi_SSSE3,
     EncodeOp0F38 0x08 1 IMM_NONE NACLi_SSSE3, EncodeOp0F38 0x09 1 IMM_NONE NACLi_SSSE3,
     EncodeOp0F38 0x0a 1 IMM_NONE NACLi_SSSE3, EncodeOp0F38 0x0b 1 IMM_NONE NACLi_SSSE3,
     EncodeOp0F38 0x1c 1 IMM_NONE NACLi_SSSE3, EncodeOp0F38 0x1d 1 IMM_NONE NACLi_SSSE3,
     EncodeOp0F38 0x1e 1 IMM_NONE NACLi_SSSE3, EncodeOp0F3A 0x0f 1 IMM_FIXED1 NACLi_SSSE3]"

definition BuildMetaTables :: "RunMode \<Rightarrow> MetaTables" where
  "BuildMetaTables run =
     fold (\<lambda>call. call run)
       (BuildMetaTables_01 @ BuildMetaTables_02 @ BuildMetaTables_03 @ BuildMetaTables_04 @
        BuildMetaTables_05 @ BuildMetaTables_06 @ BuildMetaTables_07 @ BuildMetaTables_08 @
        BuildMetaTables_09 @ BuildMetaTables_10 @
        BuildSSE4Tables @ Buildx87Tables)
       InitializeGlobalTables"

subsection \<open>The generated tables\<close>

definition PrintDecodeTable :: "(u8 \<Rightarrow> OpInfo option) \<Rightarrow> u8 \<Rightarrow> OpInfo" where
  "PrintDecodeTable gtbl opc = (case gtbl opc of None \<Rightarrow> DecodeUndefinedInstInfo | Some e \<Rightarrow> e)"

definition PrintDecodeTables :: "MetaTables \<Rightarrow> DecodeTables" where
  "PrintDecodeTables mt =
     \<lparr>kPrefixTable = g_PrefixTable mt,
      kDecode1ByteOp = PrintDecodeTable (g_Op1ByteTable mt),
      kDecode0FXXOp = PrintDecodeTable (g_Op0FXXMetaTable mt),
      kDecode660FXXOp = PrintDecodeTable (g_Op660FXXTable mt),
      kDecodeF20FXXOp = PrintDecodeTable (g_OpF20FXXTable mt),
      kDecodeF30FXXOp = PrintDecodeTable (g_OpF30FXXTable mt),
      kDecode0F0FOp = PrintDecodeTable (g_Op0F0FTable mt),
      kDecode0F38Op = PrintDecodeTable (g_Op0F38Table mt),
      kDecode660F38Op = PrintDecodeTable (g_Op660F38Table mt),
      kDecodeF20F38Op = PrintDecodeTable (g_OpF20F38Table mt),
      kDecode0F3AOp = PrintDecodeTable (g_Op0F3ATable mt),
      kDecode660F3AOp = PrintDecodeTable (g_Op660F3ATable mt),
      kDecodeModRMOp = (\<lambda>grp. PrintDecodeTable (g_ModRMOpTable mt grp)),
      kDecodeX87Op = (\<lambda>tab. PrintDecodeTable (g_Op87 mt tab))\<rparr>"

definition nacl_tables :: DecodeTables where
  "nacl_tables = PrintDecodeTables (BuildMetaTables X86_32)"

definition PrintDecodeOpsKindTableBody :: "(u8 \<Rightarrow> DecodeOpsKind) \<Rightarrow> nat \<Rightarrow> string list option" where
  "PrintDecodeOpsKindTableBody gtbl gtbl_size =
     (if gtbl_size \<le> NCDTABLESIZE then those (map (\<lambda>opc. DecodeOpsKindName (gtbl (of_nat opc))) [0..<gtbl_size])
      else None)"

definition PrintDecodeOpsKindTable :: "(u8 \<Rightarrow> DecodeOpsKind) \<Rightarrow> string list option" where
  "PrintDecodeOpsKindTable gtbl = PrintDecodeOpsKindTableBody gtbl NCDTABLESIZE"

text \<open>The end of \<open>PrintDecodeTables\<close>: the operand size tables, which only a 64-bit decoder has.\<close>

definition PrintDecodeOpsKindTables :: "RunMode \<Rightarrow> MetaTables \<Rightarrow> string list list option" where
  "PrintDecodeOpsKindTables run mt =
     (if run = X86_64 then
        those ([PrintDecodeOpsKindTable (g_OpDecodeOpsKind mt), PrintDecodeOpsKindTable (g_Op0FDecodeOpsKind mt)] @
          map (\<lambda>grp. PrintDecodeOpsKindTableBody (g_ModRMOpDecodeOpsKind mt (of_nat grp)) kModRMOpcodeGroupSize)
            [0..<kNaClMRMGroupsRange])
      else Some [])"

subsection \<open>The program\<close>

text \<open>
  How the program ends (it exits with a status, or an \<open>assert\<close> fails) and the files it leaves: a
  decoding file holds the run mode named in its header, the decoding tables and the operand size
  tables. \<open>fopen_ok\<close> and \<open>time_ok\<close> say which of the calls of \<open>fopen\<close> and \<open>time\<close> succeed.
\<close>

datatype exit_status = Exit int | Abort

datatype gen_file = Empty_file | Decode_file string DecodeTables "string list list" | Disasm_file string

definition PrintHeader :: "bool \<Rightarrow> RunMode \<Rightarrow> exit_status + string" where
  "PrintHeader time_ok run =
     (if \<not> time_ok then Inl (Exit (-1))
      else case RunModeName run of None \<Rightarrow> Inl Abort | Some name \<Rightarrow> Inr name)"

fun GrokFlags_loop :: "string list \<Rightarrow> RunMode \<Rightarrow> RunMode \<times> string list" where
  "GrokFlags_loop [] run = (run, [])"
| "GrokFlags_loop (a # argv) run =
     (if a = ''-m32'' then GrokFlags_loop argv X86_32
      else if a = ''-m64'' then GrokFlags_loop argv X86_64
      else map_prod id ((#) a) (GrokFlags_loop argv run))"

definition GrokFlags :: "string list \<Rightarrow> RunMode \<Rightarrow> RunMode \<times> string list" where
  "GrokFlags argv run =
     (case argv of [] \<Rightarrow> (run, []) | a # argv \<Rightarrow> map_prod id ((#) a) (GrokFlags_loop argv run))"

definition main :: "(string \<Rightarrow> bool) \<Rightarrow> (nat \<Rightarrow> bool) \<Rightarrow> string list \<Rightarrow> exit_status \<times> (string \<rightharpoonup> gen_file)" where
  "main fopen_ok time_ok argv =
     (let (run, args) = GrokFlags argv RunModeSize
      in if length args \<noteq> 3 \<or> run = RunModeSize then (Exit (-1), Map.empty)
         else
           let mt = BuildMetaTables run
           in if assert_failed mt then (Abort, Map.empty)
              else if \<not> fopen_ok (args ! 1) then (Exit (-1), Map.empty)
              else
                let fs = [args ! 1 \<mapsto> Empty_file]
                in case PrintHeader (time_ok 0) run of
                     Inl r \<Rightarrow> (r, fs)
                   | Inr name \<Rightarrow>
                       (case PrintDecodeOpsKindTables run mt of
                          None \<Rightarrow> (Abort, fs)
                        | Some kinds \<Rightarrow>
                            let fs = fs(args ! 1 \<mapsto> Decode_file name (PrintDecodeTables mt) kinds)
                            in if \<not> fopen_ok (args ! 2) then (Exit (-1), fs)
                               else
                                 let fs = fs(args ! 2 \<mapsto> Empty_file)
                                 in case PrintHeader (time_ok 1) run of
                                      Inl r \<Rightarrow> (r, fs)
                                    | Inr name \<Rightarrow> (Exit 0, fs(args ! 2 \<mapsto> Disasm_file name))))"

subsection \<open>The asserts of the generator hold\<close>

text \<open>The corresponding registers have names of the same length.\<close>

lemma assert_ModedGenRegs [simp]: "run \<noteq> RunModeSize \<Longrightarrow> call_ModedGenRegs run mt = mt"
  by (cases run)
    (simp_all add: call_ModedGenRegs_def ModedGenRegs_def NUM_GP_X86_32_REGS_def gp_x86_32_regs_def
      corresp_gp_x86_64_regs_def Let_def eval_nat_numeral)

lemma assert_Encode [simp]:
  "assert_failed (EncodeModedOp b m i t md run mt) = assert_failed mt"
  "assert_failed (EncodeModedOp0F b m i t md run mt) = assert_failed mt"
  "assert_failed (EncodeOp b m i t run mt) = assert_failed mt" "run \<noteq> RunModeSize \<Longrightarrow> assert_failed (EncodeOpRegs b m i t run mt) = assert_failed mt"
  "assert_failed (EncodeOp0F b m i t run mt) = assert_failed mt" "assert_failed (EncodeOp660F b m i t run mt) = assert_failed mt"
  "assert_failed (EncodeOpF20F b m i t run mt) = assert_failed mt" "assert_failed (EncodeOpF30F b m i t run mt) = assert_failed mt"
  "assert_failed (EncodeOp0F0F b m i t run mt) = assert_failed mt" "assert_failed (EncodeOp0F38 b m i t run mt) = assert_failed mt"
  "assert_failed (EncodeOp660F38 b m i t run mt) = assert_failed mt" "assert_failed (EncodeOpF20F38 b m i t run mt) = assert_failed mt"
  "assert_failed (EncodeOp0F3A b m i t run mt) = assert_failed mt" "assert_failed (EncodeOp660F3A b m i t run mt) = assert_failed mt"
  by (simp_all add: EncodeModedOp_def EncodeModedOp0F_def EncodeOp_def EncodeOpRegs_def EncodeOp0F_def
      EncodeOp660F_def EncodeModedOp660F_def EncodeOpF20F_def EncodeModedOpF20F_def
      EncodeOpF30F_def EncodeModedOpF30F_def EncodeOp0F0F_def EncodeModedOp0F0F_def
      EncodeOp0F38_def EncodeModedOp0F38_def EncodeOp660F38_def EncodeModedOp660F38_def
      EncodeOpF20F38_def EncodeModedOpF20F38_def EncodeOp0F3A_def EncodeModedOp0F3A_def
      EncodeOp660F3A_def EncodeModedOp660F3A_def)

lemma assert_other [simp]:
  "assert_failed (EncodePrefixName b n run mt) = assert_failed mt" "assert_failed (EncodeModedPrefixName b n md run mt) = assert_failed mt"
  "assert_failed (SetOpDefaultSize64 b run mt) = assert_failed mt" "assert_failed (SetOpForceSize64 b run mt) = assert_failed mt"
  "assert_failed (SetOp0FDefaultSize64 b run mt) = assert_failed mt" "assert_failed (SetOp0FForceSize64 b run mt) = assert_failed mt"
  "assert_failed (SetModRMOpDefaultSize64 g b run mt) = assert_failed mt" "assert_failed (SetModRMOpForceSize64 g b run mt) = assert_failed mt"
  "assert_failed (EncodeModRMOp g k t run mt) = assert_failed mt" "run \<noteq> RunModeSize \<Longrightarrow> assert_failed (EncodeModRMOpRegs g k t run mt) = assert_failed mt"
  "run \<noteq> RunModeSize \<Longrightarrow> assert_failed (ALUOperandVariants00_05 b t run mt) = assert_failed mt" "assert_failed (Encode87Op tab s1 s2 run mt) = assert_failed mt"
  by (simp_all add: EncodePrefixName_def EncodeModedPrefixName_def SetOpDefaultSize64_def
      SetOpForceSize64_def SetOp0FDefaultSize64_def SetOp0FForceSize64_def SetModRMOpDefaultSize64_def
      SetModRMOpForceSize64_def EncodeModRMOp_def EncodeModRMOpRegs_def EncodeModedModRMOp_def
      ALUOperandVariants00_05_def Encode87Op_def EncodeModed87Op_def Let_def)

lemma assert_OneReg [simp]: "assert_failed (OneRegVariants00_07 b t h run mt) = assert_failed mt"
proof -
  have "assert_failed (OneRegVariant b t h run mt) = assert_failed mt" for b mt
    by (simp add: OneRegVariant_def Let_def)
  then have "assert_failed (fold (\<lambda>i. OneRegVariant (b + of_nat i) t h run) ks mt) = assert_failed mt" for ks mt
    by (induction ks arbitrary: mt) simp_all
  then show ?thesis by (simp add: OneRegVariants00_07_def)
qed

lemma assert_fix_FCMOV [simp]: "assert_failed (fix_FCMOV i run mt) = assert_failed mt"
  by (simp add: fix_FCMOV_def)

text \<open>The asserts: an entry gets its group right after it was made.\<close>

lemma assert_Set [simp]:
  "g_Op1ByteTable mt b \<noteq> None \<Longrightarrow> assert_failed (SetOpOpInMRM b g run mt) = assert_failed mt"
  "g_Op0FXXMetaTable mt b \<noteq> None \<Longrightarrow> assert_failed (SetOp0FOpInMRM b g run mt) = assert_failed mt"
  "g_Op660FXXTable mt b \<noteq> None \<Longrightarrow> assert_failed (SetOp66OpInMRM b g run mt) = assert_failed mt"
  by (auto simp: SetOpOpInMRM_def SetModedOpOpInMRM_def SetOp0FOpInMRM_def SetModedOp0FOpInMRM_def
      SetOp66OpInMRM_def SetModedOp66OpInMRM_def)

lemma defined_entries [simp]:
  "g_Op1ByteTable (EncodeOp b m i t run mt) b \<noteq> None"
  "g_Op0FXXMetaTable (EncodeOp0F b m i t run mt) b \<noteq> None"
  "g_Op660FXXTable (EncodeOp660F b m i t run mt) b \<noteq> None"
  "g_Op0FXXMetaTable (EncodeOp660F c m i t run mt) = g_Op0FXXMetaTable mt"
  "g_Op0FXXMetaTable (EncodeOpF20F c m i t run mt) = g_Op0FXXMetaTable mt"
  "g_Op0FXXMetaTable (EncodeOpF30F c m i t run mt) = g_Op0FXXMetaTable mt"
  "g_Op660FXXTable (EncodeOpF20F c m i t run mt) = g_Op660FXXTable mt"
  "g_Op660FXXTable (EncodeOpF30F c m i t run mt) = g_Op660FXXTable mt"
  by (simp_all add: EncodeOp_def EncodeModedOp_def EncodeOp0F_def EncodeModedOp0F_def
      EncodeOp660F_def EncodeModedOp660F_def EncodeOpF20F_def EncodeModedOpF20F_def
      EncodeOpF30F_def EncodeModedOpF30F_def)

lemma defined_SetOp0F [simp]: "g_Op660FXXTable (SetOp0FOpInMRM c g run mt) = g_Op660FXXTable mt"
  by (simp add: SetOp0FOpInMRM_def SetModedOp0FOpInMRM_def split: option.splits)

lemma assert_BuildMetaTables_01: "run \<noteq> RunModeSize \<Longrightarrow> assert_failed (fold (\<lambda>c. c run) BuildMetaTables_01 mt) = assert_failed mt"
  by (simp add: BuildMetaTables_01_def)

lemma assert_BuildMetaTables_02: "run \<noteq> RunModeSize \<Longrightarrow> assert_failed (fold (\<lambda>c. c run) BuildMetaTables_02 mt) = assert_failed mt"
  by (simp add: BuildMetaTables_02_def)

lemma assert_BuildMetaTables_03: "run \<noteq> RunModeSize \<Longrightarrow> assert_failed (fold (\<lambda>c. c run) BuildMetaTables_03 mt) = assert_failed mt"
  by (simp add: BuildMetaTables_03_def)

lemma assert_BuildMetaTables_04: "run \<noteq> RunModeSize \<Longrightarrow> assert_failed (fold (\<lambda>c. c run) BuildMetaTables_04 mt) = assert_failed mt"
  by (simp add: BuildMetaTables_04_def)

lemma assert_BuildMetaTables_05: "run \<noteq> RunModeSize \<Longrightarrow> assert_failed (fold (\<lambda>c. c run) BuildMetaTables_05 mt) = assert_failed mt"
  by (simp add: BuildMetaTables_05_def)

lemma assert_BuildMetaTables_06: "run \<noteq> RunModeSize \<Longrightarrow> assert_failed (fold (\<lambda>c. c run) BuildMetaTables_06 mt) = assert_failed mt"
  by (simp add: BuildMetaTables_06_def)

lemma assert_BuildMetaTables_07: "run \<noteq> RunModeSize \<Longrightarrow> assert_failed (fold (\<lambda>c. c run) BuildMetaTables_07 mt) = assert_failed mt"
  by (simp add: BuildMetaTables_07_def)

lemma assert_BuildMetaTables_08: "run \<noteq> RunModeSize \<Longrightarrow> assert_failed (fold (\<lambda>c. c run) BuildMetaTables_08 mt) = assert_failed mt"
  by (simp add: BuildMetaTables_08_def)

lemma assert_BuildMetaTables_09: "run \<noteq> RunModeSize \<Longrightarrow> assert_failed (fold (\<lambda>c. c run) BuildMetaTables_09 mt) = assert_failed mt"
  by (simp add: BuildMetaTables_09_def)

lemma assert_BuildMetaTables_10: "run \<noteq> RunModeSize \<Longrightarrow> assert_failed (fold (\<lambda>c. c run) BuildMetaTables_10 mt) = assert_failed mt"
  by (simp add: BuildMetaTables_10_def)

lemma assert_BuildSSE4Tables: "run \<noteq> RunModeSize \<Longrightarrow> assert_failed (fold (\<lambda>c. c run) BuildSSE4Tables mt) = assert_failed mt"
  by (simp add: BuildSSE4Tables_def)

lemma assert_Buildx87Tables: "run \<noteq> RunModeSize \<Longrightarrow> assert_failed (fold (\<lambda>c. c run) Buildx87Tables mt) = assert_failed mt"
  by (simp add: Buildx87Tables_def)

lemma BuildMetaTables_asserts: "run \<noteq> RunModeSize \<Longrightarrow> \<not> assert_failed (BuildMetaTables run)"
  by (simp add: BuildMetaTables_def assert_BuildMetaTables_01 assert_BuildMetaTables_02 assert_BuildMetaTables_03
      assert_BuildMetaTables_04 assert_BuildMetaTables_05 assert_BuildMetaTables_06 assert_BuildMetaTables_07
      assert_BuildMetaTables_08 assert_BuildMetaTables_09 assert_BuildMetaTables_10 assert_BuildSSE4Tables
      assert_Buildx87Tables InitializeGlobalTables_def)

lemma those_all: "\<forall>x\<in>set xs. f x \<noteq> None \<Longrightarrow> \<exists>ys. those (map f xs) = Some ys"
  by (induction xs) auto

lemma kinds_printed: "\<exists>names. PrintDecodeOpsKindTableBody gtbl n = Some names" if "n \<le> NCDTABLESIZE"
proof -
  have "DecodeOpsKindName k \<noteq> None" for k by (cases k) (simp_all add: DecodeOpsKindName_def)
  then show ?thesis using that by (auto simp: PrintDecodeOpsKindTableBody_def intro: those_all)
qed

lemma kind_tables_printed: "\<exists>kinds. PrintDecodeOpsKindTables run mt = Some kinds"
proof -
  have "kModRMOpcodeGroupSize \<le> NCDTABLESIZE" by (simp add: kModRMOpcodeGroupSize_def NCDTABLESIZE_def)
  from kinds_printed [OF this] obtain names where
    "those (map (\<lambda>grp. PrintDecodeOpsKindTableBody (g_ModRMOpDecodeOpsKind mt (of_nat grp)) kModRMOpcodeGroupSize)
       [0..<kNaClMRMGroupsRange]) = Some names" using those_all by (metis option.distinct(1))
  moreover obtain n1 n2 where "PrintDecodeOpsKindTable (g_OpDecodeOpsKind mt) = Some n1"
    "PrintDecodeOpsKindTable (g_Op0FDecodeOpsKind mt) = Some n2"
    using kinds_printed [of NCDTABLESIZE] unfolding PrintDecodeOpsKindTable_def by blast
  ultimately show ?thesis by (simp add: PrintDecodeOpsKindTables_def)
qed



end
