(* ===== verification/NC_Tables_Safe.thy ===== *)
theory NC_Tables_Safe
  imports Validate_Image NC_Decode_Table
begin

text \<open>
  What the validator needs of the generated tables. \<open>entries_ok\<close> is a condition on single table
  entries; \<open>entries_ok_tables_ok\<close> derives from it that the operands of jumps and of the masking
  \<open>and\<close> lie inside their instructions. The locale \<open>table_client\<close> is the induction principle of the
  generator: a condition on entries that each call of \<open>BuildMetaTables\<close> respects holds of the generated
  tables. It is interpreted twice: for \<open>entries_ok\<close> and for the forbidden instructions.
\<close>

subsection \<open>Conditions on table entries\<close>

definition jump_type :: "NaClInstType \<Rightarrow> bool" where
  "jump_type t \<longleftrightarrow> t = NACLi_JMP8 \<or> t = NACLi_JMPZ \<or> t = NACLi_INDIRECT"

definition entry_1byte_ok :: "u8 \<Rightarrow> OpInfo \<Rightarrow> bool" where
  "entry_1byte_ok b e \<longleftrightarrow>
     (insttype e = NACLi_JMP8 \<longrightarrow> op_immtype e = IMM_FIXED1) \<and>
     (insttype e = NACLi_JMPZ \<longrightarrow> op_immtype e = IMM_DATAV) \<and>
     (insttype e = NACLi_INDIRECT \<longrightarrow> hasmrmbyte e \<noteq> 0) \<and>
     (b = 0x83 \<longrightarrow> insttype e = NACLi_UNDEFINED \<and> hasmrmbyte e = 0 \<or> hasmrmbyte e \<noteq> 0 \<and> op_immtype e = IMM_FIXED1)"

definition entry_0F_ok :: "OpInfo \<Rightarrow> bool" where
  "entry_0F_ok e \<longleftrightarrow>
     insttype e \<noteq> NACLi_JMP8 \<and> insttype e \<noteq> NACLi_INDIRECT \<and> (insttype e = NACLi_JMPZ \<longrightarrow> op_immtype e = IMM_DATAV)"

definition entries_ok :: "DecodeTables \<Rightarrow> bool" where
  "entries_ok T \<longleftrightarrow>
     (\<forall>b. entry_1byte_ok b (kDecode1ByteOp T b)) \<and> (\<forall>b. entry_0F_ok (kDecode0FXXOp T b)) \<and>
     (\<forall>b. \<not> jump_type (insttype (kDecode660FXXOp T b)) \<and> \<not> jump_type (insttype (kDecodeF20FXXOp T b)) \<and>
          \<not> jump_type (insttype (kDecodeF30FXXOp T b)) \<and> \<not> jump_type (insttype (kDecode0F0FOp T b)) \<and>
          \<not> jump_type (insttype (kDecode0F38Op T b)) \<and> \<not> jump_type (insttype (kDecode660F38Op T b)) \<and>
          \<not> jump_type (insttype (kDecodeF20F38Op T b)) \<and> \<not> jump_type (insttype (kDecode0F3AOp T b)) \<and>
          \<not> jump_type (insttype (kDecode660F3AOp T b))) \<and>
     (\<forall>g b. insttype (kDecodeModRMOp T g b) \<noteq> NACLi_JMP8 \<and> insttype (kDecodeModRMOp T g b) \<noteq> NACLi_JMPZ) \<and>
     (\<forall>g b. \<not> jump_type (insttype (kDecodeX87Op T g b)))"

lemma prefix_loop_mask:
  "prefixbytes (inst m) = 0 \<longrightarrow> prefixmask (inst m) = 0 \<Longrightarrow> unat (prefixbytes (inst m)) + k < 256 \<Longrightarrow>
   prefixbytes (inst (ConsumePrefixBytes_loop T mem k m)) = 0 \<longrightarrow>
   prefixmask (inst (ConsumePrefixBytes_loop T mem k m)) = 0"
proof (induction k arbitrary: m)
  case (Suc k)
  have "unat (prefixbytes (inst m) + 1) = unat (prefixbytes (inst m)) + 1"
    using Suc.prems(2) by (subst unat_add_no_wrap) simp_all
  then have u: "unat (prefixbytes (inst m) + 1) = unat (prefixbytes (inst m)) + 1" .
  then have nz: "prefixbytes (inst m) + 1 \<noteq> 0" by (metis Suc_eq_plus1 nat.simps(3) unat_0)
  show ?case
    using Suc.prems u nz by (simp add: Let_def NACL_TARGET_SUBARCH_def Suc.IH)
qed simp

lemma prefix_stage:
  "hasopbyte2 (inst (ConsumePrefixBytes_loop T mem k m)) = hasopbyte2 (inst m)"
  by (induction k arbitrary: m) (simp_all add: Let_def NACL_TARGET_SUBARCH_def)

lemma some_prefix:
  assumes "(x :: u32) AND (kPrefixDATA16 OR kPrefixREPNE OR kPrefixREP) \<noteq> 0"
  shows "x AND kPrefixDATA16 \<noteq> 0 \<or> x AND kPrefixREPNE \<noteq> 0 \<or> x AND kPrefixREP \<noteq> 0"
  using assms by (auto simp: bit.conj_disj_distrib)

lemma no_data16:
  assumes "(x :: u32) AND (kPrefixDATA16 OR kPrefixREPNE OR kPrefixREP) = 0"
  shows "x AND kPrefixDATA16 = 0"
  using assms by (simp add: bit.conj_disj_distrib or_eq_0_iff)

text \<open>Where the opcode stage takes its entry from.\<close>

lemma opcode_stage:
  assumes e: "entries_ok T" and h: "hasopbyte2 (inst m) = 0" and r: "ConsumeOpcodeBytes T cb mem m v = (m', v')"
  shows "prefixmask (inst m') = prefixmask (inst m) \<and> prefixbytes (inst m') = prefixbytes (inst m) \<and>
    immtype (inst m') = op_immtype (opinfo m') \<and>
    (if mem (nextbyte m) = kTwoByteOpcodeByte1
     then nextbyte m + 2 \<le> nextbyte m' \<and>
       (\<not> jump_type (insttype (opinfo m')) \<or>
        insttype (opinfo m') = NACLi_JMPZ \<and> op_immtype (opinfo m') = IMM_DATAV \<and> prefixmask (inst m') AND kPrefixDATA16 = 0)
     else nextbyte m' = nextbyte m + 1 \<and> opinfo m' = kDecode1ByteOp T (mem (nextbyte m)) \<and> hasopbyte2 (inst m') = 0)"
proof (cases "mem (nextbyte m) = kTwoByteOpcodeByte1")
  case False
  then show ?thesis using r h by (auto simp: ConsumeOpcodeBytes_def Let_def)
next
  case True
  let ?m = "m\<lparr>opinfo := kDecode1ByteOp T (mem (nextbyte m)), nextbyte := nextbyte m + 1\<rparr>"
  obtain p w where g: "GetExtendedOpInfo T cb ?m (mem (nextbyte m + 1)) v = (p, w)" by fastforce
  have p: "\<not> jump_type (insttype p) \<or>
      insttype p = NACLi_JMPZ \<and> op_immtype p = IMM_DATAV \<and> prefixmask (inst m) AND kPrefixDATA16 = 0"
    using g e some_prefix [of "prefixmask (inst m)"] no_data16 [of "prefixmask (inst m)"]
    by (auto simp: GetExtendedOpInfo_def Let_def entries_ok_def entry_0F_ok_def jump_type_def split: if_splits)
  let ?c = "m\<lparr>opinfo := p, nextbyte := nextbyte m + 1 + 1 + 1, inst := (inst m)\<lparr>hasopbyte2 := 1, hasopbyte3 := 1\<rparr>\<rparr>"
  obtain m3 w3 where 3: "Consume3ByteOpcode T cb (mem (nextbyte m + 1)) (mem (nextbyte m + 1 + 1)) ?c w = (m3, w3)"
    by fastforce
  have m3: "inst m3 = inst ?c \<and> nextbyte m3 = nextbyte m + 3 \<and>
      (opinfo m3 = p \<or> \<not> jump_type (insttype (opinfo m3)))"
    using 3 e by (auto simp: Consume3ByteOpcode_def Let_def entries_ok_def split: if_splits)
  show ?thesis
  proof (cases "insttype p = NACLi_3BYTE")
    case tb: True
    then have "m' = m3\<lparr>inst := (inst m3)\<lparr>immtype := op_immtype (opinfo m3)\<rparr>\<rparr>"
      using r True g 3 by (simp add: ConsumeOpcodeBytes_def Let_def)
    then show ?thesis using True m3 tb by (auto simp: jump_type_def)
  next
    case False
    then show ?thesis using r True g p by (auto simp: ConsumeOpcodeBytes_def Let_def)
  qed
qed


lemma ModRM_dispbytes_same:
  "opinfo (fst (ModRM_dispbytes cb b m v)) = opinfo m \<and> nextbyte (fst (ModRM_dispbytes cb b m v)) = nextbyte m \<and>
   prefixmask (inst (fst (ModRM_dispbytes cb b m v))) = prefixmask (inst m) \<and>
   immtype (inst (fst (ModRM_dispbytes cb b m v))) = immtype (inst m) \<and>
   hasopbyte2 (inst (fst (ModRM_dispbytes cb b m v))) = hasopbyte2 (inst m)"
  by (simp add: ModRM_dispbytes_def Let_def)

lemma ModRM_opinmrm_same:
  "nextbyte (ModRM_opinmrm T b m) = nextbyte m \<and> prefixmask (inst (ModRM_opinmrm T b m)) = prefixmask (inst m) \<and>
   hasopbyte2 (inst (ModRM_opinmrm T b m)) = hasopbyte2 (inst m) \<and>
   (immtype (inst m) = IMM_FIXED1 \<or> immtype (inst m) = IMM_DATAV \<longrightarrow>
      immtype (inst (ModRM_opinmrm T b m)) = immtype (inst m)) \<and>
   (opinfo (ModRM_opinmrm T b m) = opinfo m \<or> (\<exists>g. opinfo (ModRM_opinmrm T b m) = kDecodeModRMOp T g (modrm_opcode b)))"
  by (auto simp: ModRM_opinmrm_def Let_def)

lemma GetX87OpInfo_same:
  "nextbyte (fst (GetX87OpInfo T cb mem m v)) = nextbyte m \<and> inst (fst (GetX87OpInfo T cb mem m v)) = inst m \<and>
   (opinfo (fst (GetX87OpInfo T cb mem m v)) = opinfo m \<or> (\<exists>g b. opinfo (fst (GetX87OpInfo T cb mem m v)) = kDecodeX87Op T g b))"
  by (auto simp: GetX87OpInfo_def Let_def)

lemma modrm_stage:
  assumes e: "entries_ok T" and r: "ConsumeModRM T cb mem m v = (m', v')"
  shows "prefixmask (inst m') = prefixmask (inst m) \<and> hasopbyte2 (inst m') = hasopbyte2 (inst m) \<and>
    (immtype (inst m) = IMM_FIXED1 \<or> immtype (inst m) = IMM_DATAV \<longrightarrow> immtype (inst m') = immtype (inst m)) \<and>
    (if hasmrmbyte (opinfo m) = 0 then nextbyte m' = nextbyte m \<and> opinfo m' = opinfo m
     else nextbyte m' = nextbyte m + 1 \<and>
       (opinfo m' = opinfo m \<or> insttype (opinfo m') \<noteq> NACLi_JMP8 \<and> insttype (opinfo m') \<noteq> NACLi_JMPZ))"
proof (cases "hasmrmbyte (opinfo m) = 0")
  case True
  then show ?thesis using r by (simp add: ConsumeModRM_def)
next
  case False
  let ?b = "mem (nextbyte m)"
  let ?a = "m\<lparr>inst := (inst m)\<lparr>mrm := ?b\<rparr>, nextbyte := nextbyte m + 1\<rparr>"
  obtain n w where x: "(if insttype (opinfo ?a) = NACLi_X87 then GetX87OpInfo T cb mem ?a v else (?a, v)) = (n, w)"
    by fastforce
  have n: "nextbyte n = nextbyte m + 1 \<and> inst n = inst ?a \<and> (opinfo n = opinfo m \<or> \<not> jump_type (insttype (opinfo n)))"
    using x GetX87OpInfo_same [of T cb mem ?a v] e by (auto simp: entries_ok_def split: if_splits)
  have "m' = fst (ModRM_dispbytes cb ?b (ModRM_opinmrm T ?b n) w)"
    using r False x by (simp only: ConsumeModRM_def Let_def prod.case if_False simp_thms not_False_eq_True if_True) simp
  then show ?thesis
    using False n ModRM_dispbytes_same [of cb ?b "ModRM_opinmrm T ?b n" w] ModRM_opinmrm_same [of T ?b n] e
    by (auto simp: entries_ok_def jump_type_def)
qed

lemma sib_stage:
  assumes "ConsumeSIB cb mem m v = (m', v')"
  shows "opinfo m' = opinfo m \<and> prefixmask (inst m') = prefixmask (inst m) \<and> immtype (inst m') = immtype (inst m) \<and>
    hasopbyte2 (inst m') = hasopbyte2 (inst m) \<and> nextbyte m \<le> nextbyte m'"
  using assms by (auto simp: ConsumeSIB_def Let_def split: if_splits)

lemma id_stage:
  assumes "ConsumeID cb m v = (m', v')"
  shows "opinfo m' = opinfo m \<and> prefixmask (inst m') = prefixmask (inst m) \<and> hasopbyte2 (inst m') = hasopbyte2 (inst m) \<and>
    nextbyte m \<le> nextbyte m' \<and>
    (immtype (inst m) = IMM_FIXED1 \<longrightarrow> nextbyte m + 1 \<le> nextbyte m') \<and>
    (immtype (inst m) = IMM_DATAV \<longrightarrow> prefixmask (inst m) AND kPrefixDATA16 = 0 \<longrightarrow> nextbyte m + 4 \<le> nextbyte m')"
  using assms by (auto simp: ConsumeID_def Let_def)

lemma jmpz_no_data16:
  assumes "prefix_usage_ok m" and "insttype (opinfo m) = NACLi_JMPZ" and "hasopbyte2 (inst m) = 0"
    and "prefixbytes (inst m) = 0 \<longrightarrow> prefixmask (inst m) = 0"
  shows "prefixmask (inst m) AND kPrefixDATA16 = 0"
proof (cases "prefixbytes (inst m) = 0")
  case False
  then have "prefixmask (inst m) AND NOT (kPrefixSEGCS OR kPrefixSEGDS) = 0"
    using assms by (simp add: prefix_usage_ok_def split: if_splits)
  moreover have "prefixmask (inst m) AND kPrefixDATA16 =
      (prefixmask (inst m) AND NOT (kPrefixSEGCS OR kPrefixSEGDS)) AND kPrefixDATA16"
    by (simp add: nacl_consts and.assoc)
  ultimately show ?thesis by (simp only: and_zero_eq zero_and_eq)
qed (use assms(4) in simp)


text \<open>The stages of the decoding of one instruction.\<close>

lemma decode_stages:
  assumes e: "entries_ok T"
  fixes mem v p
  defines "d \<equiv> decode_at T mem v p" and "cb \<equiv> default_callbacks :: unit NCDecodeCallbacks"
  obtains m1 m2 m3 m4 m5 where "d = MaybeGet3ByteOpInfo T mem m5" and "inst d = inst m5" and "nextbyte m5 = p + len d"
    and "nextbyte m1 = p + unat (prefixbytes (inst m1))"
    and "prefixbytes (inst m1) = 0 \<longrightarrow> prefixmask (inst m1) = 0" and "hasopbyte2 (inst m1) = 0"
    and "ConsumeOpcodeBytes T cb mem m1 () = (m2, ())" and "ConsumeModRM T cb mem m2 () = (m3, ())"
    and "ConsumeSIB cb mem m3 () = (m4, ())" and "ConsumeID cb m4 () = (m5, ())"
    and "prefixbytes (inst m5) = prefixbytes (inst m1)" and "prefixmask (inst m5) = prefixmask (inst m1)"
    and "kPrefixTable T (mem p) = 0 \<longrightarrow> prefixbytes (inst m1) = 0"
proof -
  define m where "m = (init_entry 0)\<lparr>mpc := p, nextbyte := p, vpc := v\<rparr>"
  define m1 where "m1 = ConsumePrefixBytes T mem (InitDecoder m)"
  obtain m2 where 2: "ConsumeOpcodeBytes T cb mem m1 () = (m2, ())" by (metis surj_pair old.unit.exhaust)
  obtain m3 where 3: "ConsumeModRM T cb mem m2 () = (m3, ())" by (metis surj_pair old.unit.exhaust)
  obtain m4 where 4: "ConsumeSIB cb mem m3 () = (m4, ())" by (metis surj_pair old.unit.exhaust)
  obtain m5 where 5: "ConsumeID cb m4 () = (m5, ())" by (metis surj_pair old.unit.exhaust)
  have m0: "nextbyte m = mpc m" "mpc m = p" by (simp_all add: m_def)
  have d: "d = MaybeGet3ByteOpInfo T mem m5"
    using 2 3 4 5 by (simp add: d_def decode_at_def DecodeInst_def cb_def flip: m1_def m_def)
  have len: "nextbyte m5 = p + len d"
    using DecodeInst_end(6) [OF m0(1), of T cb mem "()"] d m0 unfolding d_def decode_at_def
    by (simp add: cb_def flip: m_def)
  have k: "nextbyte m1 = p + unat (prefixbytes (inst m1))"
    "prefixbytes (inst m1) = 0 \<longrightarrow> prefixmask (inst m1) = 0" and h2: "hasopbyte2 (inst m1) = 0"
    using prefixbytes_loop [of "InitDecoder m" 4 T mem] prefix_loop_mask [of "InitDecoder m" 4 T mem] m0
    by (simp_all add: m1_def ConsumePrefixBytes_def kMaxPrefixBytes_def prefix_stage InitDecoder_def)
  have "prefixbytes (inst m5) = prefixbytes (inst m1)" "prefixmask (inst m5) = prefixmask (inst m1)"
    using opcode_stage [OF e h2 2] modrm_stage [OF e 3] sib_stage [OF 4] id_stage [OF 5]
      keeps_prefixbytes(1) [of T cb mem m2 "()"] keeps_prefixbytes(2) [of cb mem m3 "()"]
      keeps_prefixbytes(3) [of cb m4 "()"] by (simp_all add: 3 4 5)
  moreover have "kPrefixTable T (mem p) = 0 \<longrightarrow> prefixbytes (inst m1) = 0"
    by (simp add: m1_def m_def ConsumePrefixBytes_def kMaxPrefixBytes_def eval_nat_numeral InitDecoder_def)
  ultimately show thesis using that [OF d _ len k h2 2 3 4 5] by (simp add: d)
qed

lemma entries_ok_tables_ok:
  assumes e: "entries_ok T"
  shows "tables_ok T"
  unfolding tables_ok_def
proof (intro allI impI)
  fix mem v p
  let ?d = "decode_at T mem v p"
  assume pu: "prefix_usage_ok ?d" and lt: "legal_type (insttype (opinfo ?d))"
  obtain m1 m2 m3 m4 m5 where d: "?d = MaybeGet3ByteOpInfo T mem m5" and i: "inst ?d = inst m5"
    and len: "nextbyte m5 = p + len ?d" and k: "nextbyte m1 = p + unat (prefixbytes (inst m1))"
    and pm: "prefixbytes (inst m1) = 0 \<longrightarrow> prefixmask (inst m1) = 0" and h2: "hasopbyte2 (inst m1) = 0"
    and st: "ConsumeOpcodeBytes T default_callbacks mem m1 () = (m2, ())" "ConsumeModRM T default_callbacks mem m2 () = (m3, ())"
      "ConsumeSIB default_callbacks mem m3 () = (m4, ())" "ConsumeID default_callbacks m4 () = (m5, ())"
    and pb: "prefixbytes (inst m5) = prefixbytes (inst m1)" "prefixmask (inst m5) = prefixmask (inst m1)"
    by (rule decode_stages [OF e])
  note s2 = opcode_stage [OF e h2 st(1)] and s3 = modrm_stage [OF e st(2)] and s4 = sib_stage [OF st(3)] and s5 = id_stage [OF st(4)]
  have op: "opinfo ?d = opinfo m5 \<or> \<not> jump_type (insttype (opinfo ?d))"
    using e by (auto simp: d MaybeGet3ByteOpInfo_def Let_def entries_ok_def)
  let ?k = "unat (prefixbytes (inst m1))" and ?op = "mem (nextbyte m1)"
  have ma: "mem (maddr (inst ?d) + ?k) = ?op" using k by simp
  have nd: "?op \<noteq> 0x0f \<Longrightarrow> insttype (opinfo ?d) = NACLi_JMPZ \<Longrightarrow> prefixmask (inst m4) AND kPrefixDATA16 = 0"
    using jmpz_no_data16 [OF pu] s2 s3 s4 s5 pm pb i by (simp add: kTwoByteOpcodeByte1_def)
  have ord: "nextbyte m2 \<le> nextbyte m3" "nextbyte m3 \<le> nextbyte m4" "nextbyte m4 \<le> nextbyte m5"
    using s3 s4 s5 by (auto split: if_splits)
  have o2: "opinfo ?d = opinfo m2" if "insttype (opinfo ?d) = NACLi_JMP8 \<or> insttype (opinfo ?d) = NACLi_JMPZ"
    using that op s3 s4 s5 by (auto simp: jump_type_def split: if_splits)
  have im: "immtype (inst m4) = op_immtype (opinfo m2)"
    if "op_immtype (opinfo m2) = IMM_FIXED1 \<or> op_immtype (opinfo m2) = IMM_DATAV"
    using that s2 s3 s4 by auto
  have five: "op_immtype (opinfo m2) = IMM_FIXED1 \<Longrightarrow> nextbyte m4 + 1 \<le> p + len ?d"
    "op_immtype (opinfo m2) = IMM_DATAV \<Longrightarrow> prefixmask (inst m4) AND kPrefixDATA16 = 0 \<Longrightarrow> nextbyte m4 + 4 \<le> p + len ?d"
    using im s5 len by auto
  have pk: "unat (prefixbytes (inst ?d)) = ?k" using i pb by simp
  show "operand_inside mem ?d"
  proof (cases "?op = 0x0f")
    case True
    then have n2: "nextbyte m1 + 2 \<le> nextbyte m2"
      and jz: "insttype (opinfo m2) = NACLi_JMPZ \<Longrightarrow> op_immtype (opinfo m2) = IMM_DATAV \<and> prefixmask (inst m2) AND kPrefixDATA16 = 0"
      using s2 by (auto simp: kTwoByteOpcodeByte1_def jump_type_def)
    have "?k + 2 \<le> len ?d" using n2 ord k len by linarith
    moreover have "?k + 6 \<le> len ?d" if "insttype (opinfo ?d) = NACLi_JMPZ"
    proof -
      have "nextbyte m4 + 4 \<le> p + len ?d" using five(2) jz o2 that s3 s4 by simp
      then show ?thesis using n2 ord k by linarith
    qed
    ultimately show ?thesis unfolding operand_inside_def Let_def pk ma using True by auto
  next
    case False
    have e1: "entry_1byte_ok ?op (opinfo m2)" and nb: "nextbyte m2 = nextbyte m1 + 1"
      using e s2 False by (simp_all add: entries_ok_def kTwoByteOpcodeByte1_def)
    have mrm: "hasmrmbyte (opinfo m2) \<noteq> 0 \<Longrightarrow> nextbyte m3 = nextbyte m1 + 2" using s3 nb by simp
    have "?k + 2 \<le> len ?d" if "insttype (opinfo ?d) = NACLi_JMP8"
    proof -
      have "nextbyte m4 + 1 \<le> p + len ?d" using five(1) e1 o2 that by (simp add: entry_1byte_ok_def)
      then show ?thesis using nb ord k by linarith
    qed
    moreover have "?k + 5 \<le> len ?d" if "insttype (opinfo ?d) = NACLi_JMPZ"
    proof -
      have "nextbyte m4 + 4 \<le> p + len ?d" using five(2) nd e1 o2 that False by (simp add: entry_1byte_ok_def)
      then show ?thesis using nb ord k by linarith
    qed
    moreover have "?k + 2 \<le> len ?d" if "insttype (opinfo ?d) = NACLi_INDIRECT"
    proof -
      have "hasmrmbyte (opinfo m2) \<noteq> 0"
        using that op s3 s4 s5 e1 by (auto simp: jump_type_def entry_1byte_ok_def split: if_splits)
      then show ?thesis using mrm ord k len by linarith
    qed
    moreover have "3 \<le> len ?d" if "?k = 0" "?op = 0x83"
    proof -
      have "\<not> (insttype (opinfo m2) = NACLi_UNDEFINED \<and> hasmrmbyte (opinfo m2) = 0)"
      proof
        assume u: "insttype (opinfo m2) = NACLi_UNDEFINED \<and> hasmrmbyte (opinfo m2) = 0"
        then have "insttype (opinfo m5) = NACLi_UNDEFINED" using s3 s4 s5 by simp
        then have "insttype (opinfo ?d) = NACLi_UNDEFINED" by (simp add: d MaybeGet3ByteOpInfo_def)
        with lt show False by (simp add: legal_type_def)
      qed
      then have "hasmrmbyte (opinfo m2) \<noteq> 0" "nextbyte m4 + 1 \<le> p + len ?d"
        using five(1) e1 that by (auto simp: entry_1byte_ok_def)
      then show ?thesis using mrm ord k that by linarith
    qed
    ultimately show ?thesis unfolding operand_inside_def Let_def pk ma using False by auto
  qed
qed


subsection \<open>Invariants of the generator\<close>

definition opt_ok :: "('a \<Rightarrow> bool) \<Rightarrow> 'a option \<Rightarrow> bool" where
  "opt_ok P e \<longleftrightarrow> (case e of None \<Rightarrow> True | Some x \<Rightarrow> P x)"

lemma opt_ok_simps [simp]: "opt_ok P None" "opt_ok P (Some x) = P x"
  by (simp_all add: opt_ok_def)

lemma opt_ok_all: "(\<And>x. P x) \<Longrightarrow> opt_ok P e"
  by (cases e) simp_all

text \<open>
  A condition on the entries of every table, which may depend on the opcode, in a group on the
  opcode bits of the ModRM byte. The calls of \<open>BuildMetaTables\<close> keep it when the entry each of them makes
  or changes satisfies it.
\<close>

locale table_client =
  fixes P1 P0 P2 :: "u8 \<Rightarrow> OpInfo \<Rightarrow> bool"
    and PX :: "OpInfo \<Rightarrow> bool"
    and PM :: "u8 \<Rightarrow> u8 \<Rightarrow> OpInfo \<Rightarrow> bool"
    and P87 :: "OpInfo \<Rightarrow> bool"
    and PP :: "u8 \<Rightarrow> u32 \<Rightarrow> bool"
  assumes x87: "P87 (NewMetaDefn 1 IMM_NONE NACLi_X87)" "P87 (NewMetaDefn 1 IMM_NONE NACLi_INVALID)"
      "P87 (e\<lparr>insttype := NACLi_FCMOV\<rparr>)"
    and undefined: "P1 b DecodeUndefinedInstInfo" "P0 b DecodeUndefinedInstInfo" "P2 b DecodeUndefinedInstInfo"
      "PX DecodeUndefinedInstInfo" "PM g b DecodeUndefinedInstInfo" "P87 DecodeUndefinedInstInfo" "PP b 0"
begin

definition mt_ok :: "MetaTables \<Rightarrow> bool" where
  "mt_ok mt \<longleftrightarrow>
     (\<forall>b. opt_ok (P1 b) (g_Op1ByteTable mt b)) \<and>
     (\<forall>b. opt_ok (P0 b) (g_Op0FXXMetaTable mt b)) \<and>
     (\<forall>b. \<forall>tab\<in>{g_Op660FXXTable mt, g_OpF20FXXTable mt, g_OpF30FXXTable mt}. opt_ok (P2 b) (tab b)) \<and>
     (\<forall>b. \<forall>tab\<in>{g_Op0F0FTable mt, g_Op0F38Table mt, g_Op660F38Table mt, g_OpF20F38Table mt, g_Op0F3ATable mt, g_Op660F3ATable mt}. opt_ok PX (tab b)) \<and>
     (\<forall>g b. opt_ok (PM g b) (g_ModRMOpTable mt g b)) \<and>
     (\<forall>g b. opt_ok P87 (g_Op87 mt g b)) \<and> (\<forall>b. PP b (g_PrefixTable mt b))"

definition keeps :: "RunMode \<Rightarrow> build \<Rightarrow> bool" where
  "keeps run call \<longleftrightarrow> (\<forall>mt. mt_ok mt \<longrightarrow> mt_ok (call run mt))"

lemma keeps_EncodeModedOp: "(run = md \<Longrightarrow> P1 b (NewMetaDefn m i t)) \<Longrightarrow> keeps run (EncodeModedOp b m i t md)"
  by (simp add: keeps_def mt_ok_def EncodeModedOp_def)

lemma keeps_EncodeModedOp0F: "(run = md \<Longrightarrow> P0 b (NewMetaDefn m i t)) \<Longrightarrow> keeps run (EncodeModedOp0F b m i t md)"
  by (simp add: keeps_def mt_ok_def EncodeModedOp0F_def)

lemma keeps_prefixed:
  assumes "P2 b (NewMetaDefn m i t)"
  shows "keeps run (EncodeOp660F b m i t)" "keeps run (EncodeOpF20F b m i t)" "keeps run (EncodeOpF30F b m i t)"
  using assms
  by (simp_all add: keeps_def mt_ok_def EncodeOp660F_def EncodeModedOp660F_def EncodeOpF20F_def
      EncodeModedOpF20F_def EncodeOpF30F_def EncodeModedOpF30F_def)

lemma keeps_plain:
  assumes "PX (NewMetaDefn m i t)"
  shows "keeps run (EncodeOp0F0F b m i t)" "keeps run (EncodeOp0F38 b m i t)" "keeps run (EncodeOp660F38 b m i t)"
    "keeps run (EncodeOpF20F38 b m i t)" "keeps run (EncodeOp0F3A b m i t)" "keeps run (EncodeOp660F3A b m i t)"
  using assms
  by (simp_all add: keeps_def mt_ok_def EncodeOp0F0F_def EncodeModedOp0F0F_def
      EncodeOp0F38_def EncodeModedOp0F38_def EncodeOp660F38_def EncodeModedOp660F38_def
      EncodeOpF20F38_def EncodeModedOpF20F38_def EncodeOp0F3A_def EncodeModedOp0F3A_def
      EncodeOp660F3A_def EncodeModedOp660F3A_def)

lemma mt_ok_ModedGenRegs: "mt_ok (call_ModedGenRegs run mt) = mt_ok mt"
  by (simp add: call_ModedGenRegs_def mt_ok_def)

lemma keeps_EncodeOp:
  "P1 b (NewMetaDefn m i t) \<Longrightarrow> keeps run (EncodeOp b m i t)"
  "P1 b (NewMetaDefn m i t) \<Longrightarrow> keeps run (EncodeOpRegs b m i t)"
  "P0 b (NewMetaDefn m i t) \<Longrightarrow> keeps run (EncodeOp0F b m i t)"
  using keeps_EncodeModedOp [of run run b m i t] keeps_EncodeModedOp0F [of run run b m i t]
  by (simp_all add: keeps_def EncodeOp_def EncodeOpRegs_def EncodeOp0F_def mt_ok_ModedGenRegs)

lemma keeps_ModRM:
  assumes "PM g n (NewMetaDefn 1 IMM_NONE t)"
  shows "keeps run (EncodeModRMOp g n t)" "keeps run (EncodeModRMOpRegs g n t)"
proof -
  show "keeps run (EncodeModRMOp g n t)"
    using assms by (simp add: keeps_def mt_ok_def EncodeModRMOp_def EncodeModedModRMOp_def)
  then show "keeps run (EncodeModRMOpRegs g n t)"
    by (simp add: keeps_def EncodeModRMOp_def EncodeModRMOpRegs_def mt_ok_ModedGenRegs)
qed

lemma keeps_opinmrm:
  "\<forall>e. P1 b e \<longrightarrow> P1 b (e\<lparr>opinmrm := g\<rparr>) \<Longrightarrow> keeps run (SetOpOpInMRM b g)"
  "\<forall>e. P0 b e \<longrightarrow> P0 b (e\<lparr>opinmrm := g\<rparr>) \<Longrightarrow> keeps run (SetOp0FOpInMRM b g)"
  "\<forall>e. P2 b e \<longrightarrow> P2 b (e\<lparr>opinmrm := g\<rparr>) \<Longrightarrow> keeps run (SetOp66OpInMRM b g)"
proof -
  show "keeps run (SetOpOpInMRM b g)" if "\<forall>e. P1 b e \<longrightarrow> P1 b (e\<lparr>opinmrm := g\<rparr>)"
    unfolding keeps_def SetOpOpInMRM_def SetModedOpOpInMRM_def mt_ok_def
    using that by (auto split: option.splits) (metis opt_ok_simps(2))
  show "keeps run (SetOp0FOpInMRM b g)" if "\<forall>e. P0 b e \<longrightarrow> P0 b (e\<lparr>opinmrm := g\<rparr>)"
    unfolding keeps_def SetOp0FOpInMRM_def SetModedOp0FOpInMRM_def mt_ok_def
    using that by (auto split: option.splits) (metis opt_ok_simps(2))
  show "keeps run (SetOp66OpInMRM b g)" if "\<forall>e. P2 b e \<longrightarrow> P2 b (e\<lparr>opinmrm := g\<rparr>)"
    unfolding keeps_def SetOp66OpInMRM_def SetModedOp66OpInMRM_def mt_ok_def
    using that by (auto split: option.splits) (metis opt_ok_simps(2))
qed

lemma keeps_prefix:
  assumes "PP b n"
  shows "keeps run (EncodePrefixName b n)" "keeps run (EncodeModedPrefixName b n md)"
  using assms by (simp_all add: keeps_def mt_ok_def EncodePrefixName_def EncodeModedPrefixName_def)

lemma keeps_other:
  "keeps run (SetOpDefaultSize64 b)"
  "keeps run (SetOpForceSize64 b)" "keeps run (SetOp0FDefaultSize64 b)" "keeps run (SetOp0FForceSize64 b)"
  "keeps run (SetModRMOpDefaultSize64 g b)" "keeps run (SetModRMOpForceSize64 g b)"
  by (simp_all add: keeps_def mt_ok_def SetOpDefaultSize64_def
      SetOpForceSize64_def SetOp0FDefaultSize64_def SetOp0FForceSize64_def SetModRMOpDefaultSize64_def
      SetModRMOpForceSize64_def)

lemma keeps_ALU:
  assumes "\<forall>k\<in>{0, 1, 2, 3, 4, 5}. \<forall>m i. P1 (b + k) (NewMetaDefn m i t)"
  shows "keeps run (ALUOperandVariants00_05 b t)"
proof -
  have "keeps run (EncodeOp (b + k) m i t)" "keeps run (EncodeOpRegs (b + k) m i t)"
    if "k \<in> {0, 1, 2, 3, 4, 5}" for k m i
    using assms that by (intro keeps_EncodeOp; blast)+
  from this(1) [of 0] this(1) [of 1] this(1) [of 2] this(1) [of 3] this(1) [of 4] this(2) [of 5]
  show ?thesis unfolding keeps_def ALUOperandVariants00_05_def Let_def by simp
qed

lemma keeps_OneReg:
  assumes "\<forall>k\<in>{0, 1, 2, 3, 4, 5, 6, 7}. P1 (b + k) (NewMetaDefn 0 IMM_NONE t) \<and> P1 (b + k) (NewMetaDefn 0 IMM_NONE NACLi_ILLEGAL) \<and>
    PP (b + k) kPrefixREX"
  shows "keeps run (OneRegVariants00_07 b t h)"
proof -
  have *: "keeps run (OneRegVariant (b + of_nat k) t h)" if "k < 8" for k
  proof -
    have "k \<in> {0, 1, 2, 3, 4, 5, 6, 7}" using that by auto
    then have p: "P1 (b + of_nat k) (NewMetaDefn 0 IMM_NONE t)" "P1 (b + of_nat k) (NewMetaDefn 0 IMM_NONE NACLi_ILLEGAL)"
      "PP (b + of_nat k) kPrefixREX"
      using assms by auto
    from keeps_EncodeModedOp [OF p(1)] keeps_EncodeModedOp [OF p(2)] show ?thesis
      using keeps_prefix(2) [OF p(3), of run X86_64] keeps_other(1) [of run "b + of_nat k"]
      unfolding keeps_def OneRegVariant_def Let_def by simp
  qed
  have "mt_ok (fold (\<lambda>i. OneRegVariant (b + of_nat i) t h run) ks mt)" if "mt_ok mt" "set ks \<subseteq> {..<8}" for ks mt
    using that * by (induction ks arbitrary: mt) (auto simp: keeps_def)
  then show ?thesis
    unfolding keeps_def OneRegVariants00_07_def NUM_GP_X86_32_REGS_def by (simp add: lessThan_atLeast0)
qed

lemma keeps_Encode87Op: "keeps run (Encode87Op tab set1 set2)"
  using x87 by (simp add: keeps_def mt_ok_def Encode87Op_def EncodeModed87Op_def Let_def)

lemma keeps_fix_FCMOV: "keeps run (fix_FCMOV i)"
proof -
  let ?f = "\<lambda>(tab, byte) mt. mt\<lparr>g_Op87 := (g_Op87 mt)(tab := (g_Op87 mt tab)
            (byte := set_insttype NACLi_FCMOV (g_Op87 mt tab byte)))\<rparr>"
  have "opt_ok P87 (set_insttype NACLi_FCMOV e)" for e
    using x87(3) by (cases e) (simp_all add: set_insttype_def)
  then have "mt_ok (?f x mt)" if "mt_ok mt" for x mt
    using that by (cases x) (simp add: mt_ok_def)
  then have "mt_ok (fold ?f xs mt)" if "mt_ok mt" for xs mt
    using that by (induction xs arbitrary: mt) simp_all
  then show ?thesis unfolding keeps_def fix_FCMOV_def by blast
qed

lemma keeps_Buildx87Tables: "\<forall>c\<in>set Buildx87Tables. keeps run c"
  by (simp add: Buildx87Tables_def keeps_Encode87Op keeps_fix_FCMOV)

lemma mt_ok_fold: "\<forall>c\<in>set calls. keeps run c \<Longrightarrow> mt_ok mt \<Longrightarrow> mt_ok (fold (\<lambda>call. call run) calls mt)"
  by (induction calls arbitrary: mt) (simp_all add: keeps_def)

lemma mt_ok_BuildMetaTables:
  assumes "\<forall>c\<in>set BuildMetaTables_01. keeps run c" "\<forall>c\<in>set BuildMetaTables_02. keeps run c"
    "\<forall>c\<in>set BuildMetaTables_03. keeps run c" "\<forall>c\<in>set BuildMetaTables_04. keeps run c"
    "\<forall>c\<in>set BuildMetaTables_05. keeps run c" "\<forall>c\<in>set BuildMetaTables_06. keeps run c"
    "\<forall>c\<in>set BuildMetaTables_07. keeps run c" "\<forall>c\<in>set BuildMetaTables_08. keeps run c"
    "\<forall>c\<in>set BuildMetaTables_09. keeps run c" "\<forall>c\<in>set BuildMetaTables_10. keeps run c"
    "\<forall>c\<in>set BuildSSE4Tables. keeps run c"
  shows "mt_ok (BuildMetaTables run)"
  unfolding BuildMetaTables_def
proof (rule mt_ok_fold)
  show "mt_ok InitializeGlobalTables" by (simp add: mt_ok_def InitializeGlobalTables_def undefined)
qed (simp add: ball_Un assms keeps_Buildx87Tables)

lemma Print_ok:
  assumes "mt_ok mt"
  defines "T \<equiv> PrintDecodeTables mt"
  shows "P1 b (kDecode1ByteOp T b)" "P0 b (kDecode0FXXOp T b)" "P2 b (kDecode660FXXOp T b)" "P2 b (kDecodeF20FXXOp T b)"
    "P2 b (kDecodeF30FXXOp T b)" "PX (kDecode0F0FOp T b)" "PX (kDecode0F38Op T b)" "PX (kDecode660F38Op T b)"
    "PX (kDecodeF20F38Op T b)" "PX (kDecode0F3AOp T b)" "PX (kDecode660F3AOp T b)"
    "PM g b (kDecodeModRMOp T g b)" "P87 (kDecodeX87Op T g b)" "PP b (kPrefixTable T b)"
proof -
  have p: "P (PrintDecodeTable gtbl b)" if "opt_ok P (gtbl b)" "P DecodeUndefinedInstInfo" for P gtbl
    using that by (cases "gtbl b") (simp_all add: PrintDecodeTable_def)
  note m = assms(1) [unfolded mt_ok_def]
  show "P1 b (kDecode1ByteOp T b)" "P0 b (kDecode0FXXOp T b)" "P2 b (kDecode660FXXOp T b)" "P2 b (kDecodeF20FXXOp T b)"
    "P2 b (kDecodeF30FXXOp T b)" "PX (kDecode0F0FOp T b)" "PX (kDecode0F38Op T b)" "PX (kDecode660F38Op T b)"
    "PX (kDecodeF20F38Op T b)" "PX (kDecode0F3AOp T b)" "PX (kDecode660F3AOp T b)"
    "PM g b (kDecodeModRMOp T g b)" "P87 (kDecodeX87Op T g b)" "PP b (kPrefixTable T b)"
    using m undefined p [of "P1 b"] p [of "P0 b"] p [of "P2 b"] p [of PX] p [of "PM g b"] p [of P87]
    by (simp_all add: T_def PrintDecodeTables_def)
qed

end

subsection \<open>The jumps of the generated tables\<close>

definition entry_plain :: "OpInfo \<Rightarrow> bool" where
  "entry_plain e \<longleftrightarrow> \<not> jump_type (insttype e)"

definition entry_modrm :: "OpInfo \<Rightarrow> bool" where
  "entry_modrm e \<longleftrightarrow> insttype e \<noteq> NACLi_JMP8 \<and> insttype e \<noteq> NACLi_JMPZ"

lemmas entry_defs = entry_plain_def entry_modrm_def entry_1byte_ok_def entry_0F_ok_def NewMetaDefn_def jump_type_def DecodeUndefinedInstInfo_def

interpretation jumps: table_client entry_1byte_ok "\<lambda>_. entry_0F_ok" "\<lambda>_. entry_plain" entry_plain "\<lambda>_ _. entry_modrm" entry_plain "\<lambda>_ _. True"
  by unfold_locales (simp_all add: entry_defs)

lemma jumps_opinmrm:
  "jumps.keeps run (SetOpOpInMRM b g)" "jumps.keeps run (SetOp0FOpInMRM b g)" "jumps.keeps run (SetOp66OpInMRM b g)"
  by (intro jumps.keeps_opinmrm; simp add: entry_defs)+

lemmas jumps_rules =
  jumps.keeps_EncodeModedOp jumps.keeps_EncodeModedOp0F jumps.keeps_prefixed jumps.keeps_plain jumps.keeps_EncodeOp jumps.keeps_ModRM
  jumps_opinmrm jumps.keeps_prefix jumps.keeps_other jumps.keeps_ALU jumps.keeps_OneReg entry_defs

lemma jumps_BuildMetaTables_01: "\<forall>c\<in>set BuildMetaTables_01. jumps.keeps run c"
  by (simp add: BuildMetaTables_01_def jumps_rules)

lemma jumps_BuildMetaTables_02: "\<forall>c\<in>set BuildMetaTables_02. jumps.keeps run c"
  by (simp add: BuildMetaTables_02_def jumps_rules)

lemma jumps_BuildMetaTables_03: "\<forall>c\<in>set BuildMetaTables_03. jumps.keeps run c"
  by (simp add: BuildMetaTables_03_def jumps_rules)

lemma jumps_BuildMetaTables_04: "\<forall>c\<in>set BuildMetaTables_04. jumps.keeps run c"
  by (simp add: BuildMetaTables_04_def jumps_rules)

lemma jumps_BuildMetaTables_05: "\<forall>c\<in>set BuildMetaTables_05. jumps.keeps run c"
  by (simp add: BuildMetaTables_05_def jumps_rules)

lemma jumps_BuildMetaTables_06: "\<forall>c\<in>set BuildMetaTables_06. jumps.keeps run c"
  by (simp add: BuildMetaTables_06_def jumps_rules)

lemma jumps_BuildMetaTables_07: "\<forall>c\<in>set BuildMetaTables_07. jumps.keeps run c"
  by (simp add: BuildMetaTables_07_def jumps_rules)

lemma jumps_BuildMetaTables_08: "\<forall>c\<in>set BuildMetaTables_08. jumps.keeps run c"
  by (simp add: BuildMetaTables_08_def jumps_rules)

lemma jumps_BuildMetaTables_09: "\<forall>c\<in>set BuildMetaTables_09. jumps.keeps run c"
  by (simp add: BuildMetaTables_09_def jumps_rules)

lemma jumps_BuildMetaTables_10: "\<forall>c\<in>set BuildMetaTables_10. jumps.keeps run c"
  by (simp add: BuildMetaTables_10_def jumps_rules)

lemma jumps_BuildSSE4Tables: "\<forall>c\<in>set BuildSSE4Tables. jumps.keeps run c"
  by (simp add: BuildSSE4Tables_def jumps_rules)

lemma entries_ok_nacl_tables: "entries_ok nacl_tables"
proof -
  have "jumps.mt_ok (BuildMetaTables X86_32)"
    by (intro jumps.mt_ok_BuildMetaTables jumps_BuildMetaTables_01 jumps_BuildMetaTables_02 jumps_BuildMetaTables_03
        jumps_BuildMetaTables_04 jumps_BuildMetaTables_05 jumps_BuildMetaTables_06 jumps_BuildMetaTables_07
        jumps_BuildMetaTables_08 jumps_BuildMetaTables_09 jumps_BuildMetaTables_10 jumps_BuildSSE4Tables)
  from jumps.Print_ok [OF this] show ?thesis
    by (simp add: entries_ok_def nacl_tables_def entry_plain_def entry_modrm_def)
qed

subsection \<open>Forbidden instructions\<close>

text \<open>
  The one-byte opcodes, after the prefixes, that no accepted code contains: push and pop of the
  segment registers \<open>es\<close>, \<open>cs\<close>, \<open>ss\<close>, \<open>ds\<close> (06, 07, 0e, 16, 17, 1e, 1f), decimal adjustment (27, 2f, 37, 3f),
  \<open>pusha\<close>, \<open>popa\<close>, \<open>bound\<close>, \<open>arpl\<close> (60 to 63), string input and output (6c to 6f), the alias 82, \<open>mov\<close> from
  and to a segment register (8c, 8e), far call (9a), \<open>pushf\<close>, \<open>popf\<close> (9c, 9d), \<open>lods\<close> (ac, ad), near returns
  (c2, c3), \<open>les\<close>, \<open>lds\<close> (c4, c5), \<open>enter\<close> (c8), far returns (ca, cb), \<open>int3\<close>, \<open>int\<close>, \<open>into\<close>, \<open>iret\<close> (cc to cf),
  \<open>aam\<close>, \<open>aad\<close>, \<open>salc\<close>, \<open>xlat\<close> (d4 to d7), loops and \<open>jcxz\<close> (e0 to e3), port input and output (e4 to e7, ec to
  ef), far jump (ea), \<open>icebp\<close> (f1), \<open>cli\<close>, \<open>sti\<close> (fa, fb).
\<close>

definition forbidden_op :: "u8 set" where
  "forbidden_op =
    {0x06, 0x07, 0x0e, 0x16, 0x17, 0x1e, 0x1f, 0x27, 0x2f, 0x37, 0x3f, 0x60, 0x61, 0x62, 0x63, 0x6c, 0x6d, 0x6e, 0x6f,
     0x82, 0x8c, 0x8e, 0x9a, 0x9c, 0x9d, 0xac, 0xad, 0xc2, 0xc3, 0xc4, 0xc5, 0xc8, 0xca, 0xcb, 0xcc, 0xcd, 0xce, 0xcf,
     0xd4, 0xd5, 0xd6, 0xd7, 0xe0, 0xe1, 0xe2, 0xe3, 0xe4, 0xe5, 0xe6, 0xe7, 0xea, 0xec, 0xed, 0xee, 0xef, 0xf1, 0xfa, 0xfb}"

text \<open>
  The opcodes after 0f that no accepted code contains, whichever of the prefixes 66, f2 and f3 comes
  before: descriptor table instructions (00 to 03), \<open>syscall\<close>, \<open>clts\<close>, \<open>sysret\<close> (05 to 07), \<open>invd\<close>, \<open>wbinvd\<close>, \<open>ud2\<close> (08,
  09, 0b), \<open>mov\<close> from and to control and debug registers (20 to 27), \<open>wrmsr\<close> (30), \<open>rdmsr\<close>, \<open>rdpmc\<close>,
  \<open>sysenter\<close>, \<open>sysexit\<close>, \<open>getsec\<close> (32 to 37), push and pop of \<open>fs\<close> and \<open>gs\<close> (a0, a1, a8, a9), bit tests (a3, ab, b3, ba, bb),
  \<open>rsm\<close> (aa), \<open>lss\<close>, \<open>lfs\<close>, \<open>lgs\<close> (b2, b4, b5), and undefined opcodes. Of c7 only the form \<open>/1\<close>, \<open>cmpxchg8b\<close>,
  is permitted.
\<close>

definition forbidden_0F :: "u8 set" where
  "forbidden_0F =
    {0x00, 0x01, 0x02, 0x03, 0x04, 0x05, 0x06, 0x07, 0x08, 0x09, 0x0a, 0x0b, 0x0c, 0x20, 0x21, 0x22, 0x23, 0x24, 0x25,
     0x26, 0x27, 0x30, 0x32, 0x33, 0x34, 0x35, 0x36, 0x37, 0x39, 0x3b, 0x3c, 0x3d, 0x3e, 0x3f, 0xa0, 0xa1, 0xa3, 0xa6,
     0xa7, 0xa8, 0xa9, 0xaa, 0xab, 0xb2, 0xb3, 0xb4, 0xb5, 0xb9, 0xba, 0xbb, 0xc7, 0xff}"

text \<open>The forbidden instructions by their first three bytes after the prefixes; ff \<open>/3\<close> and \<open>/5\<close> are the far call and jump.\<close>

definition forbidden_form :: "u8 \<Rightarrow> u8 \<Rightarrow> u8 \<Rightarrow> bool" where
  "forbidden_form b0 b1 b2 \<longleftrightarrow>
     b0 \<in> forbidden_op \<or>
     b0 = 0xff \<and> modrm_opcode b1 \<in> {3, 5, 7} \<or>
     b0 = 0x0f \<and> b1 \<in> forbidden_0F \<and> (b1 = 0xc7 \<longrightarrow> modrm_opcode b2 \<noteq> 1)"

text \<open>The conditions on the entries: the type is not permitted, and the group, if any, is the expected one.\<close>

definition group_0F :: "u8 \<Rightarrow> u8" where
  "group_0F b = (if b = 0x00 then GROUP6 else if b = 0x01 then GROUP7 else if b = 0xba then GROUP8
     else if b = 0xc7 then GROUP9 else NOGROUP)"

definition forb1 :: "u8 \<Rightarrow> OpInfo \<Rightarrow> bool" where
  "forb1 b e \<longleftrightarrow>
     (legal_type (insttype e) \<or> opinmrm e \<noteq> 0 \<longrightarrow> b \<notin> forbidden_op) \<and>
     (b = 0xff \<longrightarrow> \<not> legal_type (insttype e) \<and> (opinmrm e = 0 \<or> opinmrm e = GROUP5))"

definition forb0 :: "u8 \<Rightarrow> OpInfo \<Rightarrow> bool" where
  "forb0 b e \<longleftrightarrow>
     (legal_type (insttype e) \<or> insttype e = NACLi_3BYTE \<or> opinmrm e \<noteq> 0 \<and> opinmrm e \<noteq> group_0F b \<longrightarrow> b \<notin> forbidden_0F)"

definition forbM :: "u8 \<Rightarrow> u8 \<Rightarrow> OpInfo \<Rightarrow> bool" where
  "forbM g n e \<longleftrightarrow>
     (legal_type (insttype e) \<longrightarrow>
      \<not> (g = GROUP5 \<and> n \<in> {3, 5, 7} \<or> g = GROUP6 \<or> g = GROUP7 \<or> g = GROUP8 \<or> g = GROUP9 \<and> n \<noteq> 1))"

text \<open>The first opcode bytes ff and 0f are not prefixes.\<close>

definition forbP :: "u8 \<Rightarrow> u32 \<Rightarrow> bool" where
  "forbP b n \<longleftrightarrow> (b = 0x0f \<or> b = 0xff \<longrightarrow> n = 0)"

lemmas forb_defs = forb1_def forb0_def forbM_def forbP_def forbidden_op_def forbidden_0F_def group_0F_def legal_type_def
  NewMetaDefn_def DecodeUndefinedInstInfo_def

interpretation forb: table_client forb1 forb0 forb0 "\<lambda>_. True" forbM "\<lambda>_. True" forbP
  by unfold_locales (simp_all add: forb_defs)

lemmas forb_rules =
  forb.keeps_EncodeModedOp forb.keeps_EncodeModedOp0F forb.keeps_prefixed forb.keeps_plain forb.keeps_EncodeOp
  forb.keeps_ModRM forb.keeps_opinmrm forb.keeps_prefix forb.keeps_other forb.keeps_ALU forb.keeps_OneReg forb_defs

lemma forb_BuildMetaTables_01: "\<forall>c\<in>set BuildMetaTables_01. forb.keeps X86_32 c"
  by (simp add: BuildMetaTables_01_def forb_rules nacl_consts)

lemma forb_BuildMetaTables_02: "\<forall>c\<in>set BuildMetaTables_02. forb.keeps X86_32 c"
  by (simp add: BuildMetaTables_02_def forb_rules nacl_consts)

lemma forb_BuildMetaTables_03: "\<forall>c\<in>set BuildMetaTables_03. forb.keeps X86_32 c"
  by (simp add: BuildMetaTables_03_def forb_rules nacl_consts)

lemma forb_BuildMetaTables_04: "\<forall>c\<in>set BuildMetaTables_04. forb.keeps X86_32 c"
  by (simp add: BuildMetaTables_04_def forb_rules nacl_consts)

lemma forb_BuildMetaTables_05: "\<forall>c\<in>set BuildMetaTables_05. forb.keeps X86_32 c"
  by (simp add: BuildMetaTables_05_def forb_rules nacl_consts)

lemma forb_BuildMetaTables_06: "\<forall>c\<in>set BuildMetaTables_06. forb.keeps X86_32 c"
  by (simp add: BuildMetaTables_06_def forb_rules nacl_consts)

lemma forb_BuildMetaTables_07: "\<forall>c\<in>set BuildMetaTables_07. forb.keeps X86_32 c"
  by (simp add: BuildMetaTables_07_def forb_rules nacl_consts)

lemma forb_BuildMetaTables_08: "\<forall>c\<in>set BuildMetaTables_08. forb.keeps X86_32 c"
  by (simp add: BuildMetaTables_08_def forb_rules nacl_consts)

lemma forb_BuildMetaTables_09: "\<forall>c\<in>set BuildMetaTables_09. forb.keeps X86_32 c"
  by (simp add: BuildMetaTables_09_def forb_rules nacl_consts)

lemma forb_BuildMetaTables_10: "\<forall>c\<in>set BuildMetaTables_10. forb.keeps X86_32 c"
  by (simp add: BuildMetaTables_10_def forb_rules nacl_consts)

lemma forb_BuildSSE4Tables: "\<forall>c\<in>set BuildSSE4Tables. forb.keeps X86_32 c"
  by (simp add: BuildSSE4Tables_def forb_rules nacl_consts)

lemma forb_nacl_tables:
  "forb1 b (kDecode1ByteOp nacl_tables b)" "forb0 b (kDecode0FXXOp nacl_tables b)"
  "forb0 b (kDecode660FXXOp nacl_tables b)" "forb0 b (kDecodeF20FXXOp nacl_tables b)"
  "forb0 b (kDecodeF30FXXOp nacl_tables b)" "forbM g b (kDecodeModRMOp nacl_tables g b)"
  "forbP b (kPrefixTable nacl_tables b)"
proof -
  have "forb.mt_ok (BuildMetaTables X86_32)"
    by (intro forb.mt_ok_BuildMetaTables forb_BuildMetaTables_01 forb_BuildMetaTables_02 forb_BuildMetaTables_03
        forb_BuildMetaTables_04 forb_BuildMetaTables_05 forb_BuildMetaTables_06 forb_BuildMetaTables_07
        forb_BuildMetaTables_08 forb_BuildMetaTables_09 forb_BuildMetaTables_10 forb_BuildSSE4Tables)
  note forb.Print_ok [OF this, folded nacl_tables_def]
  then show "forb1 b (kDecode1ByteOp nacl_tables b)" "forb0 b (kDecode0FXXOp nacl_tables b)"
    "forb0 b (kDecode660FXXOp nacl_tables b)" "forb0 b (kDecodeF20FXXOp nacl_tables b)"
    "forb0 b (kDecodeF30FXXOp nacl_tables b)" "forbM g b (kDecodeModRMOp nacl_tables g b)"
  "forbP b (kPrefixTable nacl_tables b)"
    by blast+
qed

text \<open>The entry of a two-byte opcode, and the entry after the ModRM byte.\<close>

lemma opcode_entry_0F:
  assumes r: "ConsumeOpcodeBytes T cb mem m v = (m', v')" and op: "mem (nextbyte m) = 0x0f"
  obtains tab where "tab \<in> {kDecode0FXXOp T, kDecode660FXXOp T, kDecodeF20FXXOp T, kDecodeF30FXXOp T}"
    and "insttype (tab (mem (nextbyte m + 1))) \<noteq> NACLi_3BYTE \<longrightarrow>
      opinfo m' = tab (mem (nextbyte m + 1)) \<and> nextbyte m' = nextbyte m + 2"
proof -
  let ?m = "m\<lparr>opinfo := kDecode1ByteOp T (mem (nextbyte m)), nextbyte := nextbyte m + 1\<rparr>"
  obtain e w where g: "GetExtendedOpInfo T cb ?m (mem (nextbyte m + 1)) v = (e, w)" by fastforce
  then obtain tab where t: "tab \<in> {kDecode0FXXOp T, kDecode660FXXOp T, kDecodeF20FXXOp T, kDecodeF30FXXOp T}"
    and e: "e = tab (mem (nextbyte m + 1))"
    using some_prefix [of "prefixmask (inst m)"] by (auto simp: GetExtendedOpInfo_def Let_def split: if_splits)
  have "opinfo m' = e \<and> nextbyte m' = nextbyte m + 2" if "insttype e \<noteq> NACLi_3BYTE"
    using r op g that by (auto simp: ConsumeOpcodeBytes_def kTwoByteOpcodeByte1_def Let_def)
  with that [OF t] e show thesis by blast
qed

lemma modrm_entry:
  assumes r: "ConsumeModRM T cb mem m v = (m', v')" and "insttype (opinfo m) \<noteq> NACLi_X87"
  shows "opinfo m' =
    (if hasmrmbyte (opinfo m) \<noteq> 0 \<and> opinmrm (opinfo m) \<noteq> 0
     then kDecodeModRMOp T (opinmrm (opinfo m)) (modrm_opcode (mem (nextbyte m))) else opinfo m)"
proof (cases "hasmrmbyte (opinfo m) = 0")
  case True
  then show ?thesis using r by (simp add: ConsumeModRM_def)
next
  case False
  let ?b = "mem (nextbyte m)"
  let ?a = "m\<lparr>inst := (inst m)\<lparr>mrm := ?b\<rparr>, nextbyte := nextbyte m + 1\<rparr>"
  have "m' = fst (ModRM_dispbytes cb ?b (ModRM_opinmrm T ?b ?a) v)"
    using assms False by (simp add: ConsumeModRM_def Let_def)
  then show ?thesis
    using False ModRM_dispbytes_same [of cb ?b "ModRM_opinmrm T ?b ?a" v] by (simp add: ModRM_opinmrm_def Let_def)
qed

text \<open>After the opcode bytes of a forbidden instruction, and so at the end, the entry has no permitted type.\<close>

lemma forbidden_entry:
  assumes "\<not> legal_type (insttype e)"
    and "opinmrm e \<noteq> 0 \<Longrightarrow> \<not> legal_type (insttype (kDecodeModRMOp T (opinmrm e) (modrm_opcode (mem (nextbyte m)))))"
    and "opinfo m = e" and "ConsumeModRM T cb mem m v = (m', v')"
  shows "\<not> legal_type (insttype (opinfo m'))"
proof -
  have "insttype (opinfo m) \<noteq> NACLi_X87" using assms(1,3) by (auto simp: legal_type_def)
  from modrm_entry [OF assms(4) this] assms(1-3) show ?thesis by (simp split: if_splits)
qed

lemma forbidden_group:
  assumes "g = GROUP5 \<and> n \<in> {3, 5, 7} \<or> g = GROUP6 \<or> g = GROUP7 \<or> g = GROUP8 \<or> g = GROUP9 \<and> n \<noteq> 1"
  shows "\<not> legal_type (insttype (kDecodeModRMOp nacl_tables g n))"
  using forb_nacl_tables(6) [of g n] assms unfolding forbM_def by blast

lemma forbidden_stage:
  assumes f: "forbidden_form (mem (nextbyte m)) (mem (nextbyte m + 1)) (mem (nextbyte m + 2))"
    and h: "hasopbyte2 (inst m) = 0" and o: "ConsumeOpcodeBytes nacl_tables cb mem m v = (m2, v2)"
    and r: "ConsumeModRM nacl_tables cb mem m2 v2 = (m3, v3)"
  shows "\<not> legal_type (insttype (opinfo m3))"
proof (cases "mem (nextbyte m) = 0x0f")
  case False
  let ?b = "mem (nextbyte m)"
  have e: "opinfo m2 = kDecode1ByteOp nacl_tables ?b" "nextbyte m2 = nextbyte m + 1"
    using opcode_stage [OF entries_ok_nacl_tables h o] False by (simp_all add: kTwoByteOpcodeByte1_def)
  show ?thesis
  proof (rule forbidden_entry [OF _ _ e(1) r])
    show "\<not> legal_type (insttype (kDecode1ByteOp nacl_tables ?b))"
      using f False forb_nacl_tables(1) [of ?b] by (auto simp: forbidden_form_def forb1_def)
    assume n: "opinmrm (kDecode1ByteOp nacl_tables ?b) \<noteq> 0"
    then have "?b \<notin> forbidden_op" using forb_nacl_tables(1) [of ?b] by (simp add: forb1_def)
    then have "?b = 0xff" "modrm_opcode (mem (nextbyte m + 1)) \<in> {3, 5, 7}"
      using f False by (simp_all add: forbidden_form_def)
    with n show "\<not> legal_type (insttype (kDecodeModRMOp nacl_tables (opinmrm (kDecode1ByteOp nacl_tables ?b))
        (modrm_opcode (mem (nextbyte m2)))))"
      using forb_nacl_tables(1) [of ?b] unfolding e(2) forb1_def by (intro forbidden_group) blast
  qed
next
  case True
  let ?b = "mem (nextbyte m + 1)"
  have b: "?b \<in> forbidden_0F" "?b = 0xc7 \<longrightarrow> modrm_opcode (mem (nextbyte m + 2)) \<noteq> 1"
    using f True by (auto simp: forbidden_form_def forbidden_op_def)
  obtain tab where t: "tab \<in> {kDecode0FXXOp nacl_tables, kDecode660FXXOp nacl_tables, kDecodeF20FXXOp nacl_tables, kDecodeF30FXXOp nacl_tables}"
    and e: "insttype (tab ?b) \<noteq> NACLi_3BYTE \<longrightarrow> opinfo m2 = tab ?b \<and> nextbyte m2 = nextbyte m + 2"
    using opcode_entry_0F [OF o True] by blast
  have "forb0 ?b (tab ?b)" using t forb_nacl_tables(2-5) by auto
  then have n: "\<not> legal_type (insttype (tab ?b))" "insttype (tab ?b) \<noteq> NACLi_3BYTE"
    and g: "opinmrm (tab ?b) = 0 \<or> opinmrm (tab ?b) = group_0F ?b" using b(1) by (auto simp: forb0_def)
  from e n(2) have e: "opinfo m2 = tab ?b" "nextbyte m2 = nextbyte m + 2" by simp_all
  show ?thesis
  proof (rule forbidden_entry [OF n(1) _ e(1) r])
    assume "opinmrm (tab ?b) \<noteq> 0"
    with g b(2) show "\<not> legal_type (insttype (kDecodeModRMOp nacl_tables (opinmrm (tab ?b)) (modrm_opcode (mem (nextbyte m2)))))"
      unfolding e(2) by (intro forbidden_group) (auto simp: group_0F_def NOGROUP_def split: if_splits)
  qed
qed

text \<open>
  C4: no forbidden instruction is permitted. With the generated tables, an instruction whose bytes after the prefixes
  are one of the forms of \<open>forbidden_form\<close> is decoded with a type that the validator rejects. The forms
  include near and far returns, far calls and jumps (also ff \<open>/3\<close> and ff \<open>/5\<close>), \<open>int\<close>, \<open>syscall\<close> and
  \<open>sysenter\<close>, port input and output, and every load of a segment register (\<open>mov\<close>, \<open>pop\<close>, \<open>les\<close>, \<open>lds\<close>, \<open>lss\<close>,
  \<open>lfs\<close>, \<open>lgs\<close>); the full lists are at \<open>forbidden_op\<close> and \<open>forbidden_0F\<close>.
\<close>

theorem forbidden_not_legal:
  fixes mem v p
  defines "d \<equiv> decode_at nacl_tables mem v p"
  defines "q \<equiv> p + unat (prefixbytes (inst d))"
  assumes "forbidden_form (mem q) (mem (q + 1)) (mem (q + 2))"
  shows "\<not> legal_type (insttype (opinfo d))"
proof -
  note e = entries_ok_nacl_tables
  obtain m1 m2 m3 m4 m5 where d: "d = MaybeGet3ByteOpInfo nacl_tables mem m5" and i: "inst d = inst m5"
    and k: "nextbyte m1 = p + unat (prefixbytes (inst m1))" and h2: "hasopbyte2 (inst m1) = 0"
    and st: "ConsumeOpcodeBytes nacl_tables default_callbacks mem m1 () = (m2, ())" "ConsumeModRM nacl_tables default_callbacks mem m2 () = (m3, ())"
      "ConsumeSIB default_callbacks mem m3 () = (m4, ())" "ConsumeID default_callbacks m4 () = (m5, ())"
    and pb: "prefixbytes (inst m5) = prefixbytes (inst m1)"
    unfolding d_def by (rule decode_stages [OF e])
  have "q = nextbyte m1" using k i pb by (simp add: q_def)
  then have "\<not> legal_type (insttype (opinfo m3))" using assms(3) forbidden_stage [OF _ h2 st(1,2)] by simp
  then have n: "\<not> legal_type (insttype (opinfo m5))" using sib_stage [OF st(3)] id_stage [OF st(4)] by simp
  then have "opinfo d = opinfo m5" by (auto simp: d MaybeGet3ByteOpInfo_def Let_def legal_type_def)
  then show ?thesis using n by simp
qed

lemma no_prefix:
  assumes "entries_ok T" "kPrefixTable T (mem p) = 0"
  shows "prefixbytes (inst (decode_at T mem v p)) = 0"
  using assms(2) by (rule_tac decode_stages [OF assms(1), of mem v p]) simp

theorem forbidden_not_legal_witness:
  "\<not> legal_type (insttype (opinfo (decode_at nacl_tables (\<lambda>_. 0xc3) 0 0))) \<and>
   \<not> legal_type (insttype (opinfo (decode_at nacl_tables (\<lambda>i. if i = 0 then 0xff else 0x28) 0 0))) \<and>
   \<not> legal_type (insttype (opinfo (decode_at nacl_tables (\<lambda>i. if i = 0 then 0x0f else 0x34) 0 0)))"
proof (intro conjI)
  have p: "prefixbytes (inst (decode_at nacl_tables mem v 0)) = 0" if "mem 0 = 0x0f \<or> mem 0 = 0xff" for mem v
    using that forb_nacl_tables(7) [of "mem 0"] by (intro no_prefix entries_ok_nacl_tables) (simp add: forbP_def)
  show "\<not> legal_type (insttype (opinfo (decode_at nacl_tables (\<lambda>_. 0xc3) 0 0)))"
    by (rule forbidden_not_legal) (simp add: forbidden_form_def forbidden_op_def)
  show "\<not> legal_type (insttype (opinfo (decode_at nacl_tables (\<lambda>i. if i = 0 then 0xff else 0x28) 0 0)))"
    by (rule forbidden_not_legal) (simp add: p forbidden_form_def modrm_opcode_def modrm_reg_def)
  show "\<not> legal_type (insttype (opinfo (decode_at nacl_tables (\<lambda>i. if i = 0 then 0x0f else 0x34) 0 0)))"
    by (rule forbidden_not_legal) (simp add: p forbidden_form_def forbidden_0F_def)
qed

text \<open>
  C3: the generated tables. In every instruction they decode with a permitted type and permitted prefixes,
  the operand bytes of jumps and of the masking \<open>and\<close> lie inside the instruction.
\<close>

theorem tables_ok_nacl_tables: "tables_ok nacl_tables"
  by (rule entries_ok_tables_ok [OF entries_ok_nacl_tables])

end
