(* ===== verification/Sample_Image.thy ===== *)
theory Sample_Image
  imports NC_Tables_Safe
begin

text \<open>
  A concrete image on which the properties of the validator are instantiated: five bytes of
  code, \<open>and $0xf0,%eax\<close> followed by \<open>jmp *%eax\<close>, with small decoding tables that know a few opcodes.
  The address space starts at \<open>-0x20000\<close>, so that the code is at host address 0.
\<close>

definition sample_op :: "NaClInstType \<Rightarrow> u8 \<Rightarrow> NCDecodeImmediateType \<Rightarrow> OpInfo" where
  "sample_op ty hm im = \<lparr>insttype = ty, hasmrmbyte = hm, op_immtype = im, opinmrm = 0\<rparr>"

definition sample_1byte :: "u8 \<Rightarrow> OpInfo" where
  "sample_1byte b =
     (if b = 0xeb then sample_op NACLi_JMP8 0 IMM_FIXED1
      else if b = 0xe9 then sample_op NACLi_JMPZ 0 IMM_DATAV
      else if b = 0x83 then sample_op NACLi_386 1 IMM_FIXED1
      else if b = 0xff then sample_op NACLi_INDIRECT 1 IMM_NONE
      else if b = 0xb8 then sample_op NACLi_386 0 IMM_DATAV
      else if b = 0x90 \<or> b = 0xf4 then sample_op NACLi_386 0 IMM_NONE
      else sample_op NACLi_ILLEGAL 0 IMM_NONE)"

definition sample_illegal :: "u8 \<Rightarrow> OpInfo" where
  "sample_illegal b = sample_op NACLi_ILLEGAL 0 IMM_NONE"

definition sample_tables :: DecodeTables where
  "sample_tables = \<lparr>kPrefixTable = (\<lambda>_. 0), kDecode1ByteOp = sample_1byte,
     kDecode0FXXOp = sample_illegal, kDecode660FXXOp = sample_illegal,
     kDecodeF20FXXOp = sample_illegal, kDecodeF30FXXOp = sample_illegal,
     kDecode0F0FOp = sample_illegal, kDecode0F38Op = sample_illegal,
     kDecode660F38Op = sample_illegal, kDecodeF20F38Op = sample_illegal,
     kDecode0F3AOp = sample_illegal, kDecode660F3AOp = sample_illegal,
     kDecodeModRMOp = (\<lambda>_ _. sample_op NACLi_ILLEGAL 0 IMM_NONE),
     kDecodeX87Op = (\<lambda>_ _. sample_op NACLi_ILLEGAL 0 IMM_NONE)\<rparr>"

definition sample_code :: "u8 list" where
  "sample_code = [0x83, 0xe0, 0xf0, 0xff, 0xe0]"

definition sample_mem :: memory where
  "sample_mem a = (if a < 5 then sample_code ! a else 0)"

definition sample_nap :: NaClApp where
  "sample_nap = \<lparr>addr_bits = 30, max_data_alloc = 0, stack_size = 0, mem_start = 0xfffe0000, static_text_end = 0x20005,
     dynamic_text_start = 0, dynamic_text_end = 0, rodata_start = 0, data_start = 0, data_end = 0,
     entry_pt = 0x20000, bundle_size = 16, springboard_addr = 0, module_load_status = LOAD_OK,
     restrict_to_main_thread = False, ignore_validator_result = False, validator_stub_out_mode = False,
     break_addr = 0\<rparr>"

definition sample_cpu :: CPUFeatures where
  "sample_cpu = zero_cpu\<lparr>f_386 := True\<rparr>"



text \<open>The sample tables are accepted, and so is the image.\<close>

lemma entries_ok_sample: "entries_ok sample_tables"
  by (auto simp: entries_ok_def entry_1byte_ok_def entry_0F_ok_def sample_tables_def sample_1byte_def sample_illegal_def
      sample_op_def jump_type_def)

lemma sample_validates:
  "case NaClValidateImage sample_tables sample_cpu (\<lambda>_ _. True) False sample_nap sample_mem of
     None \<Rightarrow> False | Some (mem, i, rc) \<Rightarrow> rc = LOAD_OK"
  by code_simp

end
