(* ===== verification/Dyncode.thy ===== *)
theory Dyncode
  imports Imc_Shm Addr_Space Plain_Code Sample_Image
begin

text \<open>
  Dynamic code (\<open>service_runtime/nacl_text.c\<close>): a system call copies code that the validator accepts into unused parts
  of the dynamic text region while other threads run. The region is a shared memory object that is mapped a second time for
  writing. The functions that write code return their 32-bit stores in program order, as pairs of a host address and a value, so that
  what other threads can see in between can be stated.
\<close>

subsection \<open>Operations\<close>

type_synonym store = "nat \<times> u32"

definition write32 :: "memory \<Rightarrow> nat \<Rightarrow> u32 \<Rightarrow> memory" where
  "write32 mem p v = (\<lambda>a. if p \<le> a \<and> a < p + 4 then ucast (drop_bit (8 * (a - p)) v) else mem a)"

definition shm_at :: "host_pages \<Rightarrow> nat \<Rightarrow> nat outcome" where
  "shm_at pt a = (case pt (a div 4096) of None \<Rightarrow> Faults | Some p \<Rightarrow> Returns (p * 4096 + a mod 4096))"

fun do_stores :: "host_pages \<Rightarrow> store list \<Rightarrow> memory \<Rightarrow> memory outcome" where
  "do_stores pt [] shm = Returns shm"
| "do_stores pt ((a, v) # ws) shm = obind (shm_at pt a) (\<lambda>o'. do_stores pt ws (write32 shm o' v))"

function CodeRangeIsUnused_loop :: "host_pages \<Rightarrow> memory \<Rightarrow> nat \<Rightarrow> nat \<Rightarrow> bool outcome" where
  "CodeRangeIsUnused_loop pt shm addr end_ptr =
     (if addr < end_ptr
      then obind (shm_at pt addr) (\<lambda>o'.
        if NACL_HALT_WORD \<noteq> read32 shm o' then Returns False else CodeRangeIsUnused_loop pt shm (addr + 4) end_ptr)
      else Returns True)"
  by pat_completeness auto
termination by (relation "measure (\<lambda>(pt, shm, a, e). e - a)") auto

definition CodeRangeIsUnused :: "host_pages \<Rightarrow> memory \<Rightarrow> nat \<Rightarrow> u32 \<Rightarrow> bool outcome" where
  "CodeRangeIsUnused pt shm data sz = CodeRangeIsUnused_loop pt shm data (data + unat sz)"

function CopyBundleTails_loop :: "memory \<Rightarrow> u32 \<Rightarrow> nat \<Rightarrow> nat \<Rightarrow> nat \<Rightarrow> store list" where
  "CopyBundleTails_loop code bmask dest_ptr src_ptr end_ptr =
     (if dest_ptr < end_ptr
      then (if of_nat dest_ptr AND bmask \<noteq> 0 then [(dest_ptr, read32 code src_ptr)] else []) @
        CopyBundleTails_loop code bmask (dest_ptr + 4) (src_ptr + 4) end_ptr
      else [])"
  by pat_completeness auto
termination by (relation "measure (\<lambda>(c, m, d, s, e). e - d)") auto

definition CopyBundleTails :: "memory \<Rightarrow> nat \<Rightarrow> nat \<Rightarrow> u32 \<Rightarrow> int \<Rightarrow> store list outcome" where
  "CopyBundleTails code dest src sz bsize =
     (if 0 \<noteq> (of_nat dest :: u32) AND 3 then Aborts
      else Returns (CopyBundleTails_loop code (word_of_int (bsize - 1)) dest src (nat (int dest + sint sz))))"

function CopyBundleHeads_loop :: "memory \<Rightarrow> nat \<Rightarrow> nat \<Rightarrow> nat \<Rightarrow> nat \<Rightarrow> store list outcome" where
  "CopyBundleHeads_loop code bsize dest_ptr src_ptr end_ptr =
     (if dest_ptr < end_ptr
      then if bsize = 0 then Diverges
           else obind (CopyBundleHeads_loop code bsize (dest_ptr + bsize) (src_ptr + bsize) end_ptr) (\<lambda>ws.
             Returns ((dest_ptr, read32 code src_ptr) # ws))
      else Returns [])"
  by pat_completeness auto
termination by (relation "measure (\<lambda>(c, b, d, s, e). e - d)") auto

definition CopyBundleHeads :: "memory \<Rightarrow> nat \<Rightarrow> nat \<Rightarrow> u32 \<Rightarrow> int \<Rightarrow> store list outcome" where
  "CopyBundleHeads code dest src sz bsize =
     (if 0 \<noteq> (of_nat dest :: u32) AND 3 then Aborts
      else CopyBundleHeads_loop code (nat bsize) dest src (dest + unat sz))"

text \<open>The stores before and after the write barrier.\<close>

definition CopyCodeSafely :: "memory \<Rightarrow> nat \<Rightarrow> nat \<Rightarrow> u32 \<Rightarrow> int \<Rightarrow> (store list \<times> store list) outcome" where
  "CopyCodeSafely code dest src sz bsize =
     obind (CopyBundleTails code dest src sz bsize) (\<lambda>tails.
       obind (CopyBundleHeads code dest src sz bsize) (\<lambda>heads. Returns (tails, heads)))"

record text_state =
  ts_inited :: bool
  ts_shm :: "memory option"
  ts_pages :: host_pages

text \<open>
  What happens once the object is mapped at \<open>mmap_result\<close>: the copy is validated and, when the range is still unused, written.
  The block that holds the copy is freed before the call returns, so its place in memory is not part of the result.
\<close>

definition dyncode_install ::
    "DecodeTables \<Rightarrow> CPUFeatures \<Rightarrow> (nat \<Rightarrow> nat \<Rightarrow> bool) \<Rightarrow> host_os \<Rightarrow> NaClApp \<Rightarrow> memory \<Rightarrow> memory \<Rightarrow> text_state \<Rightarrow>
     u32 \<Rightarrow> u32 \<Rightarrow> u32 \<Rightarrow> u32 \<Rightarrow> (int \<times> text_state) outcome" where
  "dyncode_install T cpu alloc os nap mem shm st dest src_addr mapped_addr sz =
     (case os_malloc os sz of
        None \<Rightarrow> Returns (- NACL_ABI_ENOMEM, st)
      | Some code_copy \<Rightarrow>
          case NaClValidateCode T cpu alloc (ts_inited st) nap dest code_copy sz (memcpy mem code_copy (unat src_addr) (unat sz)) of
            None \<Rightarrow> Diverges
          | Some (code, inited, validator_result) \<Rightarrow>
              let st = st\<lparr>ts_inited := inited\<rparr>
              in if validator_result \<noteq> LOAD_OK \<and> \<not> ignore_validator_result nap then Returns (- NACL_ABI_EINVAL, st)
                 else
                   obind (CodeRangeIsUnused (ts_pages st) shm (unat mapped_addr) sz) (\<lambda>unused.
                     if \<not> unused then Returns (- NACL_ABI_EINVAL, st)
                     else
                       obind (CopyCodeSafely code (unat mapped_addr) code_copy sz (bundle_size nap)) (\<lambda>(tails, heads).
                         obind (do_stores (ts_pages st) (tails @ heads) shm) (\<lambda>shm.
                           Returns (0, st\<lparr>ts_shm := Some shm\<rparr>)))))"

text \<open>From mapping the object to removing the mapping.\<close>

definition dyncode_mapped ::
    "DecodeTables \<Rightarrow> CPUFeatures \<Rightarrow> (nat \<Rightarrow> nat \<Rightarrow> bool) \<Rightarrow> host_os \<Rightarrow> NaClApp \<Rightarrow> memory \<Rightarrow> memory \<Rightarrow> text_state \<Rightarrow>
     u32 \<Rightarrow> u32 \<Rightarrow> u32 \<Rightarrow> (int \<times> text_state) outcome" where
  "dyncode_mapped T cpu alloc os nap mem shm st dest src_addr sz =
     (let shm_offset = dest - dynamic_text_start nap;
          shm_map_offset = shm_offset AND NOT (NACL_MAP_PAGESIZE - 1);
          within_page_offset = shm_offset AND (NACL_MAP_PAGESIZE - 1);
          shm_map_offset_end = (shm_offset + sz + NACL_MAP_PAGESIZE - 1) AND NOT (NACL_MAP_PAGESIZE - 1);
          shm_map_size = shm_map_offset_end - shm_map_offset
      in obind (NaClDescImcShmMap os 0 shm_map_size (NACL_ABI_PROT_READ OR NACL_ABI_PROT_WRITE) NACL_ABI_MAP_SHARED
                 (ucast shm_map_offset) (ts_pages st)) (\<lambda>(mmap_ret, pt).
        let st = st\<lparr>ts_pages := pt\<rparr>
        in if NaClIsNegErrno (ucast mmap_ret) then Returns (sint mmap_ret, st)
           else
             let mapped_addr = mmap_ret + within_page_offset
             in if \<not> mmap_ret \<le> mapped_addr then Aborts
                else if \<not> mapped_addr + sz \<le> mmap_ret + shm_map_size then Aborts
                else
                  obind (dyncode_install T cpu alloc os nap mem shm st dest src_addr mapped_addr sz) (\<lambda>(retval, st).
                    obind (NaClDescImcShmUnmapUnsafe os mmap_ret shm_map_size (ts_pages st)) (\<lambda>(rc, pt).
                      if 0 \<noteq> rc then Aborts else Returns (retval, st\<lparr>ts_pages := pt\<rparr>)))))"

definition NaClTextSysDyncode_Copy ::
    "DecodeTables \<Rightarrow> CPUFeatures \<Rightarrow> (nat \<Rightarrow> nat \<Rightarrow> bool) \<Rightarrow> host_os \<Rightarrow> NaClApp \<Rightarrow> memory \<Rightarrow> text_state \<Rightarrow>
     u32 \<Rightarrow> u32 \<Rightarrow> u32 \<Rightarrow> (int \<times> text_state) outcome" where
  "NaClTextSysDyncode_Copy T cpu alloc os nap mem st dest src sz =
     (case ts_shm st of
        None \<Rightarrow> Returns (- NACL_ABI_EINVAL, st)
      | Some shm \<Rightarrow>
          if 0 \<noteq> dest AND (word_of_int (bundle_size nap - 1)) \<or> 0 \<noteq> sz AND (word_of_int (bundle_size nap - 1))
          then Returns (- NACL_ABI_EINVAL, st)
          else
            let dest_addr = NaClUserToSysAddrRange nap dest sz;
                src_addr = NaClUserToSysAddrRange nap src sz
            in if dest_addr = kNaClBadAddress \<or> src_addr = kNaClBadAddress then Returns (- NACL_ABI_EFAULT, st)
               else if dest < dynamic_text_start nap then Returns (- NACL_ABI_EFAULT, st)
               else if dest + sz > dynamic_text_end nap - NACL_HALT_SLED_SIZE then Returns (- NACL_ABI_EFAULT, st)
               else if sz = 0 then Returns (0, st)
               else dyncode_mapped T cpu alloc os nap mem shm st dest src_addr sz)"

subsection \<open>Words in memory\<close>

declare CopyBundleTails_loop.simps [simp del] CopyBundleHeads_loop.simps [simp del] CodeRangeIsUnused_loop.simps [simp del]

lemma read32_byte: "i < 4 \<Longrightarrow> ucast (drop_bit (8 * i) (read32 mem p)) = mem (p + i)"
proof -
  assume "i < 4"
  then have "i = 0 \<or> i = 1 \<or> i = 2 \<or> i = 3" by auto
  then show ?thesis
    by (elim disjE) (rule bit_word_eqI; auto simp: read32_def bit_simps numeral_3_eq_3 numeral_2_eq_2 dest: bit_imp_le_length)+
qed

lemma write32_read32:
  "write32 shm o' (read32 code s) x = (if o' \<le> x \<and> x < o' + 4 then code (s + (x - o')) else shm x)"
  using read32_byte [of "x - o'" code s] by (auto simp: write32_def)

subsection \<open>Stores through a mapping\<close>

text \<open>A mapping is linear on a range when consecutive addresses reach consecutive bytes of the object.\<close>

definition linear :: "host_pages \<Rightarrow> nat \<Rightarrow> nat \<Rightarrow> nat \<Rightarrow> bool" where
  "linear pt d n o' \<longleftrightarrow> (\<forall>a. d \<le> a \<and> a < d + n \<longrightarrow> shm_at pt a = Returns (o' + (a - d)))"

lemma linear_window:
  assumes "4096 dvd m" "w + n \<le> 4096 * k"
  shows "linear (window (m div 4096) k off pt) (m + w) n (off * 4096 + w)"
  unfolding linear_def
proof (intro allI impI)
  fix a assume a: "m + w \<le> a \<and> a < m + w + n"
  obtain q where q: "m = 4096 * q" using assms(1) by (auto simp: dvd_def)
  define i where "i = a - m"
  have i: "a = 4096 * q + i" "i < 4096 * k" "a - (m + w) = i - w" "w \<le> i" using a q assms(2) unfolding i_def by linarith+
  have d: "a div 4096 = q + i div 4096" "a mod 4096 = i mod 4096" using i(1) by simp_all
  have "i div 4096 < k" using i(2) by (simp add: less_mult_imp_div_less mult.commute)
  then have "shm_at (window (m div 4096) k off pt) a = Returns ((off + i div 4096) * 4096 + i mod 4096)"
    by (simp add: shm_at_def window_def d q)
  also have "(off + i div 4096) * 4096 + i mod 4096 = off * 4096 + i" by (simp add: add_mult_distrib)
  finally show "shm_at (window (m div 4096) k off pt) a = Returns (off * 4096 + w + (a - (m + w)))" using i(3,4) by simp
qed

definition word_of :: "nat \<Rightarrow> nat \<Rightarrow> nat \<Rightarrow> nat" where
  "word_of d o' x = d + 4 * ((x - o') div 4)"

definition copies :: "memory \<Rightarrow> nat \<Rightarrow> nat \<Rightarrow> nat \<Rightarrow> store list \<Rightarrow> bool" where
  "copies code d s n ws \<longleftrightarrow> (\<forall>(a, v)\<in>set ws. \<exists>i. a = d + 4 * i \<and> 4 * i < n \<and> v = read32 code (s + 4 * i))"

lemma do_stores_spec:
  assumes lin: "linear pt d n o'" and "copies code d s n ws" and "4 dvd n"
  shows "\<exists>shm'. do_stores pt ws shm = Returns shm' \<and>
    (\<forall>x. shm' x = (if o' \<le> x \<and> x < o' + n \<and> word_of d o' x \<in> fst ` set ws then code (s + (x - o')) else shm x))"
  using assms(2)
proof (induction ws arbitrary: shm)
  case (Cons w ws)
  obtain i where w: "w = (d + 4 * i, read32 code (s + 4 * i))" "4 * i < n" using Cons.prems by (cases w) (auto simp: copies_def)
  have i4: "4 * i + 4 \<le> n" using w(2) assms(3) by (auto simp: dvd_def)
  have at: "shm_at pt (d + 4 * i) = Returns (o' + 4 * i)" using lin w(2) by (simp add: linear_def)
  let ?shm = "write32 shm (o' + 4 * i) (read32 code (s + 4 * i))"
  have "copies code d s n ws" using Cons.prems by (simp add: copies_def)
  from Cons.IH [OF this, of ?shm] obtain shm' where s: "do_stores pt ws ?shm = Returns shm'"
      "\<forall>x. shm' x = (if o' \<le> x \<and> x < o' + n \<and> word_of d o' x \<in> fst ` set ws then code (s + (x - o')) else ?shm x)" by blast
  have one: "?shm x = (if o' \<le> x \<and> x < o' + n \<and> word_of d o' x = d + 4 * i then code (s + (x - o')) else shm x)" for x
  proof (cases "o' + 4 * i \<le> x \<and> x < o' + 4 * i + 4")
    case True
    then have "(x - o') div 4 = i" by (intro div_nat_eqI) auto
    then show ?thesis using True i4 by (simp add: write32_read32 word_of_def)
  next
    case False
    then have "\<not> (o' \<le> x \<and> (x - o') div 4 = i)" by auto
    then show ?thesis using False by (auto simp: write32_read32 word_of_def)
  qed
  have "do_stores pt (w # ws) shm = Returns shm'" using at s(1) w(1) by simp
  moreover have "\<forall>x. shm' x = (if o' \<le> x \<and> x < o' + n \<and> word_of d o' x \<in> fst ` set (w # ws) then code (s + (x - o')) else shm x)"
    using s(2) one w(1) by auto
  ultimately show ?case by blast
qed simp

subsection \<open>The order of the stores\<close>

lemma steps_unfold:
  "(\<exists>i :: nat. P (d + b * i) (s + b * i)) \<longleftrightarrow> P d s \<or> (\<exists>i. P (d + b + b * i) (s + b + b * i))"
proof
  assume "\<exists>i. P (d + b * i) (s + b * i)"
  then obtain i where i: "P (d + b * i) (s + b * i)" ..
  show "P d s \<or> (\<exists>i. P (d + b + b * i) (s + b + b * i))"
  proof (cases i)
    case (Suc j)
    then have "P (d + b + b * j) (s + b + b * j)" using i by (simp add: add.assoc)
    then show ?thesis by blast
  qed (use i in simp)
next
  assume "P d s \<or> (\<exists>i. P (d + b + b * i) (s + b + b * i))"
  then show "\<exists>i. P (d + b * i) (s + b * i)"
  proof
    assume "P d s"
    then show ?thesis by (intro exI [of _ 0]) simp
  next
    assume "\<exists>i. P (d + b + b * i) (s + b + b * i)"
    then obtain j where "P (d + b + b * j) (s + b + b * j)" ..
    then show ?thesis by (intro exI [of _ "Suc j"]) (simp add: add.assoc)
  qed
qed

lemma tails_set:
  "(a, v) \<in> set (CopyBundleTails_loop code m d s e) \<longleftrightarrow>
     (\<exists>i. a = d + 4 * i \<and> v = read32 code (s + 4 * i) \<and> d + 4 * i < e \<and> of_nat (d + 4 * i) AND m \<noteq> 0)"
proof (induction code m d s e rule: CopyBundleTails_loop.induct)
  case (1 code m d s e)
  have u: "(\<exists>i. a = d + 4 * i \<and> v = read32 code (s + 4 * i) \<and> d + 4 * i < e \<and> of_nat (d + 4 * i) AND m \<noteq> 0) \<longleftrightarrow>
      (a = d \<and> v = read32 code s \<and> d < e \<and> of_nat d AND m \<noteq> 0) \<or>
      (\<exists>i. a = d + 4 + 4 * i \<and> v = read32 code (s + 4 + 4 * i) \<and> d + 4 + 4 * i < e \<and> of_nat (d + 4 + 4 * i) AND m \<noteq> 0)"
    by (rule steps_unfold)
  show ?case
  proof (cases "d < e")
    case True
    then show ?thesis unfolding u CopyBundleTails_loop.simps [of code m d] using 1 by auto
  next
    case False
    then show ?thesis by (simp add: CopyBundleTails_loop.simps [of code m d])
  qed
qed

lemma heads_set:
  assumes "0 < b"
  shows "\<exists>ws. CopyBundleHeads_loop code b d s e = Returns ws \<and>
    (\<forall>a v. (a, v) \<in> set ws \<longleftrightarrow> (\<exists>i. a = d + b * i \<and> v = read32 code (s + b * i) \<and> d + b * i < e))"
  using assms
proof (induction code b d s e rule: CopyBundleHeads_loop.induct)
  case (1 code b d s e)
  have u: "(\<exists>i. a = d + b * i \<and> v = read32 code (s + b * i) \<and> d + b * i < e) \<longleftrightarrow>
      (a = d \<and> v = read32 code s \<and> d < e) \<or> (\<exists>i. a = d + b + b * i \<and> v = read32 code (s + b + b * i) \<and> d + b + b * i < e)" for a v
    by (rule steps_unfold)
  show ?case
  proof (cases "d < e")
    case True
    obtain ws where ws: "CopyBundleHeads_loop code b (d + b) (s + b) e = Returns ws"
        "\<forall>a v. (a, v) \<in> set ws \<longleftrightarrow> (\<exists>i. a = d + b + b * i \<and> v = read32 code (s + b + b * i) \<and> d + b + b * i < e)"
      using 1 True by blast
    have "CopyBundleHeads_loop code b d s e = Returns ((d, read32 code s) # ws)"
      using True 1(2) ws(1) by (simp add: CopyBundleHeads_loop.simps [of code b d])
    then show ?thesis unfolding u using ws(2) True by (intro exI [of _ "(d, read32 code s) # ws"]) auto
  qed (simp add: CopyBundleHeads_loop.simps [of code b d])
qed

lemma of_nat_and_mask: "k \<le> 32 \<Longrightarrow> (of_nat x :: u32) AND mask k = 0 \<longleftrightarrow> 2 ^ k dvd x"
proof -
  assume k: "k \<le> 32"
  have "(of_nat x :: u32) AND mask k = 0 \<longleftrightarrow> unat (of_nat x AND mask k :: u32) = 0" by (simp add: unat_eq_0)
  also have "unat (of_nat x AND mask k :: u32) = x mod 2 ^ 32 mod 2 ^ k" by (simp only: unat_and_mask unat_of_nat) simp
  also have "\<dots> = x mod 2 ^ k" using k by (intro mod_mod_cancel le_imp_power_dvd)
  finally show ?thesis by (simp add: dvd_eq_mod_eq_0)
qed

lemma sint_u32: "unat (w :: u32) < 2 ^ 31 \<Longrightarrow> sint w = int (unat w)"
proof -
  assume "unat w < 2 ^ 31"
  then have "uint w < 2 ^ 31"
    using of_nat_less_iff [of "unat w" "2 ^ 31", where ?'a = int] by (simp only: uint_nat of_nat_power of_nat_numeral)
  moreover have "0 \<le> uint w" by simp
  ultimately have "signed_take_bit 31 (uint w) = uint w" by (intro signed_take_bit_int_eq_self) linarith+
  then show ?thesis by (simp add: sint_uint)
qed

lemma CopyCodeSafely_stores:
  assumes k: "2 \<le> k" "k \<le> 32" and al: "2 ^ k dvd d" "2 ^ k dvd unat sz" and small: "unat sz < 2 ^ 31"
  shows "\<exists>tails heads. CopyCodeSafely code d s sz (2 ^ k) = Returns (tails, heads) \<and>
    copies code d s (unat sz) tails \<and> copies code d s (unat sz) heads \<and>
    (\<forall>i. d + 4 * i \<in> fst ` set tails \<longleftrightarrow> 4 * i < unat sz \<and> \<not> 2 ^ k dvd 4 * i) \<and>
    (\<forall>i. d + 4 * i \<in> fst ` set heads \<longleftrightarrow> 4 * i < unat sz \<and> 2 ^ k dvd 4 * i)"
proof -
  obtain c where c: "(2 :: nat) ^ k = 4 * c" using le_imp_power_dvd [OF k(1), of "2 :: nat"] by (auto simp: dvd_def)
  have "(4 :: nat) dvd d" using al(1) unfolding c by (metis dvd_mult_left)
  then have d4: "(of_nat d :: u32) AND 3 = 0" using of_nat_and_mask [of 2 d] by (simp add: mask_eq_exp_minus_1)
  define tails where "tails = CopyBundleTails_loop code (mask k) d s (d + unat sz)"
  have m: "(word_of_int (2 ^ k - 1) :: u32) = mask k" by (simp add: mask_eq_exp_minus_1)
  have t: "CopyBundleTails code d s sz (2 ^ k) = Returns tails"
    using d4 unfolding CopyBundleTails_def m tails_def sint_u32 [OF small] by (simp add: nat_add_distrib)
  have ti: "(a, v) \<in> set tails \<longleftrightarrow> (\<exists>i. a = d + 4 * i \<and> v = read32 code (s + 4 * i) \<and> 4 * i < unat sz \<and> \<not> 2 ^ k dvd 4 * i)" for a v
    unfolding tails_def tails_set of_nat_and_mask [OF k(2)] by (simp add: dvd_add_right_iff [OF al(1)])
  have n2: "nat (2 ^ k) = 2 ^ k" by (simp add: nat_power_eq)
  obtain heads where h: "CopyBundleHeads code d s sz (2 ^ k) = Returns heads"
      "\<forall>a v. (a, v) \<in> set heads \<longleftrightarrow> (\<exists>i. a = d + 2 ^ k * i \<and> v = read32 code (s + 2 ^ k * i) \<and> d + 2 ^ k * i < d + unat sz)"
    using heads_set [of "2 ^ k" code d s "d + unat sz"] d4 by (auto simp: CopyBundleHeads_def n2)
  have hi: "(a, v) \<in> set heads \<longleftrightarrow> (\<exists>i. a = d + 4 * i \<and> v = read32 code (s + 4 * i) \<and> 4 * i < unat sz \<and> 2 ^ k dvd 4 * i)" for a v
  proof
    assume "(a, v) \<in> set heads"
    then obtain i where "a = d + 2 ^ k * i" "v = read32 code (s + 2 ^ k * i)" "2 ^ k * i < unat sz" using h(2) by auto
    then show "\<exists>i. a = d + 4 * i \<and> v = read32 code (s + 4 * i) \<and> 4 * i < unat sz \<and> 2 ^ k dvd 4 * i"
      by (intro exI [of _ "c * i"]) (simp add: c mult.assoc)
  next
    assume "\<exists>i. a = d + 4 * i \<and> v = read32 code (s + 4 * i) \<and> 4 * i < unat sz \<and> 2 ^ k dvd 4 * i"
    then show "(a, v) \<in> set heads" using h(2) by (auto simp: dvd_def)
  qed
  have "CopyCodeSafely code d s sz (2 ^ k) = Returns (tails, heads)" using t h(1) by (simp add: CopyCodeSafely_def)
  moreover have "copies code d s (unat sz) tails" "copies code d s (unat sz) heads" using ti hi by (fastforce simp: copies_def)+
  moreover have "d + 4 * i \<in> fst ` set tails \<longleftrightarrow> 4 * i < unat sz \<and> \<not> 2 ^ k dvd 4 * i"
      "d + 4 * i \<in> fst ` set heads \<longleftrightarrow> 4 * i < unat sz \<and> 2 ^ k dvd 4 * i" for i
    by (auto simp: image_iff Bex_def ti hi)
  ultimately show ?thesis by blast
qed

text \<open>
  The stores that another thread may have seen at some moment: some of those before the barrier, or all of them and some of
  those after it, in any order.
\<close>

definition visible :: "store list \<Rightarrow> store list \<Rightarrow> store list \<Rightarrow> bool" where
  "visible tails heads ws \<longleftrightarrow> set ws \<subseteq> set tails \<or> (\<exists>hs. ws = tails @ hs \<and> set hs \<subseteq> set heads)"

lemma copies_subset: "copies code d s n ws \<Longrightarrow> set ws' \<subseteq> set ws \<Longrightarrow> copies code d s n ws'"
  by (fastforce simp: copies_def)

lemma copies_append: "copies code d s n (ws @ ws') \<longleftrightarrow> copies code d s n ws \<and> copies code d s n ws'"
  unfolding copies_def set_append ball_Un ..

lemma dvd_4: "2 \<le> k \<Longrightarrow> 2 ^ k dvd n \<Longrightarrow> (4 :: nat) dvd n"
  using le_imp_power_dvd [of 2 k "2 :: nat"] by (simp add: dvd_trans)

text \<open>The words of a bundle: the first is the one whose offset is a multiple of the bundle size.\<close>

lemma bundle_words:
  assumes k: "2 \<le> k" and n: "2 ^ k dvd n" "2 ^ k * j < n" and i: "i < 2 ^ k"
  shows "\<exists>q. word_of d o' (o' + 2 ^ k * j + i) = d + 4 * q \<and> 4 * q < n \<and> (2 ^ k dvd 4 * q \<longleftrightarrow> i < 4) \<and> (i < 4 \<longrightarrow> d + 4 * q = d + 2 ^ k * j)"
    and "2 ^ k * j + i < n"
proof -
  obtain c where c: "(2 :: nat) ^ k = 4 * c" using le_imp_power_dvd [OF k, of "2 :: nat"] by (auto simp: dvd_def)
  obtain e where e: "n = 2 ^ k * e" using n(1) by (auto simp: dvd_def)
  have "j < e" using n(2) unfolding e by simp
  then have "2 ^ k * (j + 1) \<le> n" unfolding e by (intro mult_le_mono2) simp
  then show l: "2 ^ k * j + i < n" using i by simp
  define q where "q = c * j + i div 4"
  have "(o' + 2 ^ k * j + i - o') div 4 = q" using div_mult_self2 [of 4 i "c * j"] by (simp add: q_def c mult.assoc add.commute)
  then have w: "word_of d o' (o' + 2 ^ k * j + i) = d + 4 * q" by (simp add: word_of_def)
  have q4: "4 * q < n" using l unfolding q_def by (simp add: c mult.assoc)
  have "2 ^ k dvd 4 * q \<longleftrightarrow> c dvd i div 4" unfolding c q_def by (simp add: dvd_add_right_iff)
  moreover have "i div 4 < c" using i unfolding c by (simp add: less_mult_imp_div_less mult.commute)
  ultimately have "2 ^ k dvd 4 * q \<longleftrightarrow> i < 4" by (auto simp: div_eq_0_iff dest: nat_dvd_not_less)
  then show "\<exists>q. word_of d o' (o' + 2 ^ k * j + i) = d + 4 * q \<and> 4 * q < n \<and> (2 ^ k dvd 4 * q \<longleftrightarrow> i < 4) \<and> (i < 4 \<longrightarrow> d + 4 * q = d + 2 ^ k * j)"
    using w q4 by (intro exI [of _ q]) (simp add: q_def c mult.assoc)
qed

text \<open>
  C19: code appears atomically, bundle by bundle. Whatever part of the stores another thread has seen, a bundle of the range being
  written either still starts with halts or holds the whole new bundle, and nothing outside the range has changed.
\<close>

theorem CopyCodeSafely_atomic:
  assumes k: "2 \<le> k" "k \<le> 32" and al: "2 ^ k dvd d" "2 ^ k dvd unat sz" and small: "unat sz < 2 ^ 31"
    and lin: "linear pt d (unat sz) o'" and halts: "\<forall>x. o' \<le> x \<and> x < o' + unat sz \<longrightarrow> shm x = NACL_HALT_OPCODE"
    and cp: "CopyCodeSafely code d s sz (2 ^ k) = Returns (tails, heads)" and vis: "visible tails heads ws"
  shows "\<exists>shm'. do_stores pt ws shm = Returns shm' \<and> (\<forall>x. x < o' \<or> o' + unat sz \<le> x \<longrightarrow> shm' x = shm x) \<and>
    (\<forall>j. 2 ^ k * j < unat sz \<longrightarrow> (\<forall>i<4. shm' (o' + 2 ^ k * j + i) = NACL_HALT_OPCODE) \<or>
       (\<forall>i<2 ^ k. shm' (o' + 2 ^ k * j + i) = code (s + 2 ^ k * j + i)))"
proof -
  have st: "copies code d s (unat sz) tails" "copies code d s (unat sz) heads"
      "\<And>i. d + 4 * i \<in> fst ` set tails \<longleftrightarrow> 4 * i < unat sz \<and> \<not> 2 ^ k dvd 4 * i"
      "\<And>i. d + 4 * i \<in> fst ` set heads \<longleftrightarrow> 4 * i < unat sz \<and> 2 ^ k dvd 4 * i"
    using CopyCodeSafely_stores [OF k al small, of code s] cp by auto
  have "copies code d s (unat sz) ws" using vis st(1,2) copies_subset copies_append unfolding visible_def by metis
  then obtain shm' where s': "do_stores pt ws shm = Returns shm'"
      "\<And>x. shm' x = (if o' \<le> x \<and> x < o' + unat sz \<and> word_of d o' x \<in> fst ` set ws then code (s + (x - o')) else shm x)"
    using do_stores_spec [OF lin _ dvd_4 [OF k(1) al(2)]] by blast
  have "(\<forall>i<4. shm' (o' + 2 ^ k * j + i) = NACL_HALT_OPCODE) \<or> (\<forall>i<2 ^ k. shm' (o' + 2 ^ k * j + i) = code (s + 2 ^ k * j + i))"
    if j: "2 ^ k * j < unat sz" for j
  proof -
    note bw = bundle_words [OF k(1) al(2) j]
    have k4: "(4 :: nat) \<le> 2 ^ k" using power_increasing [OF k(1), of "2 :: nat"] by simp
    show ?thesis
    proof (cases "d + 2 ^ k * j \<in> fst ` set ws")
      case False
      have "shm' (o' + 2 ^ k * j + i) = NACL_HALT_OPCODE" if "i < 4" for i
      proof -
        have i: "i < 2 ^ k" using that k4 by simp
        have "word_of d o' (o' + 2 ^ k * j + i) \<notin> fst ` set ws" using bw(1) [OF i, of d o'] that False by (elim exE conjE) simp
        then show ?thesis using s'(2) halts bw(2) [OF i] by simp
      qed
      then show ?thesis by simp
    next
      case True
      obtain q where q: "d + 4 * q = d + 2 ^ k * j" "2 ^ k dvd 4 * q" using bw(1) [of 0 d o'] by auto
      have "\<not> set ws \<subseteq> set tails" using True st(3) [of q] q by (metis image_mono subsetD)
      then obtain hs where hs: "ws = tails @ hs" using vis by (auto simp: visible_def)
      have "shm' (o' + 2 ^ k * j + i) = code (s + 2 ^ k * j + i)" if i: "i < 2 ^ k" for i
      proof -
        obtain q' where q': "word_of d o' (o' + 2 ^ k * j + i) = d + 4 * q'" "4 * q' < unat sz" "2 ^ k dvd 4 * q' \<longleftrightarrow> i < 4"
            "i < 4 \<longrightarrow> d + 4 * q' = d + 2 ^ k * j"
          using bw(1) [OF i, of d o'] by (elim exE conjE)
        have "d + 4 * q' \<in> fst ` set ws"
        proof (cases "i < 4")
          case False
          then have "d + 4 * q' \<in> fst ` set tails" using st(3) [of q'] q' by simp
          then show ?thesis using hs by auto
        qed (use True q' in simp)
        then show ?thesis using s'(2) q'(1) bw(2) [OF i] by (simp add: add.assoc)
      qed
      then show ?thesis by simp
    qed
  qed
  then show ?thesis using s' by (intro exI [of _ shm']) simp
qed

subsection \<open>The whole copy\<close>

lemma CopyCodeSafely_all:
  assumes k: "2 \<le> k" "k \<le> 32" and al: "2 ^ k dvd d" "2 ^ k dvd unat sz" and small: "unat sz < 2 ^ 31"
    and lin: "linear pt d (unat sz) o'" and cp: "CopyCodeSafely code d s sz (2 ^ k) = Returns (tails, heads)"
  shows "do_stores pt (tails @ heads) shm = Returns (\<lambda>x. if o' \<le> x \<and> x < o' + unat sz then code (s + (x - o')) else shm x)"
proof -
  have st: "copies code d s (unat sz) tails" "copies code d s (unat sz) heads"
      "\<And>i. d + 4 * i \<in> fst ` set tails \<longleftrightarrow> 4 * i < unat sz \<and> \<not> 2 ^ k dvd 4 * i"
      "\<And>i. d + 4 * i \<in> fst ` set heads \<longleftrightarrow> 4 * i < unat sz \<and> 2 ^ k dvd 4 * i"
    using CopyCodeSafely_stores [OF k al small, of code s] cp by auto
  obtain shm' where s': "do_stores pt (tails @ heads) shm = Returns shm'"
      "\<forall>x. shm' x = (if o' \<le> x \<and> x < o' + unat sz \<and> word_of d o' x \<in> fst ` set (tails @ heads) then code (s + (x - o')) else shm x)"
    using do_stores_spec [OF lin _ dvd_4 [OF k(1) al(2)], of code s "tails @ heads" shm] st(1,2) copies_append by blast
  have "word_of d o' x \<in> fst ` set (tails @ heads)" if "o' \<le> x" "x < o' + unat sz" for x
  proof -
    have "4 * ((x - o') div 4) < unat sz" using that by simp
    then show ?thesis using st(3,4) [of "(x - o') div 4"] by (auto simp: word_of_def image_Un)
  qed
  then have "shm' = (\<lambda>x. if o' \<le> x \<and> x < o' + unat sz then code (s + (x - o')) else shm x)" using s'(2) by auto
  then show ?thesis using s'(1) by simp
qed

lemma halt_word: "read32 shm x = NACL_HALT_WORD \<longleftrightarrow> (\<forall>i<4. shm (x + i) = NACL_HALT_OPCODE)"
proof
  assume "read32 shm x = NACL_HALT_WORD"
  then have "shm (x + i) = ucast (drop_bit (8 * i) NACL_HALT_WORD)" if "i < 4" for i using read32_byte [OF that, of shm x] by simp
  moreover have "ucast (drop_bit (8 * i) NACL_HALT_WORD) = NACL_HALT_OPCODE" if "i < 4" for i
  proof -
    have "i = 0 \<or> i = 1 \<or> i = 2 \<or> i = 3" using that by auto
    then show ?thesis by (elim disjE) (simp_all add: nacl_consts)
  qed
  ultimately show "\<forall>i<4. shm (x + i) = NACL_HALT_OPCODE" by simp
next
  assume a: "\<forall>i<4. shm (x + i) = NACL_HALT_OPCODE"
  have "shm x = 0xf4" "shm (x + 1) = 0xf4" "shm (x + 2) = 0xf4" "shm (x + 3) = 0xf4"
    using a [rule_format, of 0] a [rule_format, of 1] a [rule_format, of 2] a [rule_format, of 3] by (simp_all add: nacl_consts)
  then show "read32 shm x = NACL_HALT_WORD" by (simp add: read32_def nacl_consts)
qed

lemma CodeRangeIsUnused_loop_spec:
  assumes "linear pt d (4 * n) o'"
  shows "CodeRangeIsUnused_loop pt shm d (d + 4 * n) = Returns (\<forall>x. o' \<le> x \<and> x < o' + 4 * n \<longrightarrow> shm x = NACL_HALT_OPCODE)"
  using assms
proof (induction n arbitrary: d o')
  case 0
  then show ?case by (auto simp: CodeRangeIsUnused_loop.simps)
next
  case (Suc n)
  have at: "shm_at pt d = Returns o'" using Suc.prems by (simp add: linear_def)
  have "linear pt (d + 4) (4 * n) (o' + 4)" using Suc.prems by (auto simp: linear_def)
  from Suc.IH [OF this]
  have ih: "CodeRangeIsUnused_loop pt shm (d + 4) (d + 4 * Suc n) =
      Returns (\<forall>x. o' + 4 \<le> x \<and> x < o' + 4 * Suc n \<longrightarrow> shm x = NACL_HALT_OPCODE)"
    by (simp add: add.assoc)
  have "(\<forall>x. o' \<le> x \<and> x < o' + 4 * Suc n \<longrightarrow> shm x = NACL_HALT_OPCODE) \<longleftrightarrow>
      (\<forall>i<4. shm (o' + i) = NACL_HALT_OPCODE) \<and> (\<forall>x. o' + 4 \<le> x \<and> x < o' + 4 * Suc n \<longrightarrow> shm x = NACL_HALT_OPCODE)"
  proof (intro iffI conjI allI impI)
    fix x assume a: "(\<forall>i<4. shm (o' + i) = NACL_HALT_OPCODE) \<and> (\<forall>x. o' + 4 \<le> x \<and> x < o' + 4 * Suc n \<longrightarrow> shm x = NACL_HALT_OPCODE)"
      and x: "o' \<le> x \<and> x < o' + 4 * Suc n"
    show "shm x = NACL_HALT_OPCODE"
    proof (cases "x < o' + 4")
      case True
      then have "shm (o' + (x - o')) = NACL_HALT_OPCODE" using a x by (intro a [THEN conjunct1, rule_format]) linarith
      then show ?thesis using x by simp
    qed (use a x in simp)
  qed auto
  moreover have "CodeRangeIsUnused_loop pt shm d (d + 4 * Suc n) = Returns (if NACL_HALT_WORD \<noteq> read32 shm o' then False
      else (\<forall>x. o' + 4 \<le> x \<and> x < o' + 4 * Suc n \<longrightarrow> shm x = NACL_HALT_OPCODE))"
    using ih at unfolding CodeRangeIsUnused_loop.simps [of pt shm d] by simp
  ultimately show ?case using halt_word [of shm o'] by (simp add: eq_commute)
qed

lemma CodeRangeIsUnused_spec:
  assumes "linear pt d (unat sz) o'" "4 dvd unat sz"
  shows "CodeRangeIsUnused pt shm d sz = Returns (\<forall>x. o' \<le> x \<and> x < o' + unat sz \<longrightarrow> shm x = NACL_HALT_OPCODE)"
proof -
  obtain n where n: "unat sz = 4 * n" using assms(2) by (auto simp: dvd_def)
  show ?thesis unfolding CodeRangeIsUnused_def n by (rule CodeRangeIsUnused_loop_spec) (use assms(1) n in simp)
qed

text \<open>What a successful call did: the validated copy replaced halts, and nothing else changed.\<close>

definition installed ::
    "DecodeTables \<Rightarrow> CPUFeatures \<Rightarrow> (nat \<Rightarrow> nat \<Rightarrow> bool) \<Rightarrow> host_os \<Rightarrow> bool \<Rightarrow> NaClApp \<Rightarrow> memory \<Rightarrow> memory \<Rightarrow> memory \<Rightarrow>
     u32 \<Rightarrow> u32 \<Rightarrow> u32 \<Rightarrow> nat \<Rightarrow> bool" where
  "installed T cpu alloc os inited nap mem shm shm' dest src_addr sz o' \<longleftrightarrow>
     (\<exists>p code i rc. os_malloc os sz = Some p \<and>
        NaClValidateCode T cpu alloc inited nap dest p sz (memcpy mem p (unat src_addr) (unat sz)) = Some (code, i, rc) \<and>
        (rc = LOAD_OK \<or> ignore_validator_result nap) \<and>
        (\<forall>x. o' \<le> x \<and> x < o' + unat sz \<longrightarrow> shm x = NACL_HALT_OPCODE) \<and>
        shm' = (\<lambda>x. if o' \<le> x \<and> x < o' + unat sz then code (p + (x - o')) else shm x))"

lemma dyncode_install_eq:
  assumes p: "os_malloc os sz = Some p"
    and v: "NaClValidateCode T cpu alloc (ts_inited st) nap dest p sz (memcpy mem p (unat src_addr) (unat sz)) = Some (code, i, rc)"
    and lin: "linear (ts_pages st) (unat ma) (unat sz) o'" and k: "2 \<le> k" "k \<le> 32" and b: "bundle_size nap = 2 ^ k"
    and al: "2 ^ k dvd unat ma" "2 ^ k dvd unat sz" and small: "unat sz < 2 ^ 31"
  shows "dyncode_install T cpu alloc os nap mem shm st dest src_addr ma sz =
      (if (rc = LOAD_OK \<or> ignore_validator_result nap) \<and> (\<forall>x. o' \<le> x \<and> x < o' + unat sz \<longrightarrow> shm x = NACL_HALT_OPCODE)
       then Returns (0, st\<lparr>ts_inited := i, ts_shm := Some (\<lambda>x. if o' \<le> x \<and> x < o' + unat sz then code (p + (x - o')) else shm x)\<rparr>)
       else Returns (- NACL_ABI_EINVAL, st\<lparr>ts_inited := i\<rparr>))"
proof -
  have un: "CodeRangeIsUnused (ts_pages st) shm (unat ma) sz = Returns (\<forall>x. o' \<le> x \<and> x < o' + unat sz \<longrightarrow> shm x = NACL_HALT_OPCODE)"
    by (rule CodeRangeIsUnused_spec [OF lin dvd_4 [OF k(1) al(2)]])
  obtain tails heads where cp: "CopyCodeSafely code (unat ma) p sz (2 ^ k) = Returns (tails, heads)"
    using CopyCodeSafely_stores [OF k al small, of code p] by blast
  note all = CopyCodeSafely_all [OF k al small lin cp, of shm]
  show ?thesis unfolding dyncode_install_def p v option.case prod.case Let_def using un cp all by (simp add: b)
qed

lemma dyncode_install_mapped:
  assumes inst: "dyncode_install T cpu alloc os nap mem shm st dest src_addr ma sz = Returns (rv, st')" and shm: "ts_shm st = Some shm"
    and lin: "linear (ts_pages st) (unat ma) (unat sz) o'" and k: "2 \<le> k" "k \<le> 32" and b: "bundle_size nap = 2 ^ k"
    and al: "2 ^ k dvd unat ma" "2 ^ k dvd unat sz" and small: "unat sz < 2 ^ 31"
  shows "ts_pages st' = ts_pages st \<and> (rv = 0 \<or> ts_shm st' = Some shm) \<and>
    (rv = 0 \<longrightarrow> (\<exists>shm'. ts_shm st' = Some shm' \<and> installed T cpu alloc os (ts_inited st) nap mem shm shm' dest src_addr sz o'))"
proof (cases "os_malloc os sz")
  case None
  then show ?thesis using inst shm by (auto simp: dyncode_install_def nacl_consts)
next
  case (Some p)
  obtain code i rc where v: "NaClValidateCode T cpu alloc (ts_inited st) nap dest p sz (memcpy mem p (unat src_addr) (unat sz)) = Some (code, i, rc)"
    using inst Some by (auto simp: dyncode_install_def split: option.splits)
  from inst [unfolded dyncode_install_eq [OF Some v lin k b al small]]
  show ?thesis using shm Some v by (auto simp: installed_def nacl_consts split: if_splits)
qed

lemma dyncode_install_unmapped:
  assumes inst: "dyncode_install T cpu alloc os nap mem shm st dest src_addr ma sz = Returns (rv, st')" and shm: "ts_shm st = Some shm"
    and none: "ts_pages st (unat ma div 4096) = None" and sz: "sz \<noteq> 0"
  shows "rv \<noteq> 0 \<and> ts_shm st' = Some shm"
proof -
  have "CodeRangeIsUnused (ts_pages st) shm (unat ma) sz = Faults"
    using none sz by (simp add: CodeRangeIsUnused_def CodeRangeIsUnused_loop.simps shm_at_def unat_gt_0)
  then show ?thesis using inst shm by (auto simp: dyncode_install_def nacl_consts Let_def split: option.splits if_splits)
qed

lemma dyn_offsets:
  fixes so n :: u32
  assumes small: "unat so + unat n + 65536 \<le> 2 ^ 31"
  defines "off \<equiv> so AND NOT (NACL_MAP_PAGESIZE - 1)" and "w \<equiv> so AND (NACL_MAP_PAGESIZE - 1)"
    and "e \<equiv> (so + n + NACL_MAP_PAGESIZE - 1) AND NOT (NACL_MAP_PAGESIZE - 1)"
  shows "\<exists>j kk. unat off = 65536 * j \<and> unat (e - off) = 65536 * kk \<and> unat so = 65536 * j + unat w \<and> unat w < 65536 \<and>
    unat w + unat n \<le> 65536 * kk \<and> 65536 * (j + kk) < 2 ^ 31"
proof -
  have m: "NACL_MAP_PAGESIZE - 1 = (mask 16 :: u32)" by (simp add: MAP_PAGESIZE_val mask_eq_exp_minus_1)
  define j where "j = unat so div 65536"
  define q where "q = (unat so + unat n + 65535) div 65536"
  have off: "unat off = 65536 * j" unfolding off_def m unat_and_not_mask j_def by simp
  have w: "unat w = unat so mod 65536" unfolding w_def m unat_and_mask by simp
  have s1: "unat (so + n) = unat so + unat n" using small by (intro unat_add_no_wrap) simp
  have x: "so + n + NACL_MAP_PAGESIZE - 1 = so + n + 65535" by (simp add: MAP_PAGESIZE_val)
  have "unat (so + n + NACL_MAP_PAGESIZE - 1) = unat so + unat n + 65535"
    unfolding x using unat_add_no_wrap [of "so + n" 65535] small s1 by simp
  then have e: "unat e = 65536 * q" unfolding e_def m unat_and_not_mask q_def by simp
  have qb: "65536 * q \<le> unat so + unat n + 65535" unfolding q_def by simp
  have "unat so + unat n + 65535 < 65536 * q + 65536" unfolding q_def by (simp add: dividend_less_times_div)
  then have qb2: "unat so + unat n \<le> 65536 * q" by linarith
  have jq: "j \<le> q" unfolding j_def q_def by (intro div_le_mono) simp
  have "unat (e - off) = unat e - unat off" using off e jq by (intro unat_sub_le) (simp add: word_le_nat_alt)
  then have sz: "unat (e - off) = 65536 * (q - j)" using off e by (simp add: diff_mult_distrib2)
  have so: "unat so = 65536 * j + unat w" unfolding w j_def by simp
  have "unat w + unat n \<le> 65536 * (q - j)" using qb2 so jq by (simp add: diff_mult_distrib2)
  moreover have "65536 * (j + (q - j)) < 2 ^ 31" using qb small jq by simp
  moreover have "unat w < 65536" unfolding w by simp
  ultimately show ?thesis using off sz so by blast
qed

text \<open>The mapping of a dynamic code call, from the offsets it computes: linear on the range, or nowhere near it.\<close>

lemma dyn_map:
  fixes so sz :: u32
  assumes os: "mmap_ok os" "map_error_apart os" and small: "unat so + unat sz + 65536 \<le> 2 ^ 31" and k: "k \<le> 12" and al: "2 ^ k dvd unat so" and sz: "sz \<noteq> 0"
  defines "off \<equiv> so AND NOT (NACL_MAP_PAGESIZE - 1)" and "w \<equiv> so AND (NACL_MAP_PAGESIZE - 1)"
    and "e \<equiv> (so + sz + NACL_MAP_PAGESIZE - 1) AND NOT (NACL_MAP_PAGESIZE - 1)"
  shows "\<exists>r pt. NaClDescImcShmMap os 0 (e - off) (NACL_ABI_PROT_READ OR NACL_ABI_PROT_WRITE) NACL_ABI_MAP_SHARED (ucast off) Map.empty = Returns (r, pt) \<and>
    (r \<le> r + w \<longrightarrow>
      (linear pt (unat (r + w)) (unat sz) (unat so) \<and> 2 ^ k dvd unat (r + w) \<and>
        (\<forall>pt'. NaClDescImcShmUnmapUnsafe os r (e - off) pt = Returns pt' \<longrightarrow> snd pt' = Map.empty)) \<or>
      pt (unat (r + w) div 4096) = None) \<and>
    ((\<forall>a. os_map_fixed os a \<and> os_unmap os a) \<and> (\<forall>len. unat len < 2 ^ 31 \<longrightarrow> os_mmap os len \<noteq> None) \<longrightarrow>
      r \<le> r + w \<and> r + w + sz \<le> r + (e - off) \<and> linear pt (unat (r + w)) (unat sz) (unat so) \<and> 2 ^ k dvd unat (r + w) \<and>
      NaClDescImcShmUnmapUnsafe os r (e - off) pt = Returns (0, Map.empty))"
proof -
  from dyn_offsets [OF small] obtain j kk where f: "unat off = 65536 * j" "unat (e - off) = 65536 * kk" "unat so = 65536 * j + unat w"
      "unat w < 65536" "unat w + unat sz \<le> 65536 * kk" "65536 * (j + kk) < 2 ^ 31"
    unfolding off_def w_def e_def by (elim exE conjE)
  from NaClDescImcShmMap_spec [OF os(1) f(2,1,6) refl, of Map.empty]
  obtain r pt where r: "NaClDescImcShmMap os 0 (e - off) (NACL_ABI_PROT_READ OR NACL_ABI_PROT_WRITE) NACL_ABI_MAP_SHARED (ucast off) Map.empty = Returns (r, pt)"
      "(r = neg_errno NACL_ABI_ENOMEM \<and> pt = Map.empty \<and> os_mmap os (e - off) = None) \<or>
       (os_mmap os (e - off) = Some r \<and> pt = window (unat r div 4096) (16 * kk) (16 * j) Map.empty) \<or>
       (r = neg_errno NACL_ABI_E_MOVE_ADDRESS_SPACE \<and> \<not> (\<forall>a. os_map_fixed os a) \<and>
         (\<exists>m. os_mmap os (e - off) = Some m \<and> (\<forall>p. (unat m + unat (e - off)) div 4096 \<le> p \<or> p < unat m div 4096 \<longrightarrow> pt p = None)))"
    by (elim exE conjE) (rule that, assumption, simp)
  have len: "unat (e - off) < 2 ^ 31" using f(2,6) by simp
  from r(2) show ?thesis
  proof (elim disjE)
    assume "r = neg_errno NACL_ABI_ENOMEM \<and> pt = Map.empty \<and> os_mmap os (e - off) = None"
    then show ?thesis using r(1) len by auto
  next
    assume m: "os_mmap os (e - off) = Some r \<and> pt = window (unat r div 4096) (16 * kk) (16 * j) Map.empty"
    then have mo: "4096 dvd unat r" "unat r + 65536 * kk < 2 ^ 32"
      using os(1) [unfolded mmap_ok_def, rule_format, of "e - off" r] f(2) by simp_all
    have n0: "0 < unat sz" using sz by (simp add: unat_gt_0)
    have rw: "unat (r + w) = unat r + unat w" using mo(2) f(5) n0 by (intro unat_add_no_wrap) simp
    have "linear pt (unat r + unat w) (unat sz) (16 * j * 4096 + unat w)"
      using m mo(1) f(5) linear_window [of "unat r" "unat w" "unat sz" "16 * kk" "16 * j" Map.empty] by simp
    moreover have "16 * j * 4096 + unat w = unat so" using f(3) by simp
    moreover have "2 ^ k dvd unat r + unat w"
    proof -
      have p: "2 ^ k dvd (4096 :: nat)" using le_imp_power_dvd [OF k, of "2 :: nat"] by simp
      have "2 ^ k dvd 4096 * (16 * j)" by (rule dvd_mult2 [OF p])
      then have "2 ^ k dvd unat w" using al f(3) by (simp add: dvd_add_right_iff)
      then show ?thesis using dvd_trans [OF p mo(1)] by simp
    qed
    moreover have top: "unat (r + (e - off)) = unat r + 65536 * kk" using mo(2) f(2) unat_add_no_wrap [of r "e - off"] by simp
    moreover have empty: "snd x = Map.empty" if "NaClDescImcShmUnmapUnsafe os r (e - off) pt = Returns x" for x
    proof -
      show ?thesis
        using top that NaClDescImcShmUnmapUnsafe_loop_spec [of os "2 ^ 16 + 1" r "r + (e - off)" pt "snd x" kk] mo(1) m
        by (auto simp: NaClDescImcShmUnmapUnsafe_def window_def)
    qed
    moreover have "r \<le> r + w" using rw by (simp add: word_le_nat_alt)
    moreover have "r + w + sz \<le> r + (e - off)"
      using rw top f(5) mo(2) unat_add_no_wrap [of "r + w" sz] by (simp add: word_le_nat_alt)
    moreover have "NaClDescImcShmUnmapUnsafe os r (e - off) pt = Returns (0, Map.empty)" if fx: "\<forall>a. os_map_fixed os a \<and> os_unmap os a"
    proof -
      have "kk < 2 ^ 16 + 1" using mo(2) by simp
      then obtain pt' where "NaClDescImcShmUnmapUnsafe os r (e - off) pt = Returns (0, pt')"
        using NaClDescImcShmUnmapUnsafe_loop_returns [of os r kk "r + (e - off)" "2 ^ 16 + 1" pt] fx top
        by (auto simp: NaClDescImcShmUnmapUnsafe_def)
      then show ?thesis using empty [of "(0, pt')"] by simp
    qed
    ultimately show ?thesis using r(1) rw by (intro exI [of _ r] exI [of _ pt]) simp
  next
    assume "r = neg_errno NACL_ABI_E_MOVE_ADDRESS_SPACE \<and> \<not> (\<forall>a. os_map_fixed os a) \<and>
      (\<exists>m. os_mmap os (e - off) = Some m \<and> (\<forall>p. (unat m + unat (e - off)) div 4096 \<le> p \<or> p < unat m div 4096 \<longrightarrow> pt p = None))"
    then obtain m where m: "r = neg_errno NACL_ABI_E_MOVE_ADDRESS_SPACE" "\<not> (\<forall>a. os_map_fixed os a)" "os_mmap os (e - off) = Some m"
        "\<forall>p. (unat m + unat (e - off)) div 4096 \<le> p \<or> p < unat m div 4096 \<longrightarrow> pt p = None" by blast
    then have ap: "unat m + unat (e - off) \<le> 0xc0000000 \<or> 0xc0010000 \<le> unat m"
      using os(2) unfolding map_error_apart_def by blast
    have "unat r = 0xc0000000" using m(1) by (simp add: neg_errno_def nacl_consts)
    then have rw: "unat (r + w) = 0xc0000000 + unat w" using f(4) unat_add_no_wrap [of r w] by simp
    have "(unat m + unat (e - off)) div 4096 \<le> unat (r + w) div 4096 \<or> unat (r + w) div 4096 < unat m div 4096"
      using ap
    proof
      assume "unat m + unat (e - off) \<le> 0xc0000000"
      then have "unat m + unat (e - off) \<le> unat (r + w)" unfolding rw by simp
      then show ?thesis using div_le_mono by blast
    next
      assume "0xc0010000 \<le> unat m"
      from div_le_mono [OF this, of 4096] have "0xc0010 \<le> unat m div 4096" by simp
      moreover have "unat (r + w) div 4096 < 0xc0010" using f(4) by (intro less_mult_imp_div_less) (simp add: rw)
      ultimately show ?thesis by linarith
    qed
    then have "pt (unat (r + w) div 4096) = None" using m(4) by blast
    then show ?thesis using r(1) m(2) by auto
  qed
qed

lemma dyncode_guards:
  assumes call: "NaClTextSysDyncode_Copy T cpu alloc os nap mem st dest src sz = Returns (rv, st')" and st: "ts_shm st = Some shm"
  shows "st' = st \<and> (rv = 0 \<longrightarrow> sz = 0) \<or>
    dest AND (word_of_int (bundle_size nap - 1)) = 0 \<and> sz AND (word_of_int (bundle_size nap - 1)) = 0 \<and>
    NaClUserToSysAddrRange nap dest sz \<noteq> kNaClBadAddress \<and> dynamic_text_start nap \<le> dest \<and>
    dest + sz \<le> dynamic_text_end nap - NACL_HALT_SLED_SIZE \<and> sz \<noteq> 0 \<and>
    dyncode_mapped T cpu alloc os nap mem shm st dest (NaClUserToSysAddrRange nap src sz) sz = Returns (rv, st')"
proof -
  have e: "- NACL_ABI_EINVAL \<noteq> 0" "- NACL_ABI_EFAULT \<noteq> 0" by (simp_all add: nacl_consts)
  show ?thesis
    using call e unfolding NaClTextSysDyncode_Copy_def st option.case Let_def
    by (simp add: not_less eq_commute [of 0] split: if_splits)
qed

lemma dyncode_mapped_safe:
  assumes call: "dyncode_mapped T cpu alloc os nap mem shm st dest src_addr sz = Returns (rv, st')"
    and os: "mmap_ok os" "map_error_apart os" and st: "ts_shm st = Some shm" "ts_pages st = Map.empty" and k: "2 \<le> k" "k \<le> 12" "bundle_size nap = 2 ^ k"
    and al: "2 ^ k dvd unat (dest - dynamic_text_start nap)" "2 ^ k dvd unat sz" and sz: "sz \<noteq> 0"
    and small: "unat (dest - dynamic_text_start nap) + unat sz + 65536 \<le> 2 ^ 31"
  shows "(rv \<noteq> 0 \<longrightarrow> ts_shm st' = Some shm) \<and>
    (rv = 0 \<longrightarrow> ts_pages st' = Map.empty \<and> (\<exists>shm'. ts_shm st' = Some shm' \<and>
       installed T cpu alloc os (ts_inited st) nap mem shm shm' dest src_addr sz (unat (dest - dynamic_text_start nap))))"
proof -
  define so where "so = dest - dynamic_text_start nap"
  define off where "off = so AND NOT (NACL_MAP_PAGESIZE - 1)"
  define w where "w = so AND (NACL_MAP_PAGESIZE - 1)"
  define e where "e = (so + sz + NACL_MAP_PAGESIZE - 1) AND NOT (NACL_MAP_PAGESIZE - 1)"
  obtain r pt where r: "NaClDescImcShmMap os 0 (e - off) (NACL_ABI_PROT_READ OR NACL_ABI_PROT_WRITE) NACL_ABI_MAP_SHARED (ucast off) Map.empty = Returns (r, pt)"
      "r \<le> r + w \<longrightarrow>
        (linear pt (unat (r + w)) (unat sz) (unat so) \<and> 2 ^ k dvd unat (r + w) \<and>
          (\<forall>pt'. NaClDescImcShmUnmapUnsafe os r (e - off) pt = Returns pt' \<longrightarrow> snd pt' = Map.empty)) \<or>
        pt (unat (r + w) div 4096) = None"
    using dyn_map [OF os, of so sz k] small k al sz unfolding so_def off_def w_def e_def by blast
  obtain st1 pt' where i: "dyncode_install T cpu alloc os nap mem shm (st\<lparr>ts_pages := pt\<rparr>) dest src_addr (r + w) sz = Returns (rv, st1)"
      "NaClDescImcShmUnmapUnsafe os r (e - off) (ts_pages st1) = Returns (0, pt')" "st' = st1\<lparr>ts_pages := pt'\<rparr>" "r \<le> r + w"
    using call r(1) unfolding dyncode_mapped_def Let_def st(2) so_def [symmetric] off_def [symmetric] w_def [symmetric] e_def [symmetric]
    by (auto split: if_splits)
  from mp [OF r(2) i(4)] consider
      "linear pt (unat (r + w)) (unat sz) (unat so)" "2 ^ k dvd unat (r + w)" "\<forall>pt'. NaClDescImcShmUnmapUnsafe os r (e - off) pt = Returns pt' \<longrightarrow> snd pt' = Map.empty"
    | "pt (unat (r + w) div 4096) = None" by (elim disjE conjE)
  then show ?thesis
  proof cases
    case 1
    have "ts_pages st1 = pt \<and> (rv = 0 \<or> ts_shm st1 = Some shm) \<and>
        (rv = 0 \<longrightarrow> (\<exists>shm'. ts_shm st1 = Some shm' \<and> installed T cpu alloc os (ts_inited st) nap mem shm shm' dest src_addr sz (unat so)))"
      using dyncode_install_mapped [OF i(1) _ _ k(1) _ k(3) 1(2) al(2), of "unat so"] 1(1) st small k(2) by simp
    then show ?thesis using 1(3) i(2,3) by (auto simp: so_def)
  next
    case 2
    then show ?thesis using dyncode_install_unmapped [OF i(1) _ _ sz] st i(3) by auto
  qed
qed

text \<open>
  C18: what a dynamic code call writes. When a copy into the dynamic text region returns an error the region is unchanged. When it
  succeeds on a non-empty range, the range lies in the region and leaves the last halts alone, every byte of it was an unused halt, and it
  now holds the private copy that the validator was run on and accepted, or, when the runtime was told to ignore the validator's
  result (\<open>ignore_validator_result\<close>), the private copy whatever the verdict; the rest of the region is unchanged and no writable mapping of
  it is left. The operating system's mappings are taken to obey \<open>mmap_ok\<close> and \<open>map_error_apart\<close>: without the latter
  a failed mapping, whose error number is taken for an address, could be written through.
\<close>

theorem NaClTextSysDyncode_Copy_safe:
  assumes ok: "space_ok nap" "unat (addr_bits nap) \<le> 30" and os: "mmap_ok os" "map_error_apart os" and b: "bundle_size nap = 16 \<or> bundle_size nap = 32"
    and region: "65536 dvd unat (dynamic_text_start nap)" "unat (dynamic_text_start nap) + 32 \<le> unat (dynamic_text_end nap)"
    and st: "ts_shm st = Some shm" "ts_pages st = Map.empty"
    and call: "NaClTextSysDyncode_Copy T cpu alloc os nap mem st dest src sz = Returns (rv, st')"
  shows "(rv \<noteq> 0 \<longrightarrow> ts_shm st' = Some shm) \<and>
    (rv = 0 \<longrightarrow> ts_pages st' = Map.empty \<and> (sz = 0 \<and> ts_shm st' = Some shm \<or>
       unat (dynamic_text_start nap) \<le> unat dest \<and> unat dest + unat sz + 32 \<le> unat (dynamic_text_end nap) \<and>
       (\<exists>shm'. ts_shm st' = Some shm' \<and> installed T cpu alloc os (ts_inited st) nap mem shm shm' dest
          (NaClUserToSysAddrRange nap src sz) sz (unat dest - unat (dynamic_text_start nap)))))"
proof -
  obtain k where k: "2 \<le> k" "k \<le> 12" "bundle_size nap = 2 ^ k"
    using b by (elim disjE) (rule that [of 4], simp_all, rule that [of 5], simp_all)
  have m: "(word_of_int (bundle_size nap - 1) :: u32) = mask k" unfolding k(3) by (simp add: mask_eq_exp_minus_1)
  let ?s = "dynamic_text_start nap" and ?e = "dynamic_text_end nap"
  from dyncode_guards [OF call st(1)] show ?thesis
  proof
    assume "st' = st \<and> (rv = 0 \<longrightarrow> sz = 0)"
    then show ?thesis using st by auto
  next
    assume g: "dest AND (word_of_int (bundle_size nap - 1)) = 0 \<and> sz AND (word_of_int (bundle_size nap - 1)) = 0 \<and>
      NaClUserToSysAddrRange nap dest sz \<noteq> kNaClBadAddress \<and> ?s \<le> dest \<and> dest + sz \<le> ?e - NACL_HALT_SLED_SIZE \<and> sz \<noteq> 0 \<and>
      dyncode_mapped T cpu alloc os nap mem shm st dest (NaClUserToSysAddrRange nap src sz) sz = Returns (rv, st')"
    have al: "2 ^ k dvd unat dest" "2 ^ k dvd unat sz"
      using g of_nat_and_mask [of k "unat dest"] of_nat_and_mask [of k "unat sz"] k(2) unfolding m by simp_all
    have in_space: "unat dest + unat sz < 2 ^ unat (addr_bits nap)" using g NaClUserToSysAddrRange_eq [OF ok(1), of dest sz] by (auto split: if_splits)
    moreover have "(2 :: nat) ^ unat (addr_bits nap) \<le> 2 ^ 30" using ok(2) by (intro power_increasing) simp_all
    ultimately have lt: "unat dest + unat sz < 2 ^ 30" by linarith
    have so: "unat (dest - ?s) = unat dest - unat ?s" "unat ?s \<le> unat dest" using g by (simp_all add: unat_sub_le word_le_nat_alt)
    have "2 ^ k dvd unat ?s" using region(1) le_imp_power_dvd [of k 16 "2 :: nat"] k(2) by (auto intro: dvd_trans)
    then have al': "2 ^ k dvd unat (dest - ?s)" using al(1) so by (simp add: dvd_diff_nat)
    have ds: "unat (dest + sz) = unat dest + unat sz" using lt by (intro unat_add_no_wrap) simp
    have "unat (?e - NACL_HALT_SLED_SIZE) = unat ?e - 32" using region(2) unat_sub_le [of NACL_HALT_SLED_SIZE ?e] by (simp add: nacl_consts word_le_nat_alt)
    then have "unat dest + unat sz + 32 \<le> unat ?e" using g [THEN conjunct2, THEN conjunct2, THEN conjunct2, THEN conjunct2, THEN conjunct1] region(2)
      unfolding word_le_nat_alt ds by linarith
    moreover have "unat (dest - ?s) + unat sz + 65536 \<le> 2 ^ 31" using lt so by simp
    ultimately show ?thesis using dyncode_mapped_safe [OF _ os st k al' al(2)] g so by auto
  qed
qed

lemma dyncode_mapped_progress:
  assumes os: "mmap_ok os" "\<forall>a. os_map_fixed os a \<and> os_unmap os a" "\<forall>len. unat len < 2 ^ 31 \<longrightarrow> os_mmap os len \<noteq> None" "os_malloc os sz = Some p"
    and st: "ts_pages st = Map.empty" and k: "2 \<le> k" "k \<le> 12" "bundle_size nap = 2 ^ k"
    and al: "2 ^ k dvd unat (dest - dynamic_text_start nap)" "2 ^ k dvd unat sz" and sz: "sz \<noteq> 0"
    and small: "unat (dest - dynamic_text_start nap) + unat sz + 65536 \<le> 2 ^ 31"
    and valid: "NaClValidateCode T cpu alloc (ts_inited st) nap dest p sz (memcpy mem p (unat src_addr) (unat sz)) = Some (code, i, LOAD_OK)"
    and unused: "\<forall>x. unat (dest - dynamic_text_start nap) \<le> x \<and> x < unat (dest - dynamic_text_start nap) + unat sz \<longrightarrow> shm x = NACL_HALT_OPCODE"
  defines "o' \<equiv> unat (dest - dynamic_text_start nap)"
  shows "dyncode_mapped T cpu alloc os nap mem shm st dest src_addr sz =
    Returns (0, st\<lparr>ts_inited := i, ts_shm := Some (\<lambda>x. if o' \<le> x \<and> x < o' + unat sz then code (p + (x - o')) else shm x)\<rparr>)"
proof -
  have ap: "map_error_apart os" using os(2) by (simp add: map_error_apart_def)
  define so where "so = dest - dynamic_text_start nap"
  define off where "off = so AND NOT (NACL_MAP_PAGESIZE - 1)"
  define w where "w = so AND (NACL_MAP_PAGESIZE - 1)"
  define e where "e = (so + sz + NACL_MAP_PAGESIZE - 1) AND NOT (NACL_MAP_PAGESIZE - 1)"
  obtain r pt where r: "NaClDescImcShmMap os 0 (e - off) (NACL_ABI_PROT_READ OR NACL_ABI_PROT_WRITE) NACL_ABI_MAP_SHARED (ucast off) Map.empty = Returns (r, pt)"
      "r \<le> r + w" "r + w + sz \<le> r + (e - off)" "linear pt (unat (r + w)) (unat sz) (unat so)" "2 ^ k dvd unat (r + w)"
      "NaClDescImcShmUnmapUnsafe os r (e - off) pt = Returns (0, Map.empty)"
    using dyn_map [OF os(1) ap, of so sz k] small k al sz os(2,3) unfolding so_def off_def w_def e_def by blast
  let ?st = "st\<lparr>ts_pages := pt\<rparr>"
  have "dyncode_install T cpu alloc os nap mem shm ?st dest src_addr (r + w) sz =
      Returns (0, ?st\<lparr>ts_inited := i, ts_shm := Some (\<lambda>x. if unat so \<le> x \<and> x < unat so + unat sz then code (p + (x - unat so)) else shm x)\<rparr>)"
    using dyncode_install_eq [OF os(4), of T cpu alloc ?st nap dest mem src_addr code i LOAD_OK "r + w" "unat so" k shm]
      valid r(4,5) k al(2) small unused by (simp add: so_def)
  moreover have "st\<lparr>ts_pages := Map.empty\<rparr> = st" using st by (cases st) simp
  ultimately show ?thesis
    unfolding dyncode_mapped_def Let_def st o'_def so_def [symmetric] off_def [symmetric] w_def [symmetric] e_def [symmetric] using r by (cases st) simp
qed

text \<open>
  C34: a valid copy is installed. When the arguments are aligned and in the regions, the operating system provides memory, the validator accepts
  the code and the range is unused, the call returns 0, the range of the region holds the code, byte for byte as the validator left
  its private copy, the rest of the region is as before and no writable mapping of it is left.
\<close>

theorem NaClTextSysDyncode_Copy_succeeds:
  assumes ok: "space_ok nap" "unat (addr_bits nap) \<le> 30" and b: "b = 16 \<or> b = 32" "bundle_size nap = int b"
    and region: "65536 dvd unat (dynamic_text_start nap)" "unat (dynamic_text_end nap) < 2 ^ unat (addr_bits nap)"
    and args: "b dvd unat dest" "b dvd unat sz" "dest \<noteq> 0" "src \<noteq> 0" "unat (dynamic_text_start nap) \<le> unat dest"
      "unat dest + unat sz + 32 \<le> unat (dynamic_text_end nap)" "unat src + unat sz < 2 ^ unat (addr_bits nap)" "sz \<noteq> 0"
    and os: "mmap_ok os" "\<forall>a. os_map_fixed os a \<and> os_unmap os a" "\<forall>len. unat len < 2 ^ 31 \<longrightarrow> os_mmap os len \<noteq> None" "os_malloc os sz = Some p"
    and st: "ts_shm st = Some shm" "ts_pages st = Map.empty"
    and valid: "NaClValidateCode T cpu alloc (ts_inited st) nap dest p sz (memcpy mem p (unat (src + mem_start nap)) (unat sz)) = Some (code, i, LOAD_OK)"
    and unused: "\<forall>x. unat dest \<le> x + unat (dynamic_text_start nap) \<and> x + unat (dynamic_text_start nap) < unat dest + unat sz \<longrightarrow> shm x = NACL_HALT_OPCODE"
  defines "o' \<equiv> unat dest - unat (dynamic_text_start nap)"
  shows "NaClTextSysDyncode_Copy T cpu alloc os nap mem st dest src sz =
    Returns (0, \<lparr>ts_inited = i, ts_shm = Some (\<lambda>x. if o' \<le> x \<and> x < o' + unat sz then code (p + (x - o')) else shm x),
      ts_pages = Map.empty\<rparr>)"
proof -
  obtain k where k: "2 \<le> k" "k \<le> 12" "b = 2 ^ k" "bundle_size nap = 2 ^ k"
    using b by (elim disjE) (rule that [of 4], simp_all, rule that [of 5], simp_all)
  have m: "(word_of_int (bundle_size nap - 1) :: u32) = mask k" unfolding k(4) by (simp add: mask_eq_exp_minus_1)
  let ?s = "dynamic_text_start nap" and ?e = "dynamic_text_end nap"
  have al: "dest AND mask k = 0" "sz AND mask k = 0"
    using of_nat_and_mask [of k "unat dest"] of_nat_and_mask [of k "unat sz"] k args(1,2) by simp_all
  have "(2 :: nat) ^ unat (addr_bits nap) \<le> 2 ^ 30" using ok(2) by (intro power_increasing) simp_all
  then have lt: "unat ?e < 2 ^ 30" using region(2) by linarith
  have x: "NaClUserToSysAddrRange nap dest sz = dest + mem_start nap" "NaClUserToSysAddrRange nap src sz = src + mem_start nap"
    using args region(2) by (simp_all add: NaClUserToSysAddrRange_eq [OF ok(1)])
  have nb: "v + mem_start nap \<noteq> kNaClBadAddress" if "unat v < 2 ^ unat (addr_bits nap)" for v
  proof
    assume "v + mem_start nap = kNaClBadAddress"
    then have "unat (v + mem_start nap) = 2 ^ 32 - 1" by (simp add: kNaClBadAddress_def unsigned_minus_1_eq_mask mask_eq_exp_minus_1)
    then show False using xlate_unat [OF ok(1) that] ok(1) that by (simp add: space_ok_def)
  qed
  have bad: "dest + mem_start nap \<noteq> kNaClBadAddress" "src + mem_start nap \<noteq> kNaClBadAddress" using nb args region(2) by simp_all
  have so: "unat (dest - ?s) = unat dest - unat ?s" "?s \<le> dest" using args(5) by (simp_all add: unat_sub_le word_le_nat_alt)
  have ds: "unat (dest + sz) = unat dest + unat sz" using args(6) lt by (intro unat_add_no_wrap) simp
  have "unat (?e - NACL_HALT_SLED_SIZE) = unat ?e - 32" using args(6) unat_sub_le [of NACL_HALT_SLED_SIZE ?e] by (simp add: nacl_consts word_le_nat_alt)
  then have in_text: "dest + sz \<le> ?e - NACL_HALT_SLED_SIZE" unfolding word_le_nat_alt ds using args(6) by linarith
  have "NaClTextSysDyncode_Copy T cpu alloc os nap mem st dest src sz = dyncode_mapped T cpu alloc os nap mem shm st dest (src + mem_start nap) sz"
    unfolding NaClTextSysDyncode_Copy_def st(1) option.case Let_def m x using al bad not_le [THEN iffD2] leD [OF so(2)] leD [OF in_text] args(8) by simp
  moreover have "dyncode_mapped T cpu alloc os nap mem shm st dest (src + mem_start nap) sz =
    Returns (0, st\<lparr>ts_inited := i, ts_shm := Some (\<lambda>x. if unat (dest - ?s) \<le> x \<and> x < unat (dest - ?s) + unat sz
      then code (p + (x - unat (dest - ?s))) else shm x)\<rparr>)"
  proof (rule dyncode_mapped_progress [OF os st(2) k(1,2,4) _ _ args(8)])
    have "2 ^ k dvd unat ?s" using region(1) le_imp_power_dvd [of k 16 "2 :: nat"] k(2) by (auto intro: dvd_trans)
    then show "2 ^ k dvd unat (dest - ?s)" using args(1) k(3) so by (simp add: dvd_diff_nat)
    show "2 ^ k dvd unat sz" using args(2) k(3) by simp
    show "unat (dest - ?s) + unat sz + 65536 \<le> 2 ^ 31" using so args(6) lt by simp
    show "NaClValidateCode T cpu alloc (ts_inited st) nap dest p sz (memcpy mem p (unat (src + mem_start nap)) (unat sz)) = Some (code, i, LOAD_OK)"
      by (rule valid)
    show "\<forall>x. unat (dest - ?s) \<le> x \<and> x < unat (dest - ?s) + unat sz \<longrightarrow> shm x = NACL_HALT_OPCODE"
      using so args(5) by (intro allI impI unused [rule_format]) linarith
  qed
  ultimately show ?thesis using st(2) unfolding o'_def so(1) by (cases st) simp
qed

text \<open>Sixteen bytes of \<open>nop\<close> copied to the start of an unused region.\<close>

definition dyn_nap :: NaClApp where
  "dyn_nap = sample_space\<lparr>bundle_size := 16\<rparr>"

definition dyn_os :: host_os where
  "dyn_os = \<lparr>os_mmap = (\<lambda>len. if unat len < 2 ^ 31 then Some 0x10000 else None), os_map_fixed = (\<lambda>_. True), os_unmap = (\<lambda>_. True),
     os_malloc = (\<lambda>_. Some 0)\<rparr>"

definition dyn_state :: text_state where
  "dyn_state = \<lparr>ts_inited = False, ts_shm = Some (\<lambda>_. NACL_HALT_OPCODE), ts_pages = Map.empty\<rparr>"

lemma dyn_sample:
  "space_ok dyn_nap" "unat (addr_bits dyn_nap) = 28" "bundle_size dyn_nap = 16" "unat (dynamic_text_start dyn_nap) = 0x30000"
  "unat (dynamic_text_end dyn_nap) = 0x40000" "mmap_ok dyn_os" "map_error_apart dyn_os" "ts_shm dyn_state = Some (\<lambda>_. NACL_HALT_OPCODE)" "ts_pages dyn_state = Map.empty"
  "ts_inited dyn_state = False"
  by (auto simp: dyn_nap_def sample_space_def space_ok_def mmap_ok_def map_error_apart_def dyn_os_def dyn_state_def split: if_splits)

lemma plain_sample: "plain sample_tables 0x90" "plain sample_tables 0xf4"
  by (simp_all add: plain_def sample_tables_def sample_1byte_def sample_op_def nacl_consts)

lemma memcpy_const: "memcpy (\<lambda>_. c) p s n = (\<lambda>_. c)"
  by (simp add: memcpy_def fun_eq_iff)

lemma dyn_valid:
  "NaClValidateCode sample_tables sample_cpu (\<lambda>_ _. True) False dyn_nap 0x30000 0 16 (memcpy (\<lambda>_. 0x90) 0 b n) = Some (\<lambda>_. 0x90, True, LOAD_OK)"
  unfolding memcpy_const by (rule NaClValidateCode_plain) (simp_all add: dyn_sample plain_sample sample_cpu_def)

theorem NaClTextSysDyncode_Copy_succeeds_witness:
  "\<exists>st' shm'. NaClTextSysDyncode_Copy sample_tables sample_cpu (\<lambda>_ _. True) dyn_os dyn_nap (\<lambda>_. 0x90) dyn_state 0x30000 0x50000 16 = Returns (0, st') \<and>
     ts_shm st' = Some shm' \<and> shm' 0 = 0x90 \<and> shm' 15 = 0x90 \<and> shm' 16 = NACL_HALT_OPCODE \<and> ts_pages st' = Map.empty"
proof -
  have "NaClTextSysDyncode_Copy sample_tables sample_cpu (\<lambda>_ _. True) dyn_os dyn_nap (\<lambda>_. 0x90) dyn_state 0x30000 0x50000 16 =
      Returns (0, \<lparr>ts_inited = True, ts_shm = Some (\<lambda>x. if unat (0x30000 :: u32) - unat (dynamic_text_start dyn_nap) \<le> x \<and>
          x < unat (0x30000 :: u32) - unat (dynamic_text_start dyn_nap) + unat (16 :: u32)
        then 0x90 else NACL_HALT_OPCODE), ts_pages = Map.empty\<rparr>)"
    by (rule NaClTextSysDyncode_Copy_succeeds [OF dyn_sample(1) _ _ _ _ _ _ _ _ _ _ _ _ _ dyn_sample(6) _ _ _ dyn_sample(8,9)
        dyn_valid [folded dyn_sample(10)], where b = 16])
      (simp_all add: dyn_sample, auto simp: dyn_os_def)
  then show ?thesis by (simp add: dyn_sample)
qed

lemma dyn_run:
  "\<exists>st'. NaClTextSysDyncode_Copy sample_tables sample_cpu (\<lambda>_ _. True) dyn_os dyn_nap (\<lambda>_. 0x90) dyn_state 0x30000 0x50000 16 = Returns (0, st')"
proof -
  have "NaClTextSysDyncode_Copy sample_tables sample_cpu (\<lambda>_ _. True) dyn_os dyn_nap (\<lambda>_. 0x90) dyn_state 0x30000 0x50000 16 =
      dyncode_mapped sample_tables sample_cpu (\<lambda>_ _. True) dyn_os dyn_nap (\<lambda>_. 0x90) (\<lambda>_. NACL_HALT_OPCODE) dyn_state 0x30000 0x10050000 16"
    by (simp add: NaClTextSysDyncode_Copy_def dyn_sample(8) NaClUserToSysAddrRange_eq [OF dyn_sample(1)])
      (simp add: dyn_nap_def sample_space_def nacl_consts)
  moreover have "\<exists>st'. dyncode_mapped sample_tables sample_cpu (\<lambda>_ _. True) dyn_os dyn_nap (\<lambda>_. 0x90) (\<lambda>_. NACL_HALT_OPCODE) dyn_state 0x30000 0x10050000 16 = Returns (0, st')"
    by (rule exI, rule dyncode_mapped_progress [OF dyn_sample(6) _ _ _ dyn_sample(9) _ _ _ _ _ _ _ dyn_valid [folded dyn_sample(10)], where k = 4])
      (simp_all add: dyn_sample(3), auto simp: dyn_os_def dyn_nap_def sample_space_def)
  ultimately show ?thesis by simp
qed

theorem NaClTextSysDyncode_Copy_safe_witness:
  "\<exists>st' shm'. NaClTextSysDyncode_Copy sample_tables sample_cpu (\<lambda>_ _. True) dyn_os dyn_nap (\<lambda>_. 0x90) dyn_state 0x30000 0x50000 16 = Returns (0, st') \<and>
     ts_shm st' = Some shm' \<and> shm' 0 = 0x90 \<and> shm' 16 = 0xf4 \<and> ts_pages st' = Map.empty"
proof -
  obtain st' where st': "NaClTextSysDyncode_Copy sample_tables sample_cpu (\<lambda>_ _. True) dyn_os dyn_nap (\<lambda>_. 0x90) dyn_state 0x30000 0x50000 16 = Returns (0, st')"
    using dyn_run by blast
  from NaClTextSysDyncode_Copy_safe [OF dyn_sample(1) _ dyn_sample(6,7) _ _ _ dyn_sample(8,9) st']
  obtain shm' where "ts_shm st' = Some shm'" "ts_pages st' = Map.empty"
      "installed sample_tables sample_cpu (\<lambda>_ _. True) dyn_os (ts_inited dyn_state) dyn_nap (\<lambda>_. 0x90) (\<lambda>_. NACL_HALT_OPCODE) shm' 0x30000
        (NaClUserToSysAddrRange dyn_nap 0x50000 16) 16 0"
    by (auto simp: dyn_sample)
  then show ?thesis using st'
    by (auto simp: installed_def dyn_sample(10) dyn_os_def dyn_valid [unfolded memcpy_const] memcpy_const NACL_HALT_OPCODE_def)
qed

theorem CopyCodeSafely_atomic_witness:
  "\<exists>tails heads shm'. CopyCodeSafely (\<lambda>_. 0x90) 0 0 16 16 = Returns (tails, heads) \<and>
     do_stores (window 0 1 0 Map.empty) tails (\<lambda>_. NACL_HALT_OPCODE) = Returns shm' \<and> shm' 16 = NACL_HALT_OPCODE \<and>
     (shm' 0 = NACL_HALT_OPCODE \<or> shm' 0 = 0x90)"
proof -
  obtain tails heads where c: "CopyCodeSafely (\<lambda>_. 0x90) 0 0 16 (2 ^ 4) = Returns (tails, heads)"
    using CopyCodeSafely_stores [of 4 0 16 "\<lambda>_. 0x90" 0] by auto
  have l: "linear (window 0 1 0 Map.empty) 0 (unat (16 :: u32)) 0" using linear_window [of 0 0 16 1 0 Map.empty] by simp
  obtain shm' where "do_stores (window 0 1 0 Map.empty) tails (\<lambda>_. NACL_HALT_OPCODE) = Returns shm'" "shm' 16 = NACL_HALT_OPCODE"
      "(\<forall>i<4. shm' (0 + 2 ^ 4 * 0 + i) = NACL_HALT_OPCODE) \<or> (\<forall>i<2 ^ 4. shm' (0 + 2 ^ 4 * 0 + i) = 0x90)"
    using CopyCodeSafely_atomic [OF _ _ _ _ _ l _ c, of "\<lambda>_. NACL_HALT_OPCODE" tails] by (auto simp: visible_def)
  then show ?thesis using c by fastforce
qed

end
