(* ===== verification/Load_Space.thy ===== *)
theory Load_Space
  imports Trampoline Dyncode
begin

text \<open>
  The address space of a program while it is loaded: its allocation and protection (\<open>sel_addrspace.c\<close>,
  \<open>arch/x86_32/sel_addrspace_x86_32.c\<close>, \<open>linux/sel_memory.c\<close>), the region for dynamic code (\<open>nacl_text.c\<close>) and the halts behind the
  code (\<open>sel_ldr_standard.c\<close>). The state is the application's record with the memory of the process, the protection of its pages,
  the pages that show the shared memory object of the dynamic code and that object's bytes. The operating system is a parameter.
\<close>

subsection \<open>State\<close>

record load_os =
  lo_host :: host_os
  lo_pages :: "u32 \<Rightarrow> u32 option"
  lo_madvise :: "u32 \<Rightarrow> u32 \<Rightarrow> bool"
  lo_mprotect :: "u32 \<Rightarrow> u32 \<Rightarrow> u32 \<Rightarrow> bool"
  lo_shm :: "u32 \<Rightarrow> (nat \<times> memory) option"
  lo_alloc :: "nat \<Rightarrow> bool"

record loader =
  ld_app :: NaClApp
  use_shm_for_dynamic_text :: bool
  text_shm :: "nat option"
  mem_map :: NaClVmmap
  ld_refs :: refs
  ld_mem :: memory
  ld_prot :: "nat \<Rightarrow> u32"
  ld_pages :: host_pages
  ld_shm :: memory
  ld_inited :: bool

definition set_prot :: "(nat \<Rightarrow> u32) \<Rightarrow> u32 \<Rightarrow> u32 \<Rightarrow> u32 \<Rightarrow> nat \<Rightarrow> u32" where
  "set_prot pr addr sz prt = (\<lambda>pg. if unat addr div 4096 \<le> pg \<and> pg * 4096 < unat addr + unat sz then prt else pr pg)"

definition writable :: "(nat \<Rightarrow> u32) \<Rightarrow> nat \<Rightarrow> bool" where
  "writable pr a \<longleftrightarrow> pr (a div 4096) AND NACL_ABI_PROT_WRITE \<noteq> 0"

definition clear_mem :: "memory \<Rightarrow> u32 \<Rightarrow> u32 \<Rightarrow> memory" where
  "clear_mem mem addr sz = (\<lambda>a. if unat addr \<le> a \<and> a < unat addr + unat sz then 0 else mem a)"

definition NaCl_mprotect :: "load_os \<Rightarrow> u32 \<Rightarrow> u32 \<Rightarrow> u32 \<Rightarrow> loader \<Rightarrow> bool \<times> loader" where
  "NaCl_mprotect os addr sz prt s =
     (if lo_mprotect os addr sz prt then (True, s\<lparr>ld_prot := set_prot (ld_prot s) addr sz prt\<rparr>) else (False, s))"

text \<open>\<open>madvise\<close> with \<open>MADV_DONTNEED\<close> leaves zeros in private pages.\<close>

definition NaCl_madvise :: "load_os \<Rightarrow> u32 \<Rightarrow> u32 \<Rightarrow> loader \<Rightarrow> bool \<times> loader" where
  "NaCl_madvise os start sz s =
     (if lo_madvise os start sz then (True, s\<lparr>ld_mem := clear_mem (ld_mem s) start sz\<rparr>) else (False, s))"

definition NaCl_page_alloc :: "load_os \<Rightarrow> u32 \<Rightarrow> loader \<Rightarrow> u32 option \<times> loader" where
  "NaCl_page_alloc os sz s =
     (case lo_pages os sz of
        None \<Rightarrow> (None, s)
      | Some addr \<Rightarrow>
          if addr = 0 then (None, s)
          else (Some addr, s\<lparr>ld_mem := clear_mem (ld_mem s) addr sz,
            ld_prot := set_prot (ld_prot s) addr sz (NACL_ABI_PROT_EXEC OR NACL_ABI_PROT_READ OR NACL_ABI_PROT_WRITE)\<rparr>))"

subsection \<open>The address space\<close>

definition NaClAllocateSpace :: "load_os \<Rightarrow> u32 \<Rightarrow> loader \<Rightarrow> (NaClErrorCode + u32) \<times> loader" where
  "NaClAllocateSpace os addrsp_size s =
     (case NaCl_page_alloc os addrsp_size s of
        (None, s) \<Rightarrow> (Inl LOAD_NO_MEMORY, s)
      | (Some mem, s) \<Rightarrow> (Inr mem, s))"

definition NaClAllocAddrSpace :: "load_os \<Rightarrow> loader \<Rightarrow> (NaClErrorCode \<times> loader) outcome" where
  "NaClAllocAddrSpace os s =
     (let nap = ld_app s; space = push_bit (unat (addr_bits nap)) 1
      in case NaClAllocateSpace os space s of
           (Inl rv, s) \<Rightarrow> Returns (rv, s)
         | (Inr mem, s) \<Rightarrow>
             let s = s\<lparr>ld_app := nap\<lparr>mem_start := mem\<rparr>\<rparr>;
                 hole_start = NaClRoundAllocPage (data_end nap)
             in if stack_size nap \<ge> space then Aborts
                else
                  let stack_start = NaClTruncAllocPage (space - stack_size nap)
                  in if stack_start < hole_start then Returns (LOAD_DATA_OVERLAPS_STACK_SECTION, s)
                     else
                       let hole_size = NaClTruncAllocPage (stack_start - hole_start)
                       in if hole_size = 0 then Returns (LOAD_OK, s)
                          else case NaCl_madvise os (mem + hole_start) hole_size s of
                            (False, s) \<Rightarrow> Returns (LOAD_MADVISE_FAIL, s)
                          | (True, s) \<Rightarrow>
                              (case NaCl_mprotect os (mem + hole_start) hole_size NACL_ABI_PROT_NONE s of
                                 (False, s) \<Rightarrow> Returns (LOAD_MPROTECT_FAIL, s)
                               | (True, s) \<Rightarrow> Returns (LOAD_OK, s)))"

subsection \<open>The region for dynamic code\<close>

text \<open>\<open>memset\<close> through the pages that show the object.\<close>

fun memset_mapped :: "host_pages \<Rightarrow> nat \<Rightarrow> nat \<Rightarrow> u8 \<Rightarrow> memory \<Rightarrow> memory outcome" where
  "memset_mapped pt a 0 b shm = Returns shm"
| "memset_mapped pt a (Suc n) b shm = obind (shm_at pt a) (\<lambda>o'. memset_mapped pt (Suc a) n b (shm(o' := b)))"

definition map_text :: "load_os \<Rightarrow> u32 \<Rightarrow> u32 \<Rightarrow> u32 \<Rightarrow> loader \<Rightarrow> (u32 \<times> loader) outcome" where
  "map_text os addr prt off s =
     obind (NaClDescImcShmMap (lo_host os) addr NACL_MAP_PAGESIZE prt (NACL_ABI_MAP_SHARED OR NACL_ABI_MAP_FIXED) (ucast off) (ld_pages s))
       (\<lambda>(r, pt). Returns (r, s\<lparr>ld_pages := pt, ld_prot := set_prot (ld_prot s) addr NACL_MAP_PAGESIZE prt\<rparr>))"

text \<open>
  The loop over the region in steps of 64K. Its counter wraps modulo \<open>2 ^ 32\<close> and takes \<open>2 ^ 16\<close> different values, so a loop that has
  not ended after as many turns never ends.
\<close>

fun MakeDynamicTextShared_loop :: "load_os \<Rightarrow> nat \<Rightarrow> u32 \<Rightarrow> u32 \<Rightarrow> u32 \<Rightarrow> loader \<Rightarrow> loader outcome" where
  "MakeDynamicTextShared_loop os 0 shm_vaddr_base dynamic_text_size shm_offset s = Diverges"
| "MakeDynamicTextShared_loop os (Suc fuel) shm_vaddr_base dynamic_text_size shm_offset s =
     (if shm_offset < dynamic_text_size then
        obind (NaClUserToSys (ld_app s) (shm_vaddr_base + shm_offset)) (\<lambda>text_sysaddr.
        obind (map_text os text_sysaddr (NACL_ABI_PROT_READ OR NACL_ABI_PROT_WRITE) shm_offset s) (\<lambda>(mmap_ret, s).
          if text_sysaddr \<noteq> mmap_ret then Aborts
          else if NACL_MAP_PAGESIZE mod NACL_HALT_LEN \<noteq> 0 then Aborts
          else
            obind (memset_mapped (ld_pages s) (unat text_sysaddr) (unat NACL_MAP_PAGESIZE) NACL_HALT_OPCODE (ld_shm s)) (\<lambda>shm.
            obind (NaClDescImcShmUnmapUnsafe (lo_host os) text_sysaddr NACL_MAP_PAGESIZE (ld_pages s)) (\<lambda>(rc, pt).
              if rc = - 1 then Aborts
              else
                let s = s\<lparr>ld_shm := shm, ld_pages := pt\<rparr>
                in obind (map_text os text_sysaddr (NACL_ABI_PROT_READ OR NACL_ABI_PROT_EXEC) shm_offset s) (\<lambda>(mmap_ret, s).
                     if text_sysaddr \<noteq> mmap_ret then Aborts
                     else MakeDynamicTextShared_loop os fuel shm_vaddr_base dynamic_text_size (shm_offset + NACL_MAP_PAGESIZE) s)))))
      else Returns s)"

definition NaClMakeDynamicTextShared :: "load_os \<Rightarrow> loader \<Rightarrow> (NaClErrorCode \<times> loader) outcome" where
  "NaClMakeDynamicTextShared os s =
     (let nap = ld_app s; shm_vaddr_base = NaClRoundAllocPage (NaClEndOfStaticText nap)
      in if \<not> use_shm_for_dynamic_text s
         then Returns (LOAD_OK, s\<lparr>ld_app := nap\<lparr>dynamic_text_start := shm_vaddr_base, dynamic_text_end := shm_vaddr_base\<rparr>\<rparr>)
         else
           let shm_upper_bound = rodata_start nap;
               shm_upper_bound = (if 0 = shm_upper_bound then data_start nap else shm_upper_bound);
               shm_upper_bound = (if 0 = shm_upper_bound then shm_vaddr_base else shm_upper_bound);
               s = s\<lparr>ld_app := nap\<lparr>dynamic_text_start := shm_vaddr_base, dynamic_text_end := shm_upper_bound\<rparr>\<rparr>;
               dynamic_text_size = shm_upper_bound - shm_vaddr_base
           in if 0 = dynamic_text_size then Returns (LOAD_OK, s)
              else if \<not> lo_alloc os 0 then Returns (LOAD_INTERNAL, s)
              else
                case lo_shm os dynamic_text_size of
                  None \<Rightarrow> Returns (LOAD_NO_MEMORY, s)
                | Some (shm, bytes) \<Rightarrow>
                    obind (MakeDynamicTextShared_loop os (2 ^ 16 + 1) shm_vaddr_base dynamic_text_size 0
                             (s\<lparr>ld_shm := bytes, ld_refs := NaClDescCtor shm (ld_refs s)\<rparr>)) (\<lambda>s.
                      Returns (LOAD_OK, s\<lparr>text_shm := Some shm\<rparr>)))"

subsection \<open>The halts behind the code\<close>

definition NaClFillEndOfTextRegion :: "loader \<Rightarrow> loader outcome" where
  "NaClFillEndOfTextRegion s =
     (let nap = ld_app s;
          page_pad = NaClRoundAllocPage (static_text_end nap + NACL_HALT_SLED_SIZE) - static_text_end nap;
          start = unat (mem_start nap + static_text_end nap)
      in if \<not> page_pad \<ge> NACL_HALT_SLED_SIZE then Aborts
         else if \<not> page_pad < NACL_MAP_PAGESIZE + NACL_HALT_SLED_SIZE then Aborts
         else if \<exists>a\<in>set [start..<start + unat page_pad]. \<not> writable (ld_prot s) a then Faults
         else
           obind (NaClFillMemoryRegionWithHalt (ld_mem s) start page_pad) (\<lambda>mem.
             Returns (s\<lparr>ld_mem := mem, ld_app := nap\<lparr>static_text_end := static_text_end nap + page_pad\<rparr>\<rparr>)))"

subsection \<open>Protection\<close>

text \<open>The entry that records a region, and the sequence of protecting and recording that \<open>NaClMemoryProtection\<close> repeats.\<close>

definition record_region ::
    "load_os \<Rightarrow> nat \<Rightarrow> u32 \<Rightarrow> u32 \<Rightarrow> u32 \<Rightarrow> NaClMemObj option \<Rightarrow> loader \<Rightarrow> (NaClErrorCode \<times> loader) outcome" where
  "record_region os k pn np prt mo s =
     obind (NaClVmmapAdd (lo_alloc os) k (mem_map s) pn np prt mo) (\<lambda>(added, m).
       Returns (if added then LOAD_OK else LOAD_MPROTECT_FAIL, s\<lparr>mem_map := m\<rparr>))"

definition protect_region ::
    "load_os \<Rightarrow> nat \<Rightarrow> u32 \<Rightarrow> u32 \<Rightarrow> u32 \<Rightarrow> u32 \<Rightarrow> loader \<Rightarrow> (NaClErrorCode \<times> loader) outcome" where
  "protect_region os k start_addr sz region_size prt s =
     (case NaCl_mprotect os start_addr sz prt s of
        (False, s) \<Rightarrow> Returns (LOAD_MPROTECT_FAIL, s)
      | (True, s) \<Rightarrow>
          obind (NaClSysToUser (ld_app s) start_addr) (\<lambda>uaddr.
            record_region os k (drop_bit NACL_PAGESHIFT uaddr) (drop_bit NACL_PAGESHIFT region_size) prt None s))"

definition lbind :: "(NaClErrorCode \<times> loader) outcome \<Rightarrow> (loader \<Rightarrow> (NaClErrorCode \<times> loader) outcome) \<Rightarrow> (NaClErrorCode \<times> loader) outcome" where
  "lbind r f = obind r (\<lambda>(rc, s). if rc \<noteq> LOAD_OK then Returns (rc, s) else f s)"

definition NaClMprotectGuards :: "load_os \<Rightarrow> loader \<Rightarrow> (NaClErrorCode \<times> loader) outcome" where
  "NaClMprotectGuards os s =
     (let start_addr = mem_start (ld_app s)
      in case NaCl_mprotect os start_addr NACL_SYSCALL_START_ADDR NACL_ABI_PROT_NONE s of
           (False, s) \<Rightarrow> Returns (LOAD_MPROTECT_FAIL, s)
         | (True, s) \<Rightarrow>
             record_region os 1 (drop_bit NACL_PAGESHIFT (start_addr - mem_start (ld_app s)))
               (drop_bit NACL_PAGESHIFT NACL_SYSCALL_START_ADDR) NACL_ABI_PROT_NONE None s)"

definition protect_text :: "load_os \<Rightarrow> loader \<Rightarrow> (NaClErrorCode \<times> loader) outcome" where
  "protect_text os s =
     (let nap = ld_app s;
          start_addr = mem_start nap + NACL_SYSCALL_START_ADDR;
          region_size = NaClRoundPage (static_text_end nap - NACL_SYSCALL_START_ADDR)
      in protect_region os 3 start_addr region_size region_size (NACL_ABI_PROT_READ OR NACL_ABI_PROT_EXEC) s)"

definition protect_dynamic_text :: "load_os \<Rightarrow> loader \<Rightarrow> (NaClErrorCode \<times> loader) outcome" where
  "protect_dynamic_text os s =
     (let nap = ld_app s; prt = NACL_ABI_PROT_READ OR NACL_ABI_PROT_EXEC
      in obind (NaClUserToSys nap (dynamic_text_start nap)) (\<lambda>start_addr.
        let region_size = dynamic_text_end nap - dynamic_text_start nap
        in if 0 = region_size then Returns (LOAD_OK, s)
           else case NaCl_mprotect os start_addr region_size prt s of
             (False, s) \<Rightarrow> Returns (LOAD_MPROTECT_FAIL, s)
           | (True, s) \<Rightarrow>
               obind (NaClSysToUser nap start_addr) (\<lambda>uaddr.
               obind (NaClMemObjMake (lo_alloc os 5) (text_shm s) (ucast region_size) 0 (ld_refs s)) (\<lambda>(mo, h).
                 record_region os 6 (drop_bit NACL_PAGESHIFT uaddr) (drop_bit NACL_PAGESHIFT region_size) prt mo (s\<lparr>ld_refs := h\<rparr>)))))"

definition protect_rodata :: "load_os \<Rightarrow> loader \<Rightarrow> (NaClErrorCode \<times> loader) outcome" where
  "protect_rodata os s =
     (let nap = ld_app s
      in if 0 = rodata_start nap then Returns (LOAD_OK, s)
         else
           let rodata_end = (if 0 \<noteq> data_start nap then data_start nap else break_addr nap)
           in obind (NaClUserToSys nap (rodata_start nap)) (\<lambda>start_addr.
              obind (NaClSysToUser nap start_addr) (\<lambda>uaddr.
                let region_size = NaClRoundPage (NaClRoundAllocPage rodata_end - uaddr)
                in protect_region os 8 start_addr region_size region_size NACL_ABI_PROT_READ s)))"

definition protect_data :: "load_os \<Rightarrow> loader \<Rightarrow> (NaClErrorCode \<times> loader) outcome" where
  "protect_data os s =
     (let nap = ld_app s
      in if 0 = data_start nap then Returns (LOAD_OK, s)
         else
           obind (NaClUserToSys nap (data_start nap)) (\<lambda>start_addr.
           obind (NaClSysToUser nap start_addr) (\<lambda>uaddr.
             let region_size = NaClRoundPage (NaClRoundAllocPage (data_end nap) - uaddr)
             in protect_region os 10 start_addr region_size region_size (NACL_ABI_PROT_READ OR NACL_ABI_PROT_WRITE) s)))"

definition protect_stack :: "load_os \<Rightarrow> loader \<Rightarrow> (NaClErrorCode \<times> loader) outcome" where
  "protect_stack os s =
     (let nap = ld_app s
      in obind (NaClUserToSys nap (NaClTruncAllocPage (push_bit (unat (addr_bits nap)) 1 - stack_size nap))) (\<lambda>start_addr.
           protect_region os 12 start_addr (NaClRoundAllocPage (stack_size nap)) (stack_size nap)
             (NACL_ABI_PROT_READ OR NACL_ABI_PROT_WRITE) s))"

definition NaClMemoryProtection :: "load_os \<Rightarrow> loader \<Rightarrow> (NaClErrorCode \<times> loader) outcome" where
  "NaClMemoryProtection os s =
     lbind (NaClMprotectGuards os s) (\<lambda>s.
     lbind (protect_text os s) (\<lambda>s.
     lbind (protect_dynamic_text os s) (\<lambda>s.
     lbind (protect_rodata os s) (\<lambda>s.
     lbind (protect_data os s) (\<lambda>s.
     protect_stack os s)))))"

subsection \<open>Rounding\<close>

lemma PAGESIZE_val: "NACL_PAGESIZE = 0x1000"
  by (simp add: nacl_consts)

lemma round_words:
  assumes "unat x + 0xffff < 2 ^ 32"
  shows "unat (NaClRoundAllocPage x) = (unat x + 0xffff) div 0x10000 * 0x10000"
    and "unat (NaClRoundPage x) = (unat x + 0xfff) div 0x1000 * 0x1000"
proof -
  have 1: "unat (x + 0xffff) = unat x + 0xffff" "unat (x + 0xfff) = unat x + 0xfff"
    using assms unat_add_no_wrap [of x "0xffff"] unat_add_no_wrap [of x "0xfff"] by simp_all
  have 2: "x + NACL_MAP_PAGESIZE - 1 = x + 0xffff" "x + NACL_PAGESIZE - 1 = x + 0xfff" "NACL_MAP_PAGESIZE - 1 = mask 16" "NACL_PAGESIZE - 1 = mask 12"
    by (simp_all add: MAP_PAGESIZE_val PAGESIZE_val mask_eq_exp_minus_1)
  show "unat (NaClRoundAllocPage x) = (unat x + 0xffff) div 0x10000 * 0x10000" "unat (NaClRoundPage x) = (unat x + 0xfff) div 0x1000 * 0x1000"
    unfolding NaClRoundAllocPage_def NaClRoundPage_def 2 unat_and_not_mask 1 by simp_all
qed

lemma trunc_words: "unat (NaClTruncAllocPage x) = unat x div 0x10000 * 0x10000"
proof -
  have "NACL_MAP_PAGESIZE - 1 = mask 16" by (simp add: MAP_PAGESIZE_val mask_eq_exp_minus_1)
  then show ?thesis by (simp add: NaClTruncAllocPage_def unat_and_not_mask)
qed

lemma round_bounds:
  assumes "unat x + 0xffff < 2 ^ 32"
  shows "unat x \<le> unat (NaClRoundAllocPage x)" "unat (NaClRoundAllocPage x) < unat x + 0x10000" "0x10000 dvd unat (NaClRoundAllocPage x)"
    "unat x \<le> unat (NaClRoundPage x)" "unat (NaClRoundPage x) < unat x + 0x1000"
proof -
  have d: "y div c * c + y mod c = y" "0 < c \<Longrightarrow> y mod c < c" for y c :: nat by simp_all
  note r = round_words [OF assms]
  show "unat x \<le> unat (NaClRoundAllocPage x)" "unat (NaClRoundAllocPage x) < unat x + 0x10000" "0x10000 dvd unat (NaClRoundAllocPage x)"
    using d(1) [of "unat x + 0xffff" "0x10000"] d(2) [of "0x10000" "unat x + 0xffff"] unfolding r by (linarith, linarith, simp)
  show "unat x \<le> unat (NaClRoundPage x)" "unat (NaClRoundPage x) < unat x + 0x1000"
    using d(1) [of "unat x + 0xfff" "0x1000"] d(2) [of "0x1000" "unat x + 0xfff"] unfolding r by linarith+
qed

lemma round_mono:
  assumes "unat x \<le> unat y" "unat y + 0xffff < 2 ^ 32"
  shows "unat (NaClRoundAllocPage x) \<le> unat (NaClRoundAllocPage y)"
  using assms round_words(1) [of x] round_words(1) [of y] div_le_mono [of "unat x + 0xffff" "unat y + 0xffff" "0x10000"] by simp

subsection \<open>Allocating the address space\<close>

text \<open>
  Room in which a mapping is not confused with the error number of a failed one, the 32-bit value 0xc0000000 (\<open>map_error_apart\<close>):
  mapping into it never fails, or it does not hold that address.
\<close>

definition apart :: "host_os \<Rightarrow> nat \<Rightarrow> nat \<Rightarrow> bool" where
  "apart os m n \<longleftrightarrow> (\<forall>a. os_map_fixed os a) \<or> m + n \<le> 0xc0000000 \<or> 0xc0000000 < m"

lemma apart_sub: "apart os m n \<Longrightarrow> m \<le> m' \<Longrightarrow> m' + n' \<le> m + n \<Longrightarrow> apart os m' n'"
  unfolding apart_def by auto

text \<open>
  What the operating system guarantees: new pages are page aligned, end below \<open>2 ^ 32\<close>, are \<open>apart\<close> and are not the runtime's own
  (the templates stand for it), and \<open>mprotect\<close> fails on an address that is not page aligned.
\<close>

definition os_ok :: "load_os \<Rightarrow> templates \<Rightarrow> bool" where
  "os_ok os ts \<longleftrightarrow>
     (\<forall>n m. lo_pages os n = Some m \<longrightarrow> 4096 dvd unat m \<and> unat m + unat n < 2 ^ 32 \<and> apart (lo_host os) (unat m) (unat n) \<and>
        (unat (NaCl_trampoline_seg_end ts) \<le> unat m \<or> unat m + unat n \<le> unat (NaCl_trampoline_seg_code ts)) \<and>
        (unat (NaCl_springboard_end ts) \<le> unat m \<or> unat m + unat n \<le> unat (NaCl_springboard ts))) \<and>
     (\<forall>a n p. lo_mprotect os a n p \<longrightarrow> 4096 dvd unat a)"

text \<open>What the checks of the headers establish, as numbers.\<close>

definition laid_out :: "NaClApp \<Rightarrow> bool" where
  "laid_out nap \<longleftrightarrow>
     17 < unat (addr_bits nap) \<and> unat (addr_bits nap) \<le> 30 \<and> (bundle_size nap = 16 \<or> bundle_size nap = 32) \<and>
     0x20000 \<le> unat (static_text_end nap) \<and> unat (static_text_end nap) \<le> unat (data_end nap) \<and>
     unat (data_end nap) < 2 ^ unat (addr_bits nap) \<and>
     (rodata_start nap = 0 \<or> unat (NaClRoundAllocPage (static_text_end nap)) \<le> unat (rodata_start nap) \<and> unat (rodata_start nap) < unat (data_end nap)) \<and>
     (data_start nap = 0 \<or> unat (NaClRoundAllocPage (static_text_end nap)) \<le> unat (data_start nap) \<and> unat (data_start nap) < unat (data_end nap)) \<and>
     (rodata_start nap = 0 \<or> data_start nap = 0 \<or> unat (rodata_start nap) < unat (data_start nap)) \<and>
     0x10000 dvd unat (stack_size nap)"

lemma laid_outD:
  assumes "laid_out nap"
  shows "17 < unat (addr_bits nap)" "unat (addr_bits nap) \<le> 30" "bundle_size nap = 16 \<or> bundle_size nap = 32"
    "0x20000 \<le> unat (static_text_end nap)" "unat (static_text_end nap) \<le> unat (data_end nap)" "unat (data_end nap) < 2 ^ unat (addr_bits nap)"
    "rodata_start nap \<noteq> 0 \<Longrightarrow> unat (NaClRoundAllocPage (static_text_end nap)) \<le> unat (rodata_start nap) \<and> unat (rodata_start nap) < unat (data_end nap)"
    "data_start nap \<noteq> 0 \<Longrightarrow> unat (NaClRoundAllocPage (static_text_end nap)) \<le> unat (data_start nap) \<and> unat (data_start nap) < unat (data_end nap)"
    "rodata_start nap \<noteq> 0 \<Longrightarrow> data_start nap \<noteq> 0 \<Longrightarrow> unat (rodata_start nap) < unat (data_start nap)"
    "0x10000 dvd unat (stack_size nap)"
  using assms unfolding laid_out_def by blast+

lemma laid_out_room:
  assumes "laid_out nap"
  shows "(2 :: nat) ^ unat (addr_bits nap) \<le> 2 ^ 30" "(2 :: nat) ^ 18 \<le> 2 ^ unat (addr_bits nap)" "unat (data_end nap) + 0xffff < 2 ^ 32"
    "unat (static_text_end nap) + 0xffff + 32 < 2 ^ 32" "0x10000 dvd (2 :: nat) ^ unat (addr_bits nap)"
proof -
  note l = laid_outD [OF assms]
  show 1: "(2 :: nat) ^ unat (addr_bits nap) \<le> 2 ^ 30" "(2 :: nat) ^ 18 \<le> 2 ^ unat (addr_bits nap)"
    by (rule power_increasing; use l(1,2) in simp)+
  show "unat (data_end nap) + 0xffff < 2 ^ 32" "unat (static_text_end nap) + 0xffff + 32 < 2 ^ 32"
    using l(5,6) 1(1) by simp_all
  have "(2 :: nat) ^ 16 dvd 2 ^ unat (addr_bits nap)" using l(1) by (intro le_imp_power_dvd) simp
  then show "0x10000 dvd (2 :: nat) ^ unat (addr_bits nap)" by simp
qed

text \<open>Where the address space lies and what it leaves free, after its allocation.\<close>

definition placed :: "NaClApp \<Rightarrow> bool" where
  "placed nap \<longleftrightarrow> 4096 dvd unat (mem_start nap) \<and> unat (mem_start nap) + 2 ^ unat (addr_bits nap) < 2 ^ 32 \<and> space_ok nap \<and> unat (stack_size nap) < 2 ^ unat (addr_bits nap) \<and>
     unat (NaClRoundAllocPage (data_end nap)) \<le> 2 ^ unat (addr_bits nap) - unat (stack_size nap)"

lemma unat_space: "unat (addr_bits nap) < 32 \<Longrightarrow> unat (push_bit (unat (addr_bits nap)) 1 :: u32) = 2 ^ unat (addr_bits nap)"
  by (rule unat_push_1)

lemma stack_start:
  assumes lay: "laid_out nap" and st: "unat (stack_size nap) < 2 ^ unat (addr_bits nap)"
  shows "unat (NaClTruncAllocPage (push_bit (unat (addr_bits nap)) 1 - stack_size nap)) = 2 ^ unat (addr_bits nap) - unat (stack_size nap)"
proof -
  have b: "unat (addr_bits nap) < 32" using laid_outD(2) [OF lay] by simp
  define space :: u32 where "space = push_bit (unat (addr_bits nap)) 1"
  have sp: "unat space = 2 ^ unat (addr_bits nap)" using unat_space [OF b] by (simp only: space_def)
  have "unat (space - stack_size nap) = 2 ^ unat (addr_bits nap) - unat (stack_size nap)"
    using st by (subst unat_sub_le) (simp_all add: word_le_nat_alt sp)
  moreover have "0x10000 dvd 2 ^ unat (addr_bits nap) - unat (stack_size nap)"
    using laid_out_room(5) [OF lay] laid_outD(10) [OF lay] by (rule dvd_diff_nat)
  ultimately show ?thesis unfolding space_def [symmetric] by (simp add: trunc_words)
qed

lemma NaClAllocAddrSpace_ok:
  assumes os: "os_ok os ts" and lay: "laid_out (ld_app s)" and run: "NaClAllocAddrSpace os s = Returns (LOAD_OK, s')"
  shows "\<exists>m. ld_app s' = (ld_app s)\<lparr>mem_start := m\<rparr>" "use_shm_for_dynamic_text s' = use_shm_for_dynamic_text s" "placed (ld_app s')"
    "outside (ld_app s') (NaCl_trampoline_seg_code ts) (NaCl_trampoline_seg_end ts)"
    "outside (ld_app s') (NaCl_springboard ts) (NaCl_springboard_end ts)"
    "apart (lo_host os) (unat (mem_start (ld_app s'))) (2 ^ unat (addr_bits (ld_app s')))"
proof -
  let ?nap = "ld_app s" let ?b = "unat (addr_bits ?nap)"
  define space :: u32 where "space = push_bit ?b 1"
  have b: "?b < 32" using laid_outD(2) [OF lay] by simp
  have sp: "unat space = 2 ^ ?b" using unat_space [OF b] by (simp only: space_def)
  obtain m where m: "lo_pages os space = Some m" and st: "\<not> stack_size ?nap \<ge> space"
      and hole: "\<not> NaClTruncAllocPage (space - stack_size ?nap) < NaClRoundAllocPage (data_end ?nap)"
      and s': "ld_app s' = ?nap\<lparr>mem_start := m\<rparr>" "use_shm_for_dynamic_text s' = use_shm_for_dynamic_text s"
    using run unfolding NaClAllocAddrSpace_def NaClAllocateSpace_def NaCl_page_alloc_def Let_def space_def [symmetric]
    by (auto simp: NaCl_madvise_def NaCl_mprotect_def split: option.splits if_splits prod.splits bool.splits)
  note mo = os [unfolded os_ok_def, THEN conjunct1, rule_format, OF m, unfolded sp]
  have st': "unat (stack_size ?nap) < 2 ^ ?b" using st by (simp add: word_le_nat_alt sp)
  have "unat (NaClRoundAllocPage (data_end ?nap)) \<le> 2 ^ ?b - unat (stack_size ?nap)"
    using hole stack_start [OF lay st'] by (simp add: word_less_nat_alt space_def)
  then show "placed (ld_app s')" using mo b st' s' by (simp add: placed_def space_ok_def)
  show "\<exists>m. ld_app s' = (ld_app s)\<lparr>mem_start := m\<rparr>" "use_shm_for_dynamic_text s' = use_shm_for_dynamic_text s"
    "outside (ld_app s') (NaCl_trampoline_seg_code ts) (NaCl_trampoline_seg_end ts)"
    "outside (ld_app s') (NaCl_springboard ts) (NaCl_springboard_end ts)"
    "apart (lo_host os) (unat (mem_start (ld_app s'))) (2 ^ unat (addr_bits (ld_app s')))"
    using s' mo by (auto simp: outside_def)
qed

subsection \<open>Sharing the dynamic text\<close>

lemma map_text_ok:
  assumes run: "map_text os addr prt off s = Returns (addr, s')"
    and al: "4096 dvd unat addr" "0x10000 dvd unat off" and room: "unat addr + 0x10000 < 2 ^ 32" "unat off + 0x10000 < 2 ^ 32"
    and ap: "apart (lo_host os) (unat addr) 0x10000"
  shows "s' = s\<lparr>ld_pages := window (unat addr div 4096) 16 (unat off div 4096) (ld_pages s),
    ld_prot := set_prot (ld_prot s) addr NACL_MAP_PAGESIZE prt\<rparr>"
proof -
  let ?flags = "NACL_ABI_MAP_SHARED OR NACL_ABI_MAP_FIXED" and ?pt = "ld_pages s" and ?e = "addr + NACL_MAP_PAGESIZE"
  obtain pt where r: "NaClDescImcShmMap (lo_host os) addr NACL_MAP_PAGESIZE prt ?flags (ucast off) ?pt = Returns (addr, pt)"
      and s': "s' = s\<lparr>ld_pages := pt, ld_prot := set_prot (ld_prot s) addr NACL_MAP_PAGESIZE prt\<rparr>"
    using run by (auto simp: map_text_def)
  have f: "?flags AND NACL_ABI_MAP_SHARING_MASK = NACL_ABI_MAP_SHARED" "?flags AND NACL_ABI_MAP_FIXED \<noteq> 0" by (simp_all add: nacl_consts)
  have ne: "addr \<noteq> neg_errno NACL_ABI_EINVAL" "addr \<noteq> neg_errno NACL_ABI_EOVERFLOW"
    "addr \<noteq> neg_errno NACL_ABI_E_MOVE_ADDRESS_SPACE \<or> (\<forall>a. os_map_fixed (lo_host os) a)"
    using room(1) ap by (auto simp: neg_errno_def nacl_consts apart_def)
  have u: "(ucast (ucast off :: u64) :: u32) = off" by (rule bit_word_eqI) (auto simp: bit_simps dest: bit_imp_le_length)
  have e: "unat ?e = unat addr + 65536" using room(1) unat_add_no_wrap [of addr NACL_MAP_PAGESIZE] by (simp add: MAP_PAGESIZE_val)
  have "4096 dvd unat off" using al(2) by (rule dvd_trans [rotated]) simp
  then obtain b pt' where lp: "NaClDescImcShmMap_loop (lo_host os) (2 ^ 16 + 1) addr ?e off ?pt = Returns (b, pt')"
      "b \<longrightarrow> pt' = window (unat addr div 4096) 16 (unat off div 4096) ?pt" "(\<forall>a. os_map_fixed (lo_host os) a) \<longrightarrow> b"
    using NaClDescImcShmMap_loop_spec [of addr 1 ?e "2 ^ 16 + 1" off "lo_host os" ?pt] e al(1) room(2) by auto
  have "b \<and> pt = pt'"
    using r ne f lp(1,3) unfolding NaClDescImcShmMap_def Let_def u by (auto split: if_splits)
  then show ?thesis using lp(2) s' by simp
qed

lemma memset_mapped_linear:
  "linear pt a n o' \<Longrightarrow> memset_mapped pt a n b shm = Returns (\<lambda>x. if o' \<le> x \<and> x < o' + n then b else shm x)"
proof (induction n arbitrary: a o' shm)
  case (Suc n)
  have at: "shm_at pt a = Returns o'" using Suc.prems by (simp add: linear_def)
  have lin: "linear pt (Suc a) n (Suc o')" using Suc.prems unfolding linear_def by (auto simp: Suc_diff_le)
  have eq: "(\<lambda>x. if Suc o' \<le> x \<and> x < Suc o' + n then b else (shm(o' := b)) x) = (\<lambda>x. if o' \<le> x \<and> x < o' + Suc n then b else shm x)"
    by (auto simp: fun_eq_iff)
  show ?case unfolding memset_mapped.simps at obind.simps Suc.IH [OF lin] eq ..
qed (auto simp: linear_def fun_eq_iff)

lemma unmap_one:
  assumes "NaClDescImcShmUnmapUnsafe os addr NACL_MAP_PAGESIZE pt = Returns (rc, pt')" "4096 dvd unat addr" "unat addr + 0x10000 < 2 ^ 32"
  shows "pt' p = (if unat addr div 4096 \<le> p \<and> p < unat addr div 4096 + 16 then None else pt p)"
proof -
  have "unat (addr + NACL_MAP_PAGESIZE) = unat addr + 65536 * 1"
    using assms(3) unat_add_no_wrap [of addr NACL_MAP_PAGESIZE] by (simp add: MAP_PAGESIZE_val)
  then show ?thesis
    using assms(1) NaClDescImcShmUnmapUnsafe_loop_spec [of os "2 ^ 16 + 1" addr "addr + NACL_MAP_PAGESIZE" pt pt' 1 p, OF _ _ assms(2)]
    by (auto simp: NaClDescImcShmUnmapUnsafe_def)
qed

lemma shm_at_window:
  assumes "4096 dvd m" "4096 dvd off" "m \<le> a" "a < m + 4096 * k"
  shows "shm_at (window (m div 4096) k (off div 4096) pt) a = Returns (off + (a - m))"
  using linear_window [of m 0 "4096 * k" k "off div 4096" pt] assms by (simp add: linear_def)

text \<open>One turn of the loop, from the mapping for writing to the mapping for execution.\<close>

lemma text_step:
  assumes st: "map_text os a prt off s = Returns (a, s1)"
      "memset_mapped (ld_pages s1) (unat a) (unat NACL_MAP_PAGESIZE) NACL_HALT_OPCODE (ld_shm s1) = Returns shm"
      "NaClDescImcShmUnmapUnsafe (lo_host os) a NACL_MAP_PAGESIZE (ld_pages s1) = Returns (rc, pt)"
      "map_text os a prt' off (s1\<lparr>ld_shm := shm, ld_pages := pt\<rparr>) = Returns (a, s2)"
    and al: "4096 dvd unat a" "0x10000 dvd unat off" and r: "unat a + 0x10000 < 2 ^ 32" "unat off + 0x10000 < 2 ^ 32"
    and ap: "apart (lo_host os) (unat a) 0x10000"
  shows "ld_app s2 = ld_app s" "use_shm_for_dynamic_text s2 = use_shm_for_dynamic_text s" "ld_mem s2 = ld_mem s"
    "ld_shm s2 = (\<lambda>x. if unat off \<le> x \<and> x < unat off + 0x10000 then NACL_HALT_OPCODE else ld_shm s x)"
    "x < 0x10000 \<Longrightarrow> shm_at (ld_pages s2) (unat a + x) = Returns (unat off + x)"
    "p < unat a div 4096 \<Longrightarrow> ld_pages s2 p = ld_pages s p \<and> ld_prot s2 p = ld_prot s p"
    "ld_prot s2 (unat a div 4096) = prt'"
proof -
  note s1 = map_text_ok [OF st(1) al r ap] and s2 = map_text_ok [OF st(4) al r ap]
  have o: "4096 dvd unat off" using al(2) by (rule dvd_trans [rotated]) simp
  have sp: "unat NACL_MAP_PAGESIZE = 4096 * 16" by (simp add: MAP_PAGESIZE_val)
  have "linear (ld_pages s1) (unat a) (4096 * 16) (unat off)"
    using linear_window [of "unat a" 0 "4096 * 16" 16 "unat off div 4096" "ld_pages s"] al(1) o by (simp add: s1)
  from memset_mapped_linear [OF this]
  show "ld_shm s2 = (\<lambda>x. if unat off \<le> x \<and> x < unat off + 0x10000 then NACL_HALT_OPCODE else ld_shm s x)"
    using st(2) by (simp add: sp s1 s2)
  show "ld_app s2 = ld_app s" "use_shm_for_dynamic_text s2 = use_shm_for_dynamic_text s" "ld_mem s2 = ld_mem s" by (simp_all add: s2 s1)
  show "shm_at (ld_pages s2) (unat a + x) = Returns (unat off + x)" if "x < 0x10000"
    using shm_at_window [OF al(1) o, of "unat a + x" 16 pt] that by (simp add: s2)
  show "ld_pages s2 p = ld_pages s p \<and> ld_prot s2 p = ld_prot s p" if "p < unat a div 4096"
  proof -
    have "pt p = ld_pages s1 p" using unmap_one [OF st(3) al(1), of p] r(1) that by simp
    then show ?thesis using that by (simp add: s2 s1 window_def set_prot_def)
  qed
  show "ld_prot s2 (unat a div 4096) = prt'" using al(1) by (auto simp: s2 set_prot_def sp elim!: dvdE)
qed

text \<open>
  The loop fills the object with halts from the offset on and leaves it mapped, offset for offset, in the place of the region;
  nothing else of the state changes but the protection of pages.
\<close>

lemma MakeDynamicTextShared_loop_ok:
  assumes "MakeDynamicTextShared_loop os fuel b sz off s = Returns s'"
    and base: "4096 dvd unat (mem_start (ld_app s))" "4096 dvd unat b" "0x10000 dvd unat off"
    and room: "unat (mem_start (ld_app s)) + unat b + (unat sz + 0xffff) div 0x10000 * 0x10000 < 2 ^ 32"
    and ap: "apart (lo_host os) (unat (mem_start (ld_app s)) + unat b) ((unat sz + 0xffff) div 0x10000 * 0x10000)"
  defines "A \<equiv> unat (mem_start (ld_app s)) + unat b"
  shows "(ld_app s' = ld_app s \<and> use_shm_for_dynamic_text s' = use_shm_for_dynamic_text s \<and> ld_mem s' = ld_mem s) \<and>
    (\<forall>x. unat off \<le> x \<and> x < unat sz \<longrightarrow> ld_shm s' x = NACL_HALT_OPCODE \<and> shm_at (ld_pages s') (A + x) = Returns x) \<and>
    (\<forall>x<unat off. ld_shm s' x = ld_shm s x) \<and> (\<forall>p<(A + unat off) div 4096. ld_pages s' p = ld_pages s p \<and> ld_prot s' p = ld_prot s p) \<and>
    (off < sz \<longrightarrow> ld_prot s' ((A + unat off) div 4096) = NACL_ABI_PROT_READ OR NACL_ABI_PROT_EXEC)"
  using assms(1) base room ap unfolding A_def
proof (induction fuel arbitrary: off s)
  case (Suc fuel)
  show ?case
  proof (cases "off < sz")
    case False
    then show ?thesis using Suc.prems(1) by (auto simp: word_less_nat_alt)
  next
    case True
    let ?m = "mem_start (ld_app s)"
    define A where "A = unat ?m + unat b"
    obtain k where k: "unat off = 0x10000 * k" using Suc.prems(4) by (elim dvdE)
    have "0x10000 * (k + 1) \<le> unat sz + 0xffff" using True k by (simp add: word_less_nat_alt)
    from div_le_mono [OF this, of "0x10000"] have "unat off + 0x10000 \<le> (unat sz + 0xffff) div 0x10000 * 0x10000" using k by simp
    then have room: "A + unat off + 0x10000 < 2 ^ 32" and ap: "apart (lo_host os) (A + unat off) 0x10000"
      using Suc.prems(5) apart_sub [OF Suc.prems(6)] unfolding A_def by (linarith, simp)
    define a where "a = b + off + ?m"
    have ua: "unat a = A + unat off"
      using room unat_add_no_wrap [of b off] unat_add_no_wrap [of "b + off" ?m] by (simp add: a_def A_def)
    have al: "4096 dvd unat a" using Suc.prems(2,3) k by (auto simp: ua A_def intro!: dvd_add)
    obtain s1 shm rc pt s2 where st:
        "map_text os a (NACL_ABI_PROT_READ OR NACL_ABI_PROT_WRITE) off s = Returns (a, s1)"
        "memset_mapped (ld_pages s1) (unat a) (unat NACL_MAP_PAGESIZE) NACL_HALT_OPCODE (ld_shm s1) = Returns shm"
        "NaClDescImcShmUnmapUnsafe (lo_host os) a NACL_MAP_PAGESIZE (ld_pages s1) = Returns (rc, pt)"
        "map_text os a (NACL_ABI_PROT_READ OR NACL_ABI_PROT_EXEC) off (s1\<lparr>ld_shm := shm, ld_pages := pt\<rparr>) = Returns (a, s2)"
        "MakeDynamicTextShared_loop os fuel b sz (off + NACL_MAP_PAGESIZE) s2 = Returns s'"
      using Suc.prems(1) True by (auto simp: NaClUserToSys_def a_def Let_def split: if_splits)
    have r: "unat a + 0x10000 < 2 ^ 32" "unat off + 0x10000 < 2 ^ 32" using room by (simp_all add: ua)
    note t = text_step [OF st(1-4) al Suc.prems(4) r ap [folded ua]]
    have o: "unat (off + NACL_MAP_PAGESIZE) = unat off + 0x10000"
      using r(2) unat_add_no_wrap [of off NACL_MAP_PAGESIZE] by (simp add: MAP_PAGESIZE_val)
    have "0x10000 dvd unat (off + NACL_MAP_PAGESIZE)" using Suc.prems(4) by (simp add: o)
    note IH = Suc.IH [OF st(5), unfolded t(1-3) o, OF Suc.prems(2,3) this [unfolded o] Suc.prems(5,6), folded A_def]
    note above = conjunct1 [OF conjunct2 [OF IH], THEN spec] and shm = conjunct1 [OF conjunct2 [OF conjunct2 [OF IH]], THEN spec]
      and pages = conjunct1 [OF conjunct2 [OF conjunct2 [OF conjunct2 [OF IH]]], THEN spec]
    have up: "(A + (unat off + 0x10000)) div 4096 = unat a div 4096 + 16" using div_add1_eq [of "A + unat off" "0x10000" 4096] by (simp add: ua)
    have "ld_shm s' x = NACL_HALT_OPCODE \<and> shm_at (ld_pages s') (A + x) = Returns x" if x: "unat off \<le> x" "x < unat sz" for x
    proof (cases "x < unat off + 0x10000")
      case True
      have "A + x < unat a + 0x10000" using True by (simp add: ua)
      then have "(A + x) div 4096 < unat a div 4096 + 16" using al by (elim dvdE) (simp add: less_mult_imp_div_less)
      then have "shm_at (ld_pages s') (A + x) = shm_at (ld_pages s2) (A + x)" using pages up by (simp add: shm_at_def)
      then show ?thesis using shm [of x] t(4) t(5) [of "x - unat off"] True x by (simp add: ua)
    next
      case False
      then show ?thesis using above [of x] x by simp
    qed
    moreover have "ld_shm s' x = ld_shm s x" if "x < unat off" for x using shm [of x] that by (simp add: t(4))
    moreover have "ld_prot s' ((A + unat off) div 4096) = NACL_ABI_PROT_READ OR NACL_ABI_PROT_EXEC"
      using pages [of "unat a div 4096"] t(7) unfolding up by (simp add: ua)
    moreover have "ld_pages s' p = ld_pages s p \<and> ld_prot s' p = ld_prot s p" if "p < (A + unat off) div 4096" for p
      using pages [of p] t(6) [of p] that unfolding up by (simp add: ua)
    ultimately show ?thesis using conjunct1 [OF IH] unfolding A_def [symmetric] by blast
  qed
qed simp

text \<open>The bounds of the region for dynamic code, as set by \<open>NaClMakeDynamicTextShared\<close>.\<close>

definition dynamic_bounds :: "bool \<Rightarrow> NaClApp \<Rightarrow> u32 \<times> u32" where
  "dynamic_bounds shm nap =
     (let b = NaClRoundAllocPage (static_text_end nap)
      in (b, if shm \<and> rodata_start nap \<noteq> 0 then rodata_start nap else if shm \<and> data_start nap \<noteq> 0 then data_start nap else b))"

lemma dynamic_bounds_ok:
  assumes lay: "laid_out nap" and b: "dynamic_bounds shm nap = (b, e)"
  shows "0x10000 dvd unat b" "unat (static_text_end nap) \<le> unat b" "unat b \<le> unat e"
    "unat e \<le> unat (NaClRoundAllocPage (data_end nap))" "e \<noteq> b \<Longrightarrow> unat e < unat (data_end nap)"
    "rodata_start nap \<noteq> 0 \<Longrightarrow> unat e \<le> unat (rodata_start nap)" "data_start nap \<noteq> 0 \<Longrightarrow> unat e \<le> unat (data_start nap)"
proof -
  note l = laid_outD [OF lay] and r = laid_out_room [OF lay]
  have x: "unat (static_text_end nap) + 0xffff < 2 ^ 32" using r(4) by simp
  note rb = round_bounds [OF x] and rm = round_mono [OF l(5) r(3)] and rd = round_bounds(1) [OF r(3)]
  note eq = b [unfolded dynamic_bounds_def Let_def, simplified prod.inject]
  show "0x10000 dvd unat b" "unat (static_text_end nap) \<le> unat b" using eq rb by auto
  show "unat b \<le> unat e" "unat e \<le> unat (NaClRoundAllocPage (data_end nap))" "e \<noteq> b \<Longrightarrow> unat e < unat (data_end nap)"
    using eq rm rd l(7,8) by (auto split: if_splits)
  show "rodata_start nap \<noteq> 0 \<Longrightarrow> unat e \<le> unat (rodata_start nap)" using eq l(7) by (auto split: if_splits)
  show "data_start nap \<noteq> 0 \<Longrightarrow> unat e \<le> unat (data_start nap)" using eq l(8,9) by (auto split: if_splits)
qed

text \<open>The object that backs a region for dynamic code: all halts, and mapped over the whole region.\<close>

definition text_shared :: "loader \<Rightarrow> bool" where
  "text_shared s \<longleftrightarrow> (let nap = ld_app s; n = unat (dynamic_text_end nap) - unat (dynamic_text_start nap) in
     \<forall>x<n. ld_shm s x = NACL_HALT_OPCODE \<and> shm_at (ld_pages s) (unat (mem_start nap) + unat (dynamic_text_start nap) + x) = Returns x)"

lemma NaClMakeDynamicTextShared_ok:
  assumes lay: "laid_out (ld_app s)" and pl: "placed (ld_app s)" and run: "NaClMakeDynamicTextShared os s = Returns (LOAD_OK, s')"
    and be: "dynamic_bounds (use_shm_for_dynamic_text s) (ld_app s) = (b, e)"
    and ap: "apart (lo_host os) (unat (mem_start (ld_app s))) (2 ^ unat (addr_bits (ld_app s)))"
  shows "ld_app s' = (ld_app s)\<lparr>dynamic_text_start := b, dynamic_text_end := e\<rparr>" "ld_mem s' = ld_mem s" "text_shared s'"
    "b \<noteq> e \<Longrightarrow> \<exists>d. text_shm s' = Some d" "b \<noteq> e \<Longrightarrow> \<not> writable (ld_prot s') (unat (mem_start (ld_app s)) + unat b)"
proof -
  let ?nap = "ld_app s"
  note d = dynamic_bounds_ok [OF lay be]
  have b: "b = NaClRoundAllocPage (NaClEndOfStaticText ?nap)" using be by (auto simp: dynamic_bounds_def Let_def NaClEndOfStaticText_def)
  define s0 where "s0 = s\<lparr>ld_app := ?nap\<lparr>dynamic_text_start := b, dynamic_text_end := e\<rparr>\<rparr>"
  have g: "ld_app s' = (ld_app s)\<lparr>dynamic_text_start := b, dynamic_text_end := e\<rparr> \<and> ld_mem s' = ld_mem s \<and> text_shared s' \<and>
      (b \<noteq> e \<longrightarrow> (\<exists>d. text_shm s' = Some d) \<and> \<not> writable (ld_prot s') (unat (mem_start ?nap) + unat b))"
  proof (cases "b = e")
    case True
    then have "s' = s0"
      using run be unfolding NaClMakeDynamicTextShared_def Let_def b [symmetric] s0_def
      by (auto simp: dynamic_bounds_def Let_def b NaClEndOfStaticText_def split: if_splits)
    then show ?thesis using True by (simp add: s0_def text_shared_def)
  next
    case False
    then obtain d bytes s1 where s1: "MakeDynamicTextShared_loop os (2 ^ 16 + 1) b (e - b) 0 (s0\<lparr>ld_shm := bytes, ld_refs := NaClDescCtor d (ld_refs s)\<rparr>) = Returns s1"
        and s': "s' = s1\<lparr>text_shm := Some d\<rparr>"
      using run be unfolding NaClMakeDynamicTextShared_def Let_def b [symmetric] s0_def
      by (auto simp: dynamic_bounds_def Let_def b NaClEndOfStaticText_def split: if_splits option.splits)
    have sz: "unat (e - b) = unat e - unat b" using d(3) by (simp add: unat_sub_le word_le_nat_alt)
    have m: "4096 dvd unat (mem_start ?nap)" "unat (mem_start ?nap) + 2 ^ unat (addr_bits ?nap) < 2 ^ 32" using pl by (simp_all add: placed_def)
    have bb: "4096 dvd unat b" using d(1) by (rule dvd_trans [rotated]) simp
    have "unat b + (unat (e - b) + 0xffff) div 0x10000 * 0x10000 \<le> 2 ^ unat (addr_bits ?nap)"
    proof -
      obtain q where q: "unat b = 0x10000 * q" using d(1) by (elim dvdE)
      obtain t where t: "(2 :: nat) ^ unat (addr_bits ?nap) = 0x10000 * t" using laid_out_room(5) [OF lay] by (elim dvdE)
      have "unat e < 2 ^ unat (addr_bits ?nap)" using d(5) False laid_outD(6) [OF lay] by auto
      then have "unat (e - b) + 0xffff < 0x10000 * (t - q) + 0x10000" using d(3) sz q t by auto
      then have "(unat (e - b) + 0xffff) div 0x10000 \<le> t - q" by (simp add: less_Suc_eq_le [symmetric] less_mult_imp_div_less)
      moreover have "q \<le> t" using d(3) \<open>unat e < 2 ^ unat (addr_bits ?nap)\<close> q t by simp
      ultimately show ?thesis unfolding q t by simp
    qed
    then have room: "unat (mem_start ?nap) + unat b + (unat (e - b) + 0xffff) div 0x10000 * 0x10000 < 2 ^ 32"
      and "apart (lo_host os) (unat (mem_start ?nap) + unat b) ((unat (e - b) + 0xffff) div 0x10000 * 0x10000)"
      using m(2) apart_sub [OF ap] by (linarith, simp)
    with MakeDynamicTextShared_loop_ok [OF s1] m(1) bb
    have a1: "ld_app s1 = ld_app s0 \<and> ld_mem s1 = ld_mem s0 \<and>
        (\<forall>x<unat (e - b). ld_shm s1 x = NACL_HALT_OPCODE \<and> shm_at (ld_pages s1) (unat (mem_start ?nap) + unat b + x) = Returns x)" and
        rx: "0 < e - b \<longrightarrow> ld_prot s1 ((unat (mem_start ?nap) + unat b) div 4096) = NACL_ABI_PROT_READ OR NACL_ABI_PROT_EXEC"
      by (simp_all add: s0_def)
    have "0 < e - b" using False by (simp add: word_neq_0_conv [symmetric])
    then have "\<not> writable (ld_prot s') (unat (mem_start ?nap) + unat b)" using rx by (simp add: s' writable_def nacl_consts)
    then show ?thesis using a1 unfolding s' text_shared_def sz Let_def by (simp add: s0_def)
  qed
  show "ld_app s' = (ld_app s)\<lparr>dynamic_text_start := b, dynamic_text_end := e\<rparr>" "ld_mem s' = ld_mem s" "text_shared s'"
    "b \<noteq> e \<Longrightarrow> \<exists>d. text_shm s' = Some d" "b \<noteq> e \<Longrightarrow> \<not> writable (ld_prot s') (unat (mem_start (ld_app s)) + unat b)"
    using g by simp_all
qed

subsection \<open>Halts behind the code\<close>

lemma NaClFillEndOfTextRegion_ok:
  assumes lay: "laid_out (ld_app s)" and run: "NaClFillEndOfTextRegion s = Returns s'"
  shows "\<exists>mem. s' = s\<lparr>ld_mem := mem, ld_app := (ld_app s)\<lparr>static_text_end := NaClRoundAllocPage (static_text_end (ld_app s) + 32)\<rparr>\<rparr>"
    "unat (static_text_end (ld_app s)) + 32 \<le> unat (static_text_end (ld_app s'))"
    "unat (NaClRoundAllocPage (static_text_end (ld_app s))) \<le> unat (static_text_end (ld_app s'))"
    "unat (static_text_end (ld_app s')) < unat (static_text_end (ld_app s)) + 32 + 0x10000"
    "0x10000 dvd unat (static_text_end (ld_app s'))"
proof -
  let ?e = "static_text_end (ld_app s)"
  have sled: "NACL_HALT_SLED_SIZE = 32" by (simp add: nacl_consts)
  show ex: "\<exists>mem. s' = s\<lparr>ld_mem := mem, ld_app := (ld_app s)\<lparr>static_text_end := NaClRoundAllocPage (?e + 32)\<rparr>\<rparr>"
    using run by (auto simp: NaClFillEndOfTextRegion_def Let_def sled split: if_splits)
  have "unat (?e + 32) = unat ?e + 32" using laid_out_room(4) [OF lay] unat_add_no_wrap [of ?e 32] by simp
  then have u: "unat (?e + 32) = unat ?e + 32" "unat (?e + 32) + 0xffff < 2 ^ 32" "unat ?e \<le> unat (?e + 32)"
    using laid_out_room(4) [OF lay] by simp_all
  have "static_text_end (ld_app s') = NaClRoundAllocPage (?e + 32)" using ex by auto
  then show "unat ?e + 32 \<le> unat (static_text_end (ld_app s'))" "unat (NaClRoundAllocPage ?e) \<le> unat (static_text_end (ld_app s'))"
    "unat (static_text_end (ld_app s')) < unat ?e + 32 + 0x10000" "0x10000 dvd unat (static_text_end (ld_app s'))"
    using round_bounds [OF u(2)] round_mono [OF u(3,2)] unfolding u(1) by simp_all
qed

subsection \<open>Protection\<close>

text \<open>Protecting pages changes neither the application nor memory.\<close>

definition same_image :: "loader \<Rightarrow> loader \<Rightarrow> bool" where
  "same_image s s' \<longleftrightarrow> ld_app s' = ld_app s \<and> ld_mem s' = ld_mem s \<and> ld_shm s' = ld_shm s \<and> ld_pages s' = ld_pages s \<and> text_shm s' = text_shm s"

lemma set_prot_user:
  assumes "4096 dvd unat m" "unat (m + u) = unat m + unat u"
  shows "set_prot pr (m + u) n prt (unat m div 4096 + pg) =
    (if unat u div 4096 \<le> pg \<and> pg * 4096 < unat u + unat n then prt else pr (unat m div 4096 + pg))"
proof -
  obtain q where q: "unat m = 4096 * q" using assms(1) by (elim dvdE)
  then show ?thesis by (simp add: set_prot_def assms(2) add.assoc)
qed

lemma record_region_ok:
  "record_region os k pn np prt mo s = Returns (LOAD_OK, s') \<Longrightarrow> same_image s s' \<and> ld_prot s' = ld_prot s"
  by (auto simp: record_region_def same_image_def split: if_splits)

lemma protect_region_ok:
  assumes "protect_region os k a n region_size prt s = Returns (LOAD_OK, s')"
  shows "same_image s s' \<and> ld_prot s' = set_prot (ld_prot s) a n prt \<and> lo_mprotect os a n prt"
  using assms
  by (auto simp: protect_region_def NaCl_mprotect_def same_image_def split: if_splits dest!: record_region_ok)

lemma lbind_ok: "lbind r f = Returns (LOAD_OK, s') \<longleftrightarrow> (\<exists>s1. r = Returns (LOAD_OK, s1) \<and> f s1 = Returns (LOAD_OK, s'))"
  by (auto simp: lbind_def)

lemma same_image_refl: "same_image s s"
  by (simp add: same_image_def)

lemma same_image_trans: "same_image s1 s2 \<Longrightarrow> same_image s2 s3 \<Longrightarrow> same_image s1 s3"
  by (simp add: same_image_def)

lemma guards_ok:
  assumes "NaClMprotectGuards os s = Returns (LOAD_OK, s')"
  shows "same_image s s'" "ld_prot s' = set_prot (ld_prot s) (mem_start (ld_app s)) 0x10000 NACL_ABI_PROT_NONE"
  using assms tramp_consts(3)
  by (auto simp: NaClMprotectGuards_def Let_def NaCl_mprotect_def same_image_def split: if_splits dest!: record_region_ok)

lemma dynamic_ok:
  assumes "protect_dynamic_text os s = Returns (LOAD_OK, s')"
  defines "nap \<equiv> ld_app s"
  shows "same_image s s'"
    "ld_prot s' = (if dynamic_text_end nap = dynamic_text_start nap then ld_prot s
       else set_prot (ld_prot s) (dynamic_text_start nap + mem_start nap) (dynamic_text_end nap - dynamic_text_start nap)
         (NACL_ABI_PROT_READ OR NACL_ABI_PROT_EXEC))"
  using assms
  by (auto simp: protect_dynamic_text_def Let_def NaCl_mprotect_def same_image_def NaClUserToSys_def split: if_splits dest!: record_region_ok)

lemma rodata_ok:
  assumes "protect_rodata os s = Returns (LOAD_OK, s')"
  defines "u \<equiv> rodata_start (ld_app s)"
  shows "same_image s s'" "u = 0 \<and> ld_prot s' = ld_prot s \<or>
    u \<noteq> 0 \<and> (\<exists>n. ld_prot s' = set_prot (ld_prot s) (u + mem_start (ld_app s)) n NACL_ABI_PROT_READ \<and> lo_mprotect os (u + mem_start (ld_app s)) n NACL_ABI_PROT_READ)"
  using assms
  by (auto simp: protect_rodata_def Let_def NaClUserToSys_def same_image_refl split: if_splits dest!: protect_region_ok)

lemma data_ok:
  assumes "protect_data os s = Returns (LOAD_OK, s')"
  defines "u \<equiv> data_start (ld_app s)" and "rw \<equiv> NACL_ABI_PROT_READ OR NACL_ABI_PROT_WRITE"
  shows "same_image s s'" "u = 0 \<and> ld_prot s' = ld_prot s \<or>
    u \<noteq> 0 \<and> (\<exists>n. ld_prot s' = set_prot (ld_prot s) (u + mem_start (ld_app s)) n rw \<and> lo_mprotect os (u + mem_start (ld_app s)) n rw)"
  using assms
  by (auto simp: protect_data_def Let_def NaClUserToSys_def same_image_refl split: if_splits dest!: protect_region_ok)

lemma stack_ok:
  assumes "protect_stack os s = Returns (LOAD_OK, s')"
  defines "u \<equiv> NaClTruncAllocPage (push_bit (unat (addr_bits (ld_app s))) 1 - stack_size (ld_app s))"
  shows "same_image s s'"
    "\<exists>n. ld_prot s' = set_prot (ld_prot s) (u + mem_start (ld_app s)) n (NACL_ABI_PROT_READ OR NACL_ABI_PROT_WRITE)"
  using assms
  by (auto simp: protect_stack_def Let_def NaClUserToSys_def same_image_refl split: if_splits dest!: protect_region_ok)

text \<open>
  What the loader protects: below the end of the dynamic code, where the code segment ends, the first 64K are inaccessible and the rest
  can be read and executed and not written.
\<close>

definition code_pages :: "loader \<Rightarrow> bool" where
  "code_pages s \<longleftrightarrow> (\<forall>pg. pg * 4096 < unat (dynamic_text_end (ld_app s)) \<longrightarrow>
     ld_prot s (unat (mem_start (ld_app s)) div 4096 + pg) =
       (if pg < 16 then NACL_ABI_PROT_NONE else NACL_ABI_PROT_READ OR NACL_ABI_PROT_EXEC))"

lemma prot_beyond:
  assumes "4096 dvd unat m" "unat (m + u) = unat m + unat u" "4096 dvd unat (u + m)" "unat e \<le> unat u" "pg * 4096 < unat e"
  shows "set_prot pr (u + m) n prt (unat m div 4096 + pg) = pr (unat m div 4096 + pg)"
proof -
  have "4096 dvd unat u" using assms(1-3) by (simp add: dvd_add_right_iff add.commute [of u])
  then obtain q where "unat u = 4096 * q" by (elim dvdE)
  then have "\<not> unat u div 4096 \<le> pg" using assms(4,5) by simp
  then show ?thesis using set_prot_user [OF assms(1,2)] by (simp add: add.commute)
qed

lemma NaClMemoryProtection_ok:
  assumes os: "os_ok os ts" and run: "NaClMemoryProtection os s = Returns (LOAD_OK, s')"
  defines "nap \<equiv> ld_app s" defines "e \<equiv> dynamic_text_end nap" defines "b \<equiv> dynamic_text_start nap"
  assumes pl: "4096 dvd unat (mem_start nap)" "unat (mem_start nap) + 2 ^ unat (addr_bits nap) < 2 ^ 32"
    and te: "0x10000 dvd unat (static_text_end nap)" "0x20000 \<le> unat (static_text_end nap)" "unat (static_text_end nap) < 2 ^ 31"
    and be: "0x10000 dvd unat b" "unat b \<le> unat (static_text_end nap)" "unat b \<le> unat e" "unat e \<le> 2 ^ unat (addr_bits nap)" "0 < unat b"
    and bits: "17 \<le> unat (addr_bits nap)"
    and ro: "rodata_start nap \<noteq> 0 \<Longrightarrow> unat e \<le> unat (rodata_start nap) \<and> unat (rodata_start nap) < 2 ^ unat (addr_bits nap)"
    and da: "data_start nap \<noteq> 0 \<Longrightarrow> unat e \<le> unat (data_start nap) \<and> unat (data_start nap) < 2 ^ unat (addr_bits nap)"
    and stk: "unat (NaClTruncAllocPage (push_bit (unat (addr_bits nap)) 1 - stack_size nap)) = 2 ^ unat (addr_bits nap) - unat (stack_size nap)"
      "0x10000 dvd 2 ^ unat (addr_bits nap) - unat (stack_size nap)" "unat e \<le> 2 ^ unat (addr_bits nap) - unat (stack_size nap)"
  shows "same_image s s'" "code_pages s'"
proof -
  let ?m = "mem_start nap" and ?rx = "NACL_ABI_PROT_READ OR NACL_ABI_PROT_EXEC" and ?top = "2 ^ unat (addr_bits nap) :: nat"
  let ?P = "\<lambda>s pg. ld_prot s (unat ?m div 4096 + pg)"
  obtain s1 s2 s3 s4 s5 where st: "NaClMprotectGuards os s = Returns (LOAD_OK, s1)" "protect_text os s1 = Returns (LOAD_OK, s2)"
      "protect_dynamic_text os s2 = Returns (LOAD_OK, s3)" "protect_rodata os s3 = Returns (LOAD_OK, s4)"
      "protect_data os s4 = Returns (LOAD_OK, s5)" "protect_stack os s5 = Returns (LOAD_OK, s')"
    using run unfolding NaClMemoryProtection_def lbind_ok by blast
  note t = protect_region_ok [OF st(2) [unfolded protect_text_def Let_def]]
  have im: "same_image s s1" "same_image s1 s2" "same_image s2 s3" "same_image s3 s4" "same_image s4 s5" "same_image s5 s'"
    using guards_ok(1) [OF st(1)] t dynamic_ok(1) [OF st(3)] rodata_ok(1) [OF st(4)] data_ok(1) [OF st(5)] stack_ok(1) [OF st(6)] by blast+
  then show img: "same_image s s'" by (metis same_image_trans)
  have app: "ld_app s = nap" "ld_app s1 = nap" "ld_app s2 = nap" "ld_app s3 = nap" "ld_app s4 = nap" "ld_app s5 = nap" "ld_app s' = nap"
    using im by (simp_all add: same_image_def nap_def)
  have add: "unat (?m + u) = unat ?m + unat u" if "unat u \<le> ?top" for u using that pl(2) by (intro unat_add_no_wrap) simp
  have al: "4096 dvd unat a" if "lo_mprotect os a n p" for a n p using os that unfolding os_ok_def by blast
  have "(2 :: nat) ^ 17 \<le> ?top" using bits by (intro power_increasing) simp_all
  then have add16: "unat (?m + 0x10000) = unat ?m + unat (0x10000 :: u32)" by (intro add) simp
  have p1: "?P s1 pg = NACL_ABI_PROT_NONE" if "pg < 16" for pg
    using set_prot_user [of ?m 0 "ld_prot s" "0x10000" NACL_ABI_PROT_NONE pg] pl(1) that guards_ok(2) [OF st(1)] by (simp add: app(1))
  have tl: "unat (NaClRoundPage (static_text_end nap - 0x10000)) = unat (static_text_end nap) - 0x10000"
  proof -
    have "unat (static_text_end nap - 0x10000) = unat (static_text_end nap) - 0x10000" using te(2) by (simp add: unat_sub_le word_le_nat_alt)
    moreover obtain q where "unat (static_text_end nap) = 0x10000 * q" using te(1) by (elim dvdE)
    ultimately have "unat (NaClRoundPage (static_text_end nap - 0x10000)) = (4096 * (16 * q - 16) + 4095) div 4096 * 4096"
        "unat (static_text_end nap) - 0x10000 = 4096 * (16 * q - 16)"
      using te(3) round_words(2) [of "static_text_end nap - 0x10000"] by (simp_all add: diff_mult_distrib2)
    then show ?thesis by simp
  qed
  have p2: "?P s2 pg = (if 16 \<le> pg \<and> pg * 4096 < unat (static_text_end nap) then ?rx else ?P s1 pg)" for pg
    using set_prot_user [OF pl(1) add16, of "ld_prot s1" "NaClRoundPage (static_text_end nap - 0x10000)" ?rx pg] t te(2)
    by (simp add: app tl tramp_consts(3))
  have p3: "?P s3 pg = (if 16 \<le> pg then ?rx else ?P s2 pg)" if pg: "pg * 4096 < unat e" for pg
  proof (cases "e = b")
    case True
    then show ?thesis using dynamic_ok(2) [OF st(3)] p2 [of pg] be(2) pg by (simp add: app e_def b_def)
  next
    case False
    have ub: "unat (?m + b) = unat ?m + unat b" using be(3,4) by (intro add) simp
    have sz: "unat (e - b) = unat e - unat b" using be(3) by (simp add: unat_sub_le word_le_nat_alt)
    have "?P s3 pg = (if unat b div 4096 \<le> pg then ?rx else ?P s2 pg)"
      using dynamic_ok(2) [OF st(3)] False set_prot_user [OF pl(1) ub, of "ld_prot s2" "e - b" ?rx pg] be(3) pg
      by (simp add: app e_def [symmetric] b_def [symmetric] sz add.commute)
    moreover obtain q where "unat b = 0x10000 * q" using be(1) by (elim dvdE)
    ultimately show ?thesis using p2 [of pg] be(2,5) by auto
  qed
  have p4: "?P s4 pg = ?P s3 pg" if pg: "pg * 4096 < unat e" for pg
    using rodata_ok(2) [OF st(4), unfolded app]
  proof (elim disjE conjE exE)
    fix n assume "rodata_start nap \<noteq> 0" and n: "ld_prot s4 = set_prot (ld_prot s3) (rodata_start nap + ?m) n NACL_ABI_PROT_READ"
      "lo_mprotect os (rodata_start nap + ?m) n NACL_ABI_PROT_READ"
    then show ?thesis using prot_beyond [OF pl(1) add al [OF n(2)] _ pg] ro by simp
  qed simp
  have p5: "?P s5 pg = ?P s4 pg" if pg: "pg * 4096 < unat e" for pg
    using data_ok(2) [OF st(5), unfolded app]
  proof (elim disjE conjE exE)
    fix n assume "data_start nap \<noteq> 0" and n: "ld_prot s5 = set_prot (ld_prot s4) (data_start nap + ?m) n (NACL_ABI_PROT_READ OR NACL_ABI_PROT_WRITE)"
      "lo_mprotect os (data_start nap + ?m) n (NACL_ABI_PROT_READ OR NACL_ABI_PROT_WRITE)"
    then show ?thesis using prot_beyond [OF pl(1) add al [OF n(2)] _ pg] da by simp
  qed simp
  have p6: "?P s' pg = ?P s5 pg" if pg: "pg * 4096 < unat e" for pg
  proof -
    define u where "u = NaClTruncAllocPage (push_bit (unat (addr_bits nap)) 1 - stack_size nap)"
    have u: "unat (?m + u) = unat ?m + unat u" using stk(1) by (intro add) (simp only: u_def diff_le_self)
    have "4096 dvd unat u" unfolding u_def stk(1) using stk(2) by (rule dvd_trans [rotated]) simp
    then have "4096 dvd unat (u + ?m)" using pl(1) u by (simp add: add.commute [of u])
    moreover have "unat e \<le> unat u" unfolding u_def stk(1) by (rule stk(3))
    ultimately show ?thesis using prot_beyond [OF pl(1) u _ _ pg] stack_ok(2) [OF st(6), unfolded app, folded u_def] by auto
  qed
  have "?P s' pg = (if pg < 16 then NACL_ABI_PROT_NONE else ?rx)" if pg: "pg * 4096 < unat e" for pg
    using p6 [OF pg] p5 [OF pg] p4 [OF pg] p3 [OF pg] p2 [of pg] p1 [of pg] by simp
  then show "code_pages s'" unfolding code_pages_def app by (simp add: e_def)
qed

end
