(* ===== verification/Gio_Mem.thy ===== *)
theory Gio_Mem
  imports Runtime_Prelude
begin

text \<open>
  Memory files (\<open>shared/gio/gio_mem.c\<close>): reading, writing and seeking in a buffer of fixed length, and the
  interface of a readable file that the loader relies on. \<open>off_t\<close> has 32 bits in this build, so casts between it and
  \<open>size_t\<close> keep the bits.
\<close>

subsection \<open>Operations\<close>

record GioMemoryFile =
  gio_buffer :: "u8 list"
  gio_len :: u32
  gio_curpos :: u32

definition GioMemoryFileCtor :: "u8 list \<Rightarrow> u32 \<Rightarrow> GioMemoryFile" where
  "GioMemoryFileCtor buffer len = \<lparr>gio_buffer = buffer, gio_len = len, gio_curpos = 0\<rparr>"

definition GioMemoryFileRead :: "GioMemoryFile \<Rightarrow> u32 \<Rightarrow> (u32 \<times> u8 list \<times> GioMemoryFile) outcome" where
  "GioMemoryFileRead self count =
     (let remain = gio_len self - gio_curpos self;
          count = (if count > remain then remain else count)
      in if 0 = count then Returns (0, [], self)
         else
           let newpos = gio_curpos self + count;
               src = drop (unat (gio_curpos self)) (gio_buffer self)
           in if length src < unat count then Faults
              else Returns (count, take (unat count) src, self\<lparr>gio_curpos := newpos\<rparr>))"

definition GioMemoryFileWrite :: "GioMemoryFile \<Rightarrow> u8 list \<Rightarrow> u32 \<Rightarrow> (u32 \<times> GioMemoryFile) outcome" where
  "GioMemoryFileWrite self buf count =
     (let remain = gio_len self - gio_curpos self;
          count = (if count > remain then remain else count)
      in if 0 = count then Returns (0, self)
         else
           let newpos = gio_curpos self + count;
               p = unat (gio_curpos self); n = unat count; b = gio_buffer self
           in if length b < p + n \<or> length buf < n then Faults
              else Returns (count, self\<lparr>gio_buffer := take p b @ take n buf @ drop (p + n) b, gio_curpos := newpos\<rparr>))"

datatype whence = SEEK_SET | SEEK_CUR | SEEK_END | SEEK_OTHER

definition GioMemoryFileSeek :: "GioMemoryFile \<Rightarrow> u32 \<Rightarrow> whence \<Rightarrow> u32 \<times> GioMemoryFile" where
  "GioMemoryFileSeek self offset whence =
     (let new_pos =
        (case whence of
           SEEK_SET \<Rightarrow> offset
         | SEEK_CUR \<Rightarrow> gio_curpos self + offset
         | SEEK_END \<Rightarrow> gio_len self + offset
         | SEEK_OTHER \<Rightarrow> - 1)
      in if new_pos > gio_len self then (- 1, self) else (new_pos, self\<lparr>gio_curpos := new_pos\<rparr>))"

definition GioMemoryFileClose :: "GioMemoryFile \<Rightarrow> int" where
  "GioMemoryFileClose self = 0"

definition GioMemoryFileFlush :: "GioMemoryFile \<Rightarrow> int" where
  "GioMemoryFileFlush self = 0"

subsection \<open>What the operations do\<close>

definition gio_ok :: "GioMemoryFile \<Rightarrow> bool" where
  "gio_ok g \<longleftrightarrow> gio_curpos g \<le> gio_len g \<and> unat (gio_len g) \<le> length (gio_buffer g)"

definition gio_data :: "GioMemoryFile \<Rightarrow> u8 list" where
  "gio_data g = take (unat (gio_len g)) (gio_buffer g)"

lemma length_gio_data: "gio_ok g \<Longrightarrow> length (gio_data g) = unat (gio_len g)"
  by (simp add: gio_ok_def gio_data_def)

lemma clip:
  fixes count remain :: u32
  shows "unat (if count > remain then remain else count) = min (unat count) (unat remain)"
  by (simp add: min_def word_less_nat_alt)

lemma word_of_unat: "unat (w :: u32) = n \<Longrightarrow> w = of_nat n" "unat (w :: u32) = n \<Longrightarrow> n \<noteq> 0 \<Longrightarrow> w \<noteq> 0"
  by auto

lemma clipped:
  fixes g :: GioMemoryFile and count :: u32
  assumes ok: "gio_ok g"
  defines "p \<equiv> unat (gio_curpos g)"
  defines "n \<equiv> min (unat count) (length (gio_data g) - p)"
  defines "c \<equiv> if count > gio_len g - gio_curpos g then gio_len g - gio_curpos g else count"
  shows "unat c = n" "c = of_nat n" "p + n \<le> unat (gio_len g)" "unat (gio_curpos g + c) = p + n" "gio_curpos g + c \<le> gio_len g"
proof -
  have le: "gio_curpos g \<le> gio_len g" using ok by (simp add: gio_ok_def)
  show c: "unat c = n"
    unfolding c_def clip n_def p_def length_gio_data [OF ok] unat_sub_le [OF le] ..
  then show "c = of_nat n" by (rule word_of_unat(1))
  have "p \<le> unat (gio_len g)" using le by (simp add: p_def word_le_nat_alt)
  then show nl: "p + n \<le> unat (gio_len g)" by (simp add: n_def length_gio_data [OF ok])
  show u: "unat (gio_curpos g + c) = p + n"
    using unat_add_no_wrap [of "gio_curpos g" c] nl unsigned_less [of "gio_len g", where ?'a = nat]
    unfolding c p_def by linarith
  show "gio_curpos g + c \<le> gio_len g" unfolding word_le_nat_alt u by (rule nl)
qed

lemma read_spec:
  fixes g :: GioMemoryFile and count :: u32
  assumes ok: "gio_ok g"
  defines "p \<equiv> unat (gio_curpos g)"
  defines "n \<equiv> min (unat count) (length (gio_data g) - p)"
  shows "\<exists>g'. GioMemoryFileRead g count = Returns (of_nat n, take n (drop p (gio_data g)), g') \<and> gio_ok g' \<and>
    gio_data g' = gio_data g \<and> gio_len g' = gio_len g \<and> unat (gio_curpos g') = p + n"
proof -
  let ?c = "if count > gio_len g - gio_curpos g then gio_len g - gio_curpos g else count"
  note c = clipped [OF ok, of count, folded p_def, folded n_def]
  have le: "unat (gio_len g) \<le> length (gio_buffer g)" using ok by (simp add: gio_ok_def)
  have tk: "take n (drop p (gio_buffer g)) = take n (drop p (gio_data g))"
    using c(3) by (simp add: gio_data_def drop_take min_def)
  show ?thesis
  proof (cases "n = 0")
    case True
    then have "?c = 0" using c(2) by simp
    then show ?thesis using ok True by (simp add: GioMemoryFileRead_def Let_def p_def)
  next
    case False
    have "?c \<noteq> 0" by (rule word_of_unat(2) [OF c(1) False])
    moreover have "\<not> length (drop p (gio_buffer g)) < n" using c(3) le by simp
    ultimately have "GioMemoryFileRead g count = Returns (?c, take n (drop p (gio_buffer g)), g\<lparr>gio_curpos := gio_curpos g + ?c\<rparr>)"
      unfolding GioMemoryFileRead_def Let_def c(1) p_def [symmetric] by (simp only: if_False eq_commute [of 0])
    then show ?thesis using le c(3-5) unfolding c(2) tk
      by (intro exI [of _ "g\<lparr>gio_curpos := gio_curpos g + of_nat n\<rparr>"]) (simp add: gio_ok_def gio_data_def)
  qed
qed

lemma write_spec:
  fixes g :: GioMemoryFile and count :: u32
  assumes ok: "gio_ok g" and buf: "unat count \<le> length buf"
  defines "p \<equiv> unat (gio_curpos g)"
  defines "n \<equiv> min (unat count) (length (gio_data g) - p)"
  shows "\<exists>g'. GioMemoryFileWrite g buf count = Returns (of_nat n, g') \<and> gio_ok g' \<and> gio_len g' = gio_len g \<and>
    gio_data g' = take p (gio_data g) @ take n buf @ drop (p + n) (gio_data g) \<and> unat (gio_curpos g') = p + n"
proof -
  let ?c = "if count > gio_len g - gio_curpos g then gio_len g - gio_curpos g else count" and ?b = "gio_buffer g"
  note c = clipped [OF ok, of count, folded p_def, folded n_def]
  have le: "unat (gio_len g) \<le> length ?b" using ok by (simp add: gio_ok_def)
  have nb: "n \<le> length buf" using buf by (simp add: n_def)
  show ?thesis
  proof (cases "n = 0")
    case True
    then have "?c = 0" using c(2) by simp
    then show ?thesis using ok True by (simp add: GioMemoryFileWrite_def Let_def p_def)
  next
    case False
    have "?c \<noteq> 0" by (rule word_of_unat(2) [OF c(1) False])
    moreover have "\<not> (length ?b < p + n \<or> length buf < n)" using c(3) le nb by simp
    ultimately have "GioMemoryFileWrite g buf count =
        Returns (?c, g\<lparr>gio_buffer := take p ?b @ take n buf @ drop (p + n) ?b, gio_curpos := gio_curpos g + ?c\<rparr>)"
      unfolding GioMemoryFileWrite_def Let_def c(1) p_def [symmetric] by (simp only: if_False eq_commute [of 0])
    moreover have "take (unat (gio_len g)) (take p ?b @ take n buf @ drop (p + n) ?b) =
        take p (gio_data g) @ take n buf @ drop (p + n) (gio_data g)"
    proof -
      obtain d where d: "unat (gio_len g) = p + n + d" using c(3) le_Suc_ex by blast
      then show ?thesis using le nb by (simp add: gio_data_def drop_take)
    qed
    ultimately show ?thesis using le c(3-5) nb unfolding c(2)
      by (intro exI [of _ "g\<lparr>gio_buffer := take p ?b @ take n buf @ drop (p + n) ?b, gio_curpos := gio_curpos g + of_nat n\<rparr>"])
        (simp add: gio_ok_def gio_data_def)
  qed
qed

lemma seek_spec:
  assumes "gio_ok g" and "GioMemoryFileSeek g off w = (r, g')"
  shows "gio_ok g'" "gio_data g' = gio_data g" "gio_len g' = gio_len g"
    and "w = SEEK_SET \<Longrightarrow> if unat off \<le> length (gio_data g) then r = off \<and> gio_curpos g' = off else r = - 1 \<and> g' = g"
  using assms by (auto simp: GioMemoryFileSeek_def Let_def gio_ok_def gio_data_def word_le_nat_alt word_less_nat_alt
      not_less split: if_splits)

subsection \<open>The interface of a readable file\<close>

text \<open>
  What the loader relies on: a file has contents and a position; a seek to an offset inside the contents moves there, any
  other one fails and changes nothing; a read returns the bytes at the position, fewer only at the end.
\<close>

locale readable_file =
  fixes ok :: "'g \<Rightarrow> bool" and contents :: "'g \<Rightarrow> u8 list" and pos :: "'g \<Rightarrow> nat"
    and read :: "'g \<Rightarrow> u32 \<Rightarrow> (u32 \<times> u8 list \<times> 'g) outcome" and seek :: "'g \<Rightarrow> u32 \<Rightarrow> u32 \<times> 'g"
  assumes read_law: "ok g \<Longrightarrow> \<exists>g'. read g count = Returns (of_nat (min (unat count) (length (contents g) - pos g)),
      take (unat count) (drop (pos g) (contents g)), g') \<and> ok g' \<and> contents g' = contents g"
    and seek_law: "ok g \<Longrightarrow> seek g off = (r, g') \<Longrightarrow> ok g' \<and> contents g' = contents g \<and>
      (if unat off \<le> length (contents g) then r = off \<and> pos g' = unat off else r = - 1)"
begin

lemma read_at:
  assumes g: "ok g" and s: "seek g off = (r, g1)" and r: "r \<noteq> - 1"
  shows "\<exists>g2. read g1 count = Returns (of_nat (min (unat count) (length (contents g) - unat off)),
      take (unat count) (drop (unat off) (contents g)), g2) \<and> ok g2 \<and> contents g2 = contents g \<and> unat off \<le> length (contents g)"
proof -
  have 1: "ok g1" "contents g1 = contents g" "unat off \<le> length (contents g)" "pos g1 = unat off"
    using seek_law [OF g s] r by (auto split: if_splits)
  show ?thesis using read_law [OF 1(1), of count] unfolding 1(2,4) using 1(3) by blast
qed

lemma full_read:
  assumes g: "ok g" and s: "seek g off = (r, g1)" and r: "r \<noteq> - 1" and rd: "read g1 count = Returns (count, bs, g2)"
  shows "ok g2" "contents g2 = contents g" "bs = take (unat count) (drop (unat off) (contents g))"
    "unat off + unat count \<le> length (contents g)"
proof -
  note a = read_at [OF g s r, of count]
  show "ok g2" "contents g2 = contents g" "bs = take (unat count) (drop (unat off) (contents g))" using a rd by auto
  have le: "unat off \<le> length (contents g)" using a by blast
  have "count = of_nat (min (unat count) (length (contents g) - unat off))" using a rd by auto
  then have "unat count = unat (of_nat (min (unat count) (length (contents g) - unat off)) :: u32)" by simp
  also have "\<dots> = min (unat count) (length (contents g) - unat off)"
    using unsigned_less [of count, where ?'a = nat] by (simp only: unat_of_nat) simp
  finally show "unat off + unat count \<le> length (contents g)" using le by simp
qed

end

definition gio_seek_set :: "GioMemoryFile \<Rightarrow> u32 \<Rightarrow> u32 \<times> GioMemoryFile" where
  "gio_seek_set g off = GioMemoryFileSeek g off SEEK_SET"

interpretation gio: readable_file gio_ok gio_data "\<lambda>g. unat (gio_curpos g)" GioMemoryFileRead gio_seek_set
proof
  fix g count assume "gio_ok g"
  from read_spec [OF this, of count] show "\<exists>g'. GioMemoryFileRead g count = Returns (of_nat (min (unat count) (length (gio_data g) - unat (gio_curpos g))),
      take (unat count) (drop (unat (gio_curpos g)) (gio_data g)), g') \<and> gio_ok g' \<and> gio_data g' = gio_data g"
    by (auto simp: min_def)
next
  fix g off r g' assume "gio_ok g" "gio_seek_set g off = (r, g')"
  then show "gio_ok g' \<and> gio_data g' = gio_data g \<and>
      (if unat off \<le> length (gio_data g) then r = off \<and> unat (gio_curpos g') = unat off else r = - 1)"
    using seek_spec [of g off SEEK_SET r g'] by (auto simp: gio_seek_set_def split: if_splits)
qed

text \<open>
  C38: a memory file holds what is written to it. Writing bytes that fit between the position and the end, seeking back and reading as
  many returns them; the length and the bytes around them are unchanged.
\<close>

theorem gio_write_read:
  assumes ok: "gio_ok g" and fit: "unat (gio_curpos g) + length xs \<le> unat (gio_len g)"
  shows "\<exists>g1 g2 g3. GioMemoryFileWrite g xs (of_nat (length xs)) = Returns (of_nat (length xs), g1) \<and>
    GioMemoryFileSeek g1 (gio_curpos g) SEEK_SET = (gio_curpos g, g2) \<and>
    GioMemoryFileRead g2 (of_nat (length xs)) = Returns (of_nat (length xs), xs, g3) \<and>
    gio_ok g3 \<and> gio_data g3 = take (unat (gio_curpos g)) (gio_data g) @ xs @ drop (unat (gio_curpos g) + length xs) (gio_data g)"
proof -
  let ?k = "of_nat (length xs) :: u32" and ?p = "unat (gio_curpos g)"
  have k: "unat ?k = length xs"
    using fit unsigned_less [of "gio_len g", where ?'a = nat] by (simp only: unat_of_nat) simp
  have m: "min (unat ?k) (length (gio_data g) - ?p) = length xs" using fit length_gio_data [OF ok] k by simp
  obtain g1 where g1: "GioMemoryFileWrite g xs ?k = Returns (?k, g1)" "gio_ok g1" "gio_len g1 = gio_len g"
      "gio_data g1 = take ?p (gio_data g) @ xs @ drop (?p + length xs) (gio_data g)"
    using write_spec [OF ok, of ?k xs] k unfolding m by auto
  obtain r g2 where g2: "GioMemoryFileSeek g1 (gio_curpos g) SEEK_SET = (r, g2)" by fastforce
  have l: "length (gio_data g1) = unat (gio_len g)" using length_gio_data [OF g1(2)] g1(3) by simp
  note s = seek_spec [OF g1(2) g2]
  have g2': "r = gio_curpos g" "gio_curpos g2 = gio_curpos g" using s(4) l fit by (auto split: if_splits)
  have m2: "min (unat ?k) (length (gio_data g2) - ?p) = length xs" using fit l k s(2) by simp
  have "take (length xs) (drop ?p (gio_data g2)) = xs"
    unfolding s(2) g1(4) using fit length_gio_data [OF ok] by simp
  then obtain g3 where "GioMemoryFileRead g2 ?k = Returns (?k, xs, g3)" "gio_ok g3" "gio_data g3 = gio_data g2"
    using read_spec [OF s(1), of ?k] unfolding g2'(2) m2 by auto
  then show ?thesis using g1 g2 g2' s(2) by auto
qed

theorem gio_write_read_witness:
  "\<exists>g1 g2 g3. GioMemoryFileWrite (GioMemoryFileCtor [1, 2, 3] 3) [7, 8] 2 = Returns (2, g1) \<and>
    GioMemoryFileSeek g1 0 SEEK_SET = (0, g2) \<and> GioMemoryFileRead g2 2 = Returns (2, [7, 8], g3) \<and> gio_data g3 = [7, 8, 3]"
  using gio_write_read [of "GioMemoryFileCtor [1, 2, 3] 3" "[7, 8]"]
  by (auto simp: GioMemoryFileCtor_def gio_ok_def gio_data_def)

end
