(* ===== verification/Elf_Image.thy ===== *)
theory Elf_Image
  imports Gio_Mem NaCl_App
begin

text \<open>
  The ELF images of \<open>elf_util.c\<close>: reading the headers of a file, checking them, and loading the segments into
  memory. The structures have the layout of \<open>elf32.h\<close>, little endian.
\<close>

subsection \<open>The file format\<close>

definition le16 :: "u8 list \<Rightarrow> nat \<Rightarrow> u32" where
  "le16 bs i = ucast (bs ! i) OR push_bit 8 (ucast (bs ! (i + 1)))"

definition le32 :: "u8 list \<Rightarrow> nat \<Rightarrow> u32" where
  "le32 bs i = le16 bs i OR push_bit 16 (le16 bs (i + 2))"

record Elf_Ehdr =
  e_ident :: "u8 list"
  e_type :: u32
  e_machine :: u32
  e_version :: u32
  e_entry :: u32
  e_phoff :: u32
  e_shoff :: u32
  e_flags :: u32
  e_ehsize :: u32
  e_phentsize :: u32
  e_phnum :: u32
  e_shentsize :: u32
  e_shnum :: u32
  e_shstrndx :: u32

definition sizeof_Ehdr :: nat where "sizeof_Ehdr = 52"

definition Ehdr_of :: "u8 list \<Rightarrow> Elf_Ehdr" where
  "Ehdr_of bs = \<lparr>e_ident = take 16 bs, e_type = le16 bs 16, e_machine = le16 bs 18, e_version = le32 bs 20,
     e_entry = le32 bs 24, e_phoff = le32 bs 28, e_shoff = le32 bs 32, e_flags = le32 bs 36, e_ehsize = le16 bs 40,
     e_phentsize = le16 bs 42, e_phnum = le16 bs 44, e_shentsize = le16 bs 46, e_shnum = le16 bs 48,
     e_shstrndx = le16 bs 50\<rparr>"

record Elf_Phdr =
  p_type :: u32
  p_offset :: u32
  p_vaddr :: u32
  p_paddr :: u32
  p_filesz :: u32
  p_memsz :: u32
  p_flags :: u32
  p_align :: u32

definition sizeof_Phdr :: nat where "sizeof_Phdr = 32"

definition Phdr_of :: "u8 list \<Rightarrow> Elf_Phdr" where
  "Phdr_of bs = \<lparr>p_type = le32 bs 0, p_offset = le32 bs 4, p_vaddr = le32 bs 8, p_paddr = le32 bs 12,
     p_filesz = le32 bs 16, p_memsz = le32 bs 20, p_flags = le32 bs 24, p_align = le32 bs 28\<rparr>"

definition PT_NULL :: u32 where [nacl_consts]: "PT_NULL = 0"
definition PT_LOAD :: u32 where [nacl_consts]: "PT_LOAD = 1"
definition PT_DYNAMIC :: u32 where [nacl_consts]: "PT_DYNAMIC = 2"
definition PT_INTERP :: u32 where [nacl_consts]: "PT_INTERP = 3"
definition PT_NOTE :: u32 where [nacl_consts]: "PT_NOTE = 4"
definition PT_PHDR :: u32 where [nacl_consts]: "PT_PHDR = 6"
definition PT_TLS :: u32 where [nacl_consts]: "PT_TLS = 7"
definition PT_GNU_STACK :: u32 where [nacl_consts]: "PT_GNU_STACK = 0x6474e551"
definition PT_GNU_EH_FRAME :: u32 where [nacl_consts]: "PT_GNU_EH_FRAME = 0x6474e550"
definition PT_GNU_RELRO :: u32 where [nacl_consts]: "PT_GNU_RELRO = 0x6474e552"
definition PF_X :: u32 where [nacl_consts]: "PF_X = 1"
definition PF_W :: u32 where [nacl_consts]: "PF_W = 2"
definition PF_R :: u32 where [nacl_consts]: "PF_R = 4"

definition ET_EXEC :: u32 where [nacl_consts]: "ET_EXEC = 2"
definition EM_386 :: u32 where [nacl_consts]: "EM_386 = 3"
definition EV_CURRENT :: u32 where [nacl_consts]: "EV_CURRENT = 1"
definition EI_CLASS :: nat where [nacl_consts]: "EI_CLASS = 4"
definition EI_OSABI :: nat where [nacl_consts]: "EI_OSABI = 7"
definition EI_ABIVERSION :: nat where [nacl_consts]: "EI_ABIVERSION = 8"
definition ELFMAG :: "u8 list" where [nacl_consts]: "ELFMAG = [0x7f, 0x45, 0x4c, 0x46]"
definition ELFCLASS32 :: u8 where [nacl_consts]: "ELFCLASS32 = 1"
definition ELFOSABI_NACL :: u8 where [nacl_consts]: "ELFOSABI_NACL = 123"
definition EF_NACL_ABIVERSION :: u8 where [nacl_consts]: "EF_NACL_ABIVERSION = 7"
definition EF_NACL_ALIGN_MASK :: u32 where [nacl_consts]: "EF_NACL_ALIGN_MASK = 0x300000"
definition EF_NACL_ALIGN_16 :: u32 where [nacl_consts]: "EF_NACL_ALIGN_16 = 0x100000"
definition EF_NACL_ALIGN_32 :: u32 where [nacl_consts]: "EF_NACL_ALIGN_32 = 0x200000"
definition NACL_MAX_PROGRAM_HEADERS :: u32 where [nacl_consts]: "NACL_MAX_PROGRAM_HEADERS = 128"

subsection \<open>Images\<close>

record NaClElfImage =
  ehdr :: Elf_Ehdr
  phdrs :: "Elf_Phdr list"
  loadable :: "bool list"

datatype NaClPhdrCheckAction = PCA_NONE | PCA_TEXT_CHECK | PCA_RODATA | PCA_DATA | PCA_IGNORE

record NaClPhdrChecks =
  ck_type :: u32
  ck_flags :: u32
  ck_action :: NaClPhdrCheckAction
  ck_required :: bool
  ck_vaddr :: u32

definition ck :: "u32 \<Rightarrow> u32 \<Rightarrow> NaClPhdrCheckAction \<Rightarrow> bool \<Rightarrow> u32 \<Rightarrow> NaClPhdrChecks" where
  "ck t f a r v = \<lparr>ck_type = t, ck_flags = f, ck_action = a, ck_required = r, ck_vaddr = v\<rparr>"

definition nacl_phdr_check_data :: "NaClPhdrChecks list" where
  "nacl_phdr_check_data =
    [ck PT_PHDR PF_R PCA_IGNORE False 0,
     ck PT_LOAD (PF_R OR PF_X) PCA_TEXT_CHECK True NACL_TRAMPOLINE_END,
     ck PT_LOAD PF_R PCA_RODATA False 0,
     ck PT_LOAD (PF_R OR PF_W) PCA_DATA False 0,
     ck PT_TLS PF_R PCA_IGNORE False 0,
     ck PT_GNU_STACK (PF_R OR PF_W) PCA_NONE False 0,
     ck PT_DYNAMIC PF_R PCA_IGNORE False 0,
     ck PT_INTERP PF_R PCA_IGNORE False 0,
     ck PT_NOTE PF_R PCA_IGNORE False 0,
     ck PT_GNU_EH_FRAME PF_R PCA_IGNORE False 0,
     ck PT_GNU_RELRO PF_R PCA_IGNORE False 0,
     ck PT_NULL PF_R PCA_IGNORE False 0]"

subsection \<open>Checks of the file header\<close>

definition NaClElfImageValidateAbi :: "NaClElfImage \<Rightarrow> NaClErrorCode" where
  "NaClElfImageValidateAbi img =
     (if ELFOSABI_NACL \<noteq> e_ident (ehdr img) ! EI_OSABI then LOAD_BAD_ABI
      else if EF_NACL_ABIVERSION \<noteq> e_ident (ehdr img) ! EI_ABIVERSION then LOAD_BAD_ABI
      else LOAD_OK)"

definition NaClElfImageValidateElfHeader :: "NaClElfImage \<Rightarrow> NaClErrorCode" where
  "NaClElfImageValidateElfHeader img =
     (let hdr = ehdr img
      in if take 4 (e_ident hdr) \<noteq> ELFMAG then LOAD_BAD_ELF_MAGIC
         else if ELFCLASS32 \<noteq> e_ident hdr ! EI_CLASS then LOAD_NOT_32_BIT
         else if ET_EXEC \<noteq> e_type hdr then LOAD_NOT_EXEC
         else if EM_386 \<noteq> e_machine hdr then LOAD_BAD_MACHINE
         else if EV_CURRENT \<noteq> e_version hdr then LOAD_BAD_ELF_VERS
         else LOAD_OK)"

subsection \<open>Checks of the program headers\<close>

text \<open>What \<open>NaClElfImageValidateProgramHeaders\<close> returns through its pointers.\<close>

record layout =
  l_static_text_end :: u32
  l_rodata_start :: u32
  l_rodata_end :: u32
  l_data_start :: u32
  l_data_end :: u32
  l_max_vaddr :: u32

text \<open>The search for the entry of \<open>nacl_phdr_check_data\<close> that matches a segment, from index \<open>j\<close> on.\<close>

fun find_check :: "Elf_Phdr \<Rightarrow> NaClPhdrChecks list \<Rightarrow> nat \<Rightarrow> (nat \<times> NaClPhdrChecks) option" where
  "find_check php [] j = None"
| "find_check php (c # cs) j =
     (if p_type php = ck_type c \<and> p_flags php = ck_flags c then Some (j, c) else find_check php cs (j + 1))"

definition record_segment :: "NaClPhdrCheckAction \<Rightarrow> Elf_Phdr \<Rightarrow> layout \<Rightarrow> NaClErrorCode \<times> layout" where
  "record_segment action php l =
     (case action of
        PCA_NONE \<Rightarrow> (LOAD_OK, l)
      | PCA_TEXT_CHECK \<Rightarrow>
          if 0 = p_memsz php then (LOAD_BAD_ELF_TEXT, l)
          else (LOAD_OK, l\<lparr>l_static_text_end := NACL_TRAMPOLINE_END + p_filesz php\<rparr>)
      | PCA_RODATA \<Rightarrow> (LOAD_OK, l\<lparr>l_rodata_start := p_vaddr php, l_rodata_end := p_vaddr php + p_memsz php\<rparr>)
      | PCA_DATA \<Rightarrow> (LOAD_OK, l\<lparr>l_data_start := p_vaddr php, l_data_end := p_vaddr php + p_memsz php\<rparr>)
      | PCA_IGNORE \<Rightarrow> (LOAD_OK, l))"

text \<open>The checks of one segment that will be loaded.\<close>

definition segment_error :: "u8 \<Rightarrow> NaClPhdrChecks \<Rightarrow> Elf_Phdr \<Rightarrow> NaClErrorCode" where
  "segment_error bits c php =
     (if 0 \<noteq> ck_vaddr c \<and> ck_vaddr c \<noteq> p_vaddr php then LOAD_SEGMENT_BAD_LOC
      else if p_vaddr php < NACL_TRAMPOLINE_END then LOAD_SEGMENT_OUTSIDE_ADDRSPACE
      else if p_vaddr php + p_memsz php < p_vaddr php then LOAD_SEGMENT_OUTSIDE_ADDRSPACE
      else if p_vaddr php + p_memsz php \<ge> push_bit (unat bits) 1 then LOAD_SEGMENT_OUTSIDE_ADDRSPACE
      else if p_filesz php > p_memsz php then LOAD_SEGMENT_BAD_PARAM
      else LOAD_OK)"

fun validate_segments ::
    "u8 \<Rightarrow> Elf_Phdr list \<Rightarrow> nat \<Rightarrow> bool list \<Rightarrow> bool list \<Rightarrow> layout \<Rightarrow> NaClErrorCode \<times> bool list \<times> bool list \<times> layout" where
  "validate_segments bits [] segnum seen ld l = (LOAD_OK, seen, ld, l)"
| "validate_segments bits (php # phs) segnum seen ld l =
     (if 0 = p_memsz php then validate_segments bits phs (segnum + 1) seen ld l
      else
        case find_check php nacl_phdr_check_data 0 of
          None \<Rightarrow> (LOAD_BAD_SEGMENT, seen, ld, l)
        | Some (j, c) \<Rightarrow>
            if seen ! j then (LOAD_DUP_SEGMENT, seen, ld, l)
            else
              let seen = seen[j := True]
              in if ck_action c = PCA_IGNORE then validate_segments bits phs (segnum + 1) seen ld l
                 else if segment_error bits c php \<noteq> LOAD_OK then (segment_error bits c php, seen, ld, l)
                 else
                   let ld = ld[segnum := True];
                       l = (if l_max_vaddr l < p_vaddr php + p_memsz php
                            then l\<lparr>l_max_vaddr := p_vaddr php + p_memsz php\<rparr> else l)
                   in case record_segment (ck_action c) php l of
                        (err, l) \<Rightarrow>
                          if err \<noteq> LOAD_OK then (err, seen, ld, l)
                          else validate_segments bits phs (segnum + 1) seen ld l)"

definition NaClElfImageValidateProgramHeaders ::
    "NaClElfImage \<Rightarrow> u8 \<Rightarrow> layout \<Rightarrow> NaClErrorCode \<times> NaClElfImage \<times> layout" where
  "NaClElfImageValidateProgramHeaders img bits l =
     (case validate_segments bits (take (unat (e_phnum (ehdr img))) (phdrs img)) 0
             (replicate (length nacl_phdr_check_data) False) (loadable img) (l\<lparr>l_max_vaddr := NACL_TRAMPOLINE_END\<rparr>) of
        (err, seen, ld, l) \<Rightarrow>
          (if err \<noteq> LOAD_OK then err
           else if \<exists>(c, s)\<in>set (zip nacl_phdr_check_data seen). ck_required c \<and> \<not> s then LOAD_REQUIRED_SEG_MISSING
           else LOAD_OK,
           img\<lparr>loadable := ld\<rparr>, l))"

subsection \<open>Reading and loading\<close>

definition NaClElfImageNew :: "bool \<Rightarrow> GioMemoryFile \<Rightarrow> ((NaClErrorCode + NaClElfImage) \<times> GioMemoryFile) outcome" where
  "NaClElfImageNew alloc gp =
     obind (GioMemoryFileRead gp (of_nat sizeof_Ehdr)) (\<lambda>(n, bs, gp).
       if n \<noteq> of_nat sizeof_Ehdr then Returns (Inl LOAD_READ_ERROR, gp)
       else
         let hdr = Ehdr_of bs
         in if e_phnum hdr > NACL_MAX_PROGRAM_HEADERS then Returns (Inl LOAD_TOO_MANY_PROG_HDRS, gp)
            else if e_phentsize hdr < of_nat sizeof_Phdr then Returns (Inl LOAD_PROG_HDR_SIZE_TOO_SMALL, gp)
            else
              case gio_seek_set gp (e_phoff hdr) of
                (r, gp) \<Rightarrow>
                  if r = - 1 then Returns (Inl LOAD_READ_ERROR, gp)
                  else
                    obind (GioMemoryFileRead gp (e_phnum hdr * of_nat sizeof_Phdr)) (\<lambda>(n, bs, gp).
                      if n \<noteq> e_phnum hdr * of_nat sizeof_Phdr then Returns (Inl LOAD_READ_ERROR, gp)
                      else if \<not> alloc then Aborts
                      else
                        Returns (Inr \<lparr>ehdr = hdr,
                          phdrs = map (\<lambda>i. Phdr_of (take sizeof_Phdr (drop (sizeof_Phdr * i) bs))) [0..<unat (e_phnum hdr)],
                          loadable = replicate (unat NACL_MAX_PROGRAM_HEADERS) False\<rparr>, gp)))"

definition store_bytes :: "memory \<Rightarrow> nat \<Rightarrow> u8 list \<Rightarrow> memory" where
  "store_bytes mem p bs = (\<lambda>a. if p \<le> a \<and> a < p + length bs then bs ! (a - p) else mem a)"

text \<open>
  Loading writes to the host's memory, where the pages of an address may be write protected: \<open>wr\<close> tells which addresses can be written.
\<close>

fun load_segments ::
    "(nat \<Rightarrow> bool) \<Rightarrow> (Elf_Phdr \<times> bool) list \<Rightarrow> GioMemoryFile \<Rightarrow> u8 \<Rightarrow> u32 \<Rightarrow> memory \<Rightarrow> (NaClErrorCode \<times> GioMemoryFile \<times> memory) outcome" where
  "load_segments wr [] gp bits base mem = Returns (LOAD_OK, gp, mem)"
| "load_segments wr ((php, ld) # phs) gp bits base mem =
     (if \<not> ld then load_segments wr phs gp bits base mem
      else
        let end_vaddr = p_vaddr php + p_filesz php
        in if end_vaddr < p_vaddr php then Aborts
           else if end_vaddr \<ge> push_bit (unat bits) 1 then Aborts
           else
             let paddr = base + p_vaddr php
             in case gio_seek_set gp (p_offset php) of
                  (r, gp) \<Rightarrow>
                    if r = - 1 then Returns (LOAD_SEGMENT_BAD_PARAM, gp, mem)
                    else
                      obind (GioMemoryFileRead gp (p_filesz php)) (\<lambda>(n, bs, gp).
                        if \<exists>a\<in>set [unat paddr..<unat paddr + length bs]. \<not> wr a then Faults
                        else
                          let mem = store_bytes mem (unat paddr) bs
                          in if n \<noteq> p_filesz php then Returns (LOAD_SEGMENT_BAD_PARAM, gp, mem)
                             else load_segments wr phs gp bits base mem))"

definition NaClElfImageLoad ::
    "(nat \<Rightarrow> bool) \<Rightarrow> NaClElfImage \<Rightarrow> GioMemoryFile \<Rightarrow> u8 \<Rightarrow> u32 \<Rightarrow> memory \<Rightarrow> (NaClErrorCode \<times> GioMemoryFile \<times> memory) outcome" where
  "NaClElfImageLoad wr img gp bits base mem =
     load_segments wr (zip (take (unat (e_phnum (ehdr img))) (phdrs img)) (loadable img)) gp bits base mem"

definition NaClElfImageGetEntryPoint :: "NaClElfImage \<Rightarrow> u32" where
  "NaClElfImageGetEntryPoint img = e_entry (ehdr img)"

definition NaClElfImageGetBundleSize :: "NaClElfImage \<Rightarrow> int outcome" where
  "NaClElfImageGetBundleSize img =
     (if e_flags (ehdr img) AND EF_NACL_ALIGN_MASK = EF_NACL_ALIGN_16 then Returns 16
      else if e_flags (ehdr img) AND EF_NACL_ALIGN_MASK = EF_NACL_ALIGN_32 then Returns 32
      else Aborts)"

subsection \<open>What the checks establish\<close>

declare validate_segments.simps(2) [simp del]

definition seg_ok :: "u8 \<Rightarrow> Elf_Phdr \<Rightarrow> bool" where
  "seg_ok bits php \<longleftrightarrow> NACL_TRAMPOLINE_END \<le> p_vaddr php \<and> unat (p_vaddr php) + unat (p_memsz php) < 2 ^ unat bits \<and>
     p_filesz php \<le> p_memsz php"

lemma segment_ok:
  assumes "segment_error bits c php = LOAD_OK" "unat bits < 32"
  shows "seg_ok bits php" "ck_vaddr c \<noteq> 0 \<Longrightarrow> p_vaddr php = ck_vaddr c"
    "unat (p_vaddr php + p_memsz php) = unat (p_vaddr php) + unat (p_memsz php)"
proof -
  have c: "0 \<noteq> ck_vaddr c \<longrightarrow> ck_vaddr c = p_vaddr php" "\<not> p_vaddr php < NACL_TRAMPOLINE_END"
      "\<not> p_vaddr php + p_memsz php < p_vaddr php" "\<not> push_bit (unat bits) 1 \<le> p_vaddr php + p_memsz php" "\<not> p_memsz php < p_filesz php"
    using assms(1) by (auto simp: segment_error_def split: if_splits)
  show u: "unat (p_vaddr php + p_memsz php) = unat (p_vaddr php) + unat (p_memsz php)" by (rule no_wrap_words [OF c(3)])
  show "ck_vaddr c \<noteq> 0 \<Longrightarrow> p_vaddr php = ck_vaddr c" using c(1) by simp
  show "seg_ok bits php"
    using c(2,4,5) unat_push_1 [OF assms(2)] unfolding seg_ok_def word_le_nat_alt word_less_nat_alt u by simp
qed

text \<open>The layout after some segments: what has been recorded lies between the trampolines and the highest address seen.\<close>

definition lay_inv :: "u8 \<Rightarrow> bool list \<Rightarrow> layout \<Rightarrow> bool" where
  "lay_inv bits seen l \<longleftrightarrow> NACL_TRAMPOLINE_END \<le> l_max_vaddr l \<and> unat (l_max_vaddr l) < 2 ^ unat bits \<and>
     (seen ! 1 \<longrightarrow> NACL_TRAMPOLINE_END \<le> l_static_text_end l \<and> l_static_text_end l \<le> l_max_vaddr l) \<and>
     (l_rodata_start l = 0 \<or> NACL_TRAMPOLINE_END \<le> l_rodata_start l \<and> l_rodata_start l < l_rodata_end l \<and> l_rodata_end l \<le> l_max_vaddr l) \<and>
     (l_data_start l = 0 \<or> NACL_TRAMPOLINE_END \<le> l_data_start l \<and> l_data_start l < l_data_end l \<and> l_data_end l \<le> l_max_vaddr l)"

lemma find_check_nth:
  "find_check php cs j0 = Some (j, c) \<Longrightarrow> j0 \<le> j \<and> j - j0 < length cs \<and> c = cs ! (j - j0)"
proof (induction php cs j0 rule: find_check.induct)
  case (2 php d cs j0)
  then show ?case by (cases "j = j0") (auto split: if_splits simp: nth_Cons' Suc_diff_Suc)
qed simp

lemma text_check: "ck_action (nacl_phdr_check_data ! 1) = PCA_TEXT_CHECK" "ck_vaddr (nacl_phdr_check_data ! 1) = NACL_TRAMPOLINE_END"
  "ck_required (nacl_phdr_check_data ! 1)" "length nacl_phdr_check_data = 12"
  by (simp_all add: nacl_phdr_check_data_def ck_def)

definition raise_max :: "Elf_Phdr \<Rightarrow> layout \<Rightarrow> layout" where
  "raise_max php l = (if l_max_vaddr l < p_vaddr php + p_memsz php then l\<lparr>l_max_vaddr := p_vaddr php + p_memsz php\<rparr> else l)"

lemma raise_max_inv:
  assumes "segment_error bits c php = LOAD_OK" "unat bits < 32" "lay_inv bits seen l"
  shows "lay_inv bits seen (raise_max php l)" "p_vaddr php + p_memsz php \<le> l_max_vaddr (raise_max php l)"
    "l_max_vaddr l \<le> l_max_vaddr (raise_max php l)"
proof -
  note g = segment_ok [OF assms(1,2)]
  show "p_vaddr php + p_memsz php \<le> l_max_vaddr (raise_max php l)" "l_max_vaddr l \<le> l_max_vaddr (raise_max php l)"
    by (auto simp: raise_max_def)
  have "unat (p_vaddr php + p_memsz php) < 2 ^ unat bits" using g(1,3) by (simp add: seg_ok_def)
  then show "lay_inv bits seen (raise_max php l)"
    using assms(3) by (auto simp: lay_inv_def raise_max_def)
qed

lemma record_segment_inv:
  assumes ok: "segment_error bits c php = LOAD_OK" "unat bits < 32" and inv: "lay_inv bits seen l"
    and mx: "p_vaddr php + p_memsz php \<le> l_max_vaddr l" and rec: "record_segment (ck_action c) php l = (LOAD_OK, l')"
    and c: "c = nacl_phdr_check_data ! j" "j < 12" and len: "length seen = 12" and ne: "p_memsz php \<noteq> 0"
  shows "lay_inv bits (seen[j := True]) l'" "l_max_vaddr l' = l_max_vaddr l"
proof -
  note g = segment_ok [OF ok]
  show m: "l_max_vaddr l' = l_max_vaddr l"
    using rec by (auto simp: record_segment_def split: NaClPhdrCheckAction.splits if_splits)
  have v: "NACL_TRAMPOLINE_END \<le> p_vaddr php" using g(1) by (simp add: seg_ok_def)
  have lt: "p_vaddr php < p_vaddr php + p_memsz php"
    using ne unfolding word_less_nat_alt g(3) by (simp add: unat_gt_0)
  have tx: "NACL_TRAMPOLINE_END \<le> NACL_TRAMPOLINE_END + p_filesz php" "NACL_TRAMPOLINE_END + p_filesz php \<le> l_max_vaddr l"
    if "p_vaddr php = NACL_TRAMPOLINE_END"
  proof -
    have f: "unat (p_filesz php) \<le> unat (p_memsz php)" using g(1) by (simp add: seg_ok_def word_le_nat_alt)
    have u: "unat (NACL_TRAMPOLINE_END + p_filesz php) = unat NACL_TRAMPOLINE_END + unat (p_filesz php)"
      using f g(3) that unsigned_less [of "p_vaddr php + p_memsz php", where ?'a = nat] by (intro unat_add_no_wrap) simp
    show "NACL_TRAMPOLINE_END \<le> NACL_TRAMPOLINE_END + p_filesz php" unfolding word_le_nat_alt u by simp
    show "NACL_TRAMPOLINE_END + p_filesz php \<le> l_max_vaddr l" using mx f that unfolding word_le_nat_alt u g(3) by simp
  qed
  show "lay_inv bits (seen[j := True]) l'"
  proof (cases "ck_action c")
    case PCA_TEXT_CHECK
    have "nacl_phdr_check_data ! j = nacl_phdr_check_data ! 1"
      using PCA_TEXT_CHECK c by (auto simp: nacl_phdr_check_data_def ck_def less_Suc_eq numeral_eq_Suc nth_Cons')
    then have "p_vaddr php = NACL_TRAMPOLINE_END" using g(2) c(1) text_check(2) by (simp add: nacl_consts)
    then show ?thesis
      using inv rec tx PCA_TEXT_CHECK by (auto simp: lay_inv_def record_segment_def split: if_splits)
  next
    case PCA_RODATA
    then have "j \<noteq> 1" using c(1) text_check(1) by auto
    then show ?thesis using inv rec PCA_RODATA v lt mx by (auto simp: lay_inv_def record_segment_def)
  next
    case PCA_DATA
    then have "j \<noteq> 1" using c(1) text_check(1) by auto
    then show ?thesis using inv rec PCA_DATA v lt mx by (auto simp: lay_inv_def record_segment_def)
  next
    case PCA_NONE
    then have "j \<noteq> 1" using c(1) text_check(1) by auto
    then show ?thesis using inv rec PCA_NONE by (auto simp: lay_inv_def record_segment_def)
  next
    case PCA_IGNORE
    then have "j \<noteq> 1" using c(1) text_check(1) by auto
    then show ?thesis using inv rec PCA_IGNORE by (auto simp: lay_inv_def record_segment_def)
  qed
qed

definition loads_ok :: "u8 \<Rightarrow> u32 \<Rightarrow> Elf_Phdr list \<Rightarrow> bool list \<Rightarrow> bool" where
  "loads_ok bits mx phs ld \<longleftrightarrow> (\<forall>i<length phs. ld ! i \<longrightarrow>
     seg_ok bits (phs ! i) \<and> unat (p_vaddr (phs ! i)) + unat (p_memsz (phs ! i)) \<le> unat mx)"

lemma loads_ok_mono: "loads_ok bits mx phs ld \<Longrightarrow> mx \<le> mx' \<Longrightarrow> loads_ok bits mx' phs ld"
  by (fastforce simp: loads_ok_def word_le_nat_alt)

lemma loads_ok_snoc:
  assumes "loads_ok bits mx pre ld" "b \<Longrightarrow> seg_ok bits php \<and> unat (p_vaddr php) + unat (p_memsz php) \<le> unat mx" "length pre < length ld"
  shows "loads_ok bits mx (pre @ [php]) (ld[length pre := b])"
  using assms by (auto simp: loads_ok_def nth_append nth_list_update less_Suc_eq)

lemma validate_segments_spec:
  assumes "validate_segments bits phs k seen ld l = (LOAD_OK, seen', ld', l')" "unat bits < 32" "lay_inv bits seen l"
    "length seen = 12" "k + length phs \<le> length ld" "loads_ok bits (l_max_vaddr l) pre ld" "length pre = k"
    "\<forall>i<length ld. k \<le> i \<longrightarrow> \<not> ld ! i"
  shows "lay_inv bits seen' l' \<and> length seen' = 12 \<and> loads_ok bits (l_max_vaddr l') (pre @ phs) ld' \<and> length ld' = length ld"
  using assms
proof (induction phs arbitrary: k seen ld l pre)
  case Nil
  then show ?case by simp
next
  case (Cons php phs)
  have k: "k < length ld" using Cons.prems(5) by simp
  have skip: ?case if "validate_segments bits phs (k + 1) seen1 ld l = (LOAD_OK, seen', ld', l')"
      "lay_inv bits seen1 l" "length seen1 = 12" for seen1
  proof -
    have "loads_ok bits (l_max_vaddr l) (pre @ [php]) ld"
      using loads_ok_snoc [OF Cons.prems(6), of False php] Cons.prems(7,8) k list_update_id [of ld k] by simp
    then show ?thesis using Cons.IH [OF that(1) Cons.prems(2) that(2,3), of "pre @ [php]"] Cons.prems(5,7,8) by simp
  qed
  show ?case
  proof (cases "p_memsz php = 0")
    case True
    then show ?thesis using Cons.prems by (intro skip [of seen]) (simp_all add: validate_segments.simps)
  next
    case False
    note step = Cons.prems(1) [unfolded validate_segments.simps(2) raise_max_def [symmetric]]
    obtain j c where f: "find_check php nacl_phdr_check_data 0 = Some (j, c)"
      using step False by (auto split: option.splits)
    have c: "c = nacl_phdr_check_data ! j" "j < 12" using find_check_nth [OF f] text_check(4) by simp_all
    let ?seen = "seen[j := True]"
    have ns: "\<not> seen ! j" using step False f by (auto split: if_splits)
    show ?thesis
    proof (cases "ck_action c = PCA_IGNORE")
      case True
      then have "j \<noteq> 1" using c(1) text_check(1) by auto
      then have "lay_inv bits ?seen l" using Cons.prems(3) by (simp add: lay_inv_def)
      then show ?thesis using step False f ns True Cons.prems(4) by (intro skip [of ?seen]) simp_all
    next
      case ni: False
      have e: "segment_error bits c php = LOAD_OK" using step False f ns ni by (auto simp: Let_def split: if_splits)
      obtain l2 where r: "record_segment (ck_action c) php (raise_max php l) = (LOAD_OK, l2)"
        using step False f ns ni e by (auto simp: Let_def split: prod.splits if_splits)
      have v: "validate_segments bits phs (k + 1) ?seen (ld[k := True]) l2 = (LOAD_OK, seen', ld', l')"
        using step False f ns ni e r by (simp add: Let_def)
      note rm = raise_max_inv [OF e Cons.prems(2,3)]
      note ri = record_segment_inv [OF e Cons.prems(2) rm(1,2) r c Cons.prems(4) False]
      note g = segment_ok [OF e Cons.prems(2)]
      have "loads_ok bits (l_max_vaddr l2) (pre @ [php]) (ld[k := True])"
        using loads_ok_snoc [of bits "l_max_vaddr l2" pre ld True php] loads_ok_mono [OF Cons.prems(6) rm(3)] Cons.prems(7) k g rm(2)
        by (simp add: ri(2) word_le_nat_alt)
      then show ?thesis
        using Cons.IH [OF v Cons.prems(2) ri(1), of "pre @ [php]"] Cons.prems(4,5,7,8) by (simp add: nth_list_update)
    qed
  qed
qed

lemma ValidateProgramHeaders_spec:
  assumes v: "NaClElfImageValidateProgramHeaders img bits l = (LOAD_OK, img', l')" and bits: "unat bits < 32" "0x20000 < (2 :: nat) ^ unat bits"
    and zero: "l_rodata_start l = 0" "l_data_start l = 0" and ld: "loadable img = replicate 128 False"
    and ph: "length (phdrs img) = unat (e_phnum (ehdr img))" "unat (e_phnum (ehdr img)) \<le> 128"
  shows "lay_inv bits (replicate 12 True) l'" "loads_ok bits (l_max_vaddr l') (phdrs img) (loadable img')"
    "ehdr img' = ehdr img" "phdrs img' = phdrs img" "length (loadable img') = 128"
proof -
  obtain seen' ld' where s: "validate_segments bits (phdrs img) 0 (replicate 12 False) (replicate 128 False) (l\<lparr>l_max_vaddr := NACL_TRAMPOLINE_END\<rparr>) =
      (LOAD_OK, seen', ld', l')" and i: "img' = img\<lparr>loadable := ld'\<rparr>"
    and req: "\<not> (\<exists>(c, s)\<in>set (zip nacl_phdr_check_data seen'). ck_required c \<and> \<not> s)"
    using v ph ld text_check(4) by (auto simp: NaClElfImageValidateProgramHeaders_def split: prod.splits if_splits)
  have l0: "lay_inv bits (replicate 12 False) (l\<lparr>l_max_vaddr := NACL_TRAMPOLINE_END\<rparr>)"
    using bits zero by (simp add: lay_inv_def NACL_TRAMPOLINE_END_val)
  have r: "lay_inv bits seen' l' \<and> length seen' = 12 \<and> loads_ok bits (l_max_vaddr l') ([] @ phdrs img) ld' \<and> length ld' = length (replicate 128 False)"
    by (rule validate_segments_spec [OF s bits(1) l0]) (use ph in \<open>auto simp: loads_ok_def\<close>)
  have "(nacl_phdr_check_data ! 1, seen' ! 1) \<in> set (zip nacl_phdr_check_data seen')"
    using r text_check(4) by (auto simp: set_zip)
  from this have "\<not> (case (nacl_phdr_check_data ! 1, seen' ! 1) of (c, s) \<Rightarrow> ck_required c \<and> \<not> s)" using req by - (erule contrapos_nn, rule bexI)
  then have "seen' ! 1" using text_check(3) by simp
  then show "lay_inv bits (replicate 12 True) l'" using r by (simp add: lay_inv_def)
  show "loads_ok bits (l_max_vaddr l') (phdrs img) (loadable img')" "ehdr img' = ehdr img" "phdrs img' = phdrs img" "length (loadable img') = 128"
    using r i by simp_all
qed

subsection \<open>What loading does\<close>

declare load_segments.simps(2) [simp del]

definition file_bytes :: "GioMemoryFile \<Rightarrow> Elf_Phdr \<Rightarrow> u8 list" where
  "file_bytes gp php = take (unat (p_filesz php)) (drop (unat (p_offset php)) (gio_data gp))"

text \<open>The reference: the file's bytes of every loadable segment, stored in order.\<close>

fun load_all :: "GioMemoryFile \<Rightarrow> nat \<Rightarrow> (Elf_Phdr \<times> bool) list \<Rightarrow> memory \<Rightarrow> memory" where
  "load_all gp base [] mem = mem"
| "load_all gp base ((php, ld) # phs) mem =
     load_all gp base phs (if ld then store_bytes mem (base + unat (p_vaddr php)) (file_bytes gp php) else mem)"

lemma store_bytes_outside: "a < p \<or> p + length bs \<le> a \<Longrightarrow> store_bytes mem p bs a = mem a"
  by (auto simp: store_bytes_def)

lemma load_all_data: "gio_data gp = gio_data gp' \<Longrightarrow> load_all gp base phs mem = load_all gp' base phs mem"
  by (induction phs arbitrary: mem) (auto simp: file_bytes_def)

definition inside :: "nat \<Rightarrow> nat \<Rightarrow> memory \<Rightarrow> memory \<Rightarrow> bool" where
  "inside lo hi mem mem' \<longleftrightarrow> (\<forall>a. a < lo \<or> hi \<le> a \<longrightarrow> mem' a = mem a)"

lemma inside_trans: "inside lo hi m1 m2 \<Longrightarrow> inside lo hi m2 m3 \<Longrightarrow> inside lo hi m1 m3"
  by (simp add: inside_def)

lemma load_segments_spec:
  assumes "gio_ok gp" "unat bits < 32" "unat base + 2 ^ unat bits \<le> 2 ^ 32"
    and "\<forall>(php, ld)\<in>set phs. ld \<longrightarrow> seg_ok bits php \<and> unat (p_vaddr php) + unat (p_memsz php) \<le> unat mx"
  shows "load_segments wr phs gp bits base mem = Faults \<and> (\<exists>a. unat base + 0x20000 \<le> a \<and> a < unat base + unat mx \<and> \<not> wr a) \<or>
    (\<exists>rc gp' mem'. load_segments wr phs gp bits base mem = Returns (rc, gp', mem') \<and> gio_ok gp' \<and> gio_data gp' = gio_data gp \<and>
    inside (unat base + 0x20000) (unat base + unat mx) mem mem' \<and> rc \<in> {LOAD_OK, LOAD_SEGMENT_BAD_PARAM} \<and>
    (rc = LOAD_OK \<longrightarrow> mem' = load_all gp (unat base) phs mem \<and>
       (\<forall>(php, ld)\<in>set phs. ld \<longrightarrow> unat (p_offset php) + unat (p_filesz php) \<le> length (gio_data gp))))"
  using assms(1,4)
proof (induction phs arbitrary: gp mem)
  case Nil
  then show ?case by (simp add: inside_def)
next
  case (Cons x phs)
  obtain php ld where x: "x = (php, ld)" by fastforce
  show ?case
  proof (cases ld)
    case False
    then show ?thesis using Cons.IH [OF Cons.prems(1), of mem] Cons.prems(2) x by (simp add: load_segments.simps)
  next
    case True
    let ?v = "p_vaddr php" and ?f = "p_filesz php"
    have ok: "seg_ok bits php" "unat ?v + unat (p_memsz php) \<le> unat mx" using Cons.prems(2) x True by auto
    have b: "0x20000 \<le> unat ?v" "unat ?v + unat ?f < 2 ^ unat bits" "unat ?v + unat ?f \<le> unat mx"
      using ok by (simp_all add: seg_ok_def word_le_nat_alt NACL_TRAMPOLINE_END_val)
    have "(2 :: nat) ^ unat bits \<le> 2 ^ 31" using assms(2) by (intro power_increasing) simp_all
    then have e: "unat (?v + ?f) = unat ?v + unat ?f" using b(2) by (intro unat_add_no_wrap) simp
    have a: "unat (base + ?v) = unat base + unat ?v" using b(2) assms(3) by (intro unat_add_no_wrap) simp
    have chk: "\<not> ?v + ?f < ?v" "\<not> push_bit (unat bits) 1 \<le> ?v + ?f"
      using b(2) unat_push_1 [OF assms(2)] by (simp_all add: word_le_nat_alt word_less_nat_alt e)
    obtain r g1 where s: "gio_seek_set gp (p_offset php) = (r, g1)" by fastforce
    note sl = gio.seek_law [OF Cons.prems(1) s]
    show ?thesis
    proof (cases "r = - 1")
      case True
      then show ?thesis using \<open>ld\<close> x s sl chk by (simp add: load_segments.simps inside_def)
    next
      case r: False
      obtain n bs g2 where rd: "GioMemoryFileRead g1 ?f = Returns (n, bs, g2)" "gio_ok g2" "gio_data g2 = gio_data gp" "length bs \<le> unat ?f"
        using gio.read_at [OF Cons.prems(1) s r, of ?f] by auto
      let ?m = "store_bytes mem (unat (base + ?v)) bs"
      have ins: "inside (unat base + 0x20000) (unat base + unat mx) mem ?m"
        using b rd(4) unfolding inside_def a by (auto intro!: store_bytes_outside)
      show ?thesis
      proof (cases "\<exists>a\<in>set [unat (base + ?v)..<unat (base + ?v) + length bs]. \<not> wr a")
        case True
        then obtain y where "unat (base + ?v) \<le> y" "y < unat (base + ?v) + length bs" "\<not> wr y" by auto
        then have "unat base + 0x20000 \<le> y \<and> y < unat base + unat mx \<and> \<not> wr y" using b rd(4) unfolding a by linarith
        then have "\<exists>a. unat base + 0x20000 \<le> a \<and> a < unat base + unat mx \<and> \<not> wr a" by blast
        then show ?thesis using x \<open>ld\<close> chk s r rd(1) True by (simp add: load_segments.simps)
      next
        case wr: False
      have step: "load_segments wr (x # phs) gp bits base mem =
          (if n \<noteq> ?f then Returns (LOAD_SEGMENT_BAD_PARAM, g2, ?m) else load_segments wr phs g2 bits base ?m)"
        using x \<open>ld\<close> chk s r rd(1) wr by (simp add: load_segments.simps)
      show ?thesis
      proof (cases "n = ?f")
        case False
        then show ?thesis unfolding step using rd(2,3) ins by simp
      next
        case True
        note fr = gio.full_read [OF Cons.prems(1) s r rd(1) [unfolded True]]
        have "bs = file_bytes gp php" using fr(3) by (simp add: file_bytes_def)
        moreover have "load_all g2 (unat base) phs ?m = load_all gp (unat base) phs ?m" by (rule load_all_data [OF rd(3)])
        ultimately have m: "load_all g2 (unat base) phs ?m = load_all gp (unat base) (x # phs) mem" using x \<open>ld\<close> a by simp
        have pr: "\<forall>(php, ld)\<in>set phs. ld \<longrightarrow> seg_ok bits php \<and> unat (p_vaddr php) + unat (p_memsz php) \<le> unat mx"
          using Cons.prems(2) by simp
        from Cons.IH [OF rd(2) pr, of ?m] show ?thesis
        proof (elim disjE)
          assume "load_segments wr phs g2 bits base ?m = Faults \<and> (\<exists>a. unat base + 0x20000 \<le> a \<and> a < unat base + unat mx \<and> \<not> wr a)"
          then show ?thesis unfolding step using True by simp
        next
          assume "\<exists>rc gp' mem'. load_segments wr phs g2 bits base ?m = Returns (rc, gp', mem') \<and> gio_ok gp' \<and> gio_data gp' = gio_data g2 \<and>
            inside (unat base + 0x20000) (unat base + unat mx) ?m mem' \<and> rc \<in> {LOAD_OK, LOAD_SEGMENT_BAD_PARAM} \<and>
            (rc = LOAD_OK \<longrightarrow> mem' = load_all g2 (unat base) phs ?m \<and>
              (\<forall>(php, ld)\<in>set phs. ld \<longrightarrow> unat (p_offset php) + unat (p_filesz php) \<le> length (gio_data g2)))"
          then obtain rc gp' mem' where ih: "load_segments wr phs g2 bits base ?m = Returns (rc, gp', mem')" "gio_ok gp'" "gio_data gp' = gio_data g2"
              "inside (unat base + 0x20000) (unat base + unat mx) ?m mem'" "rc \<in> {LOAD_OK, LOAD_SEGMENT_BAD_PARAM}"
              "rc = LOAD_OK \<longrightarrow> mem' = load_all g2 (unat base) phs ?m \<and>
                (\<forall>(php, ld)\<in>set phs. ld \<longrightarrow> unat (p_offset php) + unat (p_filesz php) \<le> length (gio_data g2))"
            by (elim exE conjE) (rule that)
          then show ?thesis
            unfolding step using True inside_trans [OF ins ih(4)] m rd(3) fr(4) x \<open>ld\<close>
            by (intro disjI2 exI [of _ rc] exI [of _ gp'] exI [of _ mem']) simp
        qed
      qed
      qed
    qed
  qed
qed

subsection \<open>A file from its first byte to memory\<close>

lemma ImageNew_spec:
  assumes ok: "gio_ok gp" and new: "NaClElfImageNew al gp = Returns (Inr img, gp')"
  shows "gio_ok gp'" "gio_data gp' = gio_data gp" "loadable img = replicate 128 False" "unat (e_phnum (ehdr img)) \<le> 128"
    "length (phdrs img) = unat (e_phnum (ehdr img))"
proof -
  obtain n bs g1 where r1: "GioMemoryFileRead gp (of_nat sizeof_Ehdr) = Returns (n, bs, g1)" "gio_ok g1" "gio_data g1 = gio_data gp"
    using gio.read_law [OF ok, of "of_nat sizeof_Ehdr"] by auto
  define hdr where "hdr = Ehdr_of bs"
  obtain r g2 where s: "gio_seek_set g1 (e_phoff hdr) = (r, g2)" by fastforce
  note sl = gio.seek_law [OF r1(2) s]
  obtain n2 bs2 g3 where r2: "GioMemoryFileRead g2 (e_phnum hdr * of_nat sizeof_Phdr) = Returns (n2, bs2, g3)" "gio_ok g3" "gio_data g3 = gio_data g2"
    using gio.read_law [of g2 "e_phnum hdr * of_nat sizeof_Phdr"] sl by auto
  note st = new [unfolded NaClElfImageNew_def r1(1) obind.simps prod.case Let_def hdr_def [symmetric] s r2(1)]
  have img: "e_phnum hdr \<le> NACL_MAX_PROGRAM_HEADERS" "gp' = g3" "ehdr img = hdr" "length (phdrs img) = unat (e_phnum hdr)"
    "loadable img = replicate (unat NACL_MAX_PROGRAM_HEADERS) False"
    using st by (auto split: if_splits)
  show "gio_ok gp'" "gio_data gp' = gio_data gp" using img(2) r1(3) r2 sl by simp_all
  show "unat (e_phnum (ehdr img)) \<le> 128" "loadable img = replicate 128 False" "length (phdrs img) = unat (e_phnum (ehdr img))"
    using img by (simp_all add: NACL_MAX_PROGRAM_HEADERS_def word_le_nat_alt)
qed

text \<open>
  C20: loading is confined and faithful. When the headers of a file are read and pass the checks, loading returns; it changes memory only
  between the end of the trampolines and the highest address of a segment, both inside the module's address space; and when it reports
  success, memory holds every loadable segment's bytes, all of which the file has.
\<close>

theorem elf_load_confined:
  assumes ok: "gio_ok gp" and new: "NaClElfImageNew al gp = Returns (Inr img, gp')"
    and val: "NaClElfImageValidateProgramHeaders img bits l = (LOAD_OK, img', l')"
    and bits: "17 < unat bits" "unat bits < 32" and zero: "l_rodata_start l = 0" "l_data_start l = 0"
    and base: "unat base + 2 ^ unat bits \<le> 2 ^ 32"
    and wr: "\<forall>a. unat base + 0x20000 \<le> a \<and> a < unat base + 2 ^ unat bits \<longrightarrow> wr a"
  shows "\<exists>rc gp'' mem'. NaClElfImageLoad wr img' gp' bits base mem = Returns (rc, gp'', mem') \<and>
    (\<forall>a. mem' a \<noteq> mem a \<longrightarrow> unat base + 0x20000 \<le> a \<and> a < unat base + unat (l_max_vaddr l')) \<and>
    unat (l_max_vaddr l') < 2 ^ unat bits \<and> rc \<in> {LOAD_OK, LOAD_SEGMENT_BAD_PARAM} \<and>
    (rc = LOAD_OK \<longrightarrow> mem' = load_all gp (unat base) (zip (phdrs img') (loadable img')) mem \<and>
       (\<forall>(php, ld)\<in>set (zip (phdrs img') (loadable img')). ld \<longrightarrow>
          unat (p_offset php) + unat (p_filesz php) \<le> length (gio_data gp)))"
proof -
  note n = ImageNew_spec [OF ok new]
  have b: "0x20000 < (2 :: nat) ^ unat bits" using power_strict_increasing [OF bits(1), of "2 :: nat"] by simp
  note v = ValidateProgramHeaders_spec [OF val bits(2) b zero n(3,5,4)]
  have "\<forall>(php, ld)\<in>set (zip (phdrs img') (loadable img')). ld \<longrightarrow> seg_ok bits php \<and> unat (p_vaddr php) + unat (p_memsz php) \<le> unat (l_max_vaddr l')"
    using v(2,4) unfolding loads_ok_def by (auto simp: set_zip)
  note spec = load_segments_spec [OF n(1) bits(2) base this, of wr mem]
  have top: "unat (l_max_vaddr l') < 2 ^ unat bits" using v(1) by (simp add: lay_inv_def)
  then have "wr a" if "unat base + 0x20000 \<le> a" "a < unat base + unat (l_max_vaddr l')" for a using wr that by simp
  with spec obtain rc g2 mem' where ld: "load_segments wr (zip (phdrs img') (loadable img')) gp' bits base mem = Returns (rc, g2, mem')"
      "inside (unat base + 0x20000) (unat base + unat (l_max_vaddr l')) mem mem'" "rc \<in> {LOAD_OK, LOAD_SEGMENT_BAD_PARAM}"
      "rc = LOAD_OK \<longrightarrow> mem' = load_all gp' (unat base) (zip (phdrs img') (loadable img')) mem \<and>
        (\<forall>(php, ld)\<in>set (zip (phdrs img') (loadable img')). ld \<longrightarrow> unat (p_offset php) + unat (p_filesz php) \<le> length (gio_data gp'))"
    by (elim disjE exE conjE) (blast, rule that)
  have "NaClElfImageLoad wr img' gp' bits base mem = Returns (rc, g2, mem')"
    using ld(1) v(3,4) n(5) by (simp add: NaClElfImageLoad_def)
  then show ?thesis
    using top ld(2-4) n(2) load_all_data [OF n(2), of "unat base" "zip (phdrs img') (loadable img')" mem]
    by (intro exI [of _ rc] exI [of _ g2] exI [of _ mem']) (auto simp: inside_def not_less [symmetric])
qed

text \<open>A file of one text segment, five bytes at the start of the module's code.\<close>

definition sample_elf :: "u8 list" where
  "sample_elf =
    [0x7f, 0x45, 0x4c, 0x46, 1, 1, 1, 0x7b, 7, 0, 0, 0, 0, 0, 0, 0] @ [2, 0, 3, 0, 1, 0, 0, 0, 0, 0, 2, 0, 52, 0, 0, 0] @
    [0, 0, 0, 0, 0, 0, 0x20, 0, 52, 0, 32, 0, 1, 0, 0, 0, 0, 0, 0, 0] @
    [1, 0, 0, 0, 84, 0, 0, 0, 0, 0, 2, 0, 0, 0, 2, 0, 5, 0, 0, 0, 5, 0, 0, 0, 5, 0, 0, 0, 0, 0, 0, 0] @
    [0x90, 0x90, 0x90, 0x90, 0xf4]"

definition sample_layout :: layout where
  "sample_layout = \<lparr>l_static_text_end = 0, l_rodata_start = 0, l_rodata_end = 0, l_data_start = 0, l_data_end = 0, l_max_vaddr = 0\<rparr>"

definition sample_phdr :: Elf_Phdr where
  "sample_phdr = \<lparr>p_type = 1, p_offset = 84, p_vaddr = 0x20000, p_paddr = 0x20000, p_filesz = 5, p_memsz = 5, p_flags = 5, p_align = 0\<rparr>"

definition sample_image :: "bool \<Rightarrow> NaClElfImage" where
  "sample_image b = \<lparr>ehdr = Ehdr_of sample_elf, phdrs = [sample_phdr], loadable = b # replicate 127 False\<rparr>"

lemma sample_elf_new:
  "NaClElfImageNew True (GioMemoryFileCtor sample_elf 89) =
     Returns (Inr (sample_image False), \<lparr>gio_buffer = sample_elf, gio_len = 89, gio_curpos = 84\<rparr>)"
  by code_simp

lemma sample_elf_valid:
  "NaClElfImageValidateProgramHeaders (sample_image False) 28 sample_layout =
     (LOAD_OK, sample_image True, sample_layout\<lparr>l_static_text_end := 0x20005, l_max_vaddr := 0x20005\<rparr>)"
  by code_simp

lemma sample_elf_gio: "gio_ok (GioMemoryFileCtor sample_elf 89)"
  by (simp add: gio_ok_def GioMemoryFileCtor_def sample_elf_def)

theorem elf_load_confined_witness:
  "\<exists>rc gp mem'. NaClElfImageLoad (\<lambda>_. True) (sample_image True) \<lparr>gio_buffer = sample_elf, gio_len = 89, gio_curpos = 84\<rparr> 28 0x10000000 (\<lambda>_. 0) =
     Returns (rc, gp, mem') \<and> mem' 0x1001ffff = 0 \<and> mem' 0x10020005 = 0"
proof -
  have u: "unat (28 :: u8) = 28" "unat (0x10000000 :: u32) = 0x10000000" by simp_all
  from elf_load_confined [OF sample_elf_gio sample_elf_new sample_elf_valid, of "0x10000000" "\<lambda>_. True" "\<lambda>_. 0"] u
  obtain rc gp mem' where l: "NaClElfImageLoad (\<lambda>_. True) (sample_image True) \<lparr>gio_buffer = sample_elf, gio_len = 89, gio_curpos = 84\<rparr> 28 0x10000000 (\<lambda>_. 0) =
      Returns (rc, gp, mem')" and c: "\<forall>a. mem' a \<noteq> 0 \<longrightarrow> 0x10020000 \<le> a \<and> a < 0x10020005"
    by (auto simp: sample_layout_def)
  have "mem' 0x1001ffff = 0" "mem' 0x10020005 = 0" using c [rule_format, of "0x1001ffff"] c [rule_format, of "0x10020005"] by auto
  then show ?thesis using l by blast
qed

end
