(* ===== verification/Image_Flow.thy ===== *)
theory Image_Flow
  imports Validate_Image
begin

text \<open>
  Whole images: the region \<open>NaClValidateImage\<close> hands to the validator, what holds of an accepted image, and the control flow
  of code that has been accepted.
\<close>

text \<open>The region \<open>NaClValidateImage\<close> hands to the validator, and the facts on it that the properties share.\<close>

definition text_mem :: "NaClApp \<Rightarrow> nat" where
  "text_mem nap = unat (mem_start nap + NACL_TRAMPOLINE_END)"

lemma image_validated:
  assumes ok: "NaClValidateImage T cpu alloc inited nap mem = Some (mem', inited', LOAD_OK)"
    and use: "\<not> ignore_validator_result nap" and nowrap: "unat (static_text_end nap) + 32 \<le> 2 ^ 32"
  shows "\<exists>mem1 ms. validated T mem1 (text_mem nap) NACL_TRAMPOLINE_END (static_text_end nap) (bundle_mask nap) ms mem' \<and>
      stubbed (validator_stub_out_mode nap) mem mem1"
    and "bundle_mask nap = 15 \<or> bundle_mask nap = 31" and "NACL_TRAMPOLINE_END \<le> static_text_end nap"
proof -
  note c = NaClValidateImage_code [OF ok use]
  show le: "NACL_TRAMPOLINE_END \<le> static_text_end nap" using c(2) by simp
  note rs = region_size [OF nowrap le, of "mem_start nap"]
  show "\<exists>mem1 ms. validated T mem1 (text_mem nap) NACL_TRAMPOLINE_END (static_text_end nap) (bundle_mask nap) ms mem' \<and>
      stubbed (validator_stub_out_mode nap) mem mem1"
    using NaClValidateCode_sound(1) [OF c(1) rs(2)] unfolding rs(1) text_mem_def .
  show "bundle_mask nap = 15 \<or> bundle_mask nap = 31" by (rule NaClValidateCode_sound(2) [OF c(1) rs(2)])
qed

lemma agrees_from_refl: "agrees_from mem mem p"
  by (simp add: agrees_from_def)

text \<open>Control flow depends on memory from the start of the region on only.\<close>

lemma fetches_cong:
  assumes ag: "agrees_from mem mem' mbase" and f: "fetches T mem mbase base limit pc m"
  shows "fetches T mem' mbase base limit pc m" "mem' (maddr (inst m) + k) = mem (maddr (inst m) + k)"
    "is_mask_and mem' m \<longleftrightarrow> is_mask_and mem m" "is_reg_jump mem' m \<longleftrightarrow> is_reg_jump mem m" "direct_target mem' m = direct_target mem m"
proof -
  let ?p = "mbase + unat (pc - base)"
  have d: "decode_at T mem' pc ?p = decode_at T mem pc ?p"
    by (intro decode_local) (use ag in \<open>simp add: agrees_from_def agrees_on_def\<close>)
  have m: "m = decode_at T mem pc ?p" using f by (simp add: fetches_def)
  have k: "mem' (maddr (inst m) + k) = mem (maddr (inst m) + k)" for k using ag by (simp add: agrees_from_def m)
  then show "mem' (maddr (inst m) + k) = mem (maddr (inst m) + k)" .
  show "fetches T mem' mbase base limit pc m" using f m k [of 0] d by (simp add: fetches_def)
  show "is_mask_and mem' m \<longleftrightarrow> is_mask_and mem m" "is_reg_jump mem' m \<longleftrightarrow> is_reg_jump mem m"
    using k [of 0] k [of 1] by (simp_all add: is_mask_and_def is_reg_jump_def)
  have "agrees_from mem mem' (maddr (inst m))" using ag by (rule agrees_from_mono) (simp add: m)
  then show "direct_target mem' m = direct_target mem m" using direct_target_cong [of mem mem' m m] by simp
qed

lemma cf_step_cong:
  assumes ag: "agrees_from mem mem' mbase" and "cf_step T mem mbase base limit s s'"
  shows "cf_step T mem' mbase base limit s s'"
  using assms(2)
proof cases
  case (mask pc m r regs)
  note f = fetches_cong [OF ag mask(3)]
  show ?thesis unfolding mask(1,2,5) f(2) [symmetric] using f(1,3) mask(4) by (intro cf_step.mask) simp_all
next
  case (fall pc m regs regs')
  note f = fetches_cong [OF ag fall(3)]
  show ?thesis unfolding fall(1,2) using f(1,3) fall(4,5) by (intro cf_step.fall) simp_all
next
  case (direct pc m t regs regs')
  note f = fetches_cong [OF ag direct(3)]
  show ?thesis unfolding direct(1,2) using f(1,3,5) direct(4,5) by (intro cf_step.direct) simp_all
next
  case (reg_jump pc m regs regs')
  note f = fetches_cong [OF ag reg_jump(3)]
  show ?thesis unfolding reg_jump(1,2) f(2) [symmetric] using f(1,3,4) reg_jump(4-) by (intro cf_step.reg_jump) simp_all
next
  case (wild_jump pc m regs pc' regs')
  note f = fetches_cong [OF ag wild_jump(3)]
  show ?thesis unfolding wild_jump(1,2) using f(1,3,4) wild_jump(4-) by (intro cf_step.wild_jump) simp_all
qed

lemma validated_flow:
  assumes ok: "NaClValidateImage T cpu alloc inited nap mem = Some (mem', inited', LOAD_OK)"
    and use: "\<not> ignore_validator_result nap" and T: "tables_ok T"
    and nowrap: "unat (static_text_end nap) + 32 \<le> 2 ^ 32"
    and start: "pc0 AND bundle_mask nap = 0"
    and run: "(cf_step T mem' (text_mem nap) NACL_TRAMPOLINE_END (static_text_end nap))\<^sup>*\<^sup>* (pc0, regs0) (pc, regs)"
  defines "p \<equiv> text_mem nap + unat (pc - NACL_TRAMPOLINE_END)"
  defines "d \<equiv> decode_at T mem' pc p"
  shows "if NACL_TRAMPOLINE_END \<le> pc \<and> pc < static_text_end nap
    then mem' p = kNaClFullStop \<or> legal_type (insttype (opinfo d)) \<and> prefix_usage_ok d
    else pc = static_text_end nap \<or> pc AND bundle_mask nap = 0"
proof -
  let ?b = NACL_TRAMPOLINE_END and ?l = "static_text_end nap" and ?msk = "bundle_mask nap"
  note i = image_validated [OF ok use nowrap]
  obtain mem1 ms where v: "validated T mem1 (text_mem nap) ?b ?l ?msk ms mem'" using i(1) by blast
  have "cf_ok mem1 ?b ?l ?msk ms (pc0, regs0)"
    using v start by (intro jump_target_ok [OF v]) (auto simp: validated_def)
  from cf_reachable_ok [OF v i(2) T i(3) run this] have ok': "cf_ok mem1 ?b ?l ?msk ms (pc, regs)" .
  have acc: "accepted mem1 ?b ?l ?msk m" if "m \<in> set ms" for m using v that by (simp add: validated_def)
  show ?thesis
  proof (cases "?b \<le> pc \<and> pc < ?l")
    case True
    then obtain i where i': "i < length ms" "vaddr (inst (ms ! i)) = pc" using ok' by (auto simp: cf_ok_def)
    have "d = ms ! i" if "mem' p \<noteq> kNaClFullStop"
      using True that by (intro fetches_validated(1) [OF v _ i' i(3)]) (simp add: fetches_def d_def p_def)
    then show ?thesis using True acc [of "ms ! i"] i'(1) by (auto simp: accepted_def)
  next
    case False
    have "vaddr (inst (ms ! i)) \<noteq> pc" if "i < length ms" for i
      using acc [of "ms ! i"] that False by (auto simp: accepted_def)
    then show ?thesis using ok' False by (auto simp: cf_ok_def)
  qed
qed

text \<open>
  Execution from a bundle boundary in a memory that holds the validated code: the memory may differ from the validated one below the region.
\<close>

lemma image_flow:
  assumes ok: "NaClValidateImage T cpu alloc inited nap mem = Some (mem', inited', LOAD_OK)"
    and use: "\<not> ignore_validator_result nap" and T: "tables_ok T"
    and nowrap: "unat (static_text_end nap) + 32 \<le> 2 ^ 32" and ag: "agrees_from M mem' (text_mem nap)"
    and start: "pc0 AND bundle_mask nap = 0"
    and run: "(cf_step T M (text_mem nap) NACL_TRAMPOLINE_END (static_text_end nap))\<^sup>*\<^sup>* (pc0, regs0) (pc, regs)"
  defines "p \<equiv> text_mem nap + unat (pc - NACL_TRAMPOLINE_END)"
  defines "d \<equiv> decode_at T M pc p"
  shows "if NACL_TRAMPOLINE_END \<le> pc \<and> pc < static_text_end nap
    then M p = kNaClFullStop \<or> legal_type (insttype (opinfo d)) \<and> prefix_usage_ok d
    else pc = static_text_end nap \<or> pc AND bundle_mask nap = 0"
proof -
  have run': "(cf_step T mem' (text_mem nap) NACL_TRAMPOLINE_END (static_text_end nap))\<^sup>*\<^sup>* (pc0, regs0) (pc, regs)"
    using run by (rule rtranclp_mono [THEN predicate2D, rotated]) (auto intro: cf_step_cong [OF ag])
  have "agrees_on M mem' p (p + len d)" "M p = mem' p" using ag by (simp_all add: agrees_from_def agrees_on_def p_def)
  then have eq: "decode_at T mem' pc p = d" "mem' p = M p" unfolding d_def by (simp_all add: decode_local)
  show ?thesis by (rule validated_flow [OF ok use T nowrap start run', folded p_def, unfolded eq])
qed

lemma NaClValidateCode_small:
  assumes "static_text_end nap \<le> NACL_TRAMPOLINE_END"
  shows "NaClValidateCode T cpu alloc inited nap NACL_TRAMPOLINE_END p (static_text_end nap - NACL_TRAMPOLINE_END) mem =
    Some (mem, inited, LOAD_BAD_FILE)"
proof -
  have "validator_pass T cpu al inited nap stub NACL_TRAMPOLINE_END p (static_text_end nap - NACL_TRAMPOLINE_END) mem =
      Some (mem, inited, LOAD_BAD_FILE)" for al stub
    using validator_pass_small [OF assms, where ms = 0] by simp
  then show ?thesis by (simp add: NaClValidateCode_def)
qed

lemma NaClValidateImage_mem:
  assumes run: "NaClValidateImage T cpu alloc inited nap mem = Some (mem', inited', rc)"
    and nowrap: "unat (static_text_end nap) + 32 \<le> 2 ^ 32"
  shows "mem' a = mem a \<or> text_mem nap \<le> a \<and> a < text_mem nap + (unat (static_text_end nap) - unat NACL_TRAMPOLINE_END) \<and>
    mem' a = kNaClFullStop"
proof (cases "static_text_end nap \<le> NACL_TRAMPOLINE_END")
  case True
  then show ?thesis
    using run by (auto simp: NaClValidateImage_def Let_def NaClValidateCode_small [OF True] split: if_splits)
next
  case False
  then have le: "NACL_TRAMPOLINE_END \<le> static_text_end nap" by simp
  let ?sz = "mem_start nap + static_text_end nap - (mem_start nap + NACL_TRAMPOLINE_END)"
  note rs = region_size [OF nowrap le, of "mem_start nap"]
  have sz: "unat ?sz = unat (static_text_end nap) - unat NACL_TRAMPOLINE_END" using unat_sub_le [OF le] by simp
  have "mem' a = mem a \<or> text_mem nap \<le> a \<and> a < text_mem nap + unat ?sz \<and> mem' a = kNaClFullStop"
  proof (cases "mem_start nap + static_text_end nap < mem_start nap + NACL_TRAMPOLINE_END")
    case True
    then show ?thesis using run by (simp add: NaClValidateImage_def Let_def)
  next
    case False
    then obtain i rc' where "NaClValidateCode T cpu alloc inited nap NACL_TRAMPOLINE_END (text_mem nap) ?sz mem = Some (mem', i, rc')"
      using run by (auto simp: NaClValidateImage_def Let_def text_mem_def split: option.splits if_splits prod.splits)
    then show ?thesis by (rule NaClValidateCode_mem [OF _ rs(2)])
  qed
  then show ?thesis unfolding sz .
qed

end
