(* ===== verification/Load_File.thy ===== *)
theory Load_File
  imports Load_Space Elf_Image Image_Flow
begin

text \<open>
  Loading a program (\<open>service_runtime/sel_ldr_standard.c\<close>): reading and checking the headers, the checks of the layout, and the
  sequence of steps from the allocation of the address space to its protection.
\<close>

subsection \<open>Loading a file\<close>

definition NACL_MAX_ADDR_BITS :: u8 where [nacl_consts]: "NACL_MAX_ADDR_BITS = 30"

text \<open>The checks between reading the headers and allocating memory.\<close>

definition layout_error :: "NaClApp \<Rightarrow> layout \<Rightarrow> NaClErrorCode" where
  "layout_error nap l =
     (if \<not> NaClAddrIsValidEntryPt nap (entry_pt nap) then LOAD_BAD_ENTRY
      else if 0 \<noteq> data_start nap \<and> l_data_end l \<noteq> l_max_vaddr l then LOAD_DATA_NOT_LAST_SEGMENT
      else if 0 = data_start nap \<and> 0 \<noteq> rodata_start nap \<and> l_rodata_end l \<noteq> l_max_vaddr l
        then LOAD_NO_DATA_BUT_RODATA_NOT_LAST_SEGMENT
      else if 0 \<noteq> rodata_start nap \<and> 0 \<noteq> data_start nap \<and> l_rodata_end l > data_start nap then LOAD_RODATA_OVERLAPS_DATA
      else if 0 \<noteq> rodata_start nap \<and> NaClRoundAllocPage (NaClEndOfStaticText nap) > rodata_start nap then LOAD_TEXT_OVERLAPS_RODATA
      else if 0 = rodata_start nap \<and> 0 \<noteq> data_start nap \<and> NaClRoundAllocPage (NaClEndOfStaticText nap) > data_start nap
        then LOAD_TEXT_OVERLAPS_DATA
      else LOAD_OK)"

definition accept_layout :: "NaClElfImage \<Rightarrow> GioMemoryFile \<Rightarrow> layout \<Rightarrow> loader \<Rightarrow> ((NaClErrorCode + NaClElfImage \<times> GioMemoryFile) \<times> loader) outcome" where
  "accept_layout img gp l s =
     obind (NaClElfImageGetBundleSize img) (\<lambda>bsize.
       let nap = (ld_app s)\<lparr>break_addr := l_max_vaddr l, data_end := l_max_vaddr l, bundle_size := bsize\<rparr>
       in if bsize = 0 then Returns (Inl LOAD_BAD_ABI, s\<lparr>ld_app := nap\<rparr>)
          else
            let nap = nap\<lparr>entry_pt := NaClElfImageGetEntryPoint img\<rparr>; s = s\<lparr>ld_app := nap\<rparr>
            in if layout_error nap l \<noteq> LOAD_OK then Returns (Inl (layout_error nap l), s) else Returns (Inr (img, gp), s))"

definition load_headers :: "bool \<Rightarrow> GioMemoryFile \<Rightarrow> loader \<Rightarrow> ((NaClErrorCode + NaClElfImage \<times> GioMemoryFile) \<times> loader) outcome" where
  "load_headers al gp s =
     (if addr_bits (ld_app s) > NACL_MAX_ADDR_BITS then Returns (Inl LOAD_ADDR_SPACE_TOO_BIG, s)
      else
        let nap = (ld_app s)\<lparr>stack_size := NaClRoundAllocPage (stack_size (ld_app s))\<rparr>; s = s\<lparr>ld_app := nap\<rparr>
        in obind (NaClElfImageNew al gp) (\<lambda>(r, gp).
          case r of
            Inl subret \<Rightarrow> Returns (Inl subret, s)
          | Inr img \<Rightarrow>
              if NaClElfImageValidateAbi img \<noteq> LOAD_OK then Returns (Inl (NaClElfImageValidateAbi img), s)
              else if NaClElfImageValidateElfHeader img \<noteq> LOAD_OK then Returns (Inl (NaClElfImageValidateElfHeader img), s)
              else
                case NaClElfImageValidateProgramHeaders img (addr_bits nap)
                       \<lparr>l_static_text_end = static_text_end nap, l_rodata_start = rodata_start nap, l_rodata_end = 0,
                        l_data_start = data_start nap, l_data_end = 0, l_max_vaddr = 0\<rparr> of
                  (subret, img, l) \<Rightarrow>
                    let s = s\<lparr>ld_app := nap\<lparr>static_text_end := l_static_text_end l, rodata_start := l_rodata_start l, data_start := l_data_start l\<rparr>\<rparr>
                    in if subret \<noteq> LOAD_OK then Returns (Inl subret, s) else accept_layout img gp l s))"

definition load_image ::
    "DecodeTables \<Rightarrow> CPUFeatures \<Rightarrow> (nat \<Rightarrow> nat \<Rightarrow> bool) \<Rightarrow> load_os \<Rightarrow> templates \<Rightarrow> NaClElfImage \<Rightarrow> GioMemoryFile \<Rightarrow> loader \<Rightarrow>
     (NaClErrorCode \<times> loader) outcome" where
  "load_image T cpu valloc os ts img gp s =
     lbind (NaClAllocAddrSpace os s) (\<lambda>s.
     lbind (NaClMakeDynamicTextShared os s) (\<lambda>s.
     obind (NaClElfImageLoad (writable (ld_prot s)) img gp (addr_bits (ld_app s)) (mem_start (ld_app s)) (ld_mem s)) (\<lambda>(subret, gp, mem).
       let s = s\<lparr>ld_mem := mem\<rparr>
       in if subret \<noteq> LOAD_OK then Returns (subret, s)
          else
            obind (NaClFillEndOfTextRegion s) (\<lambda>s.
              case NaClValidateImage T cpu valloc (ld_inited s) (ld_app s) (ld_mem s) of
                None \<Rightarrow> Diverges
              | Some (mem, inited, subret) \<Rightarrow>
                  let s = s\<lparr>ld_mem := mem, ld_inited := inited\<rparr>
                  in if subret \<noteq> LOAD_OK then Returns (subret, s)
                     else
                       obind (NaClLoadTrampoline ts (ld_app s) (ld_mem s)) (\<lambda>mem.
                       obind (NaClLoadSpringboard ts (ld_app s) mem) (\<lambda>(nap, mem).
                         NaClMemoryProtection os (s\<lparr>ld_mem := mem, ld_app := nap\<rparr>)))))))"

definition NaClAppLoadFile ::
    "DecodeTables \<Rightarrow> CPUFeatures \<Rightarrow> (nat \<Rightarrow> nat \<Rightarrow> bool) \<Rightarrow> load_os \<Rightarrow> templates \<Rightarrow> bool \<Rightarrow> GioMemoryFile \<Rightarrow> loader \<Rightarrow>
     (NaClErrorCode \<times> loader) outcome" where
  "NaClAppLoadFile T cpu valloc os ts al gp s =
     obind (load_headers al gp s) (\<lambda>(r, s).
       case r of Inl rc \<Rightarrow> Returns (rc, s) | Inr (img, gp) \<Rightarrow> load_image T cpu valloc os ts img gp s)"

subsection \<open>What the headers establish\<close>

lemma laid_out_upd [simp]:
  "laid_out (nap\<lparr>mem_start := m\<rparr>) = laid_out nap" "laid_out (nap\<lparr>dynamic_text_start := b\<rparr>) = laid_out nap"
  "laid_out (nap\<lparr>dynamic_text_end := e\<rparr>) = laid_out nap"
  by (simp_all add: laid_out_def)

lemma round_stack: "0x10000 dvd unat (NaClRoundAllocPage x)"
proof -
  have "NACL_MAP_PAGESIZE - 1 = mask 16" by (simp add: MAP_PAGESIZE_val mask_eq_exp_minus_1)
  then show ?thesis by (simp add: NaClRoundAllocPage_def unat_and_not_mask)
qed

lemma layout_ok:
  assumes inv: "lay_inv (addr_bits nap) (replicate 12 True) l" and ok: "layout_error nap l = LOAD_OK"
    and app: "static_text_end nap = l_static_text_end l" "rodata_start nap = l_rodata_start l" "data_start nap = l_data_start l"
      "data_end nap = l_max_vaddr l" "bundle_size nap = 16 \<or> bundle_size nap = 32" "0x10000 dvd unat (stack_size nap)"
    and bits: "17 < unat (addr_bits nap)" "unat (addr_bits nap) \<le> 30"
  shows "laid_out nap" "entry_pt nap AND bundle_mask nap = 0" "entry_pt nap < static_text_end nap"
proof -
  have t: "unat NACL_TRAMPOLINE_END = 0x20000" by (simp add: NACL_TRAMPOLINE_END_val)
  have n: "replicate 12 True ! 1 = True" by (simp add: numeral_eq_Suc)
  note i = inv [unfolded lay_inv_def n, folded app(1-4), unfolded word_le_nat_alt word_less_nat_alt t]
  have entry: "NaClAddrIsValidEntryPt nap (entry_pt nap)" using ok by (auto simp: layout_error_def split: if_splits)
  have ro: "unat (NaClRoundAllocPage (static_text_end nap)) \<le> unat (rodata_start nap)" if "rodata_start nap \<noteq> 0"
    using ok that by (auto simp: layout_error_def NaClEndOfStaticText_def word_less_nat_alt split: if_splits)
  have da: "unat (NaClRoundAllocPage (static_text_end nap)) \<le> unat (data_start nap)" if "rodata_start nap = 0" "data_start nap \<noteq> 0"
    using ok that by (auto simp: layout_error_def NaClEndOfStaticText_def word_less_nat_alt split: if_splits)
  have rd: "unat (l_rodata_end l) \<le> unat (data_start nap)" if "rodata_start nap \<noteq> 0" "data_start nap \<noteq> 0"
    using ok that by (auto simp: layout_error_def word_less_nat_alt split: if_splits)
  show "laid_out nap"
    unfolding laid_out_def
  proof (intro conjI)
    show "rodata_start nap = 0 \<or> unat (NaClRoundAllocPage (static_text_end nap)) \<le> unat (rodata_start nap) \<and> unat (rodata_start nap) < unat (data_end nap)"
      using i ro by linarith
    show "data_start nap = 0 \<or> unat (NaClRoundAllocPage (static_text_end nap)) \<le> unat (data_start nap) \<and> unat (data_start nap) < unat (data_end nap)"
      using i ro da rd by (cases "rodata_start nap = 0") linarith+
    show "rodata_start nap = 0 \<or> data_start nap = 0 \<or> unat (rodata_start nap) < unat (data_start nap)" using i rd by linarith
  qed (use i bits app(5,6) in auto)
  show "entry_pt nap < static_text_end nap" using entry by (auto simp: NaClAddrIsValidEntryPt_def split: if_splits)
  have "word_of_int (bundle_size nap) - 1 = bundle_mask nap" using app(5) by (elim disjE) (simp_all add: bundle_mask_def)
  then show "entry_pt nap AND bundle_mask nap = 0" using entry by (auto simp: NaClAddrIsValidEntryPt_def split: if_splits)
qed

text \<open>The application as it is before loading: no segment recorded yet, and an address space that holds more than the trampolines.\<close>

definition fresh :: "loader \<Rightarrow> bool" where
  "fresh s \<longleftrightarrow> rodata_start (ld_app s) = 0 \<and> data_start (ld_app s) = 0 \<and> 17 < unat (addr_bits (ld_app s)) \<and>
     NaClRoundAllocPage (stack_size (ld_app s)) \<noteq> 0"

text \<open>Loading the segments of an image that passed the checks writes between the trampolines and the end of the data.\<close>

definition loads_inside :: "NaClElfImage \<Rightarrow> GioMemoryFile \<Rightarrow> NaClApp \<Rightarrow> bool" where
  "loads_inside img gp nap \<longleftrightarrow> (\<forall>wr base mem rc gp' mem'. unat base + 2 ^ unat (addr_bits nap) \<le> 2 ^ 32 \<longrightarrow>
     NaClElfImageLoad wr img gp (addr_bits nap) base mem = Returns (rc, gp', mem') \<longrightarrow>
     inside (unat base + 0x20000) (unat base + unat (data_end nap)) mem mem')"

lemma ElfImageLoad_inside:
  assumes ok: "gio_ok gp" and new: "NaClElfImageNew al gp = Returns (Inr img, gp')"
    and val: "NaClElfImageValidateProgramHeaders img bits l = (LOAD_OK, img', l')"
    and bits: "17 < unat bits" "unat bits < 32" and zero: "l_rodata_start l = 0" "l_data_start l = 0"
    and base: "unat base + 2 ^ unat bits \<le> 2 ^ 32" and ld: "NaClElfImageLoad wr img' gp' bits base mem = Returns (rc, gp2, mem')"
  shows "inside (unat base + 0x20000) (unat base + unat (l_max_vaddr l')) mem mem'"
proof -
  note n = ImageNew_spec [OF ok new]
  have b: "0x20000 < (2 :: nat) ^ unat bits" using power_strict_increasing [OF bits(1), of "2 :: nat"] by simp
  note v = ValidateProgramHeaders_spec [OF val bits(2) b zero n(3,5,4)]
  have "\<forall>(php, ld)\<in>set (zip (phdrs img') (loadable img')). ld \<longrightarrow> seg_ok bits php \<and> unat (p_vaddr php) + unat (p_memsz php) \<le> unat (l_max_vaddr l')"
    using v(2,4) unfolding loads_ok_def by (auto simp: set_zip)
  from load_segments_spec [OF n(1) bits(2) base this, of wr mem] show ?thesis
    using ld v(3,4) n(5) by (auto simp: NaClElfImageLoad_def)
qed

lemma load_headers_ok:
  assumes gp: "gio_ok gp" and fr: "fresh s" and run: "load_headers al gp s = Returns (Inr (img, gp'), s')"
  shows "laid_out (ld_app s')" "entry_pt (ld_app s') AND bundle_mask (ld_app s') = 0" "entry_pt (ld_app s') < static_text_end (ld_app s')"
    "ignore_validator_result (ld_app s') = ignore_validator_result (ld_app s)" "addr_bits (ld_app s') = addr_bits (ld_app s)"
    "ld_mem s' = ld_mem s" "stack_size (ld_app s') \<noteq> 0" "loads_inside img gp' (ld_app s')"
proof -
  let ?nap = "ld_app s"
  define l0 where "l0 = \<lparr>l_static_text_end = static_text_end ?nap, l_rodata_start = rodata_start ?nap, l_rodata_end = 0,
                        l_data_start = data_start ?nap, l_data_end = 0, l_max_vaddr = 0\<rparr>"
  obtain img0 l where h: "NaClElfImageNew al gp = Returns (Inr img0, gp')" "\<not> NACL_MAX_ADDR_BITS < addr_bits ?nap"
      "NaClElfImageValidateProgramHeaders img0 (addr_bits ?nap) l0 = (LOAD_OK, img, l)"
      and acc: "accept_layout img gp' l (s\<lparr>ld_app := ?nap\<lparr>stack_size := NaClRoundAllocPage (stack_size ?nap),
        static_text_end := l_static_text_end l, rodata_start := l_rodata_start l, data_start := l_data_start l\<rparr>\<rparr>) = Returns (Inr (img, gp'), s')"
  proof -
    have r: "img = img1 \<and> gp' = g1" if "accept_layout img1 g1 l t = Returns (Inr (img, gp'), s')" for img1 g1 l t
      using that by (auto simp: accept_layout_def Let_def split: if_splits)
    have ab: "\<not> NACL_MAX_ADDR_BITS < addr_bits ?nap" using run by (auto simp: load_headers_def)
    then obtain r0 g0 where n0: "NaClElfImageNew al gp = Returns (r0, g0)" using run by (auto simp: load_headers_def Let_def)
    obtain img0 where i0: "r0 = Inr img0" using run ab n0 by (cases r0) (auto simp: load_headers_def Let_def)
    obtain sub img1 l where v: "NaClElfImageValidateProgramHeaders img0 (addr_bits ?nap) l0 = (sub, img1, l)" by (cases rule: prod_cases3)
    have "sub = LOAD_OK" and acc: "accept_layout img1 g0 l (s\<lparr>ld_app := ?nap\<lparr>stack_size := NaClRoundAllocPage (stack_size ?nap),
        static_text_end := l_static_text_end l, rodata_start := l_rodata_start l, data_start := l_data_start l\<rparr>\<rparr>) = Returns (Inr (img, gp'), s')"
      using run ab n0 i0 v unfolding l0_def by (auto simp: load_headers_def Let_def split: if_splits)
    then show thesis using that n0 i0 v r [OF acc] ab by simp
  qed
  then obtain bsize nap where h': "NaClElfImageGetBundleSize img = Returns bsize" "layout_error nap l = LOAD_OK" "ld_app s' = nap"
      "ld_mem s' = ld_mem s"
      and nap: "nap = ?nap\<lparr>stack_size := NaClRoundAllocPage (stack_size ?nap),
        static_text_end := l_static_text_end l, rodata_start := l_rodata_start l, data_start := l_data_start l,
        break_addr := l_max_vaddr l, data_end := l_max_vaddr l, bundle_size := bsize, entry_pt := NaClElfImageGetEntryPoint img\<rparr>"
    by (auto simp: accept_layout_def Let_def split: if_splits)
  note n = ImageNew_spec [OF gp h(1)]
  have bits: "17 < unat (addr_bits nap)" "unat (addr_bits nap) \<le> 30"
    using fr h(2) by (simp_all add: fresh_def nap NACL_MAX_ADDR_BITS_def word_less_nat_alt)
  have "0x20000 < (2 :: nat) ^ unat (addr_bits nap)" using power_strict_increasing [OF bits(1), of "2 :: nat"] by simp
  moreover have ab: "addr_bits nap = addr_bits ?nap" by (simp add: nap)
  ultimately have "lay_inv (addr_bits nap) (replicate 12 True) l"
    using ValidateProgramHeaders_spec(1) [OF h(3) _ _ _ _ n(3,5,4)] fr bits(2) by (simp add: l0_def fresh_def)
  moreover have "bsize = 16 \<or> bsize = 32" using h'(1) by (auto simp: NaClElfImageGetBundleSize_def split: if_splits)
  ultimately show "laid_out (ld_app s')" "entry_pt (ld_app s') AND bundle_mask (ld_app s') = 0" "entry_pt (ld_app s') < static_text_end (ld_app s')"
    using layout_ok [of nap l] h'(2,3) bits round_stack by (simp_all add: nap)
  show "ignore_validator_result (ld_app s') = ignore_validator_result (ld_app s)" "addr_bits (ld_app s') = addr_bits (ld_app s)"
      "ld_mem s' = ld_mem s" "stack_size (ld_app s') \<noteq> 0"
    using h'(3,4) fr by (simp_all add: nap fresh_def)
  have z: "l_rodata_start l0 = 0" "l_data_start l0 = 0" and b31: "unat (addr_bits ?nap) < 32" using fr bits(2) by (simp_all add: l0_def fresh_def ab)
  show "loads_inside img gp' (ld_app s')"
    unfolding loads_inside_def h'(3) ab using ElfImageLoad_inside [OF gp h(1,3) bits(1) [unfolded ab] b31 z] by (simp add: nap)
qed

subsection \<open>What a loaded program is\<close>

text \<open>Memory that loading changes: the pages of the address space.\<close>

lemma NaClAllocAddrSpace_mem:
  assumes os: "os_ok os ts" and lay: "laid_out (ld_app s)" and run: "NaClAllocAddrSpace os s = Returns (LOAD_OK, s')"
  shows "inside (unat (mem_start (ld_app s'))) (unat (mem_start (ld_app s')) + 2 ^ unat (addr_bits (ld_app s))) (ld_mem s) (ld_mem s')"
proof -
  let ?nap = "ld_app s" let ?b = "unat (addr_bits ?nap)" let ?d = "NaClRoundAllocPage (data_end ?nap)"
  define space :: u32 where "space = push_bit ?b 1"
  have b: "?b < 32" using laid_outD(2) [OF lay] by simp
  have sp: "unat space = 2 ^ ?b" using unat_space [OF b] by (simp only: space_def)
  define hs where "hs = NaClTruncAllocPage (NaClTruncAllocPage (space - stack_size ?nap) - ?d)"
  note a = NaClAllocAddrSpace_ok [OF os lay run]
  obtain m where app: "ld_app s' = ?nap\<lparr>mem_start := m\<rparr>" using a(1) by blast
  have ms: "mem_start (ld_app s') = m" by (simp add: app)
  have mem: "ld_mem s' = clear_mem (ld_mem s) m space \<or> ld_mem s' = clear_mem (clear_mem (ld_mem s) m space) (m + ?d) hs"
    using run ms unfolding NaClAllocAddrSpace_def NaClAllocateSpace_def NaCl_page_alloc_def Let_def space_def [symmetric] hs_def [symmetric]
    by (auto simp: NaCl_madvise_def NaCl_mprotect_def split: option.splits if_splits prod.splits bool.splits)
  have pl: "unat m + 2 ^ ?b < 2 ^ 32" "unat (stack_size ?nap) < 2 ^ ?b" "unat ?d \<le> 2 ^ ?b - unat (stack_size ?nap)"
    using a(3) by (simp_all add: app placed_def)
  have "unat (NaClTruncAllocPage (space - stack_size ?nap)) = 2 ^ ?b - unat (stack_size ?nap)" using stack_start [OF lay pl(2)] by (simp add: space_def)
  then have "unat (NaClTruncAllocPage (space - stack_size ?nap) - ?d) = 2 ^ ?b - unat (stack_size ?nap) - unat ?d"
    using pl(3) by (subst unat_sub_le) (simp_all add: word_le_nat_alt)
  then have hs: "unat hs \<le> 2 ^ ?b - unat (stack_size ?nap) - unat ?d" unfolding hs_def trunc_words by (metis div_times_less_eq_dividend)
  have md: "unat (m + ?d) = unat m + unat ?d" using pl by (intro unat_add_no_wrap) simp
  show ?thesis using mem hs pl(3) unfolding inside_def app clear_mem_def md sp by (elim disjE) auto
qed

lemma NaClFillEndOfTextRegion_mem:
  assumes run: "NaClFillEndOfTextRegion s = Returns s'" and lay: "laid_out (ld_app s)"
    and nw: "unat (mem_start (ld_app s)) + unat (static_text_end (ld_app s)) < 2 ^ 32"
  defines "lo \<equiv> unat (mem_start (ld_app s)) + unat (static_text_end (ld_app s))" and "hi \<equiv> unat (mem_start (ld_app s)) + unat (static_text_end (ld_app s'))"
  shows "inside lo hi (ld_mem s) (ld_mem s')" "lo \<le> a \<Longrightarrow> a < hi \<Longrightarrow> ld_mem s' a = NACL_HALT_OPCODE \<and> writable (ld_prot s) a"
proof -
  let ?e = "static_text_end (ld_app s)" let ?e' = "NaClRoundAllocPage (?e + 32)"
  note f = NaClFillEndOfTextRegion_ok [OF lay run]
  have e': "static_text_end (ld_app s') = ?e'" using f(1) by auto
  have pad: "unat (?e' - ?e) = unat ?e' - unat ?e" using f(2) by (simp add: e' unat_sub_le word_le_nat_alt)
  have u: "unat (mem_start (ld_app s) + ?e) = lo" unfolding lo_def using nw by (intro unat_add_no_wrap) simp
  have hi: "hi = lo + unat (?e' - ?e)" using f(2) by (simp add: hi_def lo_def e' pad)
  have sled: "NACL_HALT_SLED_SIZE = 32" "NACL_HALT_LEN = 1" by (simp_all add: nacl_consts)
  have "ld_mem s' = (\<lambda>a. if lo \<le> a \<and> a < hi then NACL_HALT_OPCODE else ld_mem s a) \<and> (\<forall>a\<in>set [lo..<hi]. writable (ld_prot s) a)"
    using run unfolding NaClFillEndOfTextRegion_def Let_def sled u hi NaClFillMemoryRegionWithHalt_def by (auto split: if_splits)
  then show "inside lo hi (ld_mem s) (ld_mem s')" "lo \<le> a \<Longrightarrow> a < hi \<Longrightarrow> ld_mem s' a = NACL_HALT_OPCODE \<and> writable (ld_prot s) a"
    by (simp_all add: inside_def)
qed

lemma NaClValidateImage_inside:
  assumes run: "NaClValidateImage T cpu alloc i nap mem = Some (mem', i', rc)" and te: "0x20000 \<le> unat (static_text_end nap)" "unat (static_text_end nap) < 2 ^ 31"
    and sp: "space_ok nap" "17 \<le> unat (addr_bits nap)"
  shows "inside (unat (mem_start nap) + 0x20000) (unat (mem_start nap) + unat (static_text_end nap)) mem mem'" "text_mem nap = unat (mem_start nap) + 0x20000"
proof -
  show t: "text_mem nap = unat (mem_start nap) + 0x20000" unfolding text_mem_def NACL_TRAMPOLINE_END_val using space_room(1) [OF sp, of "0x20000"] by simp
  have "unat (static_text_end nap) + 32 \<le> 2 ^ 32" using te(2) by simp
  from NaClValidateImage_mem [OF run this] show "inside (unat (mem_start nap) + 0x20000) (unat (mem_start nap) + unat (static_text_end nap)) mem mem'"
    using te(1) unfolding inside_def t NACL_TRAMPOLINE_END_val by fastforce
qed

lemma bundle_mask_upd [simp]:
  "bundle_mask (nap\<lparr>springboard_addr := a\<rparr>) = bundle_mask nap" "bundle_mask (nap\<lparr>static_text_end := e\<rparr>) = bundle_mask nap"
  "bundle_mask (nap\<lparr>mem_start := m\<rparr>) = bundle_mask nap" "bundle_mask (nap\<lparr>dynamic_text_start := b\<rparr>) = bundle_mask nap"
  "bundle_mask (nap\<lparr>dynamic_text_end := f\<rparr>) = bundle_mask nap"
  by (simp_all add: bundle_mask_def)

lemma space_ok_upd [simp]:
  "space_ok (nap\<lparr>springboard_addr := a\<rparr>) = space_ok nap" "space_ok (nap\<lparr>static_text_end := e\<rparr>) = space_ok nap"
  "space_ok (nap\<lparr>dynamic_text_start := b\<rparr>) = space_ok nap" "space_ok (nap\<lparr>dynamic_text_end := f\<rparr>) = space_ok nap"
  by (simp_all add: space_ok_def)

lemma load_image_steps:
  assumes run: "load_image T cpu valloc os ts img gp s = Returns (LOAD_OK, s')"
  obtains s1 s2 gp3 mem3 s4 mem5 i5 mem6 nap7 mem7 where "NaClAllocAddrSpace os s = Returns (LOAD_OK, s1)"
      "NaClMakeDynamicTextShared os s1 = Returns (LOAD_OK, s2)"
      "NaClElfImageLoad (writable (ld_prot s2)) img gp (addr_bits (ld_app s2)) (mem_start (ld_app s2)) (ld_mem s2) = Returns (LOAD_OK, gp3, mem3)"
      "NaClFillEndOfTextRegion (s2\<lparr>ld_mem := mem3\<rparr>) = Returns s4"
      "NaClValidateImage T cpu valloc (ld_inited s4) (ld_app s4) (ld_mem s4) = Some (mem5, i5, LOAD_OK)"
      "NaClLoadTrampoline ts (ld_app s4) mem5 = Returns mem6" "NaClLoadSpringboard ts (ld_app s4) mem6 = Returns (nap7, mem7)"
      "NaClMemoryProtection os (s4\<lparr>ld_mem := mem5, ld_inited := i5\<rparr>\<lparr>ld_mem := mem7, ld_app := nap7\<rparr>) = Returns (LOAD_OK, s')"
proof -
  obtain s1 s2 where s12: "NaClAllocAddrSpace os s = Returns (LOAD_OK, s1)" "NaClMakeDynamicTextShared os s1 = Returns (LOAD_OK, s2)"
    using run unfolding load_image_def lbind_ok by blast
  note run2 = run [unfolded load_image_def lbind_def, unfolded s12, simplified]
  obtain sub gp3 mem3 where e: "NaClElfImageLoad (writable (ld_prot s2)) img gp (addr_bits (ld_app s2)) (mem_start (ld_app s2)) (ld_mem s2) = Returns (sub, gp3, mem3)"
    using run2 unfolding s12 by (cases "NaClElfImageLoad (writable (ld_prot s2)) img gp (addr_bits (ld_app s2)) (mem_start (ld_app s2)) (ld_mem s2)") auto
  have sub: "sub = LOAD_OK" using run2 unfolding s12 by (simp add: e Let_def s12 split: if_splits)
  define s3 where "s3 = s2\<lparr>ld_mem := mem3\<rparr>"
  note run3 = run2 [unfolded s12, simplified, unfolded e sub, simplified, folded s3_def]
  obtain s4 where f: "NaClFillEndOfTextRegion s3 = Returns s4" using run3 by (cases "NaClFillEndOfTextRegion s3") auto
  obtain mem5 i5 sub5 where v: "NaClValidateImage T cpu valloc (ld_inited s4) (ld_app s4) (ld_mem s4) = Some (mem5, i5, sub5)"
    using run3 f by (cases "NaClValidateImage T cpu valloc (ld_inited s4) (ld_app s4) (ld_mem s4)") auto
  have sub5: "sub5 = LOAD_OK" using run3 f v by (simp add: Let_def split: if_splits)
  obtain mem6 where tr: "NaClLoadTrampoline ts (ld_app s4) mem5 = Returns mem6"
    using run3 f v sub5 by (cases "NaClLoadTrampoline ts (ld_app s4) mem5") (auto simp: Let_def)
  obtain nap7 mem7 where sb: "NaClLoadSpringboard ts (ld_app s4) mem6 = Returns (nap7, mem7)"
    using run3 f v sub5 tr by (cases "NaClLoadSpringboard ts (ld_app s4) mem6") (auto simp: Let_def)
  have "NaClMemoryProtection os (s4\<lparr>ld_mem := mem5, ld_inited := i5\<rparr>\<lparr>ld_mem := mem7, ld_app := nap7\<rparr>) = Returns (LOAD_OK, s')"
    using run3 f v sub5 tr sb by (simp add: Let_def)
  then show thesis using that [OF s12 e [unfolded sub] f [unfolded s3_def]] v sub5 tr sb by simp
qed

text \<open>The state before the code is validated: where everything lies, and what memory has been written.\<close>

definition staged :: "loader \<Rightarrow> u32 \<Rightarrow> u32 \<Rightarrow> u32 \<Rightarrow> u32 \<Rightarrow> loader \<Rightarrow> bool" where
  "staged s m b e te s4 \<longleftrightarrow>
     ld_app s4 = (ld_app s)\<lparr>mem_start := m, dynamic_text_start := b, dynamic_text_end := e, static_text_end := te\<rparr> \<and>
     placed ((ld_app s)\<lparr>mem_start := m\<rparr>) \<and>
     0x10000 dvd unat b \<and> 0x20000 \<le> unat b \<and> unat b \<le> unat e \<and> unat e \<le> 2 ^ unat (addr_bits (ld_app s)) - unat (stack_size (ld_app s)) \<and>
     (rodata_start (ld_app s) \<noteq> 0 \<longrightarrow> unat e \<le> unat (rodata_start (ld_app s))) \<and> (data_start (ld_app s) \<noteq> 0 \<longrightarrow> unat e \<le> unat (data_start (ld_app s))) \<and>
     0x10000 dvd unat te \<and> unat (static_text_end (ld_app s)) + 32 \<le> unat te \<and> unat te < 2 ^ 31 \<and> unat b \<le> unat te \<and> (b = e \<or> te = b) \<and>
     unat te \<le> 2 ^ unat (addr_bits (ld_app s)) \<and> text_shared s4 \<and>
     inside (unat m) (unat m + 2 ^ unat (addr_bits (ld_app s))) (ld_mem s) (ld_mem s4)"

lemma inside_mono: "inside lo hi mem mem' \<Longrightarrow> lo' \<le> lo \<Longrightarrow> hi \<le> hi' \<Longrightarrow> inside lo' hi' mem mem'"
  by (simp add: inside_def)

lemma image_staged:
  assumes os: "os_ok os ts" and lay: "laid_out (ld_app s)" and stk: "stack_size (ld_app s) \<noteq> 0" and elf: "loads_inside img gp (ld_app s)"
    and st: "NaClAllocAddrSpace os s = Returns (LOAD_OK, s1)" "NaClMakeDynamicTextShared os s1 = Returns (LOAD_OK, s2)"
      "NaClElfImageLoad (writable (ld_prot s2)) img gp (addr_bits (ld_app s2)) (mem_start (ld_app s2)) (ld_mem s2) = Returns (LOAD_OK, gp3, mem3)"
      "NaClFillEndOfTextRegion (s2\<lparr>ld_mem := mem3\<rparr>) = Returns s4"
  shows "\<exists>b e te. staged s (mem_start (ld_app s1)) b e te s4"
proof -
  let ?nap = "ld_app s" let ?top = "2 ^ unat (addr_bits ?nap) :: nat"
  note a = NaClAllocAddrSpace_ok [OF os lay st(1)] and l = laid_outD [OF lay] and r = laid_out_room [OF lay]
  obtain m where app1: "ld_app s1 = ?nap\<lparr>mem_start := m\<rparr>" using a(1) by blast
  obtain b e where be: "dynamic_bounds (use_shm_for_dynamic_text s1) (ld_app s1) = (b, e)" by fastforce
  have lay1: "laid_out (ld_app s1)" using lay by (simp add: app1)
  note d = NaClMakeDynamicTextShared_ok [OF lay1 a(3) st(2) be a(6)] and bnd = dynamic_bounds_ok [OF lay1 be]
  let ?s3 = "s2\<lparr>ld_mem := mem3\<rparr>"
  have lay2: "laid_out (ld_app ?s3)" using lay1 by (simp add: d(1))
  note f = NaClFillEndOfTextRegion_ok [OF lay2 st(4)]
  define te where "te = NaClRoundAllocPage (static_text_end ?nap + 32)"
  have app4: "ld_app s4 = ?nap\<lparr>mem_start := m, dynamic_text_start := b, dynamic_text_end := e, static_text_end := te\<rparr>"
      and sh4: "ld_shm s4 = ld_shm s2" "ld_pages s4 = ld_pages s2"
    using f(1) by (auto simp: d(1) app1 te_def)
  have pl: "unat m + ?top < 2 ^ 32" "unat (NaClRoundAllocPage (data_end ?nap)) \<le> ?top - unat (stack_size ?nap)" "unat (stack_size ?nap) < ?top"
    using a(3) by (simp_all add: app1 placed_def)
  have t4: "0x10000 dvd unat te" "unat (static_text_end ?nap) + 32 \<le> unat te" "unat b \<le> unat te" "unat te < 2 ^ 31"
    using f(2-5) be r(1) l(5,6) by (simp_all add: app4 d(1) app1 dynamic_bounds_def Let_def)
  have nw: "unat (mem_start (ld_app ?s3)) + unat (static_text_end (ld_app ?s3)) < 2 ^ 32" using pl(1) l(5,6) by (simp add: d(1) app1)
  note fm = NaClFillEndOfTextRegion_mem [OF st(4) lay2 nw]
  have te_top: "unat te \<le> ?top"
  proof -
    obtain k where k: "unat (stack_size ?nap) = 0x10000 * k" using l(10) by (elim dvdE)
    then have "0x10000 \<le> unat (stack_size ?nap)" using stk by (cases k) (auto simp: unat_eq_0)
    moreover obtain q where q: "?top = 0x10000 * q" using r(5) by (elim dvdE)
    moreover have "unat te < unat (NaClRoundAllocPage (data_end ?nap)) + 32 + 0x10000"
      using f(4) l(5) round_bounds(1) [OF r(3)] by (simp add: app4 d(1) app1)
    ultimately have "unat te < ?top + 32" using pl(2,3) by linarith
    moreover obtain j where j: "unat te = 0x10000 * j" using t4(1) by (elim dvdE)
    ultimately have "j \<le> q" unfolding q j by linarith
    then show ?thesis unfolding q j by simp
  qed
  have gap: "b = e \<or> te = b"
  proof (rule ccontr)
    assume "\<not> (b = e \<or> te = b)"
    then have "b \<noteq> e" "unat b < unat te" using t4(3) by (auto simp: word_unat_eq_iff)
    moreover have "writable (ld_prot s2) (unat m + unat b)"
      using fm(2) [of "unat m + unat b"] bnd(2) \<open>unat b < unat te\<close> by (simp add: app4 d(1) app1)
    ultimately show False using d(5) by (simp add: app1)
  qed
  let ?in = "inside (unat m) (unat m + ?top)"
  have "?in (ld_mem s) (ld_mem s1)" using NaClAllocAddrSpace_mem [OF os lay st(1)] by (simp add: app1)
  moreover have "inside (unat m + 0x20000) (unat m + unat (data_end ?nap)) (ld_mem s1) mem3"
    using elf st(3) pl(1) unfolding loads_inside_def by (simp add: d(1,2) app1)
  then have "?in (ld_mem s1) mem3" by (rule inside_mono) (use l(6) in simp_all)
  moreover have "?in mem3 (ld_mem s4)" using fm(1) by (auto intro: inside_mono simp: app4 d(1) app1 te_top)
  ultimately have "?in (ld_mem s) (ld_mem s4)" by (blast intro: inside_trans)
  moreover have "text_shared s4" using d(3) unfolding text_shared_def by (simp add: app4 sh4 d(1) app1)
  moreover have "unat e \<le> ?top - unat (stack_size ?nap)" using bnd(4) pl(2) by (simp add: app1)
  moreover have "0x20000 \<le> unat b" using bnd(2) l(4) by (simp add: app1)
  ultimately have "staged s m b e te s4"
    unfolding staged_def using app4 a(3) [unfolded app1] t4 bnd(1,3) bnd(6,7) [unfolded app1] gap te_top by (intro conjI impI) simp_all
  then show ?thesis by (auto simp: app1)
qed

subsection \<open>What a loaded program is\<close>

text \<open>
  What the addresses of the trampoline region that a jump can reach hold: a halt, or a whole trampoline, the template with the
  runtime's selectors.
\<close>

definition trampolines_ready :: "templates \<Rightarrow> loader \<Rightarrow> bool" where
  "trampolines_ready ts s \<longleftrightarrow> (let base = unat (mem_start (ld_app s)) in
     \<forall>x. 0x10000 \<le> x \<and> x < 0x20000 \<and> 16 dvd x \<longrightarrow>
       ld_mem s (base + x) = NACL_HALT_OPCODE \<or> (\<forall>k<tramp_len ts. ld_mem s (base + x + k) = trampoline_byte ts (ld_mem s) k))"

lemma trampolines_loaded:
  assumes ts: "templates_ok ts mem" and sp: "space_ok nap" "17 \<le> unat (addr_bits nap)" and b: "bundle_size nap = 16 \<or> bundle_size nap = 32"
    and out: "outside nap (NaCl_trampoline_seg_code ts) (NaCl_trampoline_seg_end ts)" "outside nap (NaCl_springboard ts) (NaCl_springboard_end ts)"
    and run: "NaClLoadTrampoline ts nap mem = Returns mem1" "NaClLoadSpringboard ts nap mem1 = Returns (nap', mem')"
  defines "base \<equiv> unat (mem_start nap)"
  shows "\<exists>a. nap' = nap\<lparr>springboard_addr := a\<rparr>" "inside (base + 0x10000) (base + 0x20000) mem mem'"
    "0x10000 \<le> x \<Longrightarrow> x < 0x20000 \<Longrightarrow> 16 dvd x \<Longrightarrow>
       mem' (base + x) = NACL_HALT_OPCODE \<or> (\<forall>k<tramp_len ts. mem' (base + x + k) = trampoline_byte ts mem' k)"
proof -
  show "\<exists>a. nap' = nap\<lparr>springboard_addr := a\<rparr>" using run(2) NaClLoadSpringboard_spec [OF ts sp b, of mem1] by auto
  from trampolines_installed [OF ts sp b out] run
  have keep: "\<forall>a. a < base + 0x10000 \<or> base + 0x20000 \<le> a \<longrightarrow> mem' a = mem a"
      and halt: "\<forall>x. 0x10000 \<le> x \<and> x < 0x20000 \<and> 16 dvd x \<longrightarrow> mem' (base + x) = NACL_HALT_OPCODE \<or> 32 dvd x \<and> x < 0x20000 - 32"
      and tr: "\<forall>i<2047. \<forall>k<tramp_len ts. mem' (base + 0x10000 + 32 * i + k) = trampoline_byte ts mem k"
    unfolding base_def by auto
  show "inside (base + 0x10000) (base + 0x20000) mem mem'" using keep by (simp add: inside_def)
  have same: "trampoline_byte ts mem' k = trampoline_byte ts mem k" if "k < tramp_len ts" for k
    using that by (rule trampoline_byte_cong [rotated])
      (use keep out(1) space_room(3) [OF sp] in \<open>auto simp: outside_def tramp_len_def base_def\<close>)
  assume x: "0x10000 \<le> x" "x < 0x20000" "16 dvd x"
  show "mem' (base + x) = NACL_HALT_OPCODE \<or> (\<forall>k<tramp_len ts. mem' (base + x + k) = trampoline_byte ts mem' k)"
  proof (cases "mem' (base + x) = NACL_HALT_OPCODE")
    case False
    then have "32 dvd x" "x < 0x20000 - 32" using halt x by blast+
    then obtain q where q: "x = 32 * q" "x < 0x20000 - 32" by (elim dvdE) (rule that)
    have eq: "base + 0x10000 + 32 * (q - 2048) = base + x" "q - 2048 < 2047" using q x(1) by simp_all
    have "mem' (base + x + k) = trampoline_byte ts mem k" if "k < tramp_len ts" for k
      using tr [rule_format, OF eq(2) that] unfolding eq(1) .
    then show ?thesis using same by simp
  qed simp
qed

text \<open>
  A loaded program: its code was accepted by the validator and is unchanged since; entry point and bundle size are set; the pages of the
  code are protected; the region for dynamic code, if any, follows the code and holds halts only; the trampolines are in place; and
  memory outside the address space is as it was.
\<close>

definition loaded :: "DecodeTables \<Rightarrow> CPUFeatures \<Rightarrow> (nat \<Rightarrow> nat \<Rightarrow> bool) \<Rightarrow> templates \<Rightarrow> loader \<Rightarrow> loader \<Rightarrow> bool" where
  "loaded T cpu valloc ts s0 s \<longleftrightarrow>
     (\<exists>nap sa mem mem' i i'. NaClValidateImage T cpu valloc i nap mem = Some (mem', i', LOAD_OK) \<and> ld_app s = nap\<lparr>springboard_addr := sa\<rparr> \<and>
        agrees_from (ld_mem s) mem' (text_mem nap)) \<and>
     ignore_validator_result (ld_app s) = ignore_validator_result (ld_app s0) \<and>
     (bundle_size (ld_app s) = 16 \<or> bundle_size (ld_app s) = 32) \<and>
     entry_pt (ld_app s) AND bundle_mask (ld_app s) = 0 \<and> entry_pt (ld_app s) < static_text_end (ld_app s) \<and>
     text_mem (ld_app s) = unat (mem_start (ld_app s)) + 0x20000 \<and>
     0x10000 dvd unat (static_text_end (ld_app s)) \<and> unat (static_text_end (ld_app s)) < 2 ^ 31 \<and>
     unat (dynamic_text_start (ld_app s)) \<le> unat (static_text_end (ld_app s)) \<and>
     (dynamic_text_start (ld_app s) = dynamic_text_end (ld_app s) \<or> static_text_end (ld_app s) = dynamic_text_start (ld_app s)) \<and>
     0x20000 \<le> unat (dynamic_text_end (ld_app s)) \<and> 4096 dvd unat (mem_start (ld_app s)) \<and> space_ok (ld_app s) \<and>
     unat (dynamic_text_end (ld_app s)) \<le> 2 ^ unat (addr_bits (ld_app s)) \<and>
     code_pages s \<and> text_shared s \<and> trampolines_ready ts s \<and>
     inside (unat (mem_start (ld_app s))) (unat (mem_start (ld_app s)) + 2 ^ unat (addr_bits (ld_app s))) (ld_mem s0) (ld_mem s)"

lemma text_mem_upd [simp]: "text_mem (nap\<lparr>springboard_addr := a\<rparr>) = text_mem nap"
  by (simp add: text_mem_def)

lemma load_image_ok:
  assumes os: "os_ok os ts" and ts: "templates_ok ts (ld_mem s)" and lay: "laid_out (ld_app s)" and stk: "stack_size (ld_app s) \<noteq> 0"
    and elf: "loads_inside img gp (ld_app s)"
    and ent: "entry_pt (ld_app s) AND bundle_mask (ld_app s) = 0" "entry_pt (ld_app s) < static_text_end (ld_app s)"
    and run: "load_image T cpu valloc os ts img gp s = Returns (LOAD_OK, s')"
  shows "loaded T cpu valloc ts s s'"
proof -
  let ?nap = "ld_app s" let ?top = "2 ^ unat (addr_bits ?nap) :: nat"
  obtain s1 s2 gp3 mem3 s4 mem5 i5 mem6 nap7 mem7 where st: "NaClAllocAddrSpace os s = Returns (LOAD_OK, s1)"
      "NaClMakeDynamicTextShared os s1 = Returns (LOAD_OK, s2)"
      "NaClElfImageLoad (writable (ld_prot s2)) img gp (addr_bits (ld_app s2)) (mem_start (ld_app s2)) (ld_mem s2) = Returns (LOAD_OK, gp3, mem3)"
      "NaClFillEndOfTextRegion (s2\<lparr>ld_mem := mem3\<rparr>) = Returns s4"
      "NaClValidateImage T cpu valloc (ld_inited s4) (ld_app s4) (ld_mem s4) = Some (mem5, i5, LOAD_OK)"
      "NaClLoadTrampoline ts (ld_app s4) mem5 = Returns mem6" "NaClLoadSpringboard ts (ld_app s4) mem6 = Returns (nap7, mem7)"
      "NaClMemoryProtection os (s4\<lparr>ld_mem := mem5, ld_inited := i5\<rparr>\<lparr>ld_mem := mem7, ld_app := nap7\<rparr>) = Returns (LOAD_OK, s')"
    by (rule load_image_steps [OF run])
  define m where "m = mem_start (ld_app s1)"
  obtain b e te where "staged s m b e te s4" using image_staged [OF os lay stk elf st(1-4)] unfolding m_def by blast
  note g = this [unfolded staged_def]
  have app4: "ld_app s4 = ?nap\<lparr>mem_start := m, dynamic_text_start := b, dynamic_text_end := e, static_text_end := te\<rparr>" using g by blast
  note a = NaClAllocAddrSpace_ok [OF os lay st(1)] and l = laid_outD [OF lay] and r = laid_out_room [OF lay]
  have app1: "ld_app s1 = ?nap\<lparr>mem_start := m\<rparr>" using a(1) by (auto simp: m_def)
  have sp: "space_ok (ld_app s4)" "17 \<le> unat (addr_bits (ld_app s4))" and pl: "4096 dvd unat m" "unat m + ?top < 2 ^ 32"
      "unat (stack_size ?nap) < ?top" and b4: "bundle_size (ld_app s4) = 16 \<or> bundle_size (ld_app s4) = 32"
    using g l(1,3) by (simp_all add: app4 placed_def)
  have out: "outside (ld_app s4) (NaCl_trampoline_seg_code ts) (NaCl_trampoline_seg_end ts)" "outside (ld_app s4) (NaCl_springboard ts) (NaCl_springboard_end ts)"
    using a(4,5) by (simp_all add: app1 app4 outside_def)
  have te: "0x20000 \<le> unat te" "unat te < 2 ^ 31" "unat te \<le> ?top" using g l(4) by simp_all
  have v: "inside (unat m + 0x20000) (unat m + unat te) (ld_mem s4) mem5" "text_mem (ld_app s4) = unat m + 0x20000"
    using NaClValidateImage_inside [OF st(5) _ _ sp] te by (simp_all add: app4)
  have in5: "inside (unat m) (unat m + ?top) (ld_mem s) mem5"
    using g inside_mono [OF v(1)] te(3) by (auto intro: inside_trans)
  then have ts5: "templates_ok ts mem5" using ts out(2) unfolding templates_ok_def outside_def inside_def by (auto simp: app4)
  note t = trampolines_loaded [OF ts5 sp b4 out st(6,7)]
  obtain sa where sa: "nap7 = (ld_app s4)\<lparr>springboard_addr := sa\<rparr>" using t(1) by blast
  let ?t = "s4\<lparr>ld_mem := mem5, ld_inited := i5\<rparr>\<lparr>ld_mem := mem7, ld_app := nap7\<rparr>"
  have t7: "ld_app ?t = nap7" "mem_start nap7 = m" "addr_bits nap7 = addr_bits ?nap" "stack_size nap7 = stack_size ?nap" "static_text_end nap7 = te"
      "dynamic_text_start nap7 = b" "dynamic_text_end nap7 = e" "rodata_start nap7 = rodata_start ?nap" "data_start nap7 = data_start ?nap"
    by (simp_all add: sa app4)
  have bnd: "0x10000 dvd unat te" "0x10000 dvd unat b" "unat b \<le> unat te" "unat b \<le> unat e" "unat e \<le> ?top - unat (stack_size ?nap)" "0 < unat b"
      "unat m + ?top < 2 ^ 32"
    using g pl(2) by simp_all
  have e_top: "unat e \<le> ?top" using bnd(5) by (rule order_trans) (rule diff_le_self)
  have ro: "unat e \<le> unat (rodata_start ?nap) \<and> unat (rodata_start ?nap) < ?top" if "rodata_start ?nap \<noteq> 0" using that g l(6,7) by auto
  have da: "unat e \<le> unat (data_start ?nap) \<and> unat (data_start ?nap) < ?top" if "data_start ?nap \<noteq> 0" using that g l(6,8) by auto
  have stk': "0x10000 dvd ?top - unat (stack_size ?nap)" by (intro dvd_diff_nat r(5) l(10))
  note mp = NaClMemoryProtection_ok [OF os st(8), unfolded t7, OF pl(1) bnd(7,1) te(1,2) bnd(2,3,4) e_top bnd(6) _ ro da stack_start [OF lay pl(3)] stk' bnd(5)]
  have im: "ld_app s' = nap7" "ld_mem s' = mem7" "ld_shm s' = ld_shm s4" "ld_pages s' = ld_pages s4" and cp: "code_pages s'"
    using mp l(1) by (simp_all add: same_image_def)
  have ag: "agrees_from mem7 mem5 (text_mem (ld_app s4))" unfolding v(2) using t(2) by (simp add: agrees_from_def inside_def app4)
  have flow: "\<exists>nap sa mem mem' i i'. NaClValidateImage T cpu valloc i nap mem = Some (mem', i', LOAD_OK) \<and> ld_app s' = nap\<lparr>springboard_addr := sa\<rparr> \<and>
        agrees_from (ld_mem s') mem' (text_mem nap)"
    unfolding im(1,2) sa using st(5) ag by blast
  have tr: "trampolines_ready ts s'" unfolding trampolines_ready_def im t7(2) Let_def using t(3) by (simp add: app4)
  have sh: "text_shared s'" using g unfolding text_shared_def by (simp add: im app4 t7)
  have ins: "inside (unat m) (unat m + ?top) (ld_mem s) mem7"
    using inside_trans [OF in5 inside_mono [OF t(2)]] te(1,3) by (simp add: app4)
  have same: "ignore_validator_result nap7 = ignore_validator_result ?nap" "bundle_size nap7 = bundle_size ?nap" "bundle_mask nap7 = bundle_mask ?nap"
      "entry_pt nap7 = entry_pt ?nap" "text_mem nap7 = unat m + 0x20000"
    using v(2) by (simp_all add: sa app4)
  have spn: "space_ok nap7" using sp(1) by (simp add: sa space_ok_def)
  have "entry_pt ?nap < te" using ent(2) g by (simp add: word_less_nat_alt)
  moreover have "b = e \<or> te = b" "0x20000 \<le> unat e" using g by (blast, simp)
  ultimately show ?thesis
    unfolding loaded_def im(1,2) t7 same using flow [unfolded im(1,2)] cp sh tr ins l(3) ent(1) te(2) bnd(1,3) pl(1) spn e_top by (intro conjI) simp_all
qed

lemma headers_error: "load_headers al gp s \<noteq> Returns (Inl LOAD_OK, s')"
proof
  assume run: "load_headers al gp s = Returns (Inl LOAD_OK, s')"
  have acc: "accept_layout img g l t \<noteq> Returns (Inl LOAD_OK, s')" for img g l t
    by (auto simp: accept_layout_def Let_def split: if_splits)
  have new: "NaClElfImageNew al gp \<noteq> Returns (Inl LOAD_OK, g)" for g
    by (auto simp: NaClElfImageNew_def Let_def split: if_splits prod.splits)
  have ab: "\<not> NACL_MAX_ADDR_BITS < addr_bits (ld_app s)" using run by (auto simp: load_headers_def)
  then obtain r g where n: "NaClElfImageNew al gp = Returns (r, g)"
    using run by (cases "NaClElfImageNew al gp") (auto simp: load_headers_def Let_def)
  then obtain img where "r = Inr img" using run ab new by (cases r) (auto simp: load_headers_def Let_def)
  then show False using run acc ab n by (auto simp: load_headers_def Let_def split: if_splits prod.splits)
qed

lemma NaClAppLoadFile_ok:
  assumes os: "os_ok os ts" and ts: "templates_ok ts (ld_mem s)" and gp: "gio_ok gp" and fr: "fresh s"
    and run: "NaClAppLoadFile T cpu valloc os ts al gp s = Returns (LOAD_OK, s')"
  shows "loaded T cpu valloc ts s s'"
proof -
  obtain r s1 where h: "load_headers al gp s = Returns (r, s1)"
    using run by (cases "load_headers al gp s") (auto simp: NaClAppLoadFile_def)
  have "r \<noteq> Inl rc" for rc using run h headers_error by (auto simp: NaClAppLoadFile_def)
  then obtain img gp' where r: "r = Inr (img, gp')" by (cases r) auto
  note l = load_headers_ok [OF gp fr h [unfolded r]]
  have "loaded T cpu valloc ts s1 s'"
    using run h r l ts by (intro load_image_ok [OF os]) (simp_all add: NaClAppLoadFile_def)
  then show ?thesis unfolding loaded_def l(4,6) .
qed

end
