(* ===== verification/Load_Safe.thy ===== *)
theory Load_Safe
  imports Load_File Sample_Image
begin

text \<open>
  What loading a program guarantees, from the file to the protected address space, and a program that loads.
\<close>

subsection \<open>Guarantees\<close>

lemma loaded_page:
  assumes "loaded T cpu valloc ts s s'" "u < unat (dynamic_text_end (ld_app s'))"
  shows "ld_prot s' ((unat (mem_start (ld_app s')) + u) div 4096) =
    (if u < 0x10000 then NACL_ABI_PROT_NONE else NACL_ABI_PROT_READ OR NACL_ABI_PROT_EXEC)"
proof -
  let ?m = "unat (mem_start (ld_app s'))"
  have m: "4096 dvd ?m" and cp: "code_pages s'" using assms(1) by (simp_all add: loaded_def)
  have "(?m + u) div 4096 = ?m div 4096 + u div 4096" using m by (elim dvdE) simp
  moreover have "u div 4096 * 4096 < unat (dynamic_text_end (ld_app s'))" using assms(2) by (meson div_times_less_eq_dividend le_less_trans)
  moreover have "u div 4096 < 16 \<longleftrightarrow> u < 0x10000" by (simp add: div_less_iff_less_mult)
  ultimately show ?thesis using cp by (simp add: code_pages_def)
qed

lemma loaded_flow:
  assumes ld: "loaded T cpu valloc ts s s'" and use: "\<not> ignore_validator_result (ld_app s)" and T: "tables_ok T"
  defines "nap \<equiv> ld_app s'"
  assumes run: "(cf_step T (ld_mem s') (text_mem nap) NACL_TRAMPOLINE_END (static_text_end nap))\<^sup>*\<^sup>* (entry_pt nap, regs0) (pc, regs)"
  shows "if 0x20000 \<le> pc \<and> pc < static_text_end nap
    then let p = unat (mem_start nap) + unat pc; d = decode_at T (ld_mem s') pc p
      in ld_mem s' p = kNaClFullStop \<or> legal_type (insttype (opinfo d)) \<and> prefix_usage_ok d
    else 16 dvd unat pc"
proof -
  obtain nap0 sa mem mem' i i' where v: "NaClValidateImage T cpu valloc i nap0 mem = Some (mem', i', LOAD_OK)" "nap = nap0\<lparr>springboard_addr := sa\<rparr>"
      "agrees_from (ld_mem s') mem' (text_mem nap0)"
    using conjunct1 [OF ld [unfolded loaded_def], folded nap_def] by (elim exE conjE) (rule that)
  have eq: "static_text_end nap0 = static_text_end nap" "bundle_mask nap0 = bundle_mask nap" "text_mem nap0 = text_mem nap"
      "ignore_validator_result nap0 = ignore_validator_result nap"
    using v(2) by simp_all
  have l: "text_mem nap = unat (mem_start nap) + 0x20000" "unat (static_text_end nap) + 32 \<le> 2 ^ 32" "entry_pt nap AND bundle_mask nap = 0"
      "0x10000 dvd unat (static_text_end nap)" "bundle_size nap = 16 \<or> bundle_size nap = 32" "\<not> ignore_validator_result nap"
    using ld use by (simp_all add: loaded_def nap_def)
  note f = image_flow [OF v(1) _ T _ v(3), unfolded eq, OF l(6,2,3) run, unfolded NACL_TRAMPOLINE_END_val]
  show ?thesis
  proof (cases "0x20000 \<le> pc \<and> pc < static_text_end nap")
    case True
    then have "unat (pc - 0x20000) = unat pc - 0x20000" "0x20000 \<le> unat pc" by (simp_all add: unat_sub_le word_le_nat_alt)
    then have "text_mem nap + unat (pc - 0x20000) = unat (mem_start nap) + unat pc" using l(1) by simp
    then show ?thesis using f True by (simp add: Let_def)
  next
    case False
    have "16 dvd unat pc" if "pc AND bundle_mask nap = 0"
    proof -
      have "bundle_mask nap = mask 4 \<or> bundle_mask nap = mask 5" using l(5) by (auto simp: bundle_mask_def mask_eq_exp_minus_1)
      moreover have "unat (pc AND mask 4) = unat pc mod 2 ^ 4" "unat (pc AND mask 5) = unat pc mod 2 ^ 5"
        by (metis take_bit_eq_mask take_bit_eq_mod unsigned_take_bit_eq)+
      ultimately have "unat pc mod 16 = 0 \<or> unat pc mod 32 = 0" using that by auto
      then show ?thesis by presburger
    qed
    moreover have "16 dvd unat (static_text_end nap)" using l(4) by (rule dvd_trans [rotated]) simp
    ultimately show ?thesis using f False by auto
  qed
qed

text \<open>
  C2: a loaded program stays in its sandbox. When \<open>NaClAppLoadFile\<close> reports success and the validator's verdict is not overridden, execution
  from the entry point only ever reaches: an inaccessible page below the trampolines; a halt or the start of a whole trampoline; in the
  program's code, a halt or an instruction the validator permits; and behind the code, in the region for dynamic code, a halt that the
  pages of the shared object show. Everything else lies outside the code segment.
\<close>

theorem load_control_flow:
  assumes os: "os_ok os ts" and ts: "templates_ok ts (ld_mem s)" and gp: "gio_ok gp" and fr: "fresh s" and T: "tables_ok T"
    and use: "\<not> ignore_validator_result (ld_app s)"
    and load: "NaClAppLoadFile T cpu valloc os ts al gp s = Returns (LOAD_OK, s')"
    and run: "(cf_step T (ld_mem s') (text_mem (ld_app s')) NACL_TRAMPOLINE_END (static_text_end (ld_app s')))\<^sup>*\<^sup>*
      (entry_pt (ld_app s'), regs0) (pc, regs)"
  defines "p \<equiv> unat (mem_start (ld_app s')) + unat pc"
  shows "if pc < 0x10000 then ld_prot s' (p div 4096) = NACL_ABI_PROT_NONE
    else if pc < 0x20000 then ld_mem s' p = NACL_HALT_OPCODE \<or> (\<forall>k<tramp_len ts. ld_mem s' (p + k) = trampoline_byte ts (ld_mem s') k)
    else if pc < static_text_end (ld_app s')
      then ld_mem s' p = NACL_HALT_OPCODE \<or>
        (let d = decode_at T (ld_mem s') pc p in legal_type (insttype (opinfo d)) \<and> prefix_usage_ok d)
    else if pc < dynamic_text_end (ld_app s') then \<exists>x. shm_at (ld_pages s') p = Returns x \<and> ld_shm s' x = NACL_HALT_OPCODE
    else True"
proof -
  have ld: "loaded T cpu valloc ts s s'" by (rule NaClAppLoadFile_ok [OF os ts gp fr load])
  let ?nap = "ld_app s'"
  note f = loaded_flow [OF ld use T run]
  have hlt: "kNaClFullStop = NACL_HALT_OPCODE" by (simp add: nacl_consts)
  have l: "0x20000 \<le> unat (dynamic_text_end ?nap)" "trampolines_ready ts s'" "text_shared s'"
      "dynamic_text_start ?nap = dynamic_text_end ?nap \<or> static_text_end ?nap = dynamic_text_start ?nap"
      "unat (dynamic_text_start ?nap) \<le> unat (static_text_end ?nap)"
    using ld by (simp_all add: loaded_def)
  consider "unat pc < 0x10000" | "0x10000 \<le> unat pc" "unat pc < 0x20000" | "0x20000 \<le> unat pc" "pc < static_text_end ?nap"
    | "0x20000 \<le> unat pc" "\<not> pc < static_text_end ?nap" by linarith
  then show ?thesis
  proof cases
    case 1
    then show ?thesis using loaded_page [OF ld, of "unat pc"] l(1) by (simp add: p_def word_less_nat_alt)
  next
    case 2
    then have "16 dvd unat pc" using f by (simp add: word_le_nat_alt split: if_splits)
    then show ?thesis
      using l(2) [unfolded trampolines_ready_def Let_def, rule_format, of "unat pc"] 2 by (simp add: p_def word_less_nat_alt)
  next
    case 3
    then show ?thesis using f by (simp add: p_def word_less_nat_alt word_le_nat_alt Let_def hlt)
  next
    case 4
    show ?thesis
    proof (cases "pc < dynamic_text_end ?nap")
      case True
      then have "static_text_end ?nap = dynamic_text_start ?nap" "unat pc - unat (dynamic_text_start ?nap) < unat (dynamic_text_end ?nap) - unat (dynamic_text_start ?nap)"
          "unat (dynamic_text_start ?nap) \<le> unat pc"
        using 4 l(4,5) by (auto simp: word_less_nat_alt)
      then show ?thesis using l(3) 4 True unfolding text_shared_def Let_def by (auto simp: p_def word_less_nat_alt add.assoc)
    qed (use 4 in \<open>simp add: word_less_nat_alt\<close>)
  qed
qed

text \<open>
  C9: what loading protects. After a successful load every page of the code segment can be read and executed and not written, but for
  the first 64K, which are inaccessible.
\<close>

theorem load_write_protected:
  assumes os: "os_ok os ts" and ts: "templates_ok ts (ld_mem s)" and gp: "gio_ok gp" and fr: "fresh s"
    and load: "NaClAppLoadFile T cpu valloc os ts al gp s = Returns (LOAD_OK, s')"
    and u: "u < unat (dynamic_text_end (ld_app s'))"
  shows "ld_prot s' ((unat (mem_start (ld_app s')) + u) div 4096) =
    (if u < 0x10000 then NACL_ABI_PROT_NONE else NACL_ABI_PROT_READ OR NACL_ABI_PROT_EXEC)"
  by (rule loaded_page [OF NaClAppLoadFile_ok [OF os ts gp fr load] u])

text \<open>
  C11: loading writes to the new address space only. When \<open>NaClAppLoadFile\<close> succeeds, every byte of the runtime's own memory, outside
  the pages it allocated for the program, is what it was before.
\<close>

theorem load_confined:
  assumes os: "os_ok os ts" and ts: "templates_ok ts (ld_mem s)" and gp: "gio_ok gp" and fr: "fresh s"
    and load: "NaClAppLoadFile T cpu valloc os ts al gp s = Returns (LOAD_OK, s')"
    and out: "a < unat (mem_start (ld_app s')) \<or> unat (mem_start (ld_app s')) + 2 ^ unat (addr_bits (ld_app s')) \<le> a"
  shows "ld_mem s' a = ld_mem s a"
proof -
  have "inside (unat (mem_start (ld_app s'))) (unat (mem_start (ld_app s')) + 2 ^ unat (addr_bits (ld_app s'))) (ld_mem s) (ld_mem s')"
    using NaClAppLoadFile_ok [OF os ts gp fr load] by (simp add: loaded_def)
  then show ?thesis using out unfolding inside_def by blast
qed

subsection \<open>A program that loads\<close>

definition load_sample_os :: load_os where
  "load_sample_os = \<lparr>lo_host = dyn_os, lo_pages = (\<lambda>n. if n = 0x10000000 then Some 0x10000000 else None), lo_madvise = (\<lambda>_ _. True),
     lo_mprotect = (\<lambda>a _ _. 4096 dvd unat a), lo_shm = (\<lambda>_. None), lo_alloc = (\<lambda>_. True)\<rparr>"

definition load_sample :: loader where
  "load_sample = \<lparr>ld_app = sample_nap\<lparr>addr_bits := 28, stack_size := 0x10000, mem_start := 0\<rparr>, use_shm_for_dynamic_text = False, text_shm = None,
     mem_map = \<lparr>vmentry = replicate 5 None, nvalid = 0, vm_size = 5, is_sorted = True\<rparr>, ld_refs = Map.empty, ld_mem = (\<lambda>_. 0xf4),
     ld_prot = (\<lambda>_. 0), ld_pages = Map.empty, ld_shm = (\<lambda>_. 0), ld_inited = False\<rparr>"

definition sample_gp :: GioMemoryFile where
  "sample_gp = \<lparr>gio_buffer = sample_elf, gio_len = 89, gio_curpos = 84\<rparr>"

lemma load_sample_ok:
  "os_ok load_sample_os sample_templates" "templates_ok sample_templates (ld_mem load_sample)" "fresh load_sample"
  "\<not> ignore_validator_result (ld_app load_sample)"
  by (auto simp: os_ok_def apart_def load_sample_os_def templates_ok_def sample_templates_def load_sample_def fresh_def sample_nap_def nacl_consts
      NaClRoundAllocPage_def split: if_splits)

definition sample_app :: NaClApp where
  "sample_app = (ld_app load_sample)\<lparr>static_text_end := 0x20005, rodata_start := 0, data_start := 0, break_addr := 0x20005, data_end := 0x20005,
     bundle_size := 32, entry_pt := 0x20000\<rparr>"

lemma sample_headers:
  "load_headers True (GioMemoryFileCtor sample_elf 89) load_sample = Returns (Inr (sample_image True, sample_gp), load_sample\<lparr>ld_app := sample_app\<rparr>)"
proof -
  have c: "NaClElfImageValidateAbi (sample_image False) = LOAD_OK" "NaClElfImageValidateElfHeader (sample_image False) = LOAD_OK"
      "NaClElfImageGetBundleSize (sample_image True) = Returns 32" "NaClElfImageGetEntryPoint (sample_image True) = 0x20000"
    by code_simp+
  have app: "addr_bits (ld_app load_sample) = 28" "NaClRoundAllocPage 0x10000 = 0x10000" "stack_size (ld_app load_sample) = 0x10000"
    by (simp_all add: load_sample_def NaClRoundAllocPage_def nacl_consts)
  define l where "l = sample_layout\<lparr>l_static_text_end := 0x20005, l_max_vaddr := 0x20005\<rparr>"
  have lay: "\<lparr>l_static_text_end = static_text_end (ld_app load_sample), l_rodata_start = rodata_start (ld_app load_sample), l_rodata_end = 0,
                        l_data_start = data_start (ld_app load_sample), l_data_end = 0, l_max_vaddr = 0\<rparr> = sample_layout\<lparr>l_static_text_end := 0x20005\<rparr>"
    by (simp add: load_sample_def sample_nap_def sample_layout_def)
  have v: "NaClElfImageValidateProgramHeaders (sample_image False) 28 (sample_layout\<lparr>l_static_text_end := 0x20005\<rparr>) = (LOAD_OK, sample_image True, l)"
    unfolding l_def by code_simp
  have err: "layout_error sample_app l = LOAD_OK" unfolding sample_app_def load_sample_def l_def by code_simp
  have ap: "(ld_app load_sample)\<lparr>stack_size := 0x10000, static_text_end := l_static_text_end l, rodata_start := l_rodata_start l,
      data_start := l_data_start l, break_addr := l_max_vaddr l, data_end := l_max_vaddr l, bundle_size := 32, entry_pt := 0x20000\<rparr> = sample_app"
    by (simp add: load_sample_def sample_app_def l_def sample_layout_def)
  have acc: "accept_layout (sample_image True) sample_gp l (load_sample\<lparr>ld_app := (ld_app load_sample)\<lparr>stack_size := 0x10000, static_text_end := l_static_text_end l,
      rodata_start := l_rodata_start l, data_start := l_data_start l\<rparr>\<rparr>) = Returns (Inr (sample_image True, sample_gp), load_sample\<lparr>ld_app := sample_app\<rparr>)"
    by (simp add: accept_layout_def Let_def c ap err)
  show ?thesis
    by (simp add: load_headers_def Let_def app lay sample_elf_new c v acc NACL_MAX_ADDR_BITS_def flip: sample_gp_def)
qed

text \<open>Memory after the allocation of the address space and the load of the text segment, and after the halts behind it.\<close>

definition sample_loaded :: loader where
  "sample_loaded = load_sample\<lparr>ld_app := sample_app\<lparr>mem_start := 0x10000000, dynamic_text_start := 0x30000, dynamic_text_end := 0x30000, static_text_end := 0x30000\<rparr>,
     ld_mem := (\<lambda>a. if 0x10020005 \<le> a \<and> a < 0x10030000 then 0xf4
        else store_bytes (clear_mem (clear_mem (\<lambda>_. 0xf4) 0x10000000 0x10000000) 0x10030000 0xffc0000) 0x10020000 [0x90, 0x90, 0x90, 0x90, 0xf4] a),
     ld_prot := set_prot (set_prot (\<lambda>_. 0) 0x10000000 0x10000000 7) 0x10030000 0xffc0000 0\<rparr>"

lemma sample_space_alloc:
  "NaClAllocAddrSpace load_sample_os (load_sample\<lparr>ld_app := sample_app\<rparr>) = Returns (LOAD_OK, load_sample\<lparr>ld_app := sample_app\<lparr>mem_start := 0x10000000\<rparr>,
     ld_mem := clear_mem (clear_mem (\<lambda>_. 0xf4) 0x10000000 0x10000000) 0x10030000 0xffc0000,
     ld_prot := set_prot (set_prot (\<lambda>_. 0) 0x10000000 0x10000000 7) 0x10030000 0xffc0000 0\<rparr>)"
  by (simp add: NaClAllocAddrSpace_def NaClAllocateSpace_def NaCl_page_alloc_def Let_def load_sample_os_def load_sample_def sample_app_def
      NaClRoundAllocPage_def NaClTruncAllocPage_def nacl_consts NaCl_madvise_def NaCl_mprotect_def sample_nap_def)

lemma sample_writable:
  "0x10000000 \<le> a \<Longrightarrow> a < 0x10030000 \<Longrightarrow> writable (set_prot (set_prot (\<lambda>_. 0) 0x10000000 0x10000000 7) 0x10030000 0xffc0000 0) a"
  by (auto simp: writable_def set_prot_def nacl_consts)

lemma sample_segment:
  assumes "\<And>a. 0x10020000 \<le> a \<Longrightarrow> a < 0x10020005 \<Longrightarrow> wr a"
  shows "\<exists>gp. NaClElfImageLoad wr (sample_image True) sample_gp 28 0x10000000 mem = Returns (LOAD_OK, gp, store_bytes mem 0x10020000 [0x90, 0x90, 0x90, 0x90, 0xf4])"
proof -
  have n: "unat (e_phnum (Ehdr_of sample_elf)) = 1" by code_simp
  have s: "gio_seek_set sample_gp 84 = (84, sample_gp)" by code_simp
  have rd: "GioMemoryFileRead sample_gp 5 = Returns (5, [0x90, 0x90, 0x90, 0x90, 0xf4], sample_gp\<lparr>gio_curpos := 89\<rparr>)" by code_simp
  show ?thesis
    using s rd assms by (simp add: NaClElfImageLoad_def sample_image_def n sample_phdr_def Let_def load_segments.simps)
qed

lemma sample_fill:
  assumes "NaClAllocAddrSpace load_sample_os (load_sample\<lparr>ld_app := sample_app\<rparr>) = Returns (LOAD_OK, s1)"
  shows "\<exists>s2 gp3 mem3. NaClMakeDynamicTextShared load_sample_os s1 = Returns (LOAD_OK, s2) \<and>
    NaClElfImageLoad (writable (ld_prot s2)) (sample_image True) sample_gp (addr_bits (ld_app s2)) (mem_start (ld_app s2)) (ld_mem s2) = Returns (LOAD_OK, gp3, mem3) \<and>
    NaClFillEndOfTextRegion (s2\<lparr>ld_mem := mem3\<rparr>) = Returns sample_loaded"
proof -
  have s1: "s1 = load_sample\<lparr>ld_app := sample_app\<lparr>mem_start := 0x10000000\<rparr>,
     ld_mem := clear_mem (clear_mem (\<lambda>_. 0xf4) 0x10000000 0x10000000) 0x10030000 0xffc0000,
     ld_prot := set_prot (set_prot (\<lambda>_. 0) 0x10000000 0x10000000 7) 0x10030000 0xffc0000 0\<rparr>"
    using assms sample_space_alloc by simp
  define s2 where "s2 = s1\<lparr>ld_app := (ld_app s1)\<lparr>dynamic_text_start := 0x30000, dynamic_text_end := 0x30000\<rparr>\<rparr>"
  have d: "NaClMakeDynamicTextShared load_sample_os s1 = Returns (LOAD_OK, s2)"
    by (simp add: NaClMakeDynamicTextShared_def s2_def s1 Let_def load_sample_def sample_app_def NaClRoundAllocPage_def NaClEndOfStaticText_def nacl_consts)
  have pr: "ld_prot s2 = set_prot (set_prot (\<lambda>_. 0) 0x10000000 0x10000000 7) 0x10030000 0xffc0000 0" "addr_bits (ld_app s2) = 28" "mem_start (ld_app s2) = 0x10000000"
      "static_text_end (ld_app s2) = 0x20005"
    by (simp_all add: s2_def s1 sample_app_def load_sample_def)
  obtain gp3 where e: "NaClElfImageLoad (writable (ld_prot s2)) (sample_image True) sample_gp (addr_bits (ld_app s2)) (mem_start (ld_app s2)) (ld_mem s2) =
      Returns (LOAD_OK, gp3, store_bytes (ld_mem s2) 0x10020000 [0x90, 0x90, 0x90, 0x90, 0xf4])"
    using sample_segment [of "writable (ld_prot s2)" "ld_mem s2"] sample_writable by (auto simp: pr)
  have c: "NaClRoundAllocPage 0x20025 = 0x30000" "NACL_HALT_SLED_SIZE = 32" "NACL_MAP_PAGESIZE = 0x10000" "NACL_HALT_LEN = 1"
      "NACL_HALT_OPCODE = 0xf4"
    by (simp_all add: NaClRoundAllocPage_def nacl_consts)
  have w: "\<forall>a\<in>{0x10020005..<0x10030000}. writable (ld_prot s2) a" unfolding pr(1) using sample_writable by auto
  define mem3 where "mem3 = store_bytes (ld_mem s2) 0x10020000 [0x90, 0x90, 0x90, 0x90, 0xf4]"
  have "NaClFillEndOfTextRegion (s2\<lparr>ld_mem := mem3\<rparr>) =
      Returns (s2\<lparr>ld_mem := (\<lambda>a. if 0x10020005 \<le> a \<and> a < 0x10030000 then 0xf4 else mem3 a), ld_app := (ld_app s2)\<lparr>static_text_end := 0x30000\<rparr>\<rparr>)"
    using w unfolding NaClFillEndOfTextRegion_def Let_def NaClFillMemoryRegionWithHalt_def c(5)
    by (simp add: pr(2-4) c del: upt_rec_numeral cong: if_cong)
  also have "\<dots> = Returns sample_loaded" by (simp add: sample_loaded_def s2_def s1 mem3_def load_sample_def cong: if_cong)
  finally have "NaClFillEndOfTextRegion (s2\<lparr>ld_mem := mem3\<rparr>) = Returns sample_loaded" .
  then show ?thesis using d e unfolding mem3_def by blast
qed


lemma sample_validated:
  "NaClValidateImage sample_tables sample_cpu (\<lambda>_ _. True) (ld_inited sample_loaded) (ld_app sample_loaded) (ld_mem sample_loaded) = Some (ld_mem sample_loaded, True, LOAD_OK)"
proof (rule NaClValidateImage_plain)
  have b: "store_bytes mem 0x10020000 [0x90, 0x90, 0x90, 0x90, 0xf4] a \<in> {0x90, 0xf4}" if "0x10020000 \<le> a" "a < 0x10020005" for a mem
  proof -
    have "a - 0x10020000 \<in> {0, 1, 2, 3, 4}" using that by auto
    then show ?thesis using that by (auto simp: store_bytes_def)
  qed
  show "\<forall>a. 0x20000 \<le> a \<and> a < unat (static_text_end (ld_app sample_loaded)) \<longrightarrow> plain sample_tables (ld_mem sample_loaded (unat (mem_start (ld_app sample_loaded)) + a))"
  proof (intro allI impI)
    fix a assume a: "0x20000 \<le> a \<and> a < unat (static_text_end (ld_app sample_loaded))"
    have "ld_mem sample_loaded (0x10000000 + a) \<in> {0x90, 0xf4}"
      using a b [of "0x10000000 + a"] by (auto simp: sample_loaded_def)
    then show "plain sample_tables (ld_mem sample_loaded (unat (mem_start (ld_app sample_loaded)) + a))"
      using plain_sample by (auto simp: sample_loaded_def)
  qed
qed (simp_all add: sample_loaded_def sample_app_def load_sample_def NACL_TRAMPOLINE_END_val sample_cpu_def)

lemma sample_protected:
  assumes "ld_app t = (ld_app sample_loaded)\<lparr>springboard_addr := sa\<rparr>" "mem_map t = mem_map load_sample"
  shows "\<exists>s'. NaClMemoryProtection load_sample_os t = Returns (LOAD_OK, s') \<and> ld_app s' = ld_app t"
  using assms
  by (simp add: NaClMemoryProtection_def lbind_def NaClMprotectGuards_def protect_text_def protect_dynamic_text_def protect_rodata_def
      protect_data_def protect_stack_def protect_region_def record_region_def NaCl_mprotect_def Let_def load_sample_os_def NaClSysToUser_def
      NaClUserToSys_def NaClIsUserAddr_def sample_loaded_def sample_app_def load_sample_def nacl_consts NaClRoundPage_def NaClTruncAllocPage_def NaClRoundAllocPage_def
      NaClVmmapAdd_def NaClVmmapEntryMake_def sample_nap_def)


lemma sample_loads:
  "\<exists>s'. NaClAppLoadFile sample_tables sample_cpu (\<lambda>_ _. True) load_sample_os sample_templates True (GioMemoryFileCtor sample_elf 89) load_sample =
     Returns (LOAD_OK, s') \<and> mem_start (ld_app s') = 0x10000000 \<and> addr_bits (ld_app s') = 28 \<and> entry_pt (ld_app s') = 0x20000 \<and>
     static_text_end (ld_app s') = 0x30000 \<and> dynamic_text_end (ld_app s') = 0x30000"
proof -
  obtain s1 where a: "NaClAllocAddrSpace load_sample_os (load_sample\<lparr>ld_app := sample_app\<rparr>) = Returns (LOAD_OK, s1)" using sample_space_alloc by blast
  obtain s2 gp3 mem3 where d: "NaClMakeDynamicTextShared load_sample_os s1 = Returns (LOAD_OK, s2)"
      "NaClElfImageLoad (writable (ld_prot s2)) (sample_image True) sample_gp (addr_bits (ld_app s2)) (mem_start (ld_app s2)) (ld_mem s2) = Returns (LOAD_OK, gp3, mem3)"
      "NaClFillEndOfTextRegion (s2\<lparr>ld_mem := mem3\<rparr>) = Returns sample_loaded"
    using sample_fill [OF a] by blast
  let ?nap = "ld_app sample_loaded"
  have sp: "space_ok ?nap" "17 \<le> unat (addr_bits ?nap)" "bundle_size ?nap = 16 \<or> bundle_size ?nap = 32"
      "outside ?nap (NaCl_trampoline_seg_code sample_templates) (NaCl_trampoline_seg_end sample_templates)"
    by (simp_all add: sample_loaded_def sample_app_def load_sample_def space_ok_def outside_def sample_templates_def)
  obtain mem6 where t: "NaClLoadTrampoline sample_templates ?nap (ld_mem sample_loaded) = Returns mem6"
    using NaClLoadTrampoline_spec [OF load_sample_ok(2) sp(1,2,4)] by blast
  obtain sa mem7 where b: "NaClLoadSpringboard sample_templates ?nap mem6 = Returns (?nap\<lparr>springboard_addr := sa\<rparr>, mem7)"
    using NaClLoadSpringboard_spec [OF load_sample_ok(2) sp(1-3)] by blast
  let ?t = "sample_loaded\<lparr>ld_mem := ld_mem sample_loaded, ld_inited := True\<rparr>\<lparr>ld_mem := mem7, ld_app := ?nap\<lparr>springboard_addr := sa\<rparr>\<rparr>"
  obtain s' where p: "NaClMemoryProtection load_sample_os ?t = Returns (LOAD_OK, s')" "ld_app s' = ?nap\<lparr>springboard_addr := sa\<rparr>"
    using sample_protected [of ?t sa] by (auto simp: sample_loaded_def)
  have "load_image sample_tables sample_cpu (\<lambda>_ _. True) load_sample_os sample_templates (sample_image True) sample_gp (load_sample\<lparr>ld_app := sample_app\<rparr>) =
      Returns (LOAD_OK, s')"
    using p(1) by (simp add: load_image_def lbind_def a d sample_validated t b Let_def)
  then have "NaClAppLoadFile sample_tables sample_cpu (\<lambda>_ _. True) load_sample_os sample_templates True (GioMemoryFileCtor sample_elf 89) load_sample =
      Returns (LOAD_OK, s')"
    by (simp add: NaClAppLoadFile_def sample_headers)
  then show ?thesis using p(2) by (auto simp: sample_loaded_def sample_app_def load_sample_def)
qed

text \<open>The properties on the sample program.\<close>

theorem load_control_flow_witness:
  "\<exists>s'. NaClAppLoadFile sample_tables sample_cpu (\<lambda>_ _. True) load_sample_os sample_templates True (GioMemoryFileCtor sample_elf 89) load_sample =
     Returns (LOAD_OK, s') \<and> (ld_mem s' 0x10020000 = NACL_HALT_OPCODE \<or> legal_type (insttype (opinfo (decode_at sample_tables (ld_mem s') 0x20000 0x10020000))))"
proof -
  obtain s' where l: "NaClAppLoadFile sample_tables sample_cpu (\<lambda>_ _. True) load_sample_os sample_templates True (GioMemoryFileCtor sample_elf 89) load_sample =
     Returns (LOAD_OK, s')" and app: "mem_start (ld_app s') = 0x10000000" "entry_pt (ld_app s') = 0x20000" "static_text_end (ld_app s') = 0x30000"
    using sample_loads by blast
  from load_control_flow [OF load_sample_ok(1,2) sample_elf_gio load_sample_ok(3) entries_ok_tables_ok [OF entries_ok_sample] load_sample_ok(4) l rtranclp.rtrancl_refl]
  have "ld_mem s' 0x10020000 = NACL_HALT_OPCODE \<or> legal_type (insttype (opinfo (decode_at sample_tables (ld_mem s') 0x20000 0x10020000)))"
    by (auto simp: app Let_def)
  with l show ?thesis by blast
qed

theorem load_write_protected_witness:
  "\<exists>s'. NaClAppLoadFile sample_tables sample_cpu (\<lambda>_ _. True) load_sample_os sample_templates True (GioMemoryFileCtor sample_elf 89) load_sample =
     Returns (LOAD_OK, s') \<and> ld_prot s' 0x10020 = NACL_ABI_PROT_READ OR NACL_ABI_PROT_EXEC"
proof -
  obtain s' where l: "NaClAppLoadFile sample_tables sample_cpu (\<lambda>_ _. True) load_sample_os sample_templates True (GioMemoryFileCtor sample_elf 89) load_sample =
     Returns (LOAD_OK, s')" and app: "mem_start (ld_app s') = 0x10000000" "dynamic_text_end (ld_app s') = 0x30000"
    using sample_loads by blast
  from load_write_protected [OF load_sample_ok(1,2) sample_elf_gio load_sample_ok(3) l, of "0x20000"]
  have "ld_prot s' 0x10020 = NACL_ABI_PROT_READ OR NACL_ABI_PROT_EXEC" by (simp add: app)
  with l show ?thesis by blast
qed

theorem load_confined_witness:
  "\<exists>s'. NaClAppLoadFile sample_tables sample_cpu (\<lambda>_ _. True) load_sample_os sample_templates True (GioMemoryFileCtor sample_elf 89) load_sample =
     Returns (LOAD_OK, s') \<and> ld_mem s' 0xfffffff = 0xf4 \<and> ld_mem s' 0x20000000 = 0xf4"
proof -
  obtain s' where l: "NaClAppLoadFile sample_tables sample_cpu (\<lambda>_ _. True) load_sample_os sample_templates True (GioMemoryFileCtor sample_elf 89) load_sample =
     Returns (LOAD_OK, s')" and app: "mem_start (ld_app s') = 0x10000000" "addr_bits (ld_app s') = 28"
    using sample_loads by blast
  note c = load_confined [OF load_sample_ok(1,2) sample_elf_gio load_sample_ok(3) l]
  have "ld_mem s' 0xfffffff = 0xf4" "ld_mem s' 0x20000000 = 0xf4" using c [of "0xfffffff"] c [of "0x20000000"] by (simp_all add: app load_sample_def)
  with l show ?thesis by blast
qed

end
