(* ===== verification/Vmmap_Entries.thy ===== *)
theory Vmmap_Entries
  imports Vmmap
begin

text \<open>
  The array of entries of the address space map: the entries in use, the references they hold, and what
  removing the marked entries and sorting do to them.
\<close>

declare RemoveMarked_outer.simps [simp del] NaClVmmapUpdate_loop.simps [simp del]
  bsearch_entries.simps [simp del] FindMapSpaceAbove_loop.simps [simp del]

subsection \<open>The entries of a map\<close>

definition ents :: "NaClVmmapEntry option list \<Rightarrow> nat \<Rightarrow> NaClVmmapEntry list" where
  "ents xs k = map the (take k xs)"

definition full :: "NaClVmmapEntry option list \<Rightarrow> nat \<Rightarrow> bool" where
  "full xs k \<longleftrightarrow> k \<le> length xs \<and> None \<notin> set (take k xs)"

lemma full_nth: "full xs k \<Longrightarrow> i < k \<Longrightarrow> xs ! i = Some (ents xs k ! i)"
proof -
  assume f: "full xs k" and i: "i < k"
  then have "xs ! i \<in> set (take k xs)" using nth_mem [of i "take k xs"] by (simp add: full_def)
  then have "xs ! i \<noteq> None" using f by (metis full_def)
  then show ?thesis using f i by (auto simp: full_def ents_def)
qed

lemma entry_at_full: "full xs k \<Longrightarrow> i < k \<Longrightarrow> entry_at xs i = Returns (ents xs k ! i)"
  using full_nth [of xs k i] by (simp add: entry_at_def full_def)

lemma length_ents [simp]: "full xs k \<Longrightarrow> length (ents xs k) = k"
  by (simp add: ents_def full_def)

lemma full_Suc: "full xs (Suc k) \<longleftrightarrow> full xs k \<and> k < length xs \<and> xs ! k \<noteq> None"
  by (auto simp: full_def take_Suc_conv_app_nth simp flip: not_None_eq)

lemma ents_Suc: "k < length xs \<Longrightarrow> ents xs (Suc k) = ents xs k @ [the (xs ! k)]"
  by (simp add: ents_def take_Suc_conv_app_nth)

lemma full_mono: "full xs k \<Longrightarrow> j \<le> k \<Longrightarrow> full xs j"
  by (auto simp: full_def dest: set_take_subset_set_take [THEN subsetD])

lemma full_cong: "take k xs = take k ys \<Longrightarrow> length xs = length ys \<Longrightarrow> full xs k \<longleftrightarrow> full ys k"
  by (simp add: full_def)

lemma ents_cong: "take k xs = take k ys \<Longrightarrow> ents xs k = ents ys k"
  by (simp add: ents_def)

lemma ents_nth: "full xs k \<Longrightarrow> i < k \<Longrightarrow> ents xs k ! i = the (xs ! i)"
  by (simp add: ents_def full_def)

subsection \<open>The references of a map\<close>

definition mo_refs :: "NaClVmmapEntry multiset \<Rightarrow> nat \<Rightarrow> nat" where
  "mo_refs M a = size {#e \<in># M. map_option mo_ndp (nmop e) = Some a#}"

lemma mo_refs_simps [simp]:
  "mo_refs {#} a = 0"
  "mo_refs (M + N) a = mo_refs M a + mo_refs N a"
  "mo_refs (add_mset e M) a = (if map_option mo_ndp (nmop e) = Some a then 1 else 0) + mo_refs M a"
  by (simp_all add: mo_refs_def)

definition vm_refs :: "(nat \<Rightarrow> nat) \<Rightarrow> NaClVmmapEntry multiset \<Rightarrow> refs \<Rightarrow> bool" where
  "vm_refs base M h \<longleftrightarrow> counts (\<lambda>a. base a + mo_refs M a) h"

lemma EntryFree_spec:
  assumes "vm_refs base (add_mset e M) h"
  shows "\<exists>h'. NaClVmmapEntryFree e h = Returns h' \<and> vm_refs base M h'"
proof (cases "nmop e")
  case None
  then show ?thesis
    using assms by (simp add: vm_refs_def NaClVmmapEntryFree_def NaClMemObjSafeDtor_def)
next
  case (Some mo)
  let ?n = "\<lambda>a. base a + mo_refs (add_mset e M) a" and ?a = "mo_ndp mo"
  have c: "counts ?n h" and pos: "0 < ?n ?a" using assms Some by (simp_all add: vm_refs_def)
  obtain h' where h': "NaClDescUnref ?a h = Returns h'" "counts (?n(?a := ?n ?a - 1)) h'"
    using Unref_counts [OF c pos] by blast
  have "?n(?a := ?n ?a - 1) = (\<lambda>a. base a + mo_refs M a)" by (auto simp: Some)
  then show ?thesis
    using h' Some by (simp add: vm_refs_def NaClVmmapEntryFree_def NaClMemObjSafeDtor_def NaClMemObjDtor_def)
qed

subsection \<open>Removing marked entries\<close>

abbreviation live :: "NaClVmmapEntry \<Rightarrow> bool" where
  "live e \<equiv> \<not> removed e"

lemma tail_step:
  assumes f: "full xs (Suc k)" and r: "vm_refs base (mset (ents xs (Suc k))) h" and rm: "removed (the (xs ! k))"
  shows "\<exists>h1. RemoveMarked_tail (Suc k) xs h = RemoveMarked_tail k (xs[k := None]) h1 \<and>
    full (xs[k := None]) k \<and> ents (xs[k := None]) k = ents xs k \<and> vm_refs base (mset (ents xs k)) h1"
proof -
  let ?e = "the (xs ! k)"
  have fk: "full xs k" and k: "k < length xs" using f by (simp_all add: full_Suc)
  have ek: "ents xs (Suc k) = ents xs k @ [?e]" by (rule ents_Suc [OF k])
  have at: "entry_at xs k = Returns ?e" using f by (auto simp: entry_at_def full_Suc)
  have "vm_refs base (add_mset ?e (mset (ents xs k))) h" using r ek by simp
  then obtain h1 where h1: "NaClVmmapEntryFree ?e h = Returns h1" "vm_refs base (mset (ents xs k)) h1"
    using EntryFree_spec by blast
  have ys: "take k (xs[k := None]) = take k xs" "length (xs[k := None]) = length xs" by simp_all
  show ?thesis
    using at rm h1 fk full_cong [OF ys] ents_cong [OF ys(1)] by (intro exI [of _ h1]) simp
qed

lemma tail_live:
  assumes "full xs k" and "vm_refs base (mset (ents xs k)) h" and "\<exists>e\<in>set (ents xs k). live e"
  shows "\<exists>l xs' h'. RemoveMarked_tail k xs h = Returns (l, xs', h') \<and> l < k \<and> length xs' = length xs \<and>
    take (Suc l) xs' = take (Suc l) xs \<and> live (the (xs ! l)) \<and>
    filter_mset live (mset (ents xs (Suc l))) = filter_mset live (mset (ents xs k)) \<and>
    vm_refs base (mset (ents xs (Suc l))) h'"
  using assms
proof (induction k arbitrary: xs h)
  case (Suc k)
  have k: "k < length xs" using Suc.prems(1) by (simp add: full_Suc)
  have ek: "ents xs (Suc k) = ents xs k @ [the (xs ! k)]" by (rule ents_Suc [OF k])
  show ?case
  proof (cases "removed (the (xs ! k))")
    case False
    moreover have "entry_at xs k = Returns (the (xs ! k))" using Suc.prems(1) by (auto simp: entry_at_def full_Suc)
    ultimately show ?thesis using Suc.prems(2) by simp
  next
    case True
    let ?ys = "xs[k := None]"
    obtain h1 where h1: "RemoveMarked_tail (Suc k) xs h = RemoveMarked_tail k ?ys h1" "full ?ys k" "ents ?ys k = ents xs k"
        "vm_refs base (mset (ents xs k)) h1"
      using tail_step [OF Suc.prems(1,2) True] by blast
    have lv: "\<exists>e\<in>set (ents ?ys k). live e" using Suc.prems(3) True by (simp add: ek h1(3))
    have rf: "vm_refs base (mset (ents ?ys k)) h1" using h1(3,4) by simp
    obtain l xs' h' where
      l: "RemoveMarked_tail k ?ys h1 = Returns (l, xs', h')" "l < k" "length xs' = length ?ys"
        "take (Suc l) xs' = take (Suc l) ?ys" "live (the (?ys ! l))"
        "filter_mset live (mset (ents ?ys (Suc l))) = filter_mset live (mset (ents ?ys k))"
        "vm_refs base (mset (ents ?ys (Suc l))) h'"
      using Suc.IH [OF h1(2) rf lv] by blast
    have "ents ?ys (Suc l) = ents xs (Suc l)" using l(2) by (simp add: ents_def)
    then show ?thesis using l h1(1,3) True ek by (intro exI [of _ l] exI [of _ xs'] exI [of _ h']) simp
  qed
qed (simp add: ents_def)

lemma tail_dead:
  assumes "full xs k" and "vm_refs base (mset (ents xs k)) h" and "\<forall>e\<in>set (ents xs k). removed e"
  shows "\<exists>xs' h'. RemoveMarked_tail k xs h = Returns (0, xs', h') \<and> length xs' = length xs \<and>
    (xs ! 0 = None \<or> 0 < k \<longrightarrow> 0 < length xs \<longrightarrow> xs' ! 0 = None)"
  using assms
proof (induction k arbitrary: xs h)
  case (Suc k)
  have k: "k < length xs" using Suc.prems(1) by (simp add: full_Suc)
  have ek: "ents xs (Suc k) = ents xs k @ [the (xs ! k)]" by (rule ents_Suc [OF k])
  let ?ys = "xs[k := None]"
  obtain h1 where h1: "RemoveMarked_tail (Suc k) xs h = RemoveMarked_tail k ?ys h1" "full ?ys k" "ents ?ys k = ents xs k"
      "vm_refs base (mset (ents xs k)) h1"
    using tail_step [OF Suc.prems(1,2)] Suc.prems(3) ek by auto
  have dd: "\<forall>e\<in>set (ents ?ys k). removed e" using Suc.prems(3) ek h1(3) by simp
  have rf: "vm_refs base (mset (ents ?ys k)) h1" using h1(3,4) by simp
  obtain xs' h' where r:
    "RemoveMarked_tail k ?ys h1 = Returns (0, xs', h')" "length xs' = length ?ys"
    "?ys ! 0 = None \<or> 0 < k \<longrightarrow> 0 < length ?ys \<longrightarrow> xs' ! 0 = None"
    using Suc.IH [OF h1(2) rf dd] by (elim exE conjE) (rule that)
  show ?case
    unfolding h1(1) by (intro exI [of _ xs'] exI [of _ h'] conjI) (use r k in auto)
qed auto

lemma inner_spec:
  assumes "i < l" and "full xs l" and "vm_refs base (mset (ents xs l)) h" and "live (the (xs ! i))"
  shows "\<exists>l' xs' h'. RemoveMarked_inner i l xs h = Returns (l', xs', h') \<and> i \<le> l' \<and> l' < l \<and> length xs' = length xs \<and>
    take (Suc l') xs' = take (Suc l') xs \<and> live (the (xs ! l')) \<and>
    filter_mset live (mset (ents xs (Suc l'))) = filter_mset live (mset (ents xs l)) \<and>
    vm_refs base (mset (ents xs (Suc l'))) h'"
  using assms
proof (induction l arbitrary: xs h)
  case (Suc l)
  have l: "l < length xs" using Suc.prems(2) by (simp add: full_Suc)
  have el: "ents xs (Suc l) = ents xs l @ [the (xs ! l)]" by (rule ents_Suc [OF l])
  have at: "entry_at xs l = Returns (the (xs ! l))" using Suc.prems(2) by (auto simp: entry_at_def full_Suc)
  show ?case
  proof (cases "l > i \<and> removed (the (xs ! l))")
    case False
    then have "live (the (xs ! l))" using Suc.prems(1,4) by (metis less_SucE)
    then show ?thesis using at Suc.prems(1,3) by auto
  next
    case True
    let ?ys = "xs[l := None]"
    have "vm_refs base (add_mset (the (xs ! l)) (mset (ents xs l))) h" using Suc.prems(3) el by simp
    then obtain h1 where h1: "NaClVmmapEntryFree (the (xs ! l)) h = Returns h1" "vm_refs base (mset (ents xs l)) h1"
      using EntryFree_spec by blast
    have ys: "take l ?ys = take l xs" "length ?ys = length xs" by simp_all
    have fy: "full ?ys l" "ents ?ys l = ents xs l" using Suc.prems(2) full_cong [OF ys] ents_cong [OF ys(1)] by (simp_all add: full_Suc)
    have "live (the (?ys ! i))" using Suc.prems(4) True by simp
    moreover have "vm_refs base (mset (ents ?ys l)) h1" using fy(2) h1(2) by simp
    moreover have "i < l" using True by simp
    ultimately obtain l' xs' h' where
      r: "RemoveMarked_inner i l ?ys h1 = Returns (l', xs', h')" "i \<le> l'" "l' < l" "length xs' = length ?ys"
        "take (Suc l') xs' = take (Suc l') ?ys" "live (the (?ys ! l'))"
        "filter_mset live (mset (ents ?ys (Suc l'))) = filter_mset live (mset (ents ?ys l))"
        "vm_refs base (mset (ents ?ys (Suc l'))) h'"
      using Suc.IH [of ?ys h1] fy(1) by blast
    have "ents ?ys (Suc l') = ents xs (Suc l')" using r(3) by (simp add: ents_def)
    then show ?thesis
      using r at True h1(1) fy(2) el by (intro exI [of _ l'] exI [of _ xs'] exI [of _ h']) simp
  qed
qed simp

lemma outer_spec:
  assumes "i \<le> Suc l" and "full xs (Suc l)" and "vm_refs base (mset (ents xs (Suc l))) h" and "live (the (xs ! l))"
    and "\<forall>j<i. live (the (xs ! j))"
  shows "\<exists>l' xs' h'. RemoveMarked_outer i l xs h = Returns (l', xs', h') \<and> l' \<le> l \<and> length xs' = length xs \<and>
    full xs' (Suc l') \<and> (\<forall>e\<in>set (ents xs' (Suc l')). live e) \<and>
    mset (ents xs' (Suc l')) = filter_mset live (mset (ents xs (Suc l))) \<and> vm_refs base (mset (ents xs' (Suc l'))) h'"
  using assms
proof (induction i l xs h rule: RemoveMarked_outer.induct)
  case (1 i l xs h)
  have len: "l < length xs" using "1.prems"(2) by (simp add: full_def)
  have at: "entry_at xs j = Returns (the (xs ! j))" if "j \<le> l" for j
    using entry_at_full [OF "1.prems"(2), of j] ents_nth [OF "1.prems"(2), of j] that by simp
  consider (stop) "\<not> i < l" | (skip) "i < l" "live (the (xs ! i))" | (move) "i < l" "removed (the (xs ! i))" by blast
  then show ?case
  proof cases
    case stop
    then have il: "l \<le> i" by simp
    have lv: "live e" if "e \<in> set (ents xs (Suc l))" for e
    proof -
      obtain j where j: "j < Suc l" "e = the (xs ! j)"
        using \<open>e \<in> set (ents xs (Suc l))\<close> len by (auto simp: ents_def in_set_conv_nth)
      then show ?thesis using "1.prems"(4,5) il by (cases "j = l") simp_all
    qed
    then have "filter_mset live (mset (ents xs (Suc l))) = mset (ents xs (Suc l))" by (simp add: filter_mset_eq_conv)
    then show ?thesis using stop "1.prems" lv by (subst RemoveMarked_outer.simps) auto
  next
    case skip
    have "\<forall>j<i + 1. live (the (xs ! j))" using "1.prems"(5) skip(2) by (auto simp: less_Suc_eq)
    with skip "1.prems" have "\<exists>l' xs' h'. RemoveMarked_outer (i + 1) l xs h = Returns (l', xs', h') \<and> l' \<le> l \<and> length xs' = length xs \<and>
      full xs' (Suc l') \<and> (\<forall>e\<in>set (ents xs' (Suc l')). live e) \<and>
      mset (ents xs' (Suc l')) = filter_mset live (mset (ents xs (Suc l))) \<and> vm_refs base (mset (ents xs' (Suc l'))) h'"
      by (intro "1.IH"(1) [OF skip(1) at]) simp_all
    then show ?thesis using skip at [of i] by (subst RemoveMarked_outer.simps) simp
  next
    case move
    let ?e = "the (xs ! i)" and ?ys = "xs[i := xs ! l, l := None]"
    have ents: "ents xs (Suc l) = ents xs l @ [the (xs ! l)]" by (rule ents_Suc [OF len])
    have il: "i < length (ents xs l)" using move(1) len by (simp add: ents_def)
    have ei: "ents xs l ! i = ?e" using move(1) len by (simp add: ents_def)
    have ey: "ents ?ys l = (ents xs l)[i := the (xs ! l)]"
      using move(1) len by (simp add: ents_def take_update_swap map_update list_update_beyond)
    have "?e \<in># mset (ents xs l)" using il ei by (metis nth_mem set_mset_mset)
    then have m1: "mset (ents xs (Suc l)) = add_mset ?e (mset (ents ?ys l))"
      using mset_update [OF il, of "the (xs ! l)"] by (simp add: ents ey ei insert_DiffM add_mset_commute)
    have fx: "full xs l" using "1.prems"(2) by (simp add: full_Suc)
    have fy: "full ?ys l"
    proof -
      have "take l ?ys = (take l xs)[i := xs ! l]"
        by (simp add: take_update_swap list_update_beyond)
      moreover have "xs ! l \<noteq> None" using "1.prems"(2) by (simp add: full_Suc)
      ultimately show ?thesis
        using fx set_update_subset_insert [of "take l xs" i "xs ! l"] unfolding full_def by auto
    qed
    have yi: "the (?ys ! i) = the (xs ! l)" and yj: "\<forall>j<i. ?ys ! j = xs ! j" using move(1) len by auto
    have "vm_refs base (add_mset ?e (mset (ents ?ys l))) h" using "1.prems"(3) m1 by simp
    then obtain h1 where h1: "NaClVmmapEntryFree ?e h = Returns h1" "vm_refs base (mset (ents ?ys l)) h1"
      using EntryFree_spec by blast
    have lvi: "live (the (?ys ! i))" using yi "1.prems"(4) by simp
    obtain l1 zs h2 where z: "RemoveMarked_inner i l ?ys h1 = Returns (l1, zs, h2)" "i \<le> l1" "l1 < l" "length zs = length ?ys"
        "take (Suc l1) zs = take (Suc l1) ?ys" "live (the (?ys ! l1))"
        "filter_mset live (mset (ents ?ys (Suc l1))) = filter_mset live (mset (ents ?ys l))"
        "vm_refs base (mset (ents ?ys (Suc l1))) h2"
      using inner_spec [OF move(1) fy h1(2) lvi] by blast
    have ez: "ents zs (Suc l1) = ents ?ys (Suc l1)" by (rule ents_cong [OF z(5)])
    have fz: "full zs (Suc l1)" using full_cong [OF z(5,4)] full_mono [OF fy, of "Suc l1"] z(3) by simp
    have zj: "zs ! j = ?ys ! j" if "j \<le> l1" for j
      using z(5) that by (metis le_imp_less_Suc nth_take)
    have lz: "live (the (zs ! l1))" using zj [of l1] z(6) by simp
    have front: "\<forall>j<i + 1. live (the (zs ! j))"
    proof (intro allI impI)
      fix j assume "j < i + 1"
      then show "live (the (zs ! j))"
        using zj [of j] z(2) lvi yj "1.prems"(5) by (cases "j = i") simp_all
    qed
    have rz: "vm_refs base (mset (ents zs (Suc l1))) h2" using z(8) ez by simp
    have "\<exists>l' xs' h'. RemoveMarked_outer (i + 1) l1 zs h2 = Returns (l', xs', h') \<and> l' \<le> l1 \<and> length xs' = length zs \<and>
      full xs' (Suc l') \<and> (\<forall>e\<in>set (ents xs' (Suc l')). live e) \<and>
      mset (ents xs' (Suc l')) = filter_mset live (mset (ents zs (Suc l1))) \<and> vm_refs base (mset (ents xs' (Suc l'))) h'"
      by (rule "1.IH"(2) [OF move(1) at _ h1(1) z(1) refl refl]) (use move z(2) fz rz lz front in simp_all)
    moreover have "filter_mset live (mset (ents zs (Suc l1))) = filter_mset live (mset (ents xs (Suc l)))"
      using ez z(7) m1 move(2) by simp
    moreover have "RemoveMarked_outer i l xs h = RemoveMarked_outer (i + 1) l1 zs h2"
      using move at [of i] h1(1) z(1) by (subst RemoveMarked_outer.simps) simp
    ultimately show ?thesis using z(3,4) by fastforce
  qed
qed

abbreviation vents :: "NaClVmmap \<Rightarrow> NaClVmmapEntry list" where
  "vents vm \<equiv> ents (vmentry vm) (nvalid vm)"

definition vm_full :: "NaClVmmap \<Rightarrow> bool" where
  "vm_full vm \<longleftrightarrow> full (vmentry vm) (nvalid vm) \<and> length (vmentry vm) = vm_size vm \<and> 0 < vm_size vm"

lemma RemoveMarked_spec:
  assumes f: "vm_full vm" and r: "vm_refs base (mset (vents vm)) h"
    and lv: "0 < nvalid vm \<longrightarrow> (\<exists>e\<in>set (vents vm). live e)"
  shows "\<exists>vm' h'. NaClVmmapRemoveMarked vm h = Returns (vm', h') \<and> vm_full vm' \<and>
    mset (vents vm') = filter_mset live (mset (vents vm)) \<and> vm_refs base (mset (vents vm')) h' \<and>
    (if nvalid vm = 0 then vm' = vm else \<not> is_sorted vm' \<and> 0 < nvalid vm')"
proof (cases "nvalid vm = 0")
  case True
  then show ?thesis using f r by (simp add: NaClVmmapRemoveMarked_def ents_def)
next
  case False
  let ?xs = "vmentry vm"
  have fx: "full ?xs (nvalid vm)" using f by (simp add: vm_full_def)
  obtain l ys h1 where l: "RemoveMarked_tail (nvalid vm) ?xs h = Returns (l, ys, h1)" "l < nvalid vm" "length ys = length ?xs"
      "take (Suc l) ys = take (Suc l) ?xs" "live (the (?xs ! l))"
      "filter_mset live (mset (ents ?xs (Suc l))) = filter_mset live (mset (vents vm))"
      "vm_refs base (mset (ents ?xs (Suc l))) h1"
    using tail_live [OF fx r] lv False by blast
  have fy: "full ys (Suc l)" using full_cong [OF l(4,3)] full_mono [OF fx, of "Suc l"] l(2) by simp
  have ey: "ents ys (Suc l) = ents ?xs (Suc l)" by (rule ents_cong [OF l(4)])
  have yl: "ys ! l = ?xs ! l" using l(4) by (metis lessI nth_take)
  have lvl: "live (the (ys ! l))" using yl l(5) by simp
  have at: "entry_at ys l = Returns (the (ys ! l))" using fy by (auto simp: entry_at_def full_Suc)
  have ry: "vm_refs base (mset (ents ys (Suc l))) h1" using l(7) ey by simp
  obtain l' zs h2 where z: "RemoveMarked_outer 0 l ys h1 = Returns (l', zs, h2)" "l' \<le> l" "length zs = length ys"
      "full zs (Suc l')" "mset (ents zs (Suc l')) = filter_mset live (mset (ents ys (Suc l)))"
      "vm_refs base (mset (ents zs (Suc l'))) h2"
    using outer_spec [OF _ fy ry lvl, of 0] by auto
  have "NaClVmmapRemoveMarked vm h = Returns (vm\<lparr>vmentry := zs, nvalid := l' + 1, is_sorted := False\<rparr>, h2)"
    using False l(1,2) at lvl z(1) by (auto simp: NaClVmmapRemoveMarked_def)
  moreover have "vm_full (vm\<lparr>vmentry := zs, nvalid := l' + 1, is_sorted := False\<rparr>)"
    using f z(3,4) l(3) by (simp add: vm_full_def)
  ultimately show ?thesis using z(5,6) l(6) ey False by simp
qed

lemma RemoveMarked_all:
  assumes f: "vm_full vm" and r: "vm_refs base (mset (vents vm)) h" and pos: "0 < nvalid vm"
    and all: "\<forall>e\<in>set (vents vm). removed e"
  shows "NaClVmmapRemoveMarked vm h = Faults"
proof -
  let ?xs = "vmentry vm"
  have fx: "full ?xs (nvalid vm)" using f by (simp add: vm_full_def)
  obtain ys h1 where y: "RemoveMarked_tail (nvalid vm) ?xs h = Returns (0, ys, h1)" "length ys = length ?xs"
      "?xs ! 0 = None \<or> 0 < nvalid vm \<longrightarrow> 0 < length ?xs \<longrightarrow> ys ! 0 = None"
    using tail_dead [OF fx r all] by (elim exE conjE) (rule that)
  have "entry_at ys 0 = Faults" using y(3) pos by (simp add: entry_at_def y(2))
  then show ?thesis using pos y(1) by (simp add: NaClVmmapRemoveMarked_def)
qed

subsection \<open>Sorting\<close>

lemma sint_diff:
  assumes "unat a < 2 ^ 31" "unat b < 2 ^ 31"
  shows "sint (a - b :: u32) = uint a - uint b"
proof -
  have "uint w < 2 ^ 31" if "unat w < 2 ^ 31" for w :: u32
    using that of_nat_less_iff [of "unat w" "2 ^ 31", where ?'a = int]
    by (simp only: uint_nat of_nat_power of_nat_numeral)
  then have "uint a < 2 ^ 31" "uint b < 2 ^ 31" using assms by blast+
  moreover have "0 \<le> uint a" "0 \<le> uint b" by simp_all
  ultimately have "signed_take_bit 31 (uint a - uint b) = uint a - uint b"
    by (intro signed_take_bit_int_eq_self) linarith+
  moreover have "sint (word_of_int k :: u32) = signed_take_bit 31 k" for k
    using sint_sbintrunc' [of k, where ?'a = 32] by simp
  moreover have "word_of_int (uint a - uint b) = a - b" by simp
  ultimately show ?thesis by metis
qed

definition low :: "NaClVmmapEntry \<Rightarrow> bool" where
  "low e \<longleftrightarrow> unat (page_num e) < 2 ^ 31"

lemma Cmp_le: "low x \<Longrightarrow> low y \<Longrightarrow> NaClVmmapCmpEntries x y \<le> 0 \<longleftrightarrow> page_num x \<le> page_num y"
  by (simp only: low_def NaClVmmapCmpEntries_def sint_diff word_le_def) simp

abbreviation ascending :: "NaClVmmapEntry list \<Rightarrow> bool" where
  "ascending \<equiv> sorted_wrt (\<lambda>a b. page_num a \<le> page_num b)"

lemma mset_insert_entry [simp]: "mset (insert_entry x es) = add_mset x (mset es)"
  by (induction es) auto

lemma set_insert_entry [simp]: "set (insert_entry x es) = insert x (set es)"
  by (induction es) auto

lemma insert_entry_ascending:
  "low x \<Longrightarrow> \<forall>e\<in>set es. low e \<Longrightarrow> ascending es \<Longrightarrow> ascending (insert_entry x es)"
  by (induction es) (auto simp: Cmp_le)

lemma qsort_simps: "qsort_entries [] = []" "qsort_entries (e # es) = insert_entry e (qsort_entries es)"
  by (simp_all add: qsort_entries_def)

lemma mset_qsort [simp]: "mset (qsort_entries es) = mset es"
  by (induction es) (simp_all add: qsort_simps)

lemma set_qsort [simp]: "set (qsort_entries es) = set es"
  by (metis mset_qsort set_mset_mset)

lemma length_qsort [simp]: "length (qsort_entries es) = length es"
  by (metis mset_qsort size_mset)

lemma qsort_ascending: "\<forall>e\<in>set es. low e \<Longrightarrow> ascending (qsort_entries es)"
  by (induction es) (simp_all add: qsort_simps insert_entry_ascending)

end
