(* ===== verification/Vmmap_Spec.thy ===== *)
theory Vmmap_Spec
  imports Vmmap_Entries
begin

text \<open>
  The address space map is a map from pages: the representation invariant \<open>vm_ok\<close>, the abstract view
  \<open>vm_map\<close> that gives the protection and the backing of each page, and the effect of
  the operations of \<open>Vmmap\<close> on it.
\<close>

subsection \<open>Pages and their views\<close>

type_synonym view = "u32 \<times> (nat \<times> u64) option"

definition page_end :: "NaClVmmapEntry \<Rightarrow> nat" where
  "page_end e = unat (page_num e) + unat (npages e)"

definition covers :: "nat \<Rightarrow> NaClVmmapEntry \<Rightarrow> bool" where
  "covers p e \<longleftrightarrow> unat (page_num e) \<le> p \<and> p < page_end e"

definition backing :: "nat \<Rightarrow> NaClMemObj \<Rightarrow> nat \<times> u64" where
  "backing k mo = (mo_ndp mo, mo_offset mo + of_nat (k * 4096))"

definition view :: "nat \<Rightarrow> NaClVmmapEntry \<Rightarrow> view" where
  "view p e = (prot e, map_option (backing (p - unat (page_num e))) (nmop e))"

text \<open>The views of a page in a multiset of entries; in a well-formed map there is at most one.\<close>

definition views :: "NaClVmmapEntry multiset \<Rightarrow> nat \<Rightarrow> view multiset" where
  "views M p = image_mset (view p) {#e \<in># M. live e \<and> covers p e#}"

lemma views_simps [simp]:
  "views {#} p = {#}"
  "views (M + N) p = views M p + views N p"
  "views (add_mset e M) p = (if live e \<and> covers p e then {#view p e#} else {#}) + views M p"
  by (simp_all add: views_def)

lemma views_live [simp]: "views (filter_mset live M) p = views M p"
  by (simp add: views_def filter_filter_mset conj_commute)

text \<open>Entries of user address spaces end at or below \<open>2\<^sup>2\<^sup>0\<close> pages, four gigabytes.\<close>

definition entry_ok :: "NaClVmmapEntry \<Rightarrow> bool" where
  "entry_ok e \<longleftrightarrow> 0 < unat (npages e) \<and> page_end e \<le> 2 ^ 20"

lemma entry_ok_low: "entry_ok e \<Longrightarrow> low e"
  by (simp add: entry_ok_def page_end_def low_def)

lemma entry_end: "entry_ok e \<Longrightarrow> unat (page_num e + npages e) = page_end e"
  unfolding page_end_def entry_ok_def by (subst unat_add_no_wrap) simp_all

definition apart :: "NaClVmmapEntry list \<Rightarrow> bool" where
  "apart = sorted_wrt (\<lambda>a b. page_end a \<le> unat (page_num b))"

definition disj :: "NaClVmmapEntry multiset \<Rightarrow> bool" where
  "disj M \<longleftrightarrow> (\<forall>p. size (views M p) \<le> 1)"

definition vm_ok :: "NaClVmmap \<Rightarrow> bool" where
  "vm_ok vm \<longleftrightarrow> vm_full vm \<and> (\<forall>e\<in>set (vents vm). live e \<and> entry_ok e) \<and> disj (mset (vents vm)) \<and>
     (is_sorted vm \<longrightarrow> apart (vents vm))"

definition vm_map :: "NaClVmmap \<Rightarrow> nat \<Rightarrow> view option" where
  "vm_map vm p = map_option (view p) (find (covers p) (vents vm))"

lemma views_find:
  assumes "\<forall>e\<in>set es. live e" and "size (views (mset es) p) \<le> 1"
  shows "views (mset es) p = (case find (covers p) es of None \<Rightarrow> {#} | Some e \<Rightarrow> {#view p e#})"
  using assms by (induction es) (auto split: if_splits)

lemma vm_map_views:
  assumes "vm_ok vm"
  shows "views (mset (vents vm)) p = (case vm_map vm p of None \<Rightarrow> {#} | Some v \<Rightarrow> {#v#})"
  using assms views_find [of "vents vm" p] by (auto simp: vm_ok_def disj_def vm_map_def split: option.splits)

lemma vm_map_eq:
  assumes "vm_ok vm"
  shows "vm_map vm p = (if views (mset (vents vm)) p = {#} then None else Some (THE v. views (mset (vents vm)) p = {#v#}))"
  using vm_map_views [OF assms, of p] by (simp split: option.splits)

lemma vm_map_cong:
  assumes "vm_ok vm" "vm_ok vm'" "views (mset (vents vm')) p = views (mset (vents vm)) p"
  shows "vm_map vm' p = vm_map vm p"
  using assms by (simp add: vm_map_eq)

lemma vm_map_None: "vm_ok vm \<Longrightarrow> views (mset (vents vm)) p = {#} \<Longrightarrow> vm_map vm p = None"
  by (simp add: vm_map_eq)

lemma vm_map_Some: "vm_ok vm \<Longrightarrow> views (mset (vents vm)) p = {#v#} \<Longrightarrow> vm_map vm p = Some v"
  by (simp add: vm_map_eq)

subsection \<open>Sorting a well-formed map\<close>

lemma views_two:
  assumes "e1 \<in># M" "e2 \<in># M - {#e1#}" "live e1" "live e2" "covers p e1" "covers p e2"
  shows "2 \<le> size (views M p)"
proof -
  let ?N = "M - {#e1#} - {#e2#}"
  have "add_mset e1 (add_mset e2 ?N) = M" by (simp only: insert_DiffM [OF assms(2)] insert_DiffM [OF assms(1)])
  then have "views M p = views (add_mset e1 (add_mset e2 ?N)) p" by simp
  also have "\<dots> = {#view p e1#} + ({#view p e2#} + views ?N p)" using assms(3-) by (simp only: views_simps simp_thms if_True)
  finally show ?thesis by simp
qed

lemma disj_Cons: "disj (mset (e # es)) \<Longrightarrow> disj (mset es)"
  unfolding disj_def by (simp only: mset.simps views_simps size_union) (meson add_leD2)

lemma apartI:
  assumes "ascending es" "\<forall>e\<in>set es. live e \<and> entry_ok e" "disj (mset es)"
  shows "apart es"
  using assms
proof (induction es)
  case (Cons e es)
  have "page_end e \<le> unat (page_num x)" if x: "x \<in> set es" for x
  proof (rule ccontr)
    let ?p = "unat (page_num x)"
    assume "\<not> page_end e \<le> ?p"
    moreover have "page_num e \<le> page_num x" using Cons.prems(1) x by simp
    moreover have "entry_ok x" using Cons.prems(2) x by simp
    ultimately have "covers ?p e" "covers ?p x" by (simp_all add: covers_def word_le_nat_alt entry_ok_def page_end_def)
    then have "2 \<le> size (views (mset (e # es)) ?p)" using x Cons.prems(2) by (intro views_two [of e _ x]) simp_all
    then show False using Cons.prems(3) unfolding disj_def by (metis Suc_1 not_less_eq_eq)
  qed
  moreover have "apart es" using Cons.IH Cons.prems disj_Cons by simp
  ultimately show ?case by (simp add: apart_def)
qed (simp add: apart_def)

lemma MakeSorted_spec:
  assumes ok: "vm_ok vm" and r: "vm_refs base (mset (vents vm)) h"
  shows "\<exists>vm' h'. NaClVmmapMakeSorted vm h = Returns (vm', h') \<and> vm_ok vm' \<and> is_sorted vm' \<and> vm_refs base (mset (vents vm')) h' \<and>
    mset (vents vm') = mset (vents vm)"
proof (cases "is_sorted vm")
  case True
  then show ?thesis using assms by (simp add: NaClVmmapMakeSorted_def)
next
  case False
  have f: "vm_full vm" and lv: "\<forall>e\<in>set (vents vm). live e" using ok by (simp_all add: vm_ok_def)
  have "0 < nvalid vm \<longrightarrow> (\<exists>e\<in>set (vents vm). live e)"
    using lv f length_ents [of "vmentry vm" "nvalid vm"] by (metis vm_full_def length_greater_0_conv list.set_sel(1))
  then obtain v1 h1 where v1: "NaClVmmapRemoveMarked vm h = Returns (v1, h1)" "vm_full v1"
      "mset (vents v1) = filter_mset live (mset (vents vm))" "vm_refs base (mset (vents v1)) h1"
    by (rule exE [OF RemoveMarked_spec [OF f r]]) auto
  have m1: "mset (vents v1) = mset (vents vm)" using v1(3) lv by (simp add: filter_mset_eq_conv)
  let ?q = "qsort_entries (vents v1)"
  let ?v = "v1\<lparr>vmentry := map Some ?q @ drop (nvalid v1) (vmentry v1), is_sorted := True\<rparr>"
  have f1: "full (vmentry v1) (nvalid v1)" using v1(2) by (simp add: vm_full_def)
  have e: "vents ?v = ?q" using f1 by (simp add: ents_def full_def comp_def)
  have "vm_full ?v" using v1(2) f1 length_ents [OF f1] by (auto simp: vm_full_def full_def)
  moreover have s1: "set ?q = set (vents vm)" using m1 by (metis mset_qsort set_mset_mset)
  moreover have "apart ?q"
    using ok s1 m1 entry_ok_low by (intro apartI qsort_ascending) (auto simp: vm_ok_def simp flip: s1)
  ultimately have "vm_ok ?v" unfolding vm_ok_def e using ok m1 by (simp add: vm_ok_def)
  moreover have "NaClVmmapMakeSorted vm h = Returns (?v, h1)"
    using False v1(1) f1 by (simp add: NaClVmmapMakeSorted_def full_def ents_def)
  moreover have "mset (vents ?v) = mset (vents v1)" unfolding e by simp
  ultimately show ?thesis using v1(4) m1 by (intro exI [of _ ?v] exI [of _ h1]) (simp only: simp_thms, simp)
qed

subsection \<open>Updating a range of pages\<close>

definition front :: "u32 \<Rightarrow> NaClVmmapEntry \<Rightarrow> NaClVmmapEntry" where
  "front pn e = e\<lparr>npages := pn - page_num e\<rparr>"

definition shift_by :: "u32 \<Rightarrow> NaClVmmapEntry \<Rightarrow> u64" where
  "shift_by ne e = ucast (push_bit NACL_PAGESHIFT (ne - page_num e))"

definition rear :: "u32 \<Rightarrow> NaClVmmapEntry \<Rightarrow> NaClVmmapEntry" where
  "rear ne e = \<lparr>page_num = ne, npages = page_num e + npages e - ne, prot = prot e,
     nmop = NaClMemObjIncOffset (nmop e) (shift_by ne e), removed = False\<rparr>"

lemma rear_eq:
  "live e \<Longrightarrow> e\<lparr>nmop := NaClMemObjIncOffset (nmop e) (shift_by ne e), page_num := ne, npages := page_num e + npages e - ne\<rparr> = rear ne e"
  by (cases e) (simp add: rear_def)

lemma front_piece:
  assumes "entry_ok e" "live e" "page_num e < pn" "pn < page_num e + npages e"
  shows "entry_ok (front pn e)" "live (front pn e)" "views {#front pn e#} p = (if p < unat pn then views {#e#} p else {#})"
proof -
  have b: "unat (page_num e) < unat pn" "unat pn < page_end e"
    using assms(3,4) entry_end [OF assms(1)] by (simp_all add: word_less_nat_alt)
  have u: "unat (pn - page_num e) = unat pn - unat (page_num e)"
    by (rule unat_sub_le) (use assms(3) in simp)
  have e: "page_end (front pn e) = unat pn" using b by (simp add: front_def page_end_def u)
  show "entry_ok (front pn e)" using assms(1) b e u by (simp add: entry_ok_def front_def)
  show "live (front pn e)" using assms(2) by (simp add: front_def)
  have "covers p (front pn e) \<longleftrightarrow> p < unat pn \<and> covers p e"
    using b unfolding covers_def e by (auto simp: front_def)
  then show "views {#front pn e#} p = (if p < unat pn then views {#e#} p else {#})"
    using assms(2) by (simp add: view_def front_def)
qed

lemma shift_by_pages:
  assumes "page_num e \<le> ne" "unat ne < 2 ^ 20"
  shows "shift_by ne e = of_nat ((unat ne - unat (page_num e)) * 4096)"
proof -
  let ?d = "ne - page_num e"
  have d: "unat ?d = unat ne - unat (page_num e)" by (rule unat_sub_le [OF assms(1)])
  have "push_bit 12 ?d = of_nat (unat ?d * 4096)" by (simp add: push_bit_eq_mult mult.commute)
  moreover have "unat (of_nat (unat ?d * 4096) :: u32) = unat ?d * 4096"
    by (subst unat_of_nat, rule mod_less) (use assms(2) d in simp)
  ultimately have "unat (push_bit 12 ?d) = unat ?d * 4096" by simp
  then show ?thesis unfolding shift_by_def NACL_PAGESHIFT_def d [symmetric] by (metis of_nat_unat)
qed

lemma backing_moved: "backing k (mo\<lparr>mo_offset := mo_offset mo + x\<rparr>) = (mo_ndp mo, mo_offset mo + x + of_nat (k * 4096))"
  by (simp add: backing_def)

lemma rear_piece:
  assumes "entry_ok e" "live e" "page_num e < ne" "ne < page_num e + npages e"
  shows "entry_ok (rear ne e)" "live (rear ne e)" "views {#rear ne e#} p = (if unat ne \<le> p then views {#e#} p else {#})"
proof -
  have b: "unat (page_num e) < unat ne" "unat ne < page_end e" "page_end e \<le> 2 ^ 20"
    using assms(1,3,4) entry_end [OF assms(1)] by (simp_all add: word_less_nat_alt entry_ok_def)
  have u: "unat (page_num e + npages e - ne) = page_end e - unat ne"
    using unat_sub_le [of ne "page_num e + npages e"] assms(4) entry_end [OF assms(1)] by simp
  have e: "page_end (rear ne e) = page_end e" using b by (simp add: rear_def page_end_def [of "\<lparr>page_num = _, npages = _, prot = _, nmop = _, removed = _\<rparr>"] u)
  show "entry_ok (rear ne e)" using b e u by (simp add: entry_ok_def rear_def)
  show "live (rear ne e)" by (simp add: rear_def)
  have c: "covers p (rear ne e) \<longleftrightarrow> unat ne \<le> p \<and> covers p e"
    using b unfolding covers_def e by (auto simp: rear_def)
  have "shift_by ne e = of_nat ((unat ne - unat (page_num e)) * 4096)"
    using assms(3) b by (intro shift_by_pages) simp_all
  moreover have "of_nat ((p - unat (page_num e)) * 4096) = (of_nat ((unat ne - unat (page_num e)) * 4096) + of_nat ((p - unat ne) * 4096) :: u64)"
    if "unat ne \<le> p"
    unfolding of_nat_add [symmetric] using that b(1) by (intro arg_cong [of _ _ of_nat]) simp
  ultimately have "view p (rear ne e) = view p e" if "unat ne \<le> p"
    using that by (cases "nmop e")
      (simp_all only: view_def rear_def NaClMemObjIncOffset_def backing_moved option.map NaClVmmapEntry.select_convs, simp_all only: backing_def add.assoc)
  then show "views {#rear ne e#} p = (if unat ne \<le> p then views {#e#} p else {#})"
    using assms(2) c by (simp add: rear_def)
qed

lemma store_entry:
  fixes vm :: NaClVmmap and e :: NaClVmmapEntry
  assumes "vm_full vm" "i < nvalid vm"
  defines "vm' \<equiv> vm\<lparr>vmentry := (vmentry vm)[i := Some e]\<rparr>"
  shows "vm_full vm'" "vents vm' = (vents vm)[i := e]" "nvalid vm' = nvalid vm"
proof -
  have "None \<notin> set ((take (nvalid vm) (vmentry vm))[i := Some e])"
    using assms(1) set_update_subset_insert [of "take (nvalid vm) (vmentry vm)" i "Some e"] by (auto simp: vm_full_def full_def)
  then show "vm_full vm'" using assms(1) by (simp add: vm_full_def full_def vm'_def take_update_swap)
  show "vents vm' = (vents vm)[i := e]" by (simp add: ents_def vm'_def take_update_swap map_update)
qed (simp add: vm'_def)

lemma Add_spec:
  assumes f: "vm_full vm" and al: "\<forall>k. alloc k"
  shows "\<exists>vm'. NaClVmmapAdd alloc k vm pn np pr mo = Returns (True, vm') \<and> vm_full vm' \<and> nvalid vm' = nvalid vm + 1 \<and>
    vents vm' = vents vm @ [\<lparr>page_num = pn, npages = np, prot = pr, nmop = mo, removed = False\<rparr>] \<and> \<not> is_sorted vm'"
proof -
  let ?e = "\<lparr>page_num = pn, npages = np, prot = pr, nmop = mo, removed = False\<rparr>" and ?k = "nvalid vm"
  define v1 where "v1 = (if ?k = vm_size vm
    then vm\<lparr>vmentry := resize None (2 * vm_size vm) (vmentry vm), vm_size := 2 * vm_size vm\<rparr> else vm)"
  have v1: "length (vmentry v1) = vm_size v1" "?k < vm_size v1" "nvalid v1 = ?k" "take ?k (vmentry v1) = take ?k (vmentry vm)"
    using f by (auto simp: v1_def vm_full_def full_def resize_def)
  let ?v = "v1\<lparr>vmentry := (vmentry v1)[?k := Some ?e], is_sorted := False, nvalid := ?k + 1\<rparr>"
  have t: "take (Suc ?k) ((vmentry v1)[?k := Some ?e]) = take ?k (vmentry vm) @ [Some ?e]"
    using v1 by (simp add: take_Suc_conv_app_nth)
  have "NaClVmmapAdd alloc k vm pn np pr mo = Returns (True, ?v)"
    unfolding NaClVmmapAdd_def v1_def [symmetric] Let_def using v1 al by (simp add: NaClVmmapEntryMake_def)
  moreover have "vents ?v = vents vm @ [?e]" by (simp add: ents_def t)
  moreover have "vm_full ?v" using f v1(1,2) by (simp add: vm_full_def full_def t)
  ultimately show ?thesis by (intro exI [of _ ?v]) simp
qed

lemma Split_spec:
  assumes "vm_refs base M h" "e \<in># M" "\<forall>a. base a + mo_refs M a + 1 < 2 ^ 32"
  shows "\<exists>h'. NaClMemObjSplit True (nmop e) d h = Returns (NaClMemObjIncOffset (nmop e) d, h') \<and>
    vm_refs (\<lambda>a. base a + (if map_option mo_ndp (nmop e) = Some a then 1 else 0)) M h'"
proof (cases "nmop e")
  case None
  then show ?thesis using assms(1) by (simp add: NaClMemObjSplit_def NaClMemObjIncOffset_def)
next
  case (Some mo)
  let ?n = "\<lambda>a. base a + mo_refs M a" and ?a = "mo_ndp mo"
  obtain N where "M = add_mset e N" using multi_member_split [OF assms(2)] by blast
  then have "0 < mo_refs M ?a" using Some by simp
  moreover have "counts ?n h" using assms(1) by (simp add: vm_refs_def)
  ultimately obtain h' where h': "NaClDescRef ?a h = Returns h'" "counts (?n(?a := ?n ?a + 1)) h'"
    using Ref_counts [of ?n h ?a] assms(3) by auto
  have "?n(?a := ?n ?a + 1) = (\<lambda>a. base a + (if Some ?a = Some a then 1 else 0) + mo_refs M a)" by auto
  then show ?thesis
    using h' Some by (simp add: vm_refs_def NaClMemObjSplit_def NaClMemObjCopyCtorOff_def NaClMemObjIncOffset_def)
qed

lemma views_above:
  assumes "\<forall>x\<in>set es. b \<le> unat (page_num x)" "p < b"
  shows "views (mset es) p = {#}"
  using assms by (induction es) (auto simp: covers_def)

lemma same_refs:
  assumes "map_option mo_ndp (nmop e') = map_option mo_ndp (nmop e)"
  shows "mo_refs (mset (as @ e' # bs)) = mo_refs (mset (as @ e # bs))"
  using assms by (auto simp: fun_eq_iff)

definition update_done :: "nat \<Rightarrow> nat \<Rightarrow> (nat \<Rightarrow> nat) \<Rightarrow> NaClVmmapEntry list \<Rightarrow> NaClVmmapEntry list \<Rightarrow> NaClVmmap \<Rightarrow> refs \<Rightarrow> bool" where
  "update_done a b base as bs vm h \<longleftrightarrow> vm_full vm \<and> (\<forall>e\<in>set (vents vm). live e \<longrightarrow> entry_ok e) \<and>
     vm_refs base (mset (vents vm)) h \<and> length as + length bs \<le> nvalid vm \<and>
     (\<forall>p. views (mset (vents vm)) p = views (mset as) p + (if a \<le> p \<and> p < b then {#} else views (mset bs) p))"

lemma update_done_step:
  assumes "update_done a b base (as @ [e']) bs vm h"
    and "\<And>p. views {#e'#} p = (if a \<le> p \<and> p < b then {#} else views {#e#} p)"
  shows "update_done a b base as (e # bs) vm h"
proof -
  have "views (mset (e # bs)) p = views {#e#} p + views (mset bs) p" for p by simp
  moreover have "views (mset (as @ [e'])) p = views (mset as) p + views {#e'#} p" for p by simp
  ultimately show ?thesis
    using assms(1) unfolding update_done_def assms(2) by (simp only: add.assoc) (simp split: if_splits)
qed

lemma update_done_rear:
  assumes e: "entry_ok e" "live e" "pn \<le> page_num e" "page_num e < ne" "ne < page_num e + npages e"
    and above: "\<forall>x\<in>set bs. page_end e \<le> unat (page_num x)"
    and v: "vm_full vm" "vents vm = as @ rear ne e # bs" "vm_refs base (mset (as @ e # bs)) h"
    and ok: "\<forall>x\<in>set (as @ bs). live x \<longrightarrow> entry_ok x"
  shows "update_done (unat pn) (unat ne) base as (e # bs) vm h"
proof -
  note r = rear_piece [OF e(1,2,4,5)]
  have b: "unat pn \<le> unat (page_num e)" "unat ne < page_end e"
    using e(3,5) entry_end [OF e(1)] by (simp_all add: word_le_nat_alt word_less_nat_alt)
  have "views {#rear ne e#} p + views (mset bs) p = (if unat pn \<le> p \<and> p < unat ne then {#} else views (mset (e # bs)) p)" for p
    unfolding r(3) using views_above [OF above, of p] b by (auto simp: covers_def)
  moreover have "mo_refs (mset (as @ rear ne e # bs)) = mo_refs (mset (as @ e # bs))"
    by (rule same_refs) (simp add: rear_def NaClMemObjIncOffset_def option.map_comp comp_def)
  moreover have "nvalid vm = length (vents vm)" using v(1) by (simp add: vm_full_def)
  ultimately show ?thesis using v ok r(1) by (simp add: update_done_def vm_refs_def)
qed

lemma update_done_split:
  assumes e: "entry_ok e" "live e" "page_num e < pn" "pn < ne" "ne < page_num e + npages e"
    and above: "\<forall>x\<in>set bs. page_end e \<le> unat (page_num x)"
    and v: "vm_full vm" "vents vm = as @ front pn e # bs @ [rear ne e]"
      "vm_refs (\<lambda>a. base a + (if map_option mo_ndp (nmop e) = Some a then 1 else 0)) (mset (as @ e # bs)) h"
    and ok: "\<forall>x\<in>set (as @ bs). live x \<longrightarrow> entry_ok x"
  shows "update_done (unat pn) (unat ne) base as (e # bs) vm h"
proof -
  have lt: "page_num e < ne" "pn < page_num e + npages e" using e(3-5) by (blast intro: order.strict_trans)+
  note r = rear_piece [OF e(1,2) lt(1) e(5)] and f = front_piece [OF e(1,2,3) lt(2)]
  have b: "unat (page_num e) < unat pn" "unat pn < unat ne" "unat ne < page_end e"
    using e(3,4,5) entry_end [OF e(1)] by (simp_all add: word_less_nat_alt)
  have "views {#front pn e#} p + (views {#rear ne e#} p + views (mset bs) p) =
      (if unat pn \<le> p \<and> p < unat ne then {#} else views (mset (e # bs)) p)" for p
    unfolding r(3) f(3) using views_above [OF above, of p] b by auto
  moreover have "map_option mo_ndp (nmop (front pn e)) = map_option mo_ndp (nmop e)"
      "map_option mo_ndp (nmop (rear ne e)) = map_option mo_ndp (nmop e)"
    by (simp_all add: front_def rear_def NaClMemObjIncOffset_def option.map_comp comp_def)
  moreover from this have "(\<lambda>a. base a + mo_refs (mset (as @ front pn e # bs @ [rear ne e])) a) =
      (\<lambda>a. base a + (if map_option mo_ndp (nmop e) = Some a then 1 else 0) + mo_refs (mset (as @ e # bs)) a)"
    by (simp add: fun_eq_iff)
  moreover have "nvalid vm = length (vents vm)" using v(1) by (simp add: vm_full_def)
  ultimately show ?thesis using v ok r(1) f(1) by (simp add: update_done_def vm_refs_def)
qed

lemma Update_loop_spec:
  assumes "vm_full vm" "vents vm = as @ bs" "vm_refs base (mset (as @ bs)) h" "apart bs"
    and "\<forall>e\<in>set bs. live e \<and> entry_ok e" "\<forall>e\<in>set as. live e \<longrightarrow> entry_ok e"
    and "\<forall>a. base a + mo_refs (mset (as @ bs)) a + 1 < 2 ^ 32"
    and al: "\<forall>k. alloc k" and lt: "pn < ne" and top: "unat ne \<le> 2 ^ 20"
  shows "\<exists>vm' h'. NaClVmmapUpdate_loop alloc pn ne (length as) vm h = Returns (vm', h') \<and>
    update_done (unat pn) (unat ne) base as bs vm' h'"
  using assms(1-7)
proof (induction bs arbitrary: as vm h)
  case Nil
  then have "nvalid vm = length as" using length_ents [of "vmentry vm" "nvalid vm"] by (simp add: vm_full_def)
  then show ?case using Nil by (subst NaClVmmapUpdate_loop.simps) (simp add: update_done_def)
next
  case (Cons e bs)
  let ?i = "length as" and ?fin = "page_num e + npages e"
  have fv: "full (vmentry vm) (nvalid vm)" using Cons.prems(1) by (simp add: vm_full_def)
  have nv: "nvalid vm = length (as @ e # bs)" using length_ents [OF fv] Cons.prems(2) by simp
  have at: "entry_at (vmentry vm) ?i = Returns e" using entry_at_full [OF fv, of ?i] nv Cons.prems(2) by simp
  have ok: "entry_ok e" "live e" using Cons.prems(5) by simp_all
  have ee: "unat ?fin = page_end e" by (rule entry_end [OF ok(1)])
  have above: "\<forall>x\<in>set bs. page_end e \<le> unat (page_num x)" using Cons.prems(4) by (simp add: apart_def)
  let ?st = "\<lambda>x. vm\<lparr>vmentry := (vmentry vm)[?i := Some x]\<rparr>"
  have st: "vm_full (?st x)" "vents (?st x) = as @ x # bs" for x
    using store_entry [OF Cons.prems(1), of ?i x] nv Cons.prems(2) by simp_all
  have go: "\<exists>vm' h'. NaClVmmapUpdate_loop alloc pn ne (?i + 1) (?st x) h = Returns (vm', h') \<and>
      update_done (unat pn) (unat ne) base as (e # bs) vm' h'"
    if x: "live x \<longrightarrow> entry_ok x" "map_option mo_ndp (nmop x) = map_option mo_ndp (nmop e)"
      "\<And>p. views {#x#} p = (if unat pn \<le> p \<and> p < unat ne then {#} else views {#e#} p)" for x
  proof -
    note r = same_refs [OF x(2), of as bs]
    have "vm_refs base (mset ((as @ [x]) @ bs)) h" using Cons.prems(3) r by (simp add: vm_refs_def)
    moreover have "\<forall>a. base a + mo_refs (mset ((as @ [x]) @ bs)) a + 1 < 2 ^ 32" using Cons.prems(7) r by simp
    moreover have "apart bs" using Cons.prems(4) by (simp add: apart_def)
    moreover have "\<forall>e\<in>set (as @ [x]). live e \<longrightarrow> entry_ok e" using Cons.prems(6) x(1) by simp
    moreover have "vents (?st x) = (as @ [x]) @ bs" using st(2) by simp
    moreover have "\<forall>e\<in>set bs. live e \<and> entry_ok e" using Cons.prems(5) by simp
    ultimately obtain vm' h' where "NaClVmmapUpdate_loop alloc pn ne (length (as @ [x])) (?st x) h = Returns (vm', h')"
        "update_done (unat pn) (unat ne) base (as @ [x]) bs vm' h'"
      using Cons.IH [OF st(1) [of x]] by blast
    then show ?thesis using update_done_step [OF _ x(3)] by auto
  qed
  have "vmentry vm ! ?i = Some e" using full_nth [OF fv, of ?i] nv Cons.prems(2) by simp
  then have "?st e = vm" by (metis (no_types, lifting) NaClVmmap.surjective NaClVmmap.update_convs(1) list_update_id)
  then have skip: ?case
    if "NaClVmmapUpdate_loop alloc pn ne ?i vm h = NaClVmmapUpdate_loop alloc pn ne (?i + 1) vm h"
      and out: "\<And>p. covers p e \<Longrightarrow> p < unat pn \<or> unat ne \<le> p"
  proof -
    have "views {#e#} p = (if unat pn \<le> p \<and> p < unat ne then {#} else views {#e#} p)" for p
      using out [of p] by auto
    then show ?thesis using go [of e] that(1) ok(1) \<open>?st e = vm\<close> by (simp only: simp_thms)
  qed
  have oks: "\<forall>x\<in>set (as @ bs). live x \<longrightarrow> entry_ok x" using Cons.prems(5,6) by auto
  have step: "NaClVmmapUpdate_loop alloc pn ne ?i vm h =
      (if page_num e < pn \<and> ne < ?fin then
         obind (NaClMemObjSplit (alloc 0) (nmop e) (shift_by ne e) h) (\<lambda>(mo, h).
         obind (NaClVmmapAdd alloc 1 vm ne (?fin - ne) (prot e) mo) (\<lambda>(ok, v).
           if ok then Returns (v\<lparr>vmentry := (vmentry v)[?i := Some (front pn e)]\<rparr>, h) else Aborts))
       else if page_num e < pn \<and> pn < ?fin then NaClVmmapUpdate_loop alloc pn ne (?i + 1) (?st (front pn e)) h
       else if page_num e < ne \<and> ne < ?fin then Returns (?st (rear ne e), h)
       else if pn \<le> page_num e \<and> ?fin \<le> ne then NaClVmmapUpdate_loop alloc pn ne (?i + 1) (?st (e\<lparr>removed := True\<rparr>)) h
       else NaClVmmapUpdate_loop alloc pn ne (?i + 1) vm h)"
    using nv ok(2) by (subst NaClVmmapUpdate_loop.simps) (simp only: at obind.simps Let_def front_def rear_eq [OF ok(2), symmetric] shift_by_def, simp)
  consider (split) "page_num e < pn" "ne < ?fin"
    | (front) "page_num e < pn" "\<not> ne < ?fin" "pn < ?fin"
    | (rear) "pn \<le> page_num e" "page_num e < ne" "ne < ?fin"
    | (inside) "pn \<le> page_num e" "?fin \<le> ne"
    | (outside) "page_num e < pn" "?fin \<le> pn" | (outside') "ne \<le> page_num e" "ne < ?fin"
    by (metis linorder_not_le)
  then show ?case
  proof cases
    case split
    obtain h1 where h1: "NaClMemObjSplit True (nmop e) (shift_by ne e) h = Returns (NaClMemObjIncOffset (nmop e) (shift_by ne e), h1)"
        "vm_refs (\<lambda>a. base a + (if map_option mo_ndp (nmop e) = Some a then 1 else 0)) (mset (as @ e # bs)) h1"
      using Split_spec [OF Cons.prems(3) _ Cons.prems(7), of e "shift_by ne e"] by auto
    obtain v1 where v1: "NaClVmmapAdd alloc 1 vm ne (?fin - ne) (prot e) (NaClMemObjIncOffset (nmop e) (shift_by ne e)) = Returns (True, v1)"
        "vm_full v1" "nvalid v1 = nvalid vm + 1" "vents v1 = vents vm @ [rear ne e]"
      using Add_spec [OF Cons.prems(1) al] unfolding rear_def by blast
    let ?v = "v1\<lparr>vmentry := (vmentry v1)[?i := Some (front pn e)]\<rparr>"
    have "NaClVmmapUpdate_loop alloc pn ne ?i vm h = Returns (?v, h1)"
      unfolding step using split al h1(1) v1(1) by simp
    moreover have "vm_full ?v" "vents ?v = as @ front pn e # bs @ [rear ne e]"
      using store_entry [OF v1(2), of ?i "front pn e"] v1(3,4) nv Cons.prems(2) by simp_all
    ultimately show ?thesis
      using update_done_split [OF ok split(1) lt split(2) above _ _ h1(2) oks] by blast
  next
    case front
    let ?x = "front pn e"
    have "views {#?x#} p = (if unat pn \<le> p \<and> p < unat ne then {#} else views {#e#} p)" for p
      unfolding front_piece(3) [OF ok front(1,3)] using front ee by (auto simp: covers_def word_less_nat_alt)
    moreover have "NaClVmmapUpdate_loop alloc pn ne ?i vm h = NaClVmmapUpdate_loop alloc pn ne (?i + 1) (?st ?x) h"
      unfolding step using front by simp
    ultimately show ?thesis using go [of ?x] front_piece(1) [OF ok front(1,3)] by (simp add: front_def)
  next
    case rear
    then have "NaClVmmapUpdate_loop alloc pn ne ?i vm h = Returns (?st (rear ne e), h)"
      unfolding step using leD [OF rear(1)] by simp
    then show ?thesis using update_done_rear [OF ok rear above st Cons.prems(3) oks] by blast
  next
    case inside
    let ?x = "e\<lparr>removed := True\<rparr>"
    have "views {#?x#} p = (if unat pn \<le> p \<and> p < unat ne then {#} else views {#e#} p)" for p
      using inside ee by (auto simp: covers_def word_le_nat_alt)
    moreover have "NaClVmmapUpdate_loop alloc pn ne ?i vm h = NaClVmmapUpdate_loop alloc pn ne (?i + 1) (?st ?x) h"
      unfolding step using inside leD [OF inside(1)] leD [OF inside(2)] by simp
    ultimately show ?thesis using go [of ?x] by simp
  next
    case outside
    then have "\<not> ne < ?fin" "\<not> pn \<le> page_num e" using lt by (auto simp: word_le_nat_alt word_less_nat_alt)
    with outside show ?thesis
      unfolding step by (intro skip [unfolded step]) (use ee in \<open>auto simp: covers_def word_le_nat_alt word_less_nat_alt\<close>)
  next
    case outside'
    then have "\<not> page_num e < pn" using lt by (auto simp: word_le_nat_alt word_less_nat_alt)
    with outside' show ?thesis
      unfolding step by (intro skip [unfolded step]) (auto simp: covers_def word_le_nat_alt word_less_nat_alt)
  qed
qed

lemma RemoveMarked_finish:
  assumes f: "vm_full vm" and r: "vm_refs base (mset (vents vm)) h" and ok: "\<forall>e\<in>set (vents vm). live e \<longrightarrow> entry_ok e"
    and d: "disj (mset (vents vm))" and lv: "0 < nvalid vm \<longrightarrow> (\<exists>e\<in>set (vents vm). live e)"
  shows "\<exists>vm' h'. NaClVmmapRemoveMarked vm h = Returns (vm', h') \<and> vm_ok vm' \<and> vm_refs base (mset (vents vm')) h' \<and>
    views (mset (vents vm')) = views (mset (vents vm))"
proof -
  obtain vm' h' where v: "NaClVmmapRemoveMarked vm h = Returns (vm', h')" "vm_full vm'"
      "mset (vents vm') = filter_mset live (mset (vents vm))" "vm_refs base (mset (vents vm')) h'"
      "if nvalid vm = 0 then vm' = vm else \<not> is_sorted vm' \<and> 0 < nvalid vm'"
    using RemoveMarked_spec [OF f r lv] by (elim exE conjE) (rule that)
  have w: "views (mset (vents vm')) = views (mset (vents vm))" using v(3) by (simp add: fun_eq_iff)
  have "set (vents vm') = {e \<in> set (vents vm). live e}" using arg_cong [OF v(3), of set_mset] by simp
  moreover have "is_sorted vm' \<longrightarrow> apart (vents vm')" using v(5) by (auto simp: ents_def apart_def split: if_splits)
  ultimately have "vm_ok vm'" using v(2) ok d w by (simp add: vm_ok_def disj_def)
  then show ?thesis using v(1,4) w by blast
qed

lemma live_views:
  assumes "\<forall>e\<in>set es. live e \<longrightarrow> entry_ok e"
  shows "(\<exists>e\<in>set es. live e) \<longleftrightarrow> (\<exists>p. views (mset es) p \<noteq> {#})"
proof -
  have "covers (unat (page_num e)) e" if "entry_ok e" for e
    using that by (simp add: covers_def entry_ok_def page_end_def)
  then show ?thesis using assms by (fastforce simp: views_def)
qed

definition new_view :: "u32 \<Rightarrow> u32 \<Rightarrow> NaClMemObj option \<Rightarrow> nat \<Rightarrow> view" where
  "new_view pn pr mo p = (pr, map_option (backing (p - unat pn)) mo)"

lemma Update_marks:
  assumes ok: "vm_ok vm" and r: "vm_refs base (mset (vents vm)) h"
    and room: "\<forall>a. base a + mo_refs (mset (vents vm)) a + 1 < 2 ^ 32" and al: "\<forall>k. alloc k"
    and np: "0 < np" and top: "unat pn + unat np \<le> 2 ^ 20"
  shows "\<exists>v1 h1 v2 h2. NaClVmmapMakeSorted vm h = Returns (v1, h1) \<and> NaClVmmapUpdate_loop alloc pn (pn + np) 0 v1 h1 = Returns (v2, h2) \<and>
    vm_full v2 \<and> (\<forall>e\<in>set (vents v2). live e \<longrightarrow> entry_ok e) \<and> vm_refs base (mset (vents v2)) h2 \<and> nvalid vm \<le> nvalid v2 \<and>
    (\<forall>p. views (mset (vents v2)) p = (if unat pn \<le> p \<and> p < unat pn + unat np then {#} else views (mset (vents vm)) p))"
proof -
  have ne: "unat (pn + np) = unat pn + unat np" using top by (subst unat_add_no_wrap) simp_all
  have lt: "pn < pn + np" using np unfolding word_less_nat_alt ne by simp
  obtain v1 h1 where v1: "NaClVmmapMakeSorted vm h = Returns (v1, h1)" "vm_ok v1" "is_sorted v1" "vm_refs base (mset (vents v1)) h1"
      "mset (vents v1) = mset (vents vm)"
    using MakeSorted_spec [OF ok r] by blast
  have len: "length (vents v1) = nvalid v1" "length (vents vm) = nvalid vm" using v1(2) ok by (simp_all add: vm_ok_def vm_full_def)
  have "nvalid v1 = nvalid vm" using mset_eq_length [OF v1(5)] len by simp
  moreover obtain v2 h2 where "NaClVmmapUpdate_loop alloc pn (pn + np) (length []) v1 h1 = Returns (v2, h2)"
      "update_done (unat pn) (unat (pn + np)) base [] (vents v1) v2 h2"
    using Update_loop_spec [of v1 "[]" "vents v1" base h1 alloc pn "pn + np"] v1 ok room al lt top ne by (auto simp: vm_ok_def)
  ultimately show ?thesis using v1(1,5) len(1) ne by (simp add: update_done_def)
qed

lemma Update_adds:
  assumes v: "vm_full v2" "\<forall>e\<in>set (vents v2). live e \<longrightarrow> entry_ok e"
      "vm_refs (\<lambda>a. base a + count (held (if remove then None else map_option mo_ndp mo)) a) (mset (vents v2)) h2"
      "\<forall>p. views (mset (vents v2)) p = (if unat pn \<le> p \<and> p < unat pn + unat np then {#} else old p)"
    and al: "\<forall>k. alloc k" and np: "0 < np" and top: "unat pn + unat np \<le> 2 ^ 20"
  shows "\<exists>v3. (if remove then Returns v2 else obind (NaClVmmapAdd alloc 3 v2 pn np pr mo) (\<lambda>(ok, v). if ok then Returns v else Aborts)) = Returns v3 \<and>
    vm_full v3 \<and> (\<forall>e\<in>set (vents v3). live e \<longrightarrow> entry_ok e) \<and> vm_refs base (mset (vents v3)) h2 \<and>
    views (mset (vents v3)) = (\<lambda>p. if unat pn \<le> p \<and> p < unat pn + unat np then if remove then {#} else {#new_view pn pr mo p#} else old p)"
proof -
  let ?in = "\<lambda>p. unat pn \<le> p \<and> p < unat pn + unat np"
  let ?e = "\<lparr>page_num = pn, npages = np, prot = pr, nmop = mo, removed = False\<rparr>"
  have e: "entry_ok ?e" using np top by (simp add: entry_ok_def page_end_def word_less_nat_alt)
  have ve: "views {#?e#} p = (if ?in p then {#new_view pn pr mo p#} else {#})" for p
    by (auto simp: covers_def page_end_def view_def new_view_def)
  show ?thesis
  proof (cases remove)
    case True
    then show ?thesis using v by (auto simp: held_def)
  next
    case False
    obtain v3 where v3: "NaClVmmapAdd alloc 3 v2 pn np pr mo = Returns (True, v3)" "vm_full v3" "vents v3 = vents v2 @ [?e]"
      using Add_spec [OF v(1) al] by blast
    have "vm_refs base (mset (vents v3)) h2"
      using v(3) False unfolding v3(3) vm_refs_def by (auto simp: count_held ac_simps elim!: back_subst [of "\<lambda>f. counts f h2"])
    moreover have "views (mset (vents v3)) =
      (\<lambda>p. if ?in p then if remove then {#} else {#new_view pn pr mo p#} else old p)" using v(4) ve False by (simp add: v3(3) fun_eq_iff)
    ultimately show ?thesis using False v3 v(2) e by (intro exI [of _ v3]) simp
  qed
qed

text \<open>
  C21: updating the address space map refines updating a map from pages. On a well-formed map, \<open>NaClVmmapUpdate\<close> of a
  range of pages below the end of the address space gives every page of the range the new protection and
  backing (or none when removing), leaves every page outside of the range with the protection,
  descriptor and file offset it had, whatever entries had to be cut, moved or removed for that, and
  keeps the map well formed and every reference to a descriptor counted.
\<close>

theorem NaClVmmapUpdate_refines:
  assumes ok: "vm_ok vm"
    and refs: "vm_refs (\<lambda>a. base a + count (held (if remove then None else map_option mo_ndp mo)) a) (mset (vents vm)) h"
    and room: "\<forall>a. base a + count (held (if remove then None else map_option mo_ndp mo)) a + mo_refs (mset (vents vm)) a + 1 < 2 ^ 32"
    and al: "\<forall>k. alloc k" and np: "0 < np" and top: "unat pn + unat np \<le> 2 ^ 20"
    and rest: "remove \<longrightarrow> (\<exists>p. vm_map vm p \<noteq> None \<and> \<not> (unat pn \<le> p \<and> p < unat pn + unat np))"
  shows "\<exists>vm' h'. NaClVmmapUpdate alloc vm pn np pr mo remove h = Returns (vm', h') \<and> vm_ok vm' \<and> vm_refs base (mset (vents vm')) h' \<and>
    vm_map vm' = (\<lambda>p. if unat pn \<le> p \<and> p < unat pn + unat np then if remove then None else Some (new_view pn pr mo p) else vm_map vm p)"
proof -
  let ?in = "\<lambda>p. unat pn \<le> p \<and> p < unat pn + unat np"
  let ?new = "\<lambda>p. if ?in p then if remove then {#} else {#new_view pn pr mo p#} else views (mset (vents vm)) p"
  obtain v1 h1 v2 h2 where v: "NaClVmmapMakeSorted vm h = Returns (v1, h1)" "NaClVmmapUpdate_loop alloc pn (pn + np) 0 v1 h1 = Returns (v2, h2)"
      "vm_full v2" "\<forall>e\<in>set (vents v2). live e \<longrightarrow> entry_ok e"
      "vm_refs (\<lambda>a. base a + count (held (if remove then None else map_option mo_ndp mo)) a) (mset (vents v2)) h2"
      "\<forall>p. views (mset (vents v2)) p = (if ?in p then {#} else views (mset (vents vm)) p)"
    using Update_marks [OF ok refs room al np top] by blast
  obtain v3 where v3: "(if remove then Returns v2 else obind (NaClVmmapAdd alloc 3 v2 pn np pr mo) (\<lambda>(ok, v). if ok then Returns v else Aborts)) = Returns v3"
      "vm_full v3" "\<forall>e\<in>set (vents v3). live e \<longrightarrow> entry_ok e" "vm_refs base (mset (vents v3)) h2" "views (mset (vents v3)) = ?new"
    using Update_adds [OF v(3-6) al np top] by blast
  have "disj (mset (vents v3))" using ok by (simp add: disj_def v3(5) vm_ok_def)
  moreover have "\<exists>p. ?new p \<noteq> {#}"
  proof (cases remove)
    case True
    then obtain p where "vm_map vm p \<noteq> None" "\<not> ?in p" using rest by blast
    then show ?thesis using vm_map_views [OF ok, of p] by (intro exI [of _ p]) auto
  next
    case False
    then show ?thesis using np by (intro exI [of _ "unat pn"]) (simp add: word_less_nat_alt)
  qed
  then have "\<exists>e\<in>set (vents v3). live e" using live_views [OF v3(3)] v3(5) by simp
  ultimately obtain vm' h' where w: "NaClVmmapRemoveMarked v3 h2 = Returns (vm', h')" "vm_ok vm'" "vm_refs base (mset (vents vm')) h'"
      "views (mset (vents vm')) = views (mset (vents v3))"
    using RemoveMarked_finish [OF v3(2,4,3)] by blast
  have "vm_map vm' p = (if ?in p then if remove then None else Some (new_view pn pr mo p) else vm_map vm p)" for p
    using vm_map_None [OF w(2), of p] vm_map_Some [OF w(2), of p] vm_map_cong [OF ok w(2), of p] w(4) v3(5) by auto
  moreover have "NaClVmmapUpdate alloc vm pn np pr mo remove h = Returns (vm', h')"
    using v(1,2) np v3(1) w(1) by (simp add: NaClVmmapUpdate_def)
  ultimately show ?thesis using w(2,3) by blast
qed

definition sample_map :: NaClVmmap where
  "sample_map = \<lparr>vmentry = [Some \<lparr>page_num = 16, npages = 16, prot = 5,
       nmop = Some \<lparr>mo_ndp = 7, mo_nbytes = 0x10000, mo_offset = 0\<rparr>, removed = False\<rparr>, None],
     nvalid = 1, vm_size = 2, is_sorted = True\<rparr>"

lemma sample_map_ok: "vm_ok sample_map" "vm_refs (\<lambda>_. 0) (mset (vents sample_map)) [7 \<mapsto> 1]"
  "mo_refs (mset (vents sample_map)) a + 1 < 2 ^ 32"
  "vm_map sample_map p = (if 16 \<le> p \<and> p < 32 then Some (5, Some (7, of_nat ((p - 16) * 4096))) else None)"
  by (simp_all add: vm_ok_def vm_full_def full_def ents_def sample_map_def entry_ok_def page_end_def disj_def apart_def
      vm_refs_def counts_def vm_map_def covers_def view_def backing_def)

theorem NaClVmmapUpdate_refines_witness:
  "\<exists>vm' h'. NaClVmmapUpdate (\<lambda>_. True) sample_map 20 4 3 None False [7 \<mapsto> 1] = Returns (vm', h') \<and> vm_ok vm' \<and>
     vm_map vm' 19 = Some (5, Some (7, 0x3000)) \<and> vm_map vm' 21 = Some (3, None) \<and> vm_map vm' 24 = Some (5, Some (7, 0x8000))"
proof -
  have "\<forall>a. 0 + count (held (if False then None else map_option mo_ndp None)) a + mo_refs (mset (vents sample_map)) a + 1 < 2 ^ 32"
    using sample_map_ok(3) by (simp add: held_def)
  from NaClVmmapUpdate_refines [OF sample_map_ok(1), of "\<lambda>_. 0" False None "[7 \<mapsto> 1]", OF _ this, of "\<lambda>_. True" 4 20 3]
  show ?thesis using sample_map_ok(2) by (auto simp: held_def sample_map_ok(4) new_view_def)
qed

text \<open>
  C33: removing the last pages crashes. When every mapped page lies in the range to be removed, \<open>NaClVmmapUpdate\<close> marks every
  entry, and \<open>NaClVmmapRemoveMarked\<close> frees all of them and then follows the null pointer in the first slot,
  instead of reaching the fatal error its test is written for.
\<close>

theorem NaClVmmapUpdate_remove_all:
  assumes ok: "vm_ok vm" and refs: "vm_refs base (mset (vents vm)) h"
    and room: "\<forall>a. base a + mo_refs (mset (vents vm)) a + 1 < 2 ^ 32"
    and al: "\<forall>k. alloc k" and np: "0 < np" and top: "unat pn + unat np \<le> 2 ^ 20" and some: "vm_map vm q \<noteq> None"
    and all: "\<forall>p. vm_map vm p \<noteq> None \<longrightarrow> unat pn \<le> p \<and> p < unat pn + unat np"
  shows "NaClVmmapUpdate alloc vm pn np pr mo True h = Faults"
proof -
  let ?in = "\<lambda>p. unat pn \<le> p \<and> p < unat pn + unat np"
  obtain v1 h1 v2 h2 where v: "NaClVmmapMakeSorted vm h = Returns (v1, h1)" "NaClVmmapUpdate_loop alloc pn (pn + np) 0 v1 h1 = Returns (v2, h2)"
      "vm_full v2" "\<forall>e\<in>set (vents v2). live e \<longrightarrow> entry_ok e" "vm_refs base (mset (vents v2)) h2" "nvalid vm \<le> nvalid v2"
      "\<forall>p. views (mset (vents v2)) p = (if ?in p then {#} else views (mset (vents vm)) p)"
    using Update_marks [OF ok refs room al np top] by blast
  have "views (mset (vents v2)) p = {#}" for p
    using v(7) all vm_map_views [OF ok, of p] by (auto split: option.splits)
  then have "\<forall>e\<in>set (vents v2). removed e" using live_views [OF v(4)] by blast
  moreover have "0 < nvalid vm" using some by (cases "nvalid vm") (simp_all add: vm_map_def ents_def)
  ultimately have "NaClVmmapRemoveMarked v2 h2 = Faults" using RemoveMarked_all [OF v(3,5)] v(6) by simp
  then show ?thesis using v(1,2) np by (simp add: NaClVmmapUpdate_def)
qed

theorem NaClVmmapUpdate_remove_all_witness:
  "NaClVmmapUpdate (\<lambda>_. True) sample_map 16 16 0 None True [7 \<mapsto> 1] = Faults"
proof -
  have "\<forall>a. 0 + mo_refs (mset (vents sample_map)) a + 1 < 2 ^ 32"
    using sample_map_ok(3) by simp
  from NaClVmmapUpdate_remove_all [OF sample_map_ok(1,2) this, of "\<lambda>_. True" 16 16 16] show ?thesis
    by (simp add: sample_map_ok(4))
qed

subsection \<open>Looking up a page\<close>

lemma contain_cmp:
  assumes "entry_ok e"
  shows "NaClVmmapContainCmpEntries key e < 0 \<longleftrightarrow> unat key < unat (page_num e)"
    and "NaClVmmapContainCmpEntries key e > 0 \<longleftrightarrow> page_end e \<le> unat key"
  using entry_end [OF assms] by (auto simp: NaClVmmapContainCmpEntries_def word_less_nat_alt page_end_def)

lemma bsearch_spec:
  assumes "full xs k" "apart (ents xs k)" "\<forall>e\<in>set (ents xs k). entry_ok e" "hi \<le> k"
    "\<forall>i<k. covers (unat key) (ents xs k ! i) \<longrightarrow> lo \<le> i \<and> i < hi"
  shows "\<exists>r. bsearch_entries xs key lo hi = Returns r \<and>
    (case r of None \<Rightarrow> \<forall>i<k. \<not> covers (unat key) (ents xs k ! i) | Some i \<Rightarrow> i < k \<and> covers (unat key) (ents xs k ! i))"
  using assms
proof (induction xs key lo hi rule: bsearch_entries.induct)
  case (1 xs key lo hi)
  let ?es = "ents xs k" and ?m = "(lo + hi) div 2"
  show ?case
  proof (cases "lo < hi")
    case False
    then show ?thesis using "1.prems"(5) by (subst bsearch_entries.simps) auto
  next
    case True
    then have m: "?m < k" "lo \<le> ?m" "?m < hi" using "1.prems"(4) by simp_all
    have len: "length ?es = k" by (rule length_ents [OF "1.prems"(1)])
    have at: "entry_at xs ?m = Returns (?es ! ?m)" by (rule entry_at_full [OF "1.prems"(1) m(1)])
    have "entry_ok (?es ! ?m)" using "1.prems"(3) m(1) len by simp
    note cmp = contain_cmp [OF this, of key]
    have far: "page_end (?es ! i) \<le> unat (page_num (?es ! j))" if "i < j" "j < k" for i j
      using "1.prems"(2) that len by (simp add: apart_def sorted_wrt_iff_nth_less)
    have pe: "unat (page_num (?es ! i)) < page_end (?es ! i)" if "i < k" for i
      using "1.prems"(3) that len by (simp add: entry_ok_def page_end_def)
    consider (low) "unat key < unat (page_num (?es ! ?m))" | (high) "page_end (?es ! ?m) \<le> unat key" | (hit) "covers (unat key) (?es ! ?m)"
      unfolding covers_def by linarith
    then show ?thesis
    proof cases
      case low
      have "\<forall>i<k. covers (unat key) (?es ! i) \<longrightarrow> lo \<le> i \<and> i < ?m"
      proof (intro allI impI)
        fix i assume i: "i < k" "covers (unat key) (?es ! i)"
        then have "i < ?m" using low far [of ?m i] pe [OF m(1)] by (cases i ?m rule: linorder_cases) (auto simp: covers_def)
        then show "lo \<le> i \<and> i < ?m" using "1.prems"(5) i by blast
      qed
      then show ?thesis
        using "1.IH"(1) [OF True refl at] "1.prems" low cmp(1) m True at by (subst bsearch_entries.simps) (simp add: Let_def)
    next
      case high
      have "\<forall>i<k. covers (unat key) (?es ! i) \<longrightarrow> ?m + 1 \<le> i \<and> i < hi"
      proof (intro allI impI)
        fix i assume i: "i < k" "covers (unat key) (?es ! i)"
        then have "?m < i" using high far [of i ?m] pe [OF m(1)] m(1) by (cases i ?m rule: linorder_cases) (auto simp: covers_def)
        then show "?m + 1 \<le> i \<and> i < hi" using "1.prems"(5) i by auto
      qed
      moreover have "\<not> NaClVmmapContainCmpEntries key (?es ! ?m) < 0" "NaClVmmapContainCmpEntries key (?es ! ?m) > 0"
        using high cmp pe [OF m(1)] by auto
      ultimately show ?thesis
        using "1.IH"(2) [OF True refl at] "1.prems" True at by (subst bsearch_entries.simps) (simp add: Let_def)
    next
      case hit
      then have "\<not> NaClVmmapContainCmpEntries key (?es ! ?m) < 0" "\<not> NaClVmmapContainCmpEntries key (?es ! ?m) > 0"
        using cmp by (auto simp: covers_def)
      then show ?thesis using True at hit m(1) by (subst bsearch_entries.simps) (simp add: Let_def)
    qed
  qed
qed

end
