(* ===== verification/Vmmap_Find.thy ===== *)
theory Vmmap_Find
  imports Vmmap_Spec
begin

text \<open>
  Looking pages up in the address space map and finding free ranges: what the search functions of
  \<open>Vmmap\<close> return, in terms of the map from pages.
\<close>

lemma MakeSorted_map:
  assumes ok: "vm_ok vm" and r: "vm_refs base (mset (vents vm)) h"
  obtains vm' h' where "NaClVmmapMakeSorted vm h = Returns (vm', h')" "vm_ok vm'" "vm_refs base (mset (vents vm')) h'"
    "vm_map vm' = vm_map vm" "apart (vents vm')" "full (vmentry vm') (nvalid vm')" "\<forall>e\<in>set (vents vm'). entry_ok e"
    "nvalid vm' = nvalid vm"
proof -
  obtain vm' h' where v: "NaClVmmapMakeSorted vm h = Returns (vm', h')" "vm_ok vm'" "is_sorted vm'" "vm_refs base (mset (vents vm')) h'"
      "mset (vents vm') = mset (vents vm)"
    using MakeSorted_spec [OF assms] by blast
  have "vm_map vm' = vm_map vm" using vm_map_cong [OF ok v(2)] v(5) by (simp add: fun_eq_iff)
  moreover have "nvalid vm' = nvalid vm"
    using mset_eq_length [OF v(5)] v(2) ok by (simp add: vm_ok_def vm_full_def)
  ultimately show thesis using that [OF v(1,2,4)] v(2,3) by (simp add: vm_ok_def vm_full_def)
qed

lemma find_covers:
  assumes "apart es" "\<forall>e\<in>set es. entry_ok e" "i < length es" "covers p (es ! i)"
  shows "find (covers p) es = Some (es ! i)"
proof -
  have "\<not> covers p (es ! j)" if "j < i" for j
    using assms(1,3,4) that by (fastforce simp: covers_def apart_def sorted_wrt_iff_nth_less)
  then show ?thesis using assms(3,4) by (auto simp: find_Some_iff)
qed

lemma vm_map_nth:
  assumes "apart (vents vm)" "\<forall>e\<in>set (vents vm). entry_ok e" "i < length (vents vm)" "covers p (vents vm ! i)"
  shows "vm_map vm p = Some (view p (vents vm ! i))"
  using find_covers [OF assms] by (simp add: vm_map_def)

lemma vm_map_dom: "vm_map vm p \<noteq> None \<longleftrightarrow> (\<exists>e\<in>set (vents vm). covers p e)"
  by (auto simp: vm_map_def find_None_iff)

text \<open>
  C22: looking up a page. On a well-formed map \<open>NaClVmmapFindPage\<close> returns an entry that gives the page exactly the
  protection and backing it has in the abstract map, and null exactly when the page is not mapped;
  the map it leaves, possibly sorted, has the same pages.
\<close>

theorem NaClVmmapFindPage_spec:
  assumes ok: "vm_ok vm" and r: "vm_refs base (mset (vents vm)) h"
  shows "\<exists>e vm' h'. NaClVmmapFindPage vm pnum h = Returns (e, vm', h') \<and> map_option (view (unat pnum)) e = vm_map vm (unat pnum) \<and>
    vm_ok vm' \<and> vm_map vm' = vm_map vm \<and> vm_refs base (mset (vents vm')) h'"
proof -
  let ?p = "unat pnum"
  obtain vm' h' where v: "NaClVmmapMakeSorted vm h = Returns (vm', h')" "vm_ok vm'" "vm_refs base (mset (vents vm')) h'"
      "vm_map vm' = vm_map vm" "apart (vents vm')" "full (vmentry vm') (nvalid vm')" "\<forall>e\<in>set (vents vm'). entry_ok e"
    by (rule MakeSorted_map [OF assms])
  obtain i where b: "bsearch_entries (vmentry vm') pnum 0 (nvalid vm') = Returns i"
      "case i of None \<Rightarrow> \<forall>i<nvalid vm'. \<not> covers ?p (vents vm' ! i) | Some i \<Rightarrow> i < nvalid vm' \<and> covers ?p (vents vm' ! i)"
    using bsearch_spec [OF v(6,5,7) order.refl, of pnum 0] by auto
  have len: "length (vents vm') = nvalid vm'" by (rule length_ents [OF v(6)])
  have "map_option (view ?p) (case i of None \<Rightarrow> None | Some i \<Rightarrow> vmentry vm' ! i) = vm_map vm' ?p"
  proof (cases i)
    case None
    then have "\<not> (\<exists>e\<in>set (vents vm'). covers ?p e)" using b(2) len by (auto simp: in_set_conv_nth)
    then have "vm_map vm' ?p = None" using vm_map_dom by blast
    then show ?thesis using None by simp
  next
    case (Some j)
    then show ?thesis using b(2) vm_map_nth [OF v(5,7), of j ?p] full_nth [OF v(6), of j] len by simp
  qed
  then show ?thesis using v(1-4) b(1) by (simp add: NaClVmmapFindPage_def)
qed

theorem NaClVmmapFindPage_spec_witness:
  "\<exists>e vm' h'. NaClVmmapFindPage sample_map 31 [7 \<mapsto> 1] = Returns (Some e, vm', h') \<and> view 31 e = (5, Some (7, 0xf000))"
  using NaClVmmapFindPage_spec [OF sample_map_ok(1,2), of 31] by (auto simp: sample_map_ok(4))

subsection \<open>Free ranges\<close>

text \<open>
  A gap for \<open>n\<close> pages at page \<open>q\<close> of a map: the pages are free, there are mapped pages below and
  above, and \<open>q\<close> is a multiple of the grain that is asked for.
\<close>

definition gap :: "(nat \<Rightarrow> bool) \<Rightarrow> (nat \<Rightarrow> view option) \<Rightarrow> nat \<Rightarrow> nat \<Rightarrow> bool" where
  "gap multiple M n q \<longleftrightarrow> multiple q \<and> (\<forall>p. q \<le> p \<and> p < q + n \<longrightarrow> M p = None) \<and> (\<exists>p<q. M p \<noteq> None) \<and> (\<exists>p\<ge>q + n. M p \<noteq> None)"

definition between :: "NaClVmmapEntry list \<Rightarrow> nat \<Rightarrow> nat \<Rightarrow> nat \<Rightarrow> bool" where
  "between es i a b \<longleftrightarrow> 0 < i \<and> i < length es \<and> page_end (es ! (i - 1)) \<le> a \<and> b \<le> unat (page_num (es ! i))"

lemma apart_nth: "apart es \<Longrightarrow> i < j \<Longrightarrow> j < length es \<Longrightarrow> page_end (es ! i) \<le> unat (page_num (es ! j))"
  by (simp add: apart_def sorted_wrt_iff_nth_less)

lemma nonempty_nth: "\<forall>e\<in>set es. entry_ok e \<Longrightarrow> i < length es \<Longrightarrow> unat (page_num (es ! i)) < page_end (es ! i)"
  by (simp add: entry_ok_def page_end_def)

lemma mono_nth:
  assumes "apart es" "\<forall>e\<in>set es. entry_ok e" "i \<le> j" "j < length es"
  shows "unat (page_num (es ! i)) \<le> unat (page_num (es ! j))" "page_end (es ! i) \<le> page_end (es ! j)"
  using apart_nth [OF assms(1), of i j] nonempty_nth [OF assms(2), of i] nonempty_nth [OF assms(2), of j] assms(3,4)
  by (cases "i = j"; simp)+

lemma gap_between:
  assumes a: "apart es" and ok: "\<forall>e\<in>set es. entry_ok e" and n: "0 < n" and g: "gap multiple M n q"
    and M: "\<forall>p. M p \<noteq> None \<longleftrightarrow> (\<exists>e\<in>set es. covers p e)"
  shows "\<exists>i. between es i q (q + n)"
proof -
  have free: "\<not> covers p (es ! j)" if "q \<le> p" "p < q + n" "j < length es" for p j
  proof -
    have "M p = None" using g that(1,2) unfolding gap_def by blast
    then have "\<not> (\<exists>e\<in>set es. covers p e)" using M by (metis (no_types))
    then show ?thesis using nth_mem [OF that(3)] by blast
  qed
  have side: "page_end (es ! j) \<le> q \<or> q + n \<le> unat (page_num (es ! j))" if j: "j < length es" for j
    using free [of q j] free [of "unat (page_num (es ! j))" j] nonempty_nth [OF ok j] j n unfolding covers_def by linarith
  obtain p0 p1 where p: "p0 < q" "M p0 \<noteq> None" "q + n \<le> p1" "M p1 \<noteq> None" using g unfolding gap_def by blast
  obtain j0 where j0: "j0 < length es" "covers p0 (es ! j0)" using M p(2) by (auto simp: in_set_conv_nth)
  obtain j1 where j1: "j1 < length es" "covers p1 (es ! j1)" using M p(4) by (auto simp: in_set_conv_nth)
  let ?P = "\<lambda>i. i < length es \<and> q + n \<le> unat (page_num (es ! i))"
  define i where "i = (LEAST i. ?P i)"
  have "?P j1" using side [OF j1(1)] j1 p(3) unfolding covers_def by linarith
  then have i: "?P i" unfolding i_def by (rule LeastI)
  have least: "\<not> ?P j" if "j < i" for j using that not_less_Least [of j ?P] unfolding i_def by blast
  have "j0 < i"
    using mono_nth(1) [OF a ok _ j0(1), of i] j0(2) i p(1) unfolding covers_def by linarith
  then have "page_end (es ! (i - 1)) \<le> q" using least [of "i - 1"] side [of "i - 1"] i by auto
  then show ?thesis using i \<open>j0 < i\<close> unfolding between_def by (intro exI [of _ i]) simp
qed

lemma between_gap:
  assumes a: "apart es" and ok: "\<forall>e\<in>set es. entry_ok e" and b: "between es i q (q + n)" and m: "multiple q"
    and M: "\<forall>p. M p \<noteq> None \<longleftrightarrow> (\<exists>e\<in>set es. covers p e)"
  shows "gap multiple M n q"
proof -
  have i: "0 < i" "i < length es" "page_end (es ! (i - 1)) \<le> q" "q + n \<le> unat (page_num (es ! i))"
    using b by (simp_all add: between_def)
  then have i1: "i - 1 < length es" by simp
  have "M p = None" if p: "q \<le> p" "p < q + n" for p
  proof (rule ccontr)
    assume "M p \<noteq> None"
    then obtain j where j: "j < length es" "covers p (es ! j)" using M by (auto simp: in_set_conv_nth)
    consider "j \<le> i - 1" | "i \<le> j" by linarith
    then show False
      using mono_nth(2) [OF a ok _ i1, of j] mono_nth(1) [OF a ok _ j(1), of i] i j(2) p unfolding covers_def
      by cases linarith+
  qed
  moreover have "covers (unat (page_num (es ! j))) (es ! j)" if "j < length es" for j
    using nonempty_nth [OF ok that] by (simp add: covers_def)
  then have "M (unat (page_num (es ! j))) \<noteq> None" if "j < length es" for j using that M by (metis nth_mem)
  moreover have "unat (page_num (es ! (i - 1))) < q" using nonempty_nth [OF ok i1] i(3) by linarith
  ultimately show ?thesis using m i i1 unfolding gap_def by blast
qed

text \<open>
  The searches for free ranges look at the gaps between adjacent entries and differ in the grain of the addresses
  they return. The laws of a grain: which page numbers are multiples of it, and how rounding relates to them.
\<close>

locale page_grain =
  fixes multiple :: "nat \<Rightarrow> bool" and up down :: "nat \<Rightarrow> nat"
  assumes up_le: "multiple q \<Longrightarrow> up k \<le> q \<longleftrightarrow> k \<le> q" and le_down: "multiple q \<Longrightarrow> q \<le> down k \<longleftrightarrow> q \<le> k"
    and multiple_up: "multiple (up k)" and multiple_down: "multiple (down k)"
    and multiple_add: "multiple q \<Longrightarrow> multiple k \<Longrightarrow> multiple (q + k)"
    and multiple_diff: "multiple q \<Longrightarrow> multiple k \<Longrightarrow> multiple (q - k)"
begin

lemma up_ge: "k \<le> up k"
  using up_le [OF multiple_up] by blast

lemma up_leD: "up k \<le> q \<Longrightarrow> k \<le> q"
  using up_ge order_trans by blast

definition fits :: "NaClVmmapEntry list \<Rightarrow> nat \<Rightarrow> nat \<Rightarrow> nat \<Rightarrow> bool" where
  "fits es n u i \<longleftrightarrow> 0 < i \<and> i < length es \<and> max u (up (page_end (es ! (i - 1)))) + n \<le> down (unat (page_num (es ! i)))"

lemma fits_iff:
  assumes "multiple n" "multiple u"
  shows "fits es n u i \<longleftrightarrow> (\<exists>q. multiple q \<and> u \<le> q \<and> between es i q (q + n))"
proof
  assume "fits es n u i"
  moreover have "multiple (max u (up (page_end (es ! (i - 1)))))" using assms(2) multiple_up by (simp add: max_def)
  ultimately show "\<exists>q. multiple q \<and> u \<le> q \<and> between es i q (q + n)"
    using le_down [OF multiple_add [OF _ assms(1)]] up_ge unfolding fits_def between_def
    by (intro exI [of _ "max u (up (page_end (es ! (i - 1))))"]) (simp add: le_max_iff_disj)
next
  assume "\<exists>q. multiple q \<and> u \<le> q \<and> between es i q (q + n)"
  then obtain q where q: "multiple q" "u \<le> q" "between es i q (q + n)" by blast
  then have "up (page_end (es ! (i - 1))) \<le> q" "q + n \<le> down (unat (page_num (es ! i)))"
    using up_le [OF q(1)] le_down [OF multiple_add [OF q(1) assms(1)]] by (simp_all add: between_def)
  then show "fits es n u i" using q(2,3) unfolding fits_def between_def by (auto intro: order_trans [rotated])
qed

lemma highest_gap:
  assumes a: "apart es" and ok: "\<forall>e\<in>set es. entry_ok e" and n: "0 < n" "multiple n"
    and M: "\<forall>p. M p \<noteq> None \<longleftrightarrow> (\<exists>e\<in>set es. covers p e)" and z: "multiple 0"
    and f: "fits es n 0 i" and top: "\<forall>j>i. \<not> fits es n 0 j"
  defines "r \<equiv> down (unat (page_num (es ! i))) - n"
  shows "gap multiple M n r" and "gap multiple M n q \<Longrightarrow> q \<le> r"
proof -
  have i: "0 < i" "i < length es" "up (page_end (es ! (i - 1))) + n \<le> down (unat (page_num (es ! i)))"
    using f by (simp_all add: fits_def)
  have m: "multiple r" unfolding r_def by (rule multiple_diff [OF multiple_down n(2)])
  have "r + n \<le> unat (page_num (es ! i))"
    using i(3) le_down [OF multiple_down] unfolding r_def by fastforce
  moreover have "page_end (es ! (i - 1)) \<le> r" using i(3) up_le [OF m] unfolding r_def by fastforce
  ultimately have "between es i r (r + n)" using i by (simp add: between_def)
  then show "gap multiple M n r" using between_gap [of es i r n multiple M] a ok m M by blast
  assume g: "gap multiple M n q"
  then have mq: "multiple q" by (simp add: gap_def)
  obtain j where j: "between es j q (q + n)" using gap_between [OF a ok n(1) g M] by blast
  then have "fits es n 0 j" using fits_iff [OF n(2) z] mq by blast
  then have "j \<le> i" using top by (meson not_less)
  have "q + n \<le> unat (page_num (es ! j))" using j by (simp add: between_def)
  also have "\<dots> \<le> unat (page_num (es ! i))"
    by (rule mono_nth(1) [OF a ok \<open>j \<le> i\<close> i(2)])
  finally have "q + n \<le> down (unat (page_num (es ! i)))" using le_down multiple_add [OF mq n(2)] by blast
  then show "q \<le> r" unfolding r_def by simp
qed

lemma lowest_gap:
  assumes a: "apart es" and ok: "\<forall>e\<in>set es. entry_ok e" and n: "0 < n" "multiple n" and u: "multiple u"
    and M: "\<forall>p. M p \<noteq> None \<longleftrightarrow> (\<exists>e\<in>set es. covers p e)"
    and f: "fits es n u i" and low: "\<forall>j<i. \<not> fits es n u j"
  defines "r \<equiv> max u (up (page_end (es ! (i - 1))))"
  shows "gap multiple M n r" and "gap multiple M n q \<Longrightarrow> u \<le> q \<Longrightarrow> r \<le> q"
proof -
  have i: "0 < i" "i < length es" "r + n \<le> down (unat (page_num (es ! i)))"
    using f by (simp_all add: fits_def r_def)
  have m: "multiple r" unfolding r_def using u multiple_up by (simp add: max_def)
  have "between es i r (r + n)"
    using i le_down [OF multiple_add [OF m n(2)]] up_ge unfolding between_def by (simp add: r_def le_max_iff_disj)
  then show "gap multiple M n r" using between_gap [of es i r n multiple M] a ok m M by blast
  assume g: "gap multiple M n q" and uq: "u \<le> q"
  then have mq: "multiple q" by (simp add: gap_def)
  obtain j where j: "between es j q (q + n)" using gap_between [OF a ok n(1) g M] by blast
  then have "fits es n u j" using fits_iff [OF n(2) u] mq uq by blast
  then have "i \<le> j" using low by (meson not_less)
  have "page_end (es ! (i - 1)) \<le> page_end (es ! (j - 1))"
    using \<open>i \<le> j\<close> j by (intro mono_nth(2) [OF a ok]) (auto simp: between_def)
  also have "\<dots> \<le> q" using j by (simp add: between_def)
  finally show "r \<le> q" unfolding r_def using up_le [OF mq] uq by simp
qed

lemma no_gap:
  assumes a: "apart es" and ok: "\<forall>e\<in>set es. entry_ok e" and n: "0 < n" "multiple n" and u: "multiple u"
    and M: "\<forall>p. M p \<noteq> None \<longleftrightarrow> (\<exists>e\<in>set es. covers p e)" and none: "\<forall>i. \<not> fits es n u i"
    and g: "gap multiple M n q"
  shows "q < u"
proof (rule ccontr)
  assume "\<not> q < u"
  moreover have "multiple q" using g by (simp add: gap_def)
  moreover obtain j where "between es j q (q + n)" using gap_between [OF a ok n(1) g M] by blast
  ultimately show False using none fits_iff [OF n(2) u] by (meson not_less)
qed

end

subsection \<open>The two grains\<close>

interpretation whole: page_grain "\<lambda>_. True" "\<lambda>k. k" "\<lambda>k. k"
  by unfold_locales simp_all

definition map_up :: "nat \<Rightarrow> nat" where
  "map_up k = (k + 15) div 16 * 16"

definition map_down :: "nat \<Rightarrow> nat" where
  "map_down k = k div 16 * 16"

interpretation mapped: page_grain "(dvd) 16" map_up map_down
  by unfold_locales (auto simp: map_up_def map_down_def elim!: dvdE)

lemma and_not_15: "unat (w AND NOT 15 :: u32) = map_down (unat w)"
proof -
  have "(15 :: u32) = mask 4" by (simp add: mask_eq_exp_minus_1)
  moreover have "w AND NOT (mask 4) = push_bit 4 (drop_bit 4 w)" by (intro bit_eqI) (auto simp: bit_simps)
  ultimately have "w AND NOT 15 = push_bit 4 (drop_bit 4 w)" by metis
  then have "w AND NOT 15 = drop_bit 4 w * 16" by (simp add: push_bit_eq_mult)
  moreover have "unat (drop_bit 4 w) = unat w div 16" by (simp only: unat_drop_bit_eq) (simp add: drop_bit_eq_div)
  moreover have "unat w div 16 * 16 < 2 ^ 32" using unsigned_less [of w, where ?'a = nat] by simp
  ultimately show ?thesis by (simp only: unat_word_ariths(2) map_down_def) simp
qed

lemma room_words:
  fixes s e n :: u32
  shows "e \<le> s \<Longrightarrow> n \<le> s - e \<longleftrightarrow> unat e + unat n \<le> unat s"
    and "0 < n \<Longrightarrow> \<not> s \<le> e \<and> n \<le> s - e \<longleftrightarrow> unat e + unat n \<le> unat s"
proof -
  show 1: "n \<le> s - e \<longleftrightarrow> unat e + unat n \<le> unat s" if "e \<le> s"
    using that unat_sub_le [OF that] unfolding word_le_nat_alt by auto
  assume "0 < n"
  then show "\<not> s \<le> e \<and> n \<le> s - e \<longleftrightarrow> unat e + unat n \<le> unat s"
    using 1 by (cases "e \<le> s") (auto simp: word_le_nat_alt word_less_nat_alt)
qed

lemma round_page_num:
  "unat w \<le> 2 ^ 20 \<Longrightarrow> unat (NaClRoundPageNumUpToMapMultiple w) = map_up (unat w)"
  "unat (NaClTruncPageNumDownToMapMultiple w) = map_down (unat w)"
proof -
  have 1: "NACL_PAGES_PER_MAP = 16" by (simp add: nacl_consts NACL_PAGES_PER_MAP_def)
  show "unat (NaClTruncPageNumDownToMapMultiple w) = map_down (unat w)"
    using and_not_15 by (simp add: NaClTruncPageNumDownToMapMultiple_def 1)
  assume "unat w \<le> 2 ^ 20"
  then have "unat (w + 15) = unat w + 15" by (subst unat_add_no_wrap) simp_all
  then show "unat (NaClRoundPageNumUpToMapMultiple w) = map_up (unat w)"
    using and_not_15 [of "w + 15"] by (simp add: NaClRoundPageNumUpToMapMultiple_def 1 map_up_def map_down_def add_diff_eq [symmetric])
qed

subsection \<open>The searches\<close>

text \<open>The downward searches: the last pair of entries, below a position, that leaves enough room.\<close>

definition last_fit :: "(nat \<Rightarrow> bool) \<Rightarrow> (nat \<Rightarrow> nat) \<Rightarrow> nat \<Rightarrow> nat \<Rightarrow> bool" where
  "last_fit fit start k r \<longleftrightarrow> (if \<exists>i<k. fit i then \<exists>i<k. fit i \<and> (\<forall>j<k. i < j \<longrightarrow> \<not> fit j) \<and> r = start i else r = 0)"

lemma last_fit_Suc:
  "\<not> fit k \<Longrightarrow> last_fit fit start (Suc k) r \<longleftrightarrow> last_fit fit start k r"
  "fit k \<Longrightarrow> last_fit fit start (Suc k) (start k)"
  by (auto simp: last_fit_def less_Suc_eq)

lemma adjacent:
  assumes "full xs nv" "apart (ents xs nv)" "\<forall>e\<in>set (ents xs nv). entry_ok e" "0 < k" "k < nv"
  defines "vmep \<equiv> ents xs nv ! (k - 1)" and "cur \<equiv> ents xs nv ! k"
  shows "entry_at xs (k - 1) = Returns vmep" "entry_at xs k = Returns cur"
    "unat (page_num vmep + npages vmep) = page_end vmep" "page_end vmep \<le> unat (page_num cur)" "page_end vmep \<le> 2 ^ 20"
proof -
  have len: "length (ents xs nv) = nv" by (rule length_ents [OF assms(1)])
  show "entry_at xs (k - 1) = Returns vmep" "entry_at xs k = Returns cur"
    using assms(4,5) by (simp_all add: vmep_def cur_def entry_at_full [OF assms(1)])
  have "entry_ok vmep" using assms(3,5) len unfolding vmep_def by simp
  then show "unat (page_num vmep + npages vmep) = page_end vmep" "page_end vmep \<le> 2 ^ 20"
    by (rule entry_end, simp add: entry_ok_def)
  show "page_end vmep \<le> unat (page_num cur)"
    unfolding vmep_def cur_def using assms(4,5) len by (intro apart_nth [OF assms(2)]) simp_all
qed

lemma FindSpace_loop_spec:
  assumes es: "full xs nv" "apart (ents xs nv)" "\<forall>e\<in>set (ents xs nv). entry_ok e" and "k \<le> nv" and num: "0 < num"
  shows "\<exists>r. FindSpace_loop xs num k = Returns r \<and>
    last_fit (whole.fits (ents xs nv) (unat num) 0) (\<lambda>i. unat (page_num (ents xs nv ! i)) - unat num) k (unat r)"
  using assms(4)
proof (induction k)
  case (Suc k)
  let ?es = "ents xs nv"
  let ?fit = "whole.fits ?es (unat num) 0"
  have len: "length ?es = nv" by (rule length_ents [OF es(1)])
  show ?case
  proof (cases "k = 0")
    case True
    then show ?thesis by (simp add: last_fit_def whole.fits_def)
  next
    case False
    then have k: "0 < k" "k < nv" using Suc.prems by simp_all
    let ?s = "page_num (?es ! k)" and ?e = "page_num (?es ! (k - 1)) + npages (?es ! (k - 1))"
    note at = adjacent [OF es k]
    have c: "num \<le> ?s - ?e \<longleftrightarrow> ?fit k"
      using room_words(1) [of ?e ?s num] at(4) k len unfolding whole.fits_def word_le_nat_alt at(3) by simp
    have step: "FindSpace_loop xs num (Suc k) = (if ?fit k then Returns (?s - num) else FindSpace_loop xs num k)"
      unfolding c [symmetric] using k at(1,2) by (simp add: Let_def)
    show ?thesis
    proof (cases "?fit k")
      case True
      then have "unat (?s - num) = unat ?s - unat num"
        by (intro unat_sub_le) (auto simp: whole.fits_def word_le_nat_alt)
      then show ?thesis unfolding step using True last_fit_Suc(2) [of ?fit k, OF True] by simp
    next
      case False
      then show ?thesis unfolding step using Suc.IH Suc.prems last_fit_Suc(1) [of ?fit k] by simp
    qed
  qed
qed (simp add: last_fit_def)

lemma FindMapSpace_loop_spec:
  assumes es: "full xs nv" "apart (ents xs nv)" "\<forall>e\<in>set (ents xs nv). entry_ok e" and "k \<le> nv" and num: "0 < num"
  shows "\<exists>r. FindMapSpace_loop xs num k = Returns r \<and>
    last_fit (mapped.fits (ents xs nv) (unat num) 0) (\<lambda>i. map_down (unat (page_num (ents xs nv ! i))) - unat num) k (unat r)"
  using assms(4)
proof (induction k)
  case (Suc k)
  let ?es = "ents xs nv"
  let ?fit = "mapped.fits ?es (unat num) 0"
  have len: "length ?es = nv" by (rule length_ents [OF es(1)])
  show ?case
  proof (cases "k = 0")
    case True
    then show ?thesis by (simp add: last_fit_def mapped.fits_def)
  next
    case False
    then have k: "0 < k" "k < nv" using Suc.prems by simp_all
    let ?s = "NaClTruncPageNumDownToMapMultiple (page_num (?es ! k))"
    let ?e = "NaClRoundPageNumUpToMapMultiple (page_num (?es ! (k - 1)) + npages (?es ! (k - 1)))"
    note at = adjacent [OF es k]
    have ue: "unat ?e = map_up (page_end (?es ! (k - 1)))" using at(3,5) by (simp only: round_page_num(1))
    have us: "unat ?s = map_down (unat (page_num (?es ! k)))" by (rule round_page_num(2))
    have c: "\<not> ?s \<le> ?e \<and> num \<le> ?s - ?e \<longleftrightarrow> ?fit k"
      using room_words(2) [of num ?s ?e] num k len unfolding mapped.fits_def ue us by simp
    have step: "FindMapSpace_loop xs num (Suc k) = (if ?fit k then Returns (?s - num) else FindMapSpace_loop xs num k)"
      unfolding c [symmetric] using k at(1,2) by (simp add: Let_def nacl_consts)
    show ?thesis
    proof (cases "?fit k")
      case True
      then have "unat (?s - num) = unat ?s - unat num"
        by (intro unat_sub_le) (auto simp: mapped.fits_def word_le_nat_alt us)
      then show ?thesis unfolding step using True last_fit_Suc(2) [of ?fit k, OF True] us by simp
    next
      case False
      then show ?thesis unfolding step using Suc.IH Suc.prems last_fit_Suc(1) [of ?fit k] by simp
    qed
  qed
qed (simp add: last_fit_def)

lemma room_above:
  fixes s e u n :: u32
  assumes "0 < n"
  defines "e' \<equiv> if e \<le> u \<and> u < s then u else e"
  shows "\<not> s \<le> e \<and> u \<le> e' \<and> n \<le> s - e' \<longleftrightarrow> max (unat u) (unat e) + unat n \<le> unat s"
    and "max (unat u) (unat e) + unat n \<le> unat s \<Longrightarrow> unat e' = max (unat u) (unat e)"
proof -
  have n: "0 < unat n" using assms(1) by (simp add: word_less_nat_alt)
  show "\<not> s \<le> e \<and> u \<le> e' \<and> n \<le> s - e' \<longleftrightarrow> max (unat u) (unat e) + unat n \<le> unat s"
    using n room_words(1) [of e' s n] by (auto simp: e'_def word_le_nat_alt word_less_nat_alt max_def)
  assume "max (unat u) (unat e) + unat n \<le> unat s"
  then show "unat e' = max (unat u) (unat e)" using n by (auto simp: e'_def word_le_nat_alt word_less_nat_alt max_def split: if_splits)
qed

definition first_fit :: "(nat \<Rightarrow> bool) \<Rightarrow> (nat \<Rightarrow> nat) \<Rightarrow> nat \<Rightarrow> nat \<Rightarrow> bool" where
  "first_fit fit start i r \<longleftrightarrow> (if \<exists>j\<ge>i. fit j then \<exists>j\<ge>i. fit j \<and> (\<forall>k<j. i \<le> k \<longrightarrow> \<not> fit k) \<and> r = start j else r = 0)"

lemma first_fit_Suc: "\<not> fit i \<Longrightarrow> first_fit fit start (Suc i) r \<Longrightarrow> first_fit fit start i r"
  unfolding first_fit_def by (metis Suc_leD Suc_leI le_neq_implies_less)

lemma FindMapSpaceAbove_loop_spec:
  assumes es: "full xs nv" "apart (ents xs nv)" "\<forall>e\<in>set (ents xs nv). entry_ok e" and num: "0 < num" and "0 < i"
  shows "\<exists>r. FindMapSpaceAbove_loop xs u num nv i = Returns r \<and>
    first_fit (mapped.fits (ents xs nv) (unat num) (unat u)) (\<lambda>i. max (unat u) (map_up (page_end (ents xs nv ! (i - 1))))) i (unat r)"
  using assms(5)
proof (induction "nv - i" arbitrary: i)
  case 0
  then show ?case
    using length_ents [OF es(1)] by (subst FindMapSpaceAbove_loop.simps) (auto simp: first_fit_def mapped.fits_def)
next
  case (Suc k)
  let ?es = "ents xs nv"
  let ?fit = "mapped.fits ?es (unat num) (unat u)"
  have len: "length ?es = nv" by (rule length_ents [OF es(1)])
  have i: "0 < i" "i < nv" using Suc.hyps(2) Suc.prems by simp_all
  let ?s = "NaClTruncPageNumDownToMapMultiple (page_num (?es ! i))"
  let ?e = "NaClRoundPageNumUpToMapMultiple (page_num (?es ! (i - 1)) + npages (?es ! (i - 1)))"
  let ?e' = "if ?e \<le> u \<and> u < ?s then u else ?e"
  note at = adjacent [OF es i]
  have ue: "unat ?e = map_up (page_end (?es ! (i - 1)))" using at(3,5) by (simp only: round_page_num(1))
  have us: "unat ?s = map_down (unat (page_num (?es ! i)))" by (rule round_page_num(2))
  have c: "\<not> ?s \<le> ?e \<and> u \<le> ?e' \<and> num \<le> ?s - ?e' \<longleftrightarrow> ?fit i"
    unfolding room_above(1) [OF num] mapped.fits_def ue us using i len by simp
  have step: "FindMapSpaceAbove_loop xs u num nv i =
      (if ?fit i then Returns ?e' else FindMapSpaceAbove_loop xs u num nv (i + 1))"
  proof -
    have "NACL_PAGESHIFT < NACL_MAP_PAGESHIFT" by (simp add: nacl_consts)
    then show ?thesis
      unfolding c [symmetric] using i(2)
      by (subst FindMapSpaceAbove_loop.simps)
        (simp only: at(1,2) obind.simps Let_def simp_thms if_True, cases "?s \<le> ?e"; simp only: simp_thms if_True if_False)
  qed
  show ?case
  proof (cases "?fit i")
    case True
    then have "max (unat u) (unat ?e) + unat num \<le> unat ?s" unfolding ue us by (simp add: mapped.fits_def)
    then have "unat ?e' = max (unat u) (map_up (page_end (?es ! (i - 1))))" using room_above(2) [OF num] unfolding ue [symmetric] by blast
    then show ?thesis unfolding step using True by (auto simp: first_fit_def)
  next
    case False
    have "k = nv - Suc i" using Suc.hyps(2) by simp
    then show ?thesis unfolding step using Suc.hyps(1) [of "Suc i"] first_fit_Suc [of ?fit i, OF False] False by auto
  qed
qed

lemma map_covers:
  "\<forall>p. vm_map vm p \<noteq> None \<longleftrightarrow> (\<exists>e\<in>set (vents vm). covers p e)"
  using vm_map_dom by blast

context page_grain
begin

lemma highest_found:
  assumes a: "apart es" and ok: "\<forall>e\<in>set es. entry_ok e" and n: "0 < n" "multiple n" and z: "multiple 0"
    and M: "\<forall>p. M p \<noteq> None \<longleftrightarrow> (\<exists>e\<in>set es. covers p e)"
    and r: "last_fit (fits es n 0) (\<lambda>i. down (unat (page_num (es ! i))) - n) (length es) r"
  shows "if \<exists>q. gap multiple M n q then gap multiple M n r \<and> (\<forall>q. gap multiple M n q \<longrightarrow> q \<le> r) else r = 0"
proof (cases "\<exists>i. fits es n 0 i")
  case True
  have "fits es n 0 j \<Longrightarrow> j < length es" for j by (simp add: fits_def)
  then obtain i where i: "fits es n 0 i" "\<forall>j>i. \<not> fits es n 0 j" "r = down (unat (page_num (es ! i))) - n"
    using True r unfolding last_fit_def by metis
  show ?thesis using highest_gap [OF a ok n M z i(1,2)] unfolding i(3) by auto
next
  case False
  then have "\<not> gap multiple M n q" for q using no_gap [OF a ok n z M, of q] by auto
  then show ?thesis using r False by (simp add: last_fit_def)
qed

lemma lowest_found:
  assumes a: "apart es" and ok: "\<forall>e\<in>set es. entry_ok e" and n: "0 < n" "multiple n" and u: "multiple u"
    and M: "\<forall>p. M p \<noteq> None \<longleftrightarrow> (\<exists>e\<in>set es. covers p e)"
    and r: "first_fit (fits es n u) (\<lambda>i. max u (up (page_end (es ! (i - 1))))) 1 r"
  shows "if \<exists>q\<ge>u. gap multiple M n q then u \<le> r \<and> gap multiple M n r \<and> (\<forall>q\<ge>u. gap multiple M n q \<longrightarrow> r \<le> q) else r = 0"
proof (cases "\<exists>i. fits es n u i")
  case True
  have "fits es n u j \<Longrightarrow> 1 \<le> j" for j by (simp add: fits_def)
  then obtain i where i: "fits es n u i" "\<forall>j<i. \<not> fits es n u j" "r = max u (up (page_end (es ! (i - 1))))"
    using True r unfolding first_fit_def by metis
  show ?thesis using lowest_gap [OF a ok n u M i(1,2)] unfolding i(3) by (metis max.cobounded1)
next
  case False
  then have "\<not> gap multiple M n q" if "u \<le> q" for q using no_gap [OF a ok n u M, of q] that by auto
  then show ?thesis using r False by (auto simp: first_fit_def)
qed

end

lemma empty_map: "nvalid vm = 0 \<Longrightarrow> \<not> gap multiple (vm_map vm) n q"
  by (simp add: gap_def vm_map_def ents_def)

text \<open>
  C25: finding free pages. On a well-formed map \<open>NaClVmmapFindSpace\<close> returns the first page of the highest free range of the
  given number of pages between mapped pages, and 0 exactly when there is none.
\<close>

theorem NaClVmmapFindSpace_highest:
  assumes ok: "vm_ok vm" and refs: "vm_refs base (mset (vents vm)) h" and num: "0 < num_pages"
  shows "\<exists>r vm' h'. NaClVmmapFindSpace vm num_pages h = Returns (r, vm', h') \<and> vm_ok vm' \<and> vm_map vm' = vm_map vm \<and>
    vm_refs base (mset (vents vm')) h' \<and>
    (let free = gap (\<lambda>_. True) (vm_map vm) (unat num_pages)
     in if \<exists>q. free q then free (unat r) \<and> (\<forall>q. free q \<longrightarrow> q \<le> unat r) else r = 0)"
proof (cases "nvalid vm = 0")
  case True
  then show ?thesis using ok refs empty_map by (simp add: NaClVmmapFindSpace_def)
next
  case False
  obtain vm' h' where v: "NaClVmmapMakeSorted vm h = Returns (vm', h')" "vm_ok vm'" "vm_refs base (mset (vents vm')) h'"
      "vm_map vm' = vm_map vm" "apart (vents vm')" "full (vmentry vm') (nvalid vm')" "\<forall>e\<in>set (vents vm'). entry_ok e"
    by (rule MakeSorted_map [OF ok refs])
  obtain r where r: "FindSpace_loop (vmentry vm') num_pages (nvalid vm') = Returns r"
      "last_fit (whole.fits (vents vm') (unat num_pages) 0) (\<lambda>i. unat (page_num (vents vm' ! i)) - unat num_pages) (nvalid vm') (unat r)"
    using FindSpace_loop_spec [OF v(6,5,7) order.refl num] by blast
  have n: "0 < unat num_pages" using num by (simp add: word_less_nat_alt)
  have len: "length (vents vm') = nvalid vm'" by (rule length_ents [OF v(6)])
  have "last_fit (whole.fits (vents vm') (unat num_pages) 0) (\<lambda>i. unat (page_num (vents vm' ! i)) - unat num_pages) (length (vents vm')) (unat r)"
    unfolding len by (rule r(2))
  note whole.highest_found [OF v(5,7) n TrueI TrueI map_covers this]
  then show ?thesis unfolding Let_def v(4) unsigned_eq_0_iff using False v(1-4) r(1) by (simp add: NaClVmmapFindSpace_def)
qed

definition sparse_map :: NaClVmmap where
  "sparse_map = \<lparr>vmentry = map (\<lambda>p. Some \<lparr>page_num = p, npages = 16, prot = 5, nmop = None, removed = False\<rparr>) [0x90, 0, 0x40],
     nvalid = 3, vm_size = 3, is_sorted = False\<rparr>"

lemma sparse_map_ok: "vm_ok sparse_map" "vm_refs (\<lambda>_. 0) (mset (vents sparse_map)) Map.empty"
  "vm_map sparse_map p \<noteq> None \<longleftrightarrow> p < 16 \<or> 64 \<le> p \<and> p < 80 \<or> 144 \<le> p \<and> p < 160"
  by (auto simp: vm_ok_def vm_full_def full_def ents_def sparse_map_def entry_ok_def page_end_def disj_def
      vm_refs_def counts_def vm_map_def covers_def view_def)

lemma sparse_gap:
  assumes "multiple q" "16 \<le> q \<and> q + n \<le> 64 \<or> 80 \<le> q \<and> q + n \<le> 144"
  shows "gap multiple (vm_map sparse_map) n q"
proof -
  have "vm_map sparse_map p = None" if "q \<le> p" "p < q + n" for p
  proof -
    have "\<not> (p < 16 \<or> 64 \<le> p \<and> p < 80 \<or> 144 \<le> p \<and> p < 160)" using assms(2) that by linarith
    then show ?thesis using sparse_map_ok(3) [of p] by blast
  qed
  moreover have "vm_map sparse_map 0 \<noteq> None" "vm_map sparse_map 150 \<noteq> None" by (simp_all only: sparse_map_ok(3)) simp_all
  moreover have "0 < q" "q + n \<le> 150" using assms(2) by linarith+
  ultimately show ?thesis using assms(1) unfolding gap_def by blast
qed

lemma sparse_gapD:
  assumes "gap multiple (vm_map sparse_map) n q" "0 < n" "80 \<le> q"
  shows "q + n \<le> 144"
proof -
  have f: "\<not> (144 \<le> p \<and> p < 160)" if "q \<le> p" "p < q + n" for p
  proof -
    have "vm_map sparse_map p = None" using assms(1) that by (simp add: gap_def)
    then show ?thesis using sparse_map_ok(3) [of p] by (simp only: simp_thms) blast
  qed
  obtain p where p: "q + n \<le> p" "vm_map sparse_map p \<noteq> None" using assms(1) unfolding gap_def by blast
  then have "p < 160" unfolding sparse_map_ok(3) by linarith
  then show ?thesis using p(1) f [of 144] f [of q] assms(2,3) by linarith
qed

theorem NaClVmmapFindSpace_highest_witness:
  "\<exists>vm' h'. NaClVmmapFindSpace sparse_map 33 Map.empty = Returns (111, vm', h')"
proof -
  let ?free = "gap (\<lambda>_. True) (vm_map sparse_map) 33"
  have f: "?free 111" by (intro sparse_gap) simp_all
  obtain r vm' h' where r: "NaClVmmapFindSpace sparse_map 33 Map.empty = Returns (r, vm', h')"
      "if \<exists>q. ?free q then ?free (unat r) \<and> (\<forall>q. ?free q \<longrightarrow> q \<le> unat r) else r = 0"
    using NaClVmmapFindSpace_highest [OF sparse_map_ok(1,2), of 33] by (auto simp: Let_def)
  then have "?free (unat r)" "111 \<le> unat r" using f by (metis (mono_tags))+
  then have "unat r = unat (111 :: u32)" using sparse_gapD [of "\<lambda>_. True" 33 "unat r"] by simp
  then show ?thesis using r(1) by (metis unsigned_word_eqI)
qed

text \<open>
  C24: finding room for a mapping. \<open>NaClVmmapFindMapSpace\<close> does the same at the grain of mappings: the page it returns is a
  multiple of 16, and the free range is the highest of those with the number of pages rounded up to a multiple of 16.
\<close>

theorem NaClVmmapFindMapSpace_highest:
  assumes ok: "vm_ok vm" and refs: "vm_refs base (mset (vents vm)) h" and num: "0 < num_pages" "unat num_pages \<le> 2 ^ 20"
  shows "\<exists>r vm' h'. NaClVmmapFindMapSpace vm num_pages h = Returns (r, vm', h') \<and> vm_ok vm' \<and> vm_map vm' = vm_map vm \<and>
    vm_refs base (mset (vents vm')) h' \<and>
    (let free = gap ((dvd) 16) (vm_map vm) (map_up (unat num_pages))
     in if \<exists>q. free q then free (unat r) \<and> (\<forall>q. free q \<longrightarrow> q \<le> unat r) else r = 0)"
proof (cases "nvalid vm = 0")
  case True
  then show ?thesis using ok refs empty_map by (simp add: NaClVmmapFindMapSpace_def)
next
  case False
  let ?n = "NaClRoundPageNumUpToMapMultiple num_pages"
  obtain vm' h' where v: "NaClVmmapMakeSorted vm h = Returns (vm', h')" "vm_ok vm'" "vm_refs base (mset (vents vm')) h'"
      "vm_map vm' = vm_map vm" "apart (vents vm')" "full (vmentry vm') (nvalid vm')" "\<forall>e\<in>set (vents vm'). entry_ok e"
    by (rule MakeSorted_map [OF ok refs])
  have n: "unat ?n = map_up (unat num_pages)" by (rule round_page_num(1) [OF num(2)])
  have n0: "0 < unat ?n" using num(1) mapped.up_ge [of "unat num_pages"] unfolding n by (simp add: word_less_nat_alt)
  obtain r where r: "FindMapSpace_loop (vmentry vm') ?n (nvalid vm') = Returns r"
      "last_fit (mapped.fits (vents vm') (unat ?n) 0) (\<lambda>i. map_down (unat (page_num (vents vm' ! i))) - unat ?n) (nvalid vm') (unat r)"
    using FindMapSpace_loop_spec [OF v(6,5,7) order.refl, of ?n] n0 by (auto simp: word_less_nat_alt)
  have len: "length (vents vm') = nvalid vm'" by (rule length_ents [OF v(6)])
  have "last_fit (mapped.fits (vents vm') (unat ?n) 0) (\<lambda>i. map_down (unat (page_num (vents vm' ! i))) - unat ?n) (length (vents vm')) (unat r)"
    unfolding len by (rule r(2))
  moreover have "16 dvd unat ?n" unfolding n by (rule mapped.multiple_up)
  ultimately have "if \<exists>q. gap ((dvd) 16) (vm_map vm') (unat ?n) q then gap ((dvd) 16) (vm_map vm') (unat ?n) (unat r) \<and>
      (\<forall>q. gap ((dvd) 16) (vm_map vm') (unat ?n) q \<longrightarrow> q \<le> unat r) else unat r = 0"
    by (intro mapped.highest_found [OF v(5,7) n0 _ _ map_covers]) simp_all
  then show ?thesis
    unfolding Let_def v(4) n unsigned_eq_0_iff using False v(1-4) r(1) by (simp add: NaClVmmapFindMapSpace_def)
qed

theorem NaClVmmapFindMapSpace_highest_witness:
  "\<exists>vm' h'. NaClVmmapFindMapSpace sparse_map 33 Map.empty = Returns (96, vm', h')"
proof -
  let ?free = "gap ((dvd) 16) (vm_map sparse_map) (map_up 33)"
  have u: "map_up 33 = 48" by (simp add: map_up_def)
  have f: "?free 96" unfolding u by (intro sparse_gap) simp_all
  obtain r vm' h' where r: "NaClVmmapFindMapSpace sparse_map 33 Map.empty = Returns (r, vm', h')"
      "if \<exists>q. ?free q then ?free (unat r) \<and> (\<forall>q. ?free q \<longrightarrow> q \<le> unat r) else r = 0"
    using NaClVmmapFindMapSpace_highest [OF sparse_map_ok(1,2), of 33] by (auto simp: Let_def)
  then have "?free (unat r)" "96 \<le> unat r" using f by (metis (mono_tags))+
  then have "unat r = unat (96 :: u32)" using sparse_gapD [of "(dvd) 16" 48 "unat r"] by (simp add: u)
  then show ?thesis using r(1) by (metis unsigned_word_eqI)
qed

text \<open>
  C23: finding room above a hint. For an address that is a multiple of the mapping size, \<open>NaClVmmapFindMapSpaceAboveHint\<close> returns the
  first page of the lowest free range at or above it, at the grain of mappings and between mapped pages,
  and 0 exactly when there is none.
\<close>

theorem NaClVmmapFindMapSpaceAboveHint_lowest:
  assumes ok: "vm_ok vm" and refs: "vm_refs base (mset (vents vm)) h" and num: "0 < num_pages" "unat num_pages \<le> 2 ^ 20"
    and hint: "16 dvd unat (drop_bit NACL_PAGESHIFT uaddr)"
  shows "\<exists>r vm' h'. NaClVmmapFindMapSpaceAboveHint vm uaddr num_pages h = Returns (r, vm', h') \<and> vm_ok vm' \<and> vm_map vm' = vm_map vm \<and>
    vm_refs base (mset (vents vm')) h' \<and>
    (let u = unat (drop_bit NACL_PAGESHIFT uaddr); free = gap ((dvd) 16) (vm_map vm) (map_up (unat num_pages))
     in if \<exists>q\<ge>u. free q then u \<le> unat r \<and> free (unat r) \<and> (\<forall>q\<ge>u. free q \<longrightarrow> unat r \<le> q) else r = 0)"
proof -
  let ?n = "NaClRoundPageNumUpToMapMultiple num_pages" and ?u = "drop_bit NACL_PAGESHIFT uaddr"
  obtain vm' h' where v: "NaClVmmapMakeSorted vm h = Returns (vm', h')" "vm_ok vm'" "vm_refs base (mset (vents vm')) h'"
      "vm_map vm' = vm_map vm" "apart (vents vm')" "full (vmentry vm') (nvalid vm')" "\<forall>e\<in>set (vents vm'). entry_ok e"
    by (rule MakeSorted_map [OF ok refs])
  have n: "unat ?n = map_up (unat num_pages)" by (rule round_page_num(1) [OF num(2)])
  have n0: "0 < unat ?n" using num(1) mapped.up_ge [of "unat num_pages"] unfolding n by (simp add: word_less_nat_alt)
  obtain r where r: "FindMapSpaceAbove_loop (vmentry vm') ?u ?n (nvalid vm') 1 = Returns r"
      "first_fit (mapped.fits (vents vm') (unat ?n) (unat ?u)) (\<lambda>i. max (unat ?u) (map_up (page_end (vents vm' ! (i - 1))))) 1 (unat r)"
    using FindMapSpaceAbove_loop_spec [OF v(6,5,7), of ?n 1 ?u] n0 unfolding word_less_nat_alt by auto
  have "16 dvd unat ?n" unfolding n by (rule mapped.multiple_up)
  from mapped.lowest_found [OF v(5,7) n0 this hint map_covers r(2)] show ?thesis
    unfolding Let_def v(4) n unsigned_eq_0_iff using v(1-4) r(1) by (simp add: NaClVmmapFindMapSpaceAboveHint_def)
qed

theorem NaClVmmapFindMapSpaceAboveHint_lowest_witness:
  "\<exists>vm' h'. NaClVmmapFindMapSpaceAboveHint sparse_map 0x20000 33 Map.empty = Returns (80, vm', h')"
proof -
  let ?free = "gap ((dvd) 16) (vm_map sparse_map) (map_up 33)"
  have u: "map_up 33 = 48" "unat (drop_bit NACL_PAGESHIFT 0x20000 :: u32) = 32" by (simp_all add: map_up_def nacl_consts drop_bit_eq_div)
  have f: "?free 80" unfolding u by (intro sparse_gap) simp_all
  obtain r vm' h' where r: "NaClVmmapFindMapSpaceAboveHint sparse_map 0x20000 33 Map.empty = Returns (r, vm', h')"
      "if \<exists>q\<ge>32. ?free q then 32 \<le> unat r \<and> ?free (unat r) \<and> (\<forall>q\<ge>32. ?free q \<longrightarrow> unat r \<le> q) else r = 0"
    using NaClVmmapFindMapSpaceAboveHint_lowest [OF sparse_map_ok(1,2), of 33 "0x20000"] unfolding u by (auto simp: Let_def u(1))
  have "\<exists>q\<ge>32. ?free q" using f by (intro exI [of _ 80]) simp
  then have g: "?free (unat r)" "32 \<le> unat r" "unat r \<le> 80" using r(2) f by (simp_all only: if_True simp_thms)
  have "vm_map sparse_map p = None" if "unat r \<le> p" "p < unat r + 48" for p using g(1) that by (simp add: gap_def u)
  then have "\<not> (unat r \<le> 79 \<and> 79 < unat r + 48)" using sparse_map_ok(3) [of 79] by auto
  then have "unat r = unat (80 :: u32)" using g by simp
  then show ?thesis using r(1) by (metis unsigned_word_eqI)
qed

end
