(* ===== verification/Mem_Calls.thy ===== *)
theory Mem_Calls
  imports Addr_Space Vmmap_Find Imc_Shm
begin

text \<open>
  The system calls that change the address space of a running module: \<open>mmap\<close> and \<open>brk\<close> (\<open>nacl_syscall_common.c\<close>) and \<open>munmap\<close>
  (\<open>linux/nacl_syscall_impl.c\<close>), with the mapping functions of host files and shared memory (\<open>shared/platform/linux/nacl_host_desc.c\<close>,
  \<open>nacl_desc_io.c\<close>, \<open>nacl_desc_imc_shm.c\<close> and \<open>linux/nacl_desc_sysv_shm.c\<close> of \<open>trusted/desc\<close>). The host's page table gives the protection of every page that is mapped. The operating system
  is a parameter, and so is the size of a file, which \<open>Fstat\<close> asks it for.
\<close>

subsection \<open>The host\<close>

type_synonym host_prots = "nat \<rightharpoonup> u32"

record mem_os =
  mo_mmap :: "nat option \<Rightarrow> u32 \<Rightarrow> u32 \<Rightarrow> u32 \<Rightarrow> u32 \<Rightarrow> u64 \<Rightarrow> host_prots \<Rightarrow> u32 + u32"
  mo_mprotect :: "u32 \<Rightarrow> u32 \<Rightarrow> u32 \<Rightarrow> bool"
  mo_munmap :: "u32 \<Rightarrow> u32 \<Rightarrow> bool"
  mo_shmat :: "nat \<Rightarrow> u32 \<Rightarrow> u32 \<Rightarrow> u32 option"
  mo_allocs :: "nat \<Rightarrow> nat \<Rightarrow> bool"

text \<open>The descriptors that can be mapped, with what they hold of the host; the source tells them apart by their table of functions.\<close>

datatype NaClDesc = NaClDescIoDesc nat | NaClDescImcShm nat | NaClDescSysvShm nat u32 | NaClDescNotMappable

record desc_objects =
  v_Fstat :: "nat \<Rightarrow> u32 + u32"
  v_desc :: "nat \<Rightarrow> NaClDesc"

record vm_state =
  vs_app :: NaClApp
  vs_map :: NaClVmmap
  vs_descs :: desc_state
  vs_host :: host_prots

definition map_pages :: "host_prots \<Rightarrow> u32 \<Rightarrow> u32 \<Rightarrow> u32 \<Rightarrow> host_prots" where
  "map_pages host addr sz prt = (\<lambda>pg. if unat addr div 4096 \<le> pg \<and> pg * 4096 < unat addr + unat sz then Some prt else host pg)"

definition unmap_pages :: "host_prots \<Rightarrow> u32 \<Rightarrow> u32 \<Rightarrow> host_prots" where
  "unmap_pages host addr sz = (\<lambda>pg. if unat addr div 4096 \<le> pg \<and> pg * 4096 < unat addr + unat sz then None else host pg)"

definition NACL_ABI_MAP_PRIVATE :: u32 where [nacl_consts]: "NACL_ABI_MAP_PRIVATE = 2"
definition NACL_ABI_MAP_ANONYMOUS :: u32 where [nacl_consts]: "NACL_ABI_MAP_ANONYMOUS = 0x20"

text \<open>The flags of the host have the same values on Linux.\<close>

definition NaClProtMap :: "u32 \<Rightarrow> u32" where
  "NaClProtMap abi_prot =
     (if abi_prot AND NACL_ABI_PROT_READ \<noteq> 0 then 1 else 0) OR (if abi_prot AND NACL_ABI_PROT_WRITE \<noteq> 0 then 2 else 0) OR
     (if abi_prot AND NACL_ABI_PROT_EXEC \<noteq> 0 then 4 else 0)"

definition NaClMapFlagMap :: "u32 \<Rightarrow> u32" where
  "NaClMapFlagMap flags =
     (if flags AND NACL_ABI_MAP_SHARED \<noteq> 0 then 1 else 0) OR (if flags AND NACL_ABI_MAP_PRIVATE \<noteq> 0 then 2 else 0) OR
     (if flags AND NACL_ABI_MAP_FIXED \<noteq> 0 then 0x10 else 0) OR (if flags AND NACL_ABI_MAP_ANONYMOUS \<noteq> 0 then 0x20 else 0)"

text \<open>The result of a failed \<open>mmap\<close> is the error number as \<open>NaClXlateErrno\<close> translates it.\<close>

definition NaClHostDescMap ::
    "mem_os \<Rightarrow> nat option \<Rightarrow> u32 \<Rightarrow> u32 \<Rightarrow> u32 \<Rightarrow> u32 \<Rightarrow> u64 \<Rightarrow> host_prots \<Rightarrow> (u32 \<times> host_prots) outcome" where
  "NaClHostDescMap mo d start_addr sz prt flags offset host =
     (if d = None \<and> flags AND NACL_ABI_MAP_ANONYMOUS = 0 then Aborts
      else
        let prt = prt AND (NACL_ABI_PROT_READ OR NACL_ABI_PROT_WRITE);
            desc = (if flags AND NACL_ABI_MAP_ANONYMOUS \<noteq> 0 then None else d);
            host_prot = NaClProtMap prt
        in case mo_mmap mo desc start_addr sz host_prot (NaClMapFlagMap flags) offset host of
             Inl errno \<Rightarrow> Returns (- errno, host)
           | Inr map_addr \<Rightarrow>
               let host = map_pages host map_addr sz host_prot
               in if flags AND NACL_ABI_MAP_FIXED \<noteq> 0 \<and> map_addr \<noteq> start_addr then Aborts else Returns (start_addr, host))"

text \<open>\<open>UnmapMemory\<close> of the effector of application threads does nothing on Linux.\<close>

definition NaClDescIoDescMap ::
    "mem_os \<Rightarrow> nat option \<Rightarrow> u32 \<Rightarrow> u32 \<Rightarrow> u32 \<Rightarrow> u32 \<Rightarrow> u64 \<Rightarrow> host_prots \<Rightarrow> (u32 \<times> host_prots) outcome" where
  "NaClDescIoDescMap mo self_hd start_addr sz prt flags offset host =
     (if NOT (NACL_ABI_PROT_READ OR NACL_ABI_PROT_WRITE) AND prt \<noteq> 0 then Returns (neg_errno NACL_ABI_EINVAL, host)
      else NaClHostDescMap mo self_hd start_addr sz prt flags offset host)"

text \<open>\<open>MAP_ANONYMOUS\<close>, \<open>MAP_NORESERVE\<close> and \<open>MAP_PRIVATE\<close>: the space that is found stays mapped.\<close>

definition find_space :: "mem_os \<Rightarrow> u32 \<Rightarrow> host_prots \<Rightarrow> (u32 \<times> host_prots) option" where
  "find_space mo memory_size host =
     (case mo_mmap mo None 0 memory_size 3 0x4022 0 host of Inl e \<Rightarrow> None | Inr a \<Rightarrow> Some (a, map_pages host a memory_size 3))"

text \<open>
  The mapping of shared memory for a module: the function that \<open>Imc_Shm\<close> has for the loader, here on protections and with the effector of
  application threads. \<open>NaClMap\<close> is \<open>mmap\<close> with \<open>MAP_SHARED\<close> and \<open>MAP_FIXED\<close>.
\<close>

fun shm_map_loop :: "mem_os \<Rightarrow> nat \<Rightarrow> nat \<Rightarrow> u32 \<Rightarrow> u32 \<Rightarrow> u32 \<Rightarrow> u32 \<Rightarrow> u32 \<Rightarrow> host_prots \<Rightarrow> (bool \<times> host_prots) outcome" where
  "shm_map_loop mo h 0 addr end_addr tmp_off imc_prot flags host = Diverges"
| "shm_map_loop mo h (Suc fuel) addr end_addr tmp_off imc_prot flags host =
     (if addr < end_addr then
        case mo_mmap mo (Some h) addr NACL_MAP_PAGESIZE imc_prot 0x11 (scast tmp_off) host of
          Inl e \<Rightarrow> Returns (False, host)
        | Inr result \<Rightarrow>
            if flags AND NACL_ABI_MAP_FIXED \<noteq> 0 \<and> result \<noteq> addr then Aborts
            else shm_map_loop mo h fuel (addr + NACL_MAP_PAGESIZE) end_addr (tmp_off + NACL_MAP_PAGESIZE) imc_prot flags
                   (map_pages host result NACL_MAP_PAGESIZE imc_prot)
      else Returns (True, host))"

definition shm_map :: "mem_os \<Rightarrow> nat \<Rightarrow> u32 \<Rightarrow> u32 \<Rightarrow> u32 \<Rightarrow> u32 \<Rightarrow> u64 \<Rightarrow> host_prots \<Rightarrow> (u32 \<times> host_prots) outcome" where
  "shm_map mo h start_addr sz prt flags offset host =
     (if flags AND NACL_ABI_MAP_SHARING_MASK \<noteq> NACL_ABI_MAP_SHARED then Returns (neg_errno NACL_ABI_EINVAL, host)
      else if prt = NACL_ABI_PROT_NONE then Returns (neg_errno NACL_ABI_EINVAL, host)
      else if NOT (NACL_ABI_PROT_READ OR NACL_ABI_PROT_WRITE OR NACL_ABI_PROT_EXEC) AND prt \<noteq> 0 then Returns (neg_errno NACL_ABI_EINVAL, host)
      else
        case (if flags AND NACL_ABI_MAP_FIXED = 0 then find_space mo sz host else Some (start_addr, host)) of
          None \<Rightarrow> Returns (neg_errno NACL_ABI_ENOMEM, host)
        | Some (start_addr, host) \<Rightarrow>
            let tmp_off64 = (offset + ucast sz + ucast NACL_MAP_PAGESIZE - 1) AND NOT (ucast (NACL_MAP_PAGESIZE - 1))
            in if sint tmp_off64 > 2 ^ 31 - 1 then Returns (neg_errno NACL_ABI_EOVERFLOW, host)
               else
                 obind (shm_map_loop mo h (2 ^ 16 + 1) start_addr (start_addr + sz) (ucast offset) (NaClProtMap prt) flags host) (\<lambda>(complete, host).
                   Returns (if complete then start_addr else neg_errno NACL_ABI_E_MOVE_ADDRESS_SPACE, host)))"

text \<open>\<open>SHM_REMAP\<close> is \<open>0x4000\<close> and \<open>SHM_RDONLY\<close> is \<open>0x1000\<close>. The end of the mapping is padded with \<open>mmap\<close> without \<open>MAP_FIXED\<close>.\<close>

definition sysv_attach :: "mem_os \<Rightarrow> nat \<Rightarrow> u32 \<Rightarrow> u32 \<Rightarrow> u32 \<Rightarrow> u32 \<Rightarrow> host_prots \<Rightarrow> (u32 \<times> host_prots) outcome" where
  "sysv_attach mo ident shm_size start_addr sz prt host =
     (case mo_shmat mo ident start_addr (0x4000 OR (if NACL_ABI_PROT_READ = prt then 0x1000 else 0)) of
        None \<Rightarrow> Aborts
      | Some result \<Rightarrow>
          if result \<noteq> start_addr then Aborts
          else
            let host = map_pages host start_addr shm_size (if NACL_ABI_PROT_READ = prt then 1 else 3)
            in if shm_size < NaClRoundAllocPage sz
               then
                 let tail_prot = 1 OR (if NACL_ABI_PROT_READ AND prt \<noteq> 0 then 2 else 0);
                     tail_size = NaClRoundAllocPage sz - shm_size
                 in (case mo_mmap mo None (start_addr + shm_size) tail_size tail_prot 0x22 0 host of
                       Inl e \<Rightarrow> Aborts
                     | Inr a \<Rightarrow> Returns (start_addr, map_pages host a tail_size tail_prot))
               else Returns (start_addr, host))"

definition NaClDescSysvShmMap ::
    "mem_os \<Rightarrow> nat \<Rightarrow> u32 \<Rightarrow> u32 \<Rightarrow> u32 \<Rightarrow> u32 \<Rightarrow> u32 \<Rightarrow> u64 \<Rightarrow> host_prots \<Rightarrow> (u32 \<times> host_prots) outcome" where
  "NaClDescSysvShmMap mo ident shm_size start_addr sz prt flags offset host =
     (if flags AND NACL_ABI_MAP_SHARING_MASK \<noteq> NACL_ABI_MAP_SHARED then Returns (neg_errno NACL_ABI_EINVAL, host)
      else if flags AND NACL_ABI_MAP_FIXED \<noteq> 0 \<and> start_addr = 0 then Returns (neg_errno NACL_ABI_EINVAL, host)
      else
        case (if start_addr = 0 then find_space mo sz host else Some (start_addr, host)) of
          None \<Rightarrow> Returns (neg_errno NACL_ABI_ENOMEM, host)
        | Some (found, host) \<Rightarrow>
            if start_addr = 0 \<and> \<not> mo_munmap mo found sz then Aborts
            else
              let host = (if start_addr = 0 then unmap_pages host found sz else host)
              in if 0 \<noteq> offset \<or> shm_size > sz then Returns (neg_errno NACL_ABI_EINVAL, host)
                 else if NACL_ABI_PROT_NONE = prt then Returns (neg_errno NACL_ABI_EINVAL, host)
                 else if NACL_ABI_PROT_READ AND prt = 0 then Returns (neg_errno NACL_ABI_EINVAL, host)
                 else if NOT (NACL_ABI_PROT_READ OR NACL_ABI_PROT_WRITE) AND prt \<noteq> 0 then Returns (neg_errno NACL_ABI_EINVAL, host)
                 else sysv_attach mo ident shm_size found sz prt host)"

text \<open>The call of \<open>Map\<close> through the descriptor's table.\<close>

fun desc_Map :: "mem_os \<Rightarrow> NaClDesc \<Rightarrow> u32 \<Rightarrow> u32 \<Rightarrow> u32 \<Rightarrow> u32 \<Rightarrow> u64 \<Rightarrow> host_prots \<Rightarrow> (u32 \<times> host_prots) outcome" where
  "desc_Map mo (NaClDescIoDesc hdp) = NaClDescIoDescMap mo (Some hdp)"
| "desc_Map mo (NaClDescImcShm h) = shm_map mo h"
| "desc_Map mo (NaClDescSysvShm ident shm_size) = NaClDescSysvShmMap mo ident shm_size"
| "desc_Map mo NaClDescNotMappable = (\<lambda>start_addr sz prt flags offset host. Returns (neg_errno NACL_ABI_EINVAL, host))"

subsection \<open>Shared parts\<close>

definition NaClCommonUtilUpdateAddrMap ::
    "(nat \<Rightarrow> bool) \<Rightarrow> u32 \<Rightarrow> u32 \<Rightarrow> u32 \<Rightarrow> nat option \<Rightarrow> u64 \<Rightarrow> u64 \<Rightarrow> bool \<Rightarrow> vm_state \<Rightarrow> vm_state outcome" where
  "NaClCommonUtilUpdateAddrMap alloc sysaddr nbytes sysprot backing_desc backing_bytes offset_bytes delete_mem s =
     obind (NaClSysToUser (vs_app s) sysaddr) (\<lambda>usraddr.
     obind (if backing_desc \<noteq> None \<and> delete_mem then Aborts
            else NaClMemObjMake (alloc 0) backing_desc backing_bytes offset_bytes (ref_counts (vs_descs s))) (\<lambda>(nmop, h).
     obind (NaClVmmapUpdate (\<lambda>k. alloc (k + 1)) (vs_map s) (drop_bit NACL_PAGESHIFT usraddr) (drop_bit NACL_PAGESHIFT nbytes) sysprot nmop delete_mem h)
       (\<lambda>(m, h). Returns (s\<lparr>vs_map := m, vs_descs := (vs_descs s)\<lparr>ref_counts := h\<rparr>\<rparr>))))"

definition NaClSysCommonAddrRangeContainsExecutablePages_mu :: "NaClApp \<Rightarrow> u32 \<Rightarrow> bool" where
  "NaClSysCommonAddrRangeContainsExecutablePages_mu nap usraddr \<longleftrightarrow> NaClTruncAllocPage usraddr < dynamic_text_end nap"

definition kMaxUsableFileSize :: u32 where [nacl_consts]: "kMaxUsableFileSize = 0x7fffffff"

definition size_min :: "u32 \<Rightarrow> u32 \<Rightarrow> u32" where
  "size_min a b = (if a < b then a else b)"

definition NaClRoundHostAllocPage :: "u32 \<Rightarrow> u32" where
  "NaClRoundHostAllocPage nbytes = NaClRoundPage nbytes"

subsection \<open>The mmap system call\<close>

text \<open>
  How much is mapped, zero filled and inaccessible. Offsets and the size of a file are signed 32-bit numbers that the source widens to 64
  bits, where none of its computations overflows. The \<open>ASSERT\<close> of \<open>nacl_assert.h\<close> ends the process in every build.
\<close>

definition mmap_sizes :: "desc_objects \<Rightarrow> nat option \<Rightarrow> u32 \<Rightarrow> u32 \<Rightarrow> (u32 + (u32 \<times> u32 \<times> u32 \<times> int)) outcome" where
  "mmap_sizes vt ndp sz offset =
     (let alloc_rounded_length = NaClRoundAllocPage sz
      in case ndp of
           None \<Rightarrow>
             Returns (Inr (size_min alloc_rounded_length kMaxUsableFileSize, size_min alloc_rounded_length kMaxUsableFileSize,
                           alloc_rounded_length, uint kMaxUsableFileSize))
         | Some a \<Rightarrow>
             (case v_Fstat vt a of
                Inl r \<Rightarrow> Returns (Inl r)
              | Inr st_size \<Rightarrow>
                  let file_size = sint st_size
                  in if file_size < sint offset then Returns (Inl (neg_errno NACL_ABI_EINVAL))
                     else
                       let file_bytes = file_size - sint offset;
                           file_bytes = (if uint kMaxUsableFileSize < file_bytes then uint kMaxUsableFileSize
                                         else uint (NaClRoundHostAllocPage (word_of_int file_bytes)));
                           alloc_rounded_file_bytes = NaClRoundAllocPage (word_of_int file_bytes)
                       in if \<not> file_bytes \<le> uint kMaxUsableFileSize then Aborts
                          else if 0 = alloc_rounded_file_bytes \<and> 0 \<noteq> file_bytes then Returns (Inl (neg_errno NACL_ABI_ENOMEM))
                          else Returns (Inr (size_min alloc_rounded_length (word_of_int file_bytes),
                                             size_min alloc_rounded_length alloc_rounded_file_bytes, alloc_rounded_length, file_size))))"

definition find_pages :: "u32 \<Rightarrow> vm_state \<Rightarrow> (u32 \<times> vm_state) outcome" where
  "find_pages sz s =
     obind (NaClVmmapFindMapSpace (vs_map s) (drop_bit NACL_PAGESHIFT sz) (ref_counts (vs_descs s))) (\<lambda>(usrpage, m, h).
       Returns (usrpage, s\<lparr>vs_map := m, vs_descs := (vs_descs s)\<lparr>ref_counts := h\<rparr>\<rparr>))"

definition mmap_place :: "u32 \<Rightarrow> u32 \<Rightarrow> u32 \<Rightarrow> vm_state \<Rightarrow> (u32 option \<times> vm_state) outcome" where
  "mmap_place flags usraddr alloc_rounded_length s =
     (if flags AND NACL_ABI_MAP_FIXED \<noteq> 0 then Returns (Some usraddr, s)
      else
        obind (if usraddr = 0 then find_pages alloc_rounded_length s
               else
                 obind (NaClVmmapFindMapSpaceAboveHint (vs_map s) usraddr (drop_bit NACL_PAGESHIFT alloc_rounded_length) (ref_counts (vs_descs s)))
                   (\<lambda>(usrpage, m, h).
                     let s = s\<lparr>vs_map := m, vs_descs := (vs_descs s)\<lparr>ref_counts := h\<rparr>\<rparr>
                     in if usrpage = 0 then find_pages alloc_rounded_length s else Returns (usrpage, s))) (\<lambda>(usrpage, s).
          Returns (if usrpage = 0 then None else Some (push_bit NACL_PAGESHIFT usrpage), s)))"

definition mmap_allowed :: "NaClApp \<Rightarrow> u32 \<Rightarrow> u32 \<Rightarrow> u32 \<Rightarrow> bool" where
  "mmap_allowed nap usraddr alloc_rounded_length flags \<longleftrightarrow>
     (let space = push_bit (unat (addr_bits nap)) 1; endaddr = usraddr + alloc_rounded_length
      in \<not> usraddr \<ge> space \<and> \<not> endaddr < usraddr \<and> \<not> endaddr > space \<and>
         \<not> NaClSysCommonAddrRangeContainsExecutablePages_mu nap usraddr \<and>
         \<not> ((flags AND NACL_ABI_MAP_SHARED = 0) = (flags AND NACL_ABI_MAP_PRIVATE = 0)))"

text \<open>The three parts of a mapping: from the file, zero filled, and inaccessible.\<close>

definition map_file ::
    "mem_os \<Rightarrow> desc_objects \<Rightarrow> nat option \<Rightarrow> u32 \<Rightarrow> u32 \<Rightarrow> u32 \<Rightarrow> u32 \<Rightarrow> u32 \<Rightarrow> int \<Rightarrow> vm_state \<Rightarrow> vm_state outcome" where
  "map_file mo vt ndp sysaddr sz prt flags offset file_size s =
     obind (case ndp of
              None \<Rightarrow> NaClDescIoDescMap mo None sysaddr sz prt flags (scast offset) (vs_host s)
            | Some a \<Rightarrow> desc_Map mo (v_desc vt a) sysaddr sz prt flags (scast offset) (vs_host s)) (\<lambda>(map_result, host).
       if NaClIsNegErrno (ucast map_result) then Aborts
       else if map_result \<noteq> sysaddr then Aborts
       else
         let s = s\<lparr>vs_host := host\<rparr>
         in if prt = NACL_ABI_PROT_NONE
            then NaClCommonUtilUpdateAddrMap (mo_allocs mo 0) sysaddr sz 0 None (word_of_int file_size) (scast offset) False s
            else NaClCommonUtilUpdateAddrMap (mo_allocs mo 0) sysaddr sz (NaClProtMap prt) ndp (word_of_int file_size) (scast offset) False s)"

definition map_zeros :: "mem_os \<Rightarrow> u32 \<Rightarrow> u32 \<Rightarrow> u32 \<Rightarrow> vm_state \<Rightarrow> (u32 option \<times> vm_state) outcome" where
  "map_zeros mo sysaddr map_len prt s =
     obind (NaClHostDescMap mo None sysaddr map_len prt (NACL_ABI_MAP_ANONYMOUS OR NACL_ABI_MAP_PRIVATE) 0 (vs_host s)) (\<lambda>(map_result, host).
       let s = s\<lparr>vs_host := host\<rparr>
       in if NaClIsNegErrno (ucast map_result) then Returns (Some map_result, s)
          else obind (NaClCommonUtilUpdateAddrMap (mo_allocs mo 1) sysaddr map_len (NaClProtMap prt) None 0 0 False s) (\<lambda>s. Returns (None, s)))"

definition map_inaccessible :: "mem_os \<Rightarrow> u32 \<Rightarrow> u32 \<Rightarrow> vm_state \<Rightarrow> vm_state outcome" where
  "map_inaccessible mo sysaddr map_len s =
     obind (NaClHostDescMap mo None sysaddr map_len NACL_ABI_PROT_NONE (NACL_ABI_MAP_ANONYMOUS OR NACL_ABI_MAP_PRIVATE) 0 (vs_host s)) (\<lambda>(map_result, host).
       NaClCommonUtilUpdateAddrMap (mo_allocs mo 2) sysaddr map_len 0 None 0 0 False (s\<lparr>vs_host := host\<rparr>))"

definition mmap_install ::
    "mem_os \<Rightarrow> desc_objects \<Rightarrow> nat option \<Rightarrow> u32 \<Rightarrow> u32 \<times> u32 \<times> u32 \<times> int \<Rightarrow> u32 \<Rightarrow> u32 \<Rightarrow> u32 \<Rightarrow> vm_state \<Rightarrow> (u32 \<times> vm_state) outcome" where
  "mmap_install mo vt ndp usraddr sizes prt flags offset s =
     (case sizes of (sz, start_of_inaccessible, alloc_rounded_length, file_size) \<Rightarrow>
        obind (NaClUserToSys (vs_app s) usraddr) (\<lambda>sysaddr.
        obind (if sz > 0 then map_file mo vt ndp sysaddr sz prt flags offset file_size s else Returns s) (\<lambda>s.
        obind (if sz < start_of_inaccessible then map_zeros mo (sysaddr + sz) (start_of_inaccessible - sz) prt s else Returns (None, s)) (\<lambda>(e, s).
          case e of
            Some r \<Rightarrow> Returns (r, s)
          | None \<Rightarrow>
              obind (if start_of_inaccessible < alloc_rounded_length
                     then map_inaccessible mo (sysaddr + start_of_inaccessible) (alloc_rounded_length - start_of_inaccessible) s else Returns s) (\<lambda>s.
                Returns (usraddr, s))))))"

text \<open>The call between taking a reference to the descriptor and dropping it.\<close>

definition mmap_checked ::
    "mem_os \<Rightarrow> desc_objects \<Rightarrow> nat option \<Rightarrow> u32 \<Rightarrow> u32 \<Rightarrow> u32 \<Rightarrow> u32 \<Rightarrow> u32 \<Rightarrow> vm_state \<Rightarrow> (u32 \<times> vm_state) outcome" where
  "mmap_checked mo vt ndp usraddr sz prt flags offset s =
     (if \<not> NaClIsAllocPageMultiple usraddr then Returns (neg_errno NACL_ABI_EINVAL, s)
      else if sint offset < 0 then Returns (neg_errno NACL_ABI_EINVAL, s)
      else if \<not> NaClIsAllocPageMultiple offset then Returns (neg_errno NACL_ABI_EINVAL, s)
      else if 0 = sz then Returns (neg_errno NACL_ABI_EINVAL, s)
      else
        obind (mmap_sizes vt ndp sz offset) (\<lambda>checked.
        case checked of
          Inl r \<Rightarrow> Returns (r, s)
        | Inr sizes \<Rightarrow>
            let alloc_rounded_length = fst (snd (snd sizes))
            in obind (mmap_place flags usraddr alloc_rounded_length s) (\<lambda>(place, s).
                 case place of
                   None \<Rightarrow> Returns (neg_errno NACL_ABI_ENOMEM, s)
                 | Some usraddr \<Rightarrow>
                     if \<not> mmap_allowed (vs_app s) usraddr alloc_rounded_length flags then Returns (neg_errno NACL_ABI_EINVAL, s)
                     else mmap_install mo vt ndp usraddr sizes (prt AND NOT NACL_ABI_PROT_EXEC) (flags OR NACL_ABI_MAP_FIXED) offset s)))"

definition NaClCommonSysMmap ::
    "mem_os \<Rightarrow> desc_objects \<Rightarrow> u32 \<Rightarrow> u32 \<Rightarrow> u32 \<Rightarrow> u32 \<Rightarrow> u32 \<Rightarrow> u32 \<Rightarrow> vm_state \<Rightarrow> (u32 \<times> vm_state) outcome" where
  "NaClCommonSysMmap mo vt start sz prt flags d offset s =
     (let flags = flags AND (NACL_ABI_MAP_FIXED OR NACL_ABI_MAP_SHARED OR NACL_ABI_MAP_PRIVATE OR NACL_ABI_MAP_ANONYMOUS)
      in if flags AND NACL_ABI_MAP_ANONYMOUS \<noteq> 0 then mmap_checked mo vt None start sz prt flags offset s
         else
           obind (NaClGetDescMu (vs_descs s) d) (\<lambda>(ndp, ds).
             let s = s\<lparr>vs_descs := ds\<rparr>
             in case ndp of
                  None \<Rightarrow> Returns (neg_errno NACL_ABI_EBADF, s)
                | Some a \<Rightarrow>
                    obind (mmap_checked mo vt ndp start sz prt flags offset s) (\<lambda>(r, s).
                    obind (NaClDescUnref a (ref_counts (vs_descs s))) (\<lambda>h.
                      Returns (r, s\<lparr>vs_descs := (vs_descs s)\<lparr>ref_counts := h\<rparr>\<rparr>)))))"

subsection \<open>The munmap system call\<close>

definition NaClSysMunmap :: "mem_os \<Rightarrow> u32 \<Rightarrow> u32 \<Rightarrow> vm_state \<Rightarrow> (u32 \<times> vm_state) outcome" where
  "NaClSysMunmap mo start sz s =
     (if \<not> NaClIsAllocPageMultiple start then Returns (neg_errno NACL_ABI_EINVAL, s)
      else if 0 = sz then Returns (neg_errno NACL_ABI_EINVAL, s)
      else
        let sz = NaClRoundAllocPage sz; sysaddr = NaClUserToSysAddrRange (vs_app s) start sz
        in if kNaClBadAddress = sysaddr then Returns (neg_errno NACL_ABI_EFAULT, s)
           else if NaClSysCommonAddrRangeContainsExecutablePages_mu (vs_app s) start then Returns (neg_errno NACL_ABI_EINVAL, s)
           else
             case mo_mmap mo None sysaddr sz 0 0x32 0 (vs_host s) of
               Inl errno \<Rightarrow> Returns (- errno, s)
             | Inr a \<Rightarrow>
                 let s = s\<lparr>vs_host := map_pages (vs_host s) a sz 0\<rparr>
                 in obind (NaClSysToUser (vs_app s) sysaddr) (\<lambda>usraddr.
                    obind (NaClVmmapUpdate (mo_allocs mo 0) (vs_map s) (drop_bit NACL_PAGESHIFT usraddr) (drop_bit NACL_PAGESHIFT sz) 0 None True
                             (ref_counts (vs_descs s))) (\<lambda>(m, h).
                      Returns (0, s\<lparr>vs_map := m, vs_descs := (vs_descs s)\<lparr>ref_counts := h\<rparr>\<rparr>))))"

subsection \<open>The brk system call\<close>

text \<open>Growing the break: the entry that holds it is extended up to the last page of the 64K that hold the new one.\<close>

definition grow_break :: "mem_os \<Rightarrow> u32 \<Rightarrow> vm_state \<Rightarrow> (bool \<times> vm_state) outcome" where
  "grow_break mo new_break s =
     obind (NaClUserToSys (vs_app s) (break_addr (vs_app s))) (\<lambda>sys_break.
       let usr_last_data_page = drop_bit NACL_PAGESHIFT (break_addr (vs_app s) - 1);
           usr_new_last_data_page = drop_bit NACL_PAGESHIFT (new_break - 1);
           last_internal_page = drop_bit NACL_PAGESHIFT (NaClRoundAllocPage new_break - 1)
       in obind (NaClVmmapFindPageIter (vs_map s) usr_last_data_page (ref_counts (vs_descs s))) (\<lambda>(ix, m, h).
            let s = s\<lparr>vs_map := m, vs_descs := (vs_descs s)\<lparr>ref_counts := h\<rparr>\<rparr>
            in if NaClVmmapIterAtEnd ix m then Aborts
               else
                 obind (NaClVmmapIterStar ix m) (\<lambda>ent.
                   if usr_new_last_data_page < page_num ent + npages ent
                   then Returns (True, s\<lparr>vs_app := (vs_app s)\<lparr>break_addr := new_break\<rparr>\<rparr>)
                   else
                     obind (if NaClVmmapIterAtEnd (NaClVmmapIterIncr ix) m then Returns False
                            else obind (NaClVmmapIterStar (NaClVmmapIterIncr ix) m) (\<lambda>next_ent. Returns (page_num next_ent \<le> last_internal_page)))
                       (\<lambda>blocked.
                          if blocked then Returns (False, s)
                          else
                            let start_new_region = push_bit NACL_PAGESHIFT (page_num ent + npages ent);
                                ent = ent\<lparr>npages := last_internal_page - page_num ent + 1\<rparr>;
                                region_size = push_bit NACL_PAGESHIFT (last_internal_page + 1) - start_new_region
                            in obind (NaClUserToSys (vs_app s) start_new_region) (\<lambda>a.
                                 if \<not> mo_mprotect mo a region_size 3 then Aborts
                                 else
                                   Returns (True, s\<lparr>vs_map := m\<lparr>vmentry := (vmentry m)[ix := Some ent]\<rparr>,
                                     vs_host := map_pages (vs_host s) a region_size 3, vs_app := (vs_app s)\<lparr>break_addr := new_break\<rparr>\<rparr>))))))"

definition NaClSetBreak :: "mem_os \<Rightarrow> u32 \<Rightarrow> vm_state \<Rightarrow> (u32 \<times> vm_state) outcome" where
  "NaClSetBreak mo new_break s =
     (let old_break = break_addr (vs_app s)
      in if kNaClBadAddress = NaClUserToSysAddr (vs_app s) new_break then Returns (old_break, s)
         else if new_break < data_end (vs_app s) then Returns (old_break, s)
         else if new_break \<le> break_addr (vs_app s) then Returns (old_break, s\<lparr>vs_app := (vs_app s)\<lparr>break_addr := new_break\<rparr>\<rparr>)
         else obind (grow_break mo new_break s) (\<lambda>(grown, s). Returns (if grown then new_break else old_break, s)))"

subsection \<open>What the calls touch\<close>

text \<open>Between two page tables: only pages that were free or lie between \<open>lo\<close> and \<open>hi\<close> differ, and those are mapped now and not executable.\<close>

definition touches :: "nat \<Rightarrow> nat \<Rightarrow> host_prots \<Rightarrow> host_prots \<Rightarrow> bool" where
  "touches lo hi host host' \<longleftrightarrow> (\<forall>pg. host' pg \<noteq> host pg \<longrightarrow>
     (host pg = None \<or> lo \<le> pg * 4096 \<and> pg * 4096 < hi) \<and> (\<exists>p. host' pg = Some p \<and> p AND NACL_ABI_PROT_EXEC = 0))"

lemma touches_refl [simp]: "touches lo hi host host"
  by (simp add: touches_def)

lemma touches_trans: "touches lo hi h1 h2 \<Longrightarrow> touches lo hi h2 h3 \<Longrightarrow> touches lo hi h1 h3"
  unfolding touches_def by (metis option.discI)

lemma touches_mono: "touches lo hi host host' \<Longrightarrow> lo' \<le> lo \<Longrightarrow> hi \<le> hi' \<Longrightarrow> touches lo' hi' host host'"
  unfolding touches_def by (meson le_trans less_le_trans)

lemma touches_map_pages:
  assumes "4096 dvd unat a" "p AND NACL_ABI_PROT_EXEC = 0"
  shows "touches (unat a) (unat a + unat n) host (map_pages host a n p)"
proof -
  obtain q where "unat a = 4096 * q" using assms(1) by (elim dvdE)
  then show ?thesis using assms(2) by (auto simp: touches_def map_pages_def)
qed

text \<open>
  The documented behaviour of the host: a fixed mapping is where it was asked for, and any other mapping is made where nothing is mapped.
\<close>

definition mmap_law :: "mem_os \<Rightarrow> bool" where
  "mmap_law mo \<longleftrightarrow> (\<forall>d a n p fl off host r. mo_mmap mo d a n p fl off host = Inr r \<longrightarrow>
     (if fl AND 0x10 = 0 then \<forall>pg. unat r div 4096 \<le> pg \<and> pg * 4096 < unat r + unat n \<longrightarrow> host pg = None else r = a))"

text \<open>
  What a descriptor's \<open>Map\<close> promises: a fixed mapping changes no pages beyond the 64K units it was asked for, and never makes a page
  executable that was not asked to be.
\<close>

definition map_law :: "(u32 \<Rightarrow> u32 \<Rightarrow> u32 \<Rightarrow> u32 \<Rightarrow> u64 \<Rightarrow> host_prots \<Rightarrow> (u32 \<times> host_prots) outcome) \<Rightarrow> bool" where
  "map_law Map \<longleftrightarrow> (\<forall>a n prt flags off host r host' k. flags AND NACL_ABI_MAP_FIXED \<noteq> 0 \<longrightarrow> prt AND NACL_ABI_PROT_EXEC = 0 \<longrightarrow> 4096 dvd unat a \<longrightarrow>
     unat n \<le> 65536 * k \<longrightarrow> unat a + 65536 * k < 2 ^ 32 \<longrightarrow> Map a n prt flags off host = Returns (r, host') \<longrightarrow>
     touches (unat a) (unat a + 65536 * k) host host')"

lemma host_prot: "NaClProtMap (prt AND (NACL_ABI_PROT_READ OR NACL_ABI_PROT_WRITE)) AND NACL_ABI_PROT_EXEC = 0"
  by (simp add: NaClProtMap_def nacl_consts and.assoc)

lemma host_fixed: "NaClMapFlagMap flags AND 0x10 = 0 \<longleftrightarrow> flags AND NACL_ABI_MAP_FIXED = 0"
  by (simp add: NaClMapFlagMap_def nacl_consts)

lemma NaClHostDescMap_touches:
  assumes mo: "mmap_law mo" and run: "NaClHostDescMap mo d a n prt flags off host = Returns (r, host')"
  shows "flags AND NACL_ABI_MAP_FIXED \<noteq> 0 \<Longrightarrow> 4096 dvd unat a \<Longrightarrow> touches (unat a) (unat a + unat n) host host'"
    "flags AND NACL_ABI_MAP_FIXED = 0 \<Longrightarrow> touches lo hi host host'"
proof -
  let ?p = "NaClProtMap (prt AND (NACL_ABI_PROT_READ OR NACL_ABI_PROT_WRITE))"
  let ?c = "mo_mmap mo (if flags AND NACL_ABI_MAP_ANONYMOUS \<noteq> 0 then None else d) a n ?p (NaClMapFlagMap flags) off host"
  have h: "host' = host \<or> (\<exists>x. ?c = Inr x \<and> host' = map_pages host x n ?p)"
    using run by (auto simp: NaClHostDescMap_def Let_def split: if_splits sum.splits)
  show "touches (unat a) (unat a + unat n) host host'" if "flags AND NACL_ABI_MAP_FIXED \<noteq> 0" "4096 dvd unat a"
    using h
  proof (elim disjE exE conjE)
    fix x assume x: "?c = Inr x" "host' = map_pages host x n ?p"
    have "x = a" using mo [unfolded mmap_law_def, rule_format, OF x(1)] that(1) by (simp add: host_fixed)
    then show ?thesis using touches_map_pages [OF that(2) host_prot] x(2) by simp
  qed simp
  show "touches lo hi host host'" if "flags AND NACL_ABI_MAP_FIXED = 0"
    using h
  proof (elim disjE exE conjE)
    fix x assume x: "?c = Inr x" "host' = map_pages host x n ?p"
    have "\<forall>pg. unat x div 4096 \<le> pg \<and> pg * 4096 < unat x + unat n \<longrightarrow> host pg = None"
      using mo [unfolded mmap_law_def, rule_format, OF x(1)] that by (simp add: host_fixed)
    then show ?thesis using host_prot by (simp add: touches_def x(2) map_pages_def)
  qed simp
qed

lemma NaClDescIoDescMap_law: "mmap_law mo \<Longrightarrow> map_law (NaClDescIoDescMap mo hdp)"
  unfolding map_law_def NaClDescIoDescMap_def
  by (auto split: if_splits dest!: NaClHostDescMap_touches(1) elim!: touches_mono)

lemma prot_map_exec: "prt AND NACL_ABI_PROT_EXEC = 0 \<Longrightarrow> NaClProtMap prt AND NACL_ABI_PROT_EXEC = 0"
  by (simp add: NaClProtMap_def nacl_consts)

lemma shm_map_loop_touches:
  assumes mo: "mmap_law mo" and p: "p AND NACL_ABI_PROT_EXEC = 0" and fl: "flags AND NACL_ABI_MAP_FIXED \<noteq> 0"
  shows "4096 dvd unat a \<Longrightarrow> unat e \<le> unat a + 65536 * k \<Longrightarrow> unat a + 65536 * k < 2 ^ 32 \<Longrightarrow>
    shm_map_loop mo h fuel a e off p flags host = Returns (r, host') \<Longrightarrow> touches (unat a) (unat a + 65536 * k) host host'"
proof (induction fuel arbitrary: a k off host)
  case (Suc fuel)
  show ?case
  proof (cases "a < e \<and> host' \<noteq> host")
    case True
    then obtain x where x: "mo_mmap mo (Some h) a NACL_MAP_PAGESIZE p 0x11 (scast off) host = Inr x" "x = a"
        and next_turn: "shm_map_loop mo h fuel (a + NACL_MAP_PAGESIZE) e (off + NACL_MAP_PAGESIZE) p flags (map_pages host a NACL_MAP_PAGESIZE p) = Returns (r, host')"
      using Suc.prems(4) fl by (auto split: sum.splits if_splits)
    obtain j where k: "k = Suc j" using True Suc.prems(2) by (cases k) (simp_all add: word_less_nat_alt)
    have sz: "unat NACL_MAP_PAGESIZE = 65536" by (simp add: MAP_PAGESIZE_val)
    have ua: "unat (a + NACL_MAP_PAGESIZE) = unat a + 65536" using Suc.prems(3) k sz by (subst unat_add_no_wrap) simp_all
    have "touches (unat a + 65536) (unat a + 65536 + 65536 * j) (map_pages host a NACL_MAP_PAGESIZE p) host'"
      using Suc.IH [OF _ _ _ next_turn, of j] Suc.prems(1-3) k unfolding ua by simp
    then have b: "touches (unat a) (unat a + 65536 * k) (map_pages host a NACL_MAP_PAGESIZE p) host'" by (rule touches_mono) (simp_all add: k)
    have "touches (unat a) (unat a + 65536) host (map_pages host a NACL_MAP_PAGESIZE p)"
      using touches_map_pages [OF Suc.prems(1) p, of NACL_MAP_PAGESIZE host] unfolding sz .
    then have "touches (unat a) (unat a + 65536 * k) host (map_pages host a NACL_MAP_PAGESIZE p)" by (rule touches_mono) (simp_all add: k)
    then show ?thesis using b by (rule touches_trans)
  next
    case False
    then have "host' = host" using Suc.prems(4) by auto
    then show ?thesis by simp
  qed
qed simp

lemma shm_map_law: "mmap_law mo \<Longrightarrow> map_law (shm_map mo h)"
  unfolding map_law_def
proof (intro allI impI)
  fix a n prt flags off host r host' k
  assume a: "mmap_law mo" "flags AND NACL_ABI_MAP_FIXED \<noteq> 0" "prt AND NACL_ABI_PROT_EXEC = 0" "4096 dvd unat a" "unat n \<le> 65536 * k"
    "unat a + 65536 * k < 2 ^ 32" "shm_map mo h a n prt flags off host = Returns (r, host')"
  show "touches (unat a) (unat a + 65536 * k) host host'"
  proof (cases "host' = host")
    case False
    then obtain b where l: "shm_map_loop mo h (2 ^ 16 + 1) a (a + n) (ucast off) (NaClProtMap prt) flags host = Returns (b, host')"
      using a(2,7) unfolding shm_map_def Let_def by (auto split: if_splits)
    have "unat (a + n) = unat a + unat n" using a(5,6) by (intro unat_add_no_wrap) simp
    then have "unat (a + n) \<le> unat a + 65536 * k" using a(5) by simp
    then show ?thesis by (rule shm_map_loop_touches [OF a(1) prot_map_exec [OF a(3)] a(2,4) _ a(6) l])
  qed simp
qed

lemma sysv_law: "mmap_law mo \<Longrightarrow> map_law (NaClDescSysvShmMap mo ident z)"
  unfolding map_law_def
proof (intro allI impI)
  fix a n prt flags off host r host' k
  assume a: "mmap_law mo" "flags AND NACL_ABI_MAP_FIXED \<noteq> 0" "prt AND NACL_ABI_PROT_EXEC = 0" "4096 dvd unat a" "unat n \<le> 65536 * k"
    "unat a + 65536 * k < 2 ^ 32" "NaClDescSysvShmMap mo ident z a n prt flags off host = Returns (r, host')"
  show "touches (unat a) (unat a + 65536 * k) host host'"
  proof (cases "host' = host")
    case False
    let ?p = "if NACL_ABI_PROT_READ = prt then 1 else 3 :: u32" let ?h = "map_pages host a z ?p"
    have z: "\<not> z > n" and at: "sysv_attach mo ident z a n prt host = Returns (r, host')"
      using a(2,7) False unfolding NaClDescSysvShmMap_def Let_def by (auto split: if_splits)
    have "touches (unat a) (unat a + unat z) host ?h"
      using touches_map_pages [OF a(4), of ?p z host] by (simp add: NACL_ABI_PROT_EXEC_def split: if_splits)
    then have h: "touches (unat a) (unat a + 65536 * k) host ?h" by (rule touches_mono) (use z a(5) in \<open>simp_all add: word_less_nat_alt\<close>)
    have "touches (unat a) (unat a + 65536 * k) ?h host'"
    proof (cases "host' = ?h")
      case False
      then obtain x tp where x: "mo_mmap mo None (a + z) (NaClRoundAllocPage n - z) tp 0x22 0 ?h = Inr x" "tp = 1 \<or> tp = 3"
          and h': "host' = map_pages ?h x (NaClRoundAllocPage n - z) tp"
        using at unfolding sysv_attach_def Let_def by (auto split: option.splits if_splits sum.splits)
      have "?h pg = None" if "unat x div 4096 \<le> pg" "pg * 4096 < unat x + unat (NaClRoundAllocPage n - z)" for pg
        using a(1) [unfolded mmap_law_def, rule_format, OF x(1)] that by simp
      then show ?thesis using x(2) unfolding touches_def h' by (auto simp: map_pages_def [of ?h] NACL_ABI_PROT_EXEC_def)
    qed simp
    with h show ?thesis by (rule touches_trans)
  qed simp
qed

lemma desc_Map_law: "mmap_law mo \<Longrightarrow> map_law (desc_Map mo d)"
  by (cases d) (simp_all add: NaClDescIoDescMap_law shm_map_law sysv_law, simp add: map_law_def)

lemma UpdateAddrMap_keeps:
  "NaClCommonUtilUpdateAddrMap alloc a n p bd bb ob del s = Returns s' \<Longrightarrow> vs_app s' = vs_app s \<and> vs_host s' = vs_host s"
  by (auto simp: NaClCommonUtilUpdateAddrMap_def)

lemma place_keeps:
  assumes "mmap_place flags usraddr n s = Returns (r, s')"
  shows "vs_app s' = vs_app s \<and> vs_host s' = vs_host s" "4096 dvd unat usraddr \<Longrightarrow> r = Some u \<Longrightarrow> 4096 dvd unat u"
proof -
  have find: "vs_app s2 = vs_app s1 \<and> vs_host s2 = vs_host s1" if "find_pages n s1 = Returns (pg, s2)" for s1 pg s2
    using that by (auto simp: find_pages_def)
  show "vs_app s' = vs_app s \<and> vs_host s' = vs_host s"
    using assms by (auto simp: mmap_place_def Let_def split: if_splits dest!: find)
  have p: "4096 dvd unat (push_bit 12 w :: u32)" for w
  proof -
    have "take_bit 12 (push_bit 12 w) = 0" by (rule bit_word_eqI) (simp add: bit_simps)
    then have "take_bit 12 (unat (push_bit 12 w)) = 0" by (metis unsigned_0 unsigned_take_bit_eq)
    then show ?thesis by (simp add: take_bit_eq_mod dvd_eq_mod_eq_0)
  qed
  show "4096 dvd unat u" if "4096 dvd unat usraddr" "r = Some u"
    using assms that p by (auto simp: mmap_place_def NACL_PAGESHIFT_def split: if_splits)
qed

text \<open>The part of the host's address space that \<open>mmap\<close> and \<open>munmap\<close> may change: from the end of the code to the end of the module's space.\<close>

definition data_part :: "NaClApp \<Rightarrow> host_prots \<Rightarrow> host_prots \<Rightarrow> bool" where
  "data_part nap = touches (unat (mem_start nap) + unat (dynamic_text_end nap)) (unat (mem_start nap) + 2 ^ unat (addr_bits nap))"

lemma data_part_range:
  assumes t: "touches (unat (mem_start nap) + x) (unat (mem_start nap) + y) host host'"
    and "unat (dynamic_text_end nap) \<le> x" "y \<le> 2 ^ unat (addr_bits nap)"
  shows "data_part nap host host'"
  unfolding data_part_def using t by (rule touches_mono) (use assms in simp_all)

lemma trunc_le: "unat (NaClTruncAllocPage x) \<le> unat x"
proof -
  have "NACL_MAP_PAGESIZE - 1 = mask 16" by (simp add: MAP_PAGESIZE_val mask_eq_exp_minus_1)
  then show ?thesis by (simp add: NaClTruncAllocPage_def unat_and_not_mask)
qed

lemma mmap_allowedD:
  assumes "mmap_allowed nap u n flags" "space_ok nap"
  shows "unat (dynamic_text_end nap) \<le> unat u" "unat u + unat n \<le> 2 ^ unat (addr_bits nap)" "unat u < 2 ^ unat (addr_bits nap)"
proof -
  let ?sp = "push_bit (unat (addr_bits nap)) 1 :: u32"
  have sp: "unat ?sp = 2 ^ unat (addr_bits nap)" by (rule space_size [OF assms(2)])
  have a: "\<not> u \<ge> ?sp" "\<not> u + n < u" "\<not> u + n > ?sp" "\<not> NaClTruncAllocPage u < dynamic_text_end nap"
    using assms(1) by (simp_all add: mmap_allowed_def Let_def NaClSysCommonAddrRangeContainsExecutablePages_mu_def)
  have "unat (u + n) = unat u + unat n" by (rule no_wrap_words [OF a(2)])
  then show "unat u + unat n \<le> 2 ^ unat (addr_bits nap)" using a(3) unfolding word_less_nat_alt sp by simp
  show "unat u < 2 ^ unat (addr_bits nap)" using a(1) unfolding word_le_nat_alt sp by simp
  show "unat (dynamic_text_end nap) \<le> unat u" using a(4) trunc_le [of u] by (simp add: word_less_nat_alt)
qed

lemma mmap_sizes_le:
  assumes "mmap_sizes vt ndp n off = Returns (Inr (sz, inacc, arl, fs))"
  shows "unat sz \<le> unat arl" "arl = NaClRoundAllocPage n"
  using assms by (auto simp: mmap_sizes_def Let_def size_min_def word_less_nat_alt split: option.splits sum.splits if_splits)

lemma round_units: "\<exists>k. unat (NaClRoundAllocPage n) = 65536 * k"
proof -
  have "take_bit 16 (NaClRoundAllocPage n) = 0"
    by (rule bit_word_eqI) (auto simp: NaClRoundAllocPage_def MAP_PAGESIZE_val bit_simps mask_eq_exp_minus_1 [symmetric, of 16, simplified])
  then have "take_bit 16 (unat (NaClRoundAllocPage n)) = 0" by (metis unsigned_0 unsigned_take_bit_eq)
  then have "2 ^ 16 dvd unat (NaClRoundAllocPage n)" by (simp add: take_bit_eq_mod dvd_eq_mod_eq_0)
  then show ?thesis by (elim dvdE) simp
qed

lemma mmap_install_touches:
  assumes mo: "mmap_law mo" and sp: "space_ok (vs_app s)" "4096 dvd unat (mem_start (vs_app s))"
    and u: "4096 dvd unat u" "unat (dynamic_text_end (vs_app s)) \<le> unat u" "unat u < 2 ^ unat (addr_bits (vs_app s))"
      "unat sz \<le> 65536 * k" "unat u + 65536 * k \<le> 2 ^ unat (addr_bits (vs_app s))"
    and fl: "flags AND NACL_ABI_MAP_FIXED \<noteq> 0" "prt AND NACL_ABI_PROT_EXEC = 0"
    and run: "mmap_install mo vt ndp u (sz, inacc, arl, fs) prt flags off s = Returns (r, s')"
  shows "vs_app s' = vs_app s" "data_part (vs_app s) (vs_host s) (vs_host s')"
proof -
  let ?nap = "vs_app s" let ?a = "u + mem_start ?nap"
  have a: "NaClUserToSys ?nap u = Returns ?a" using run by (auto simp: mmap_install_def NaClUserToSys_def split: if_splits)
  have ua: "unat ?a = unat (mem_start ?nap) + unat u"
    using sp(1) u(3) by (simp add: space_ok_def add.commute) (subst unat_add_no_wrap; simp)
  have al: "4096 dvd unat ?a" unfolding ua using sp(2) u(1) by (rule dvd_add)
  obtain s1 where s1: "(if sz > 0 then map_file mo vt ndp ?a sz prt flags off fs s else Returns s) = Returns s1"
    using run a by (auto simp: mmap_install_def)
  have t1: "vs_app s1 = ?nap \<and> data_part ?nap (vs_host s) (vs_host s1)"
  proof (cases "sz > 0")
    case True
    then obtain r1 host where m: "(case ndp of None \<Rightarrow> NaClDescIoDescMap mo None ?a sz prt flags (scast off) (vs_host s)
        | Some d \<Rightarrow> desc_Map mo (v_desc vt d) ?a sz prt flags (scast off) (vs_host s)) = Returns (r1, host)"
        and k: "vs_app s1 = ?nap \<and> vs_host s1 = host"
      using s1 by (auto simp: map_file_def Let_def split: if_splits dest!: UpdateAddrMap_keeps)
    have top: "unat ?a + 65536 * k < 2 ^ 32" using sp(1) u(5) unfolding ua space_ok_def by linarith
    note laws = NaClDescIoDescMap_law [OF mo, of None, unfolded map_law_def, rule_format, OF fl al u(4) top]
      desc_Map_law [OF mo, unfolded map_law_def, rule_format, OF fl al u(4) top]
    have "touches (unat ?a) (unat ?a + 65536 * k) (vs_host s) host" using m laws by (cases ndp) auto
    then have "data_part ?nap (vs_host s) host"
      unfolding ua using data_part_range [of ?nap "unat u" "unat u + 65536 * k"] u(2,5) by (simp add: add.assoc)
    then show ?thesis using k by simp
  qed (use s1 in \<open>simp add: data_part_def\<close>)
  have nf: "(NACL_ABI_MAP_ANONYMOUS OR NACL_ABI_MAP_PRIVATE) AND NACL_ABI_MAP_FIXED = 0" by (simp add: nacl_consts)
  note free = NaClHostDescMap_touches(2) [OF mo _ nf]
  obtain e s2 where s2: "(if sz < inacc then map_zeros mo (?a + sz) (inacc - sz) prt s1 else Returns (None, s1)) = Returns (e, s2)"
    using run a s1 by (auto simp: mmap_install_def)
  have t2: "vs_app s2 = ?nap \<and> data_part ?nap (vs_host s1) (vs_host s2)"
    using s2 t1 unfolding data_part_def by (auto simp: map_zeros_def Let_def split: if_splits dest!: free UpdateAddrMap_keeps)
  have t3: "vs_app s' = ?nap \<and> data_part ?nap (vs_host s2) (vs_host s')"
  proof (cases e)
    case None
    then obtain s3 where "(if inacc < arl then map_inaccessible mo (?a + inacc) (arl - inacc) s2 else Returns s2) = Returns s3" "s' = s3"
      using run a s1 s2 by (auto simp: mmap_install_def)
    then show ?thesis
      using t2 unfolding data_part_def by (auto simp: map_inaccessible_def split: if_splits dest!: free UpdateAddrMap_keeps)
  next
    case (Some x)
    then have "s' = s2" using run a s1 s2 by (auto simp: mmap_install_def)
    then show ?thesis using t2 by (simp add: data_part_def)
  qed
  show "vs_app s' = vs_app s" using t3 by simp
  show "data_part ?nap (vs_host s) (vs_host s')" using t1 t2 t3 unfolding data_part_def by (meson touches_trans)
qed

lemma AllocPageMultiple: "NaClIsAllocPageMultiple x \<Longrightarrow> 4096 dvd unat x"
proof -
  assume a: "NaClIsAllocPageMultiple x"
  have "NACL_MAP_PAGESIZE - 1 = mask 16" by (simp add: MAP_PAGESIZE_val mask_eq_exp_minus_1)
  then have "take_bit 16 x = 0" using a by (simp add: NaClIsAllocPageMultiple_def take_bit_eq_mask and.commute)
  then have "take_bit 16 (unat x) = 0" by (metis unsigned_0 unsigned_take_bit_eq)
  then have "2 ^ 16 dvd unat x" by (simp add: take_bit_eq_mod dvd_eq_mod_eq_0)
  then show "4096 dvd unat x" by (rule dvd_trans [rotated]) simp
qed

text \<open>The address space of a module that has data after its code: whole 64K units, and the break not below the end of the data.\<close>

definition call_ok :: "NaClApp \<Rightarrow> bool" where
  "call_ok nap \<longleftrightarrow> space_ok nap \<and> 16 \<le> unat (addr_bits nap) \<and> 4096 dvd unat (mem_start nap) \<and>
     dynamic_text_end nap \<le> data_end nap \<and> data_end nap \<le> break_addr nap"

lemma mmap_checked_touches:
  assumes mo: "mmap_law mo" and ok: "space_ok (vs_app s)" "4096 dvd unat (mem_start (vs_app s))"
    and run: "mmap_checked mo vt ndp u0 n prt flags off s = Returns (r, s')"
  shows "vs_app s' = vs_app s \<and> data_part (vs_app s) (vs_host s) (vs_host s')"
proof (cases "s' = s")
  case False
  have al: "NaClIsAllocPageMultiple u0" using run False by (auto simp: mmap_checked_def split: if_splits)
  obtain sz inacc arl fs where z: "mmap_sizes vt ndp n off = Returns (Inr (sz, inacc, arl, fs))"
  proof -
    obtain checked where "mmap_sizes vt ndp n off = Returns checked" using run al False by (auto simp: mmap_checked_def split: if_splits)
    then show ?thesis using run al False that by (cases checked) (auto simp: mmap_checked_def split: if_splits)
  qed
  obtain place s1 where p: "mmap_place flags u0 arl s = Returns (place, s1)"
    using run False z by (auto simp: mmap_checked_def Let_def split: if_splits)
  note k = place_keeps(1) [OF p]
  show ?thesis
  proof (cases "s' = s1")
    case True
    then show ?thesis using k by (simp add: data_part_def)
  next
    case f: False
    obtain u where u: "place = Some u" "mmap_allowed (vs_app s1) u arl flags"
        "mmap_install mo vt ndp u (sz, inacc, arl, fs) (prt AND NOT NACL_ABI_PROT_EXEC) (flags OR NACL_ABI_MAP_FIXED) off s1 = Returns (r, s')"
      using run False z p f by (cases place) (auto simp: mmap_checked_def Let_def split: if_splits)
    have sp: "space_ok (vs_app s1)" "4096 dvd unat (mem_start (vs_app s1))" using ok k by simp_all
    note a = mmap_allowedD [OF u(2) sp(1)]
    have "4096 dvd unat u" using place_keeps(2) [OF p] AllocPageMultiple [OF al] u(1) by simp
    moreover obtain k where k': "unat arl = 65536 * k" using round_units [of n] mmap_sizes_le(2) [OF z] by blast
    moreover have "(prt AND NOT NACL_ABI_PROT_EXEC) AND NACL_ABI_PROT_EXEC = 0" by (simp add: and.assoc NACL_ABI_PROT_EXEC_def)
    moreover have "(flags OR NACL_ABI_MAP_FIXED) AND NACL_ABI_MAP_FIXED \<noteq> 0" by (simp add: bit.conj_disj_distrib2 NACL_ABI_MAP_FIXED_def)
    ultimately show ?thesis using mmap_install_touches [OF mo sp _ a(1,3) _ _ _ _ u(3), of k] k a(2) mmap_sizes_le(1) [OF z] by simp
  qed
qed (simp add: data_part_def)

lemma NaClCommonSysMmap_touches:
  assumes "mmap_law mo" "space_ok (vs_app s)" "4096 dvd unat (mem_start (vs_app s))"
    and run: "NaClCommonSysMmap mo vt u0 n prt flags d off s = Returns (r, s')"
  shows "vs_app s' = vs_app s \<and> data_part (vs_app s) (vs_host s) (vs_host s')"
proof -
  define fl where "fl = flags AND (NACL_ABI_MAP_FIXED OR NACL_ABI_MAP_SHARED OR NACL_ABI_MAP_PRIVATE OR NACL_ABI_MAP_ANONYMOUS)"
  show ?thesis
  proof (cases "fl AND NACL_ABI_MAP_ANONYMOUS = 0")
    case False
    then show ?thesis
      using run mmap_checked_touches [OF assms(1-3), of vt None u0 n prt fl off r s'] unfolding NaClCommonSysMmap_def Let_def fl_def [symmetric] by simp
  next
    case True
    then obtain ndp ds where g: "NaClGetDescMu (vs_descs s) d = Returns (ndp, ds)"
      using run unfolding NaClCommonSysMmap_def Let_def fl_def [symmetric] by auto
    show ?thesis
    proof (cases ndp)
      case None
      then show ?thesis using run True g unfolding NaClCommonSysMmap_def Let_def fl_def [symmetric] by (auto simp: data_part_def)
    next
      case (Some a)
      then obtain r1 s1 where c: "mmap_checked mo vt ndp u0 n prt fl off (s\<lparr>vs_descs := ds\<rparr>) = Returns (r1, s1)" "vs_app s' = vs_app s1" "vs_host s' = vs_host s1"
        using run True g unfolding NaClCommonSysMmap_def Let_def fl_def [symmetric] by auto
      then show ?thesis using mmap_checked_touches [OF assms(1) _ _ c(1)] assms(2,3) by simp
    qed
  qed
qed

lemma NaClSysMunmap_touches:
  assumes mo: "mmap_law mo" and sp: "space_ok (vs_app s)" "4096 dvd unat (mem_start (vs_app s))" and run: "NaClSysMunmap mo u n s = Returns (r, s')"
  shows "vs_app s' = vs_app s \<and> data_part (vs_app s) (vs_host s) (vs_host s')"
proof (cases "s' = s")
  case False
  let ?nap = "vs_app s" let ?n = "NaClRoundAllocPage n" let ?a = "NaClUserToSysAddrRange ?nap u ?n" let ?sp = "push_bit (unat (addr_bits ?nap)) 1 :: u32"
  obtain x where st: "NaClIsAllocPageMultiple u" "?a \<noteq> kNaClBadAddress" "\<not> NaClTruncAllocPage u < dynamic_text_end ?nap"
      and x: "mo_mmap mo None ?a ?n 0 0x32 0 (vs_host s) = Inr x" "vs_app s' = ?nap" "vs_host s' = map_pages (vs_host s) x ?n 0"
    using run False unfolding NaClSysMunmap_def Let_def NaClSysCommonAddrRangeContainsExecutablePages_mu_def
    by (auto split: if_splits sum.splits)
  have "x = ?a" using mo [unfolded mmap_law_def, rule_format, OF x(1)] by simp
  have r: "?a = u + mem_start ?nap" "\<not> u + ?n < u" "\<not> ?sp \<le> u + ?n" using st(2) by (auto simp: NaClUserToSysAddrRange_def Let_def split: if_splits)
  have "unat (u + ?n) = unat u + unat ?n" by (rule no_wrap_words [OF r(2)])
  then have top: "unat u + unat ?n < 2 ^ unat (addr_bits ?nap)" using r(3) space_size [OF sp(1)] unfolding word_le_nat_alt by simp
  have ua: "unat ?a = unat (mem_start ?nap) + unat u"
    unfolding r(1) using sp(1) top by (simp add: space_ok_def add.commute) (subst unat_add_no_wrap; simp)
  have "4096 dvd unat ?a" unfolding ua using sp(2) AllocPageMultiple [OF st(1)] by (rule dvd_add)
  then have "touches (unat ?a) (unat ?a + unat ?n) (vs_host s) (vs_host s')" unfolding x(3) \<open>x = ?a\<close> by (rule touches_map_pages) simp
  moreover have "unat (dynamic_text_end ?nap) \<le> unat u" using st(3) trunc_le [of u] by (simp add: word_less_nat_alt)
  ultimately show ?thesis
    unfolding ua using data_part_range [of ?nap "unat u" "unat u + unat ?n"] top x(2) by (simp add: add.assoc)
qed (simp add: data_part_def)

lemma bsearch_hit:
  "bsearch_entries xs key lo hi = Returns (Some i) \<Longrightarrow> \<exists>e. entry_at xs i = Returns e \<and> \<not> key < page_num e \<and> key < page_num e + npages e"
proof (induction xs key lo hi rule: bsearch_entries.induct)
  case (1 xs key lo hi)
  let ?m = "(lo + hi) div 2"
  have lh: "lo < hi" using "1.prems" by (subst (asm) bsearch_entries.simps) (simp split: if_splits)
  obtain e where e: "entry_at xs ?m = Returns e" using "1.prems" lh by (subst (asm) bsearch_entries.simps) (auto simp: Let_def)
  consider "NaClVmmapContainCmpEntries key e < 0" | "NaClVmmapContainCmpEntries key e > 0" | "NaClVmmapContainCmpEntries key e = 0" by linarith
  then show ?case
  proof cases
    case 1
    then have "bsearch_entries xs key lo ?m = Returns (Some i)"
      using "1.prems" lh e by (subst (asm) bsearch_entries.simps) (simp add: Let_def)
    then show ?thesis using "1.IH"(1) [OF lh refl e 1] by simp
  next
    case 2
    then have "bsearch_entries xs key (?m + 1) hi = Returns (Some i)"
      using "1.prems" lh e by (subst (asm) bsearch_entries.simps) (simp add: Let_def)
    then show ?thesis using "1.IH"(2) [OF lh refl e _ 2] 2 by simp
  next
    case 3
    then have "i = ?m" using "1.prems" lh e by (subst (asm) bsearch_entries.simps) (simp add: Let_def)
    then show ?thesis using e 3 by (auto simp: NaClVmmapContainCmpEntries_def split: if_splits)
  qed
qed

definition up_to :: "nat \<Rightarrow> nat \<Rightarrow> nat" where
  "up_to k n = (n + (k - 1)) div k * k"

lemma round_alloc_up:
  assumes "unat (x :: u32) + 65535 < 2 ^ 32"
  shows "unat (NaClRoundAllocPage x) = up_to 65536 (unat x)"
proof -
  have m: "NACL_MAP_PAGESIZE - 1 = mask 16" by (simp add: MAP_PAGESIZE_val mask_eq_exp_minus_1)
  have s: "x + NACL_MAP_PAGESIZE - 1 = x + 0xffff" by (simp add: MAP_PAGESIZE_val)
  have "unat (x + 0xffff) = unat x + 65535" using assms by (subst unat_add_no_wrap) simp_all
  then have "unat (x + NACL_MAP_PAGESIZE - 1) = unat x + 65535" unfolding s .
  then show ?thesis unfolding NaClRoundAllocPage_def m by (simp add: unat_and_not_mask up_to_def)
qed

lemma round_host_up:
  assumes "unat (x :: u32) + 4095 < 2 ^ 32"
  shows "unat (NaClRoundHostAllocPage x) = up_to 4096 (unat x)"
proof -
  have m: "NACL_PAGESIZE - 1 = mask 12" by (simp add: nacl_consts mask_eq_exp_minus_1)
  have s: "x + NACL_PAGESIZE - 1 = x + 0xfff" by (simp add: nacl_consts)
  have "unat (x + 0xfff) = unat x + 4095" using assms by (subst unat_add_no_wrap) simp_all
  then have "unat (x + NACL_PAGESIZE - 1) = unat x + 4095" unfolding s .
  then show ?thesis unfolding NaClRoundHostAllocPage_def NaClRoundPage_def m by (simp add: unat_and_not_mask up_to_def)
qed

lemma round_up:
  fixes b :: u32
  assumes "unat b < 2 ^ m" "16 \<le> m" "m < 32"
  shows "unat b \<le> unat (NaClRoundAllocPage b)" "unat (NaClRoundAllocPage b) \<le> 2 ^ m" "4096 dvd unat (NaClRoundAllocPage b)"
proof -
  have "2 ^ m \<le> (2 :: nat) ^ 31" by (rule power_increasing) (use assms(3) in simp_all)
  then have "unat b + 65535 < 2 ^ 32" using assms(1) by simp
  note R = round_alloc_up [OF this, unfolded up_to_def, simplified]
  show "unat b \<le> unat (NaClRoundAllocPage b)"
    unfolding R using div_mult_mod_eq [of "unat b + 65535" 65536] mod_less_divisor [of 65536 "unat b + 65535"] by linarith
  show "4096 dvd unat (NaClRoundAllocPage b)" unfolding R by (rule dvd_mult) simp
  define q where "q = (2 :: nat) ^ (m - 16)"
  have q: "2 ^ m = q * 65536" using power_add [of "2 :: nat" 16 "m - 16"] assms(2) by (simp add: q_def)
  have "unat b + 65535 < Suc q * 65536" using assms(1) unfolding q by simp
  then have "(unat b + 65535) div 65536 < Suc q" by (rule less_mult_imp_div_less)
  then show "unat (NaClRoundAllocPage b) \<le> 2 ^ m" unfolding R q by simp
qed

lemma page_of: "unat (drop_bit NACL_PAGESHIFT (x :: u32)) = unat x div 4096"
  by (simp add: NACL_PAGESHIFT_def unat_drop_bit_eq drop_bit_eq_div unat_div)

lemma addr_of: "unat (e :: u32) * 4096 < 2 ^ 32 \<Longrightarrow> unat (push_bit NACL_PAGESHIFT e) = unat e * 4096"
  by (simp add: NACL_PAGESHIFT_def push_bit_eq_mult unat_word_ariths)

text \<open>The pages that a larger break makes accessible lie between the old break and the end of the address space.\<close>

lemma break_region:
  fixes e b nb :: u32
  defines "sz \<equiv> push_bit NACL_PAGESHIFT (drop_bit NACL_PAGESHIFT (NaClRoundAllocPage nb - 1) + 1) - push_bit NACL_PAGESHIFT e"
  assumes nb: "unat nb < 2 ^ m" "16 \<le> m" "m < 32" "nb \<noteq> 0"
    and e: "drop_bit NACL_PAGESHIFT (b - 1) < e" "\<not> drop_bit NACL_PAGESHIFT (nb - 1) < e"
  shows "unat b \<le> unat (push_bit NACL_PAGESHIFT e)" "unat (push_bit NACL_PAGESHIFT e) + unat sz \<le> 2 ^ m"
    "4096 dvd unat (push_bit NACL_PAGESHIFT e)"
proof -
  let ?R = "NaClRoundAllocPage nb"
  note R = round_up [OF nb(1-3)]
  have pos: "0 < unat nb" using nb(4) by (simp add: unat_gt_0)
  have top: "2 ^ m < (2 :: nat) ^ 32" by (rule power_strict_increasing [OF nb(3)]) simp
  have nb1: "unat (nb - 1) = unat nb - 1" using nb(4) by (simp add: unat_minus_one)
  have R1: "unat (?R - 1) = unat ?R - 1" using R(1) pos by (intro unat_minus_one) auto
  have "unat e \<le> (unat nb - 1) div 4096" using e(2) nb1 by (simp add: word_less_nat_alt page_of)
  then have eR: "unat e * 4096 < unat nb" using pos by (simp add: less_eq_div_iff_mult_less_eq)
  then have ue: "unat (push_bit NACL_PAGESHIFT e) = unat e * 4096" using nb(1) top by (intro addr_of) linarith
  obtain q where q: "unat ?R = 4096 * q" using R(3) by (elim dvdE)
  then have q1: "0 < q" "4096 * q < 2 ^ 32" using R(1,2) pos top by (cases q; simp)+
  have l: "unat (drop_bit NACL_PAGESHIFT (?R - 1) + 1) = q"
  proof -
    have "(4096 * q - 1) div 4096 = q - 1" using q1(1) by (cases q) simp_all
    then have "unat (drop_bit NACL_PAGESHIFT (?R - 1)) = q - 1" by (simp add: page_of R1 q)
    then show ?thesis using q1 by (subst unat_add_no_wrap) simp_all
  qed
  have uR: "unat (push_bit NACL_PAGESHIFT (drop_bit NACL_PAGESHIFT (?R - 1) + 1)) = unat ?R" using q1(2) l q by (subst addr_of) simp_all
  have "unat sz = unat ?R - unat e * 4096"
    unfolding sz_def using eR R(1) uR ue by (subst unat_sub) (simp_all add: word_le_nat_alt)
  then show "unat (push_bit NACL_PAGESHIFT e) + unat sz \<le> 2 ^ m" using ue eR R(1,2) by simp
  show "4096 dvd unat (push_bit NACL_PAGESHIFT e)" unfolding ue by simp
  show "unat b \<le> unat (push_bit NACL_PAGESHIFT e)"
  proof (cases "b = 0")
    case False
    then have "(unat b - 1) div 4096 < unat e" using e(1) by (simp add: word_less_nat_alt page_of unat_minus_one)
    then show ?thesis unfolding ue by (simp add: div_less_iff_less_mult)
  qed simp
qed

lemma grow_break_touches:
  assumes ok: "call_ok (vs_app s)" and nb: "unat nb < 2 ^ unat (addr_bits (vs_app s))" "nb \<noteq> 0"
    and run: "grow_break mo nb s = Returns (g, s')"
  shows "data_part (vs_app s) (vs_host s) (vs_host s')" "vs_app s' = vs_app s \<or> vs_app s' = (vs_app s)\<lparr>break_addr := nb\<rparr>"
proof -
  let ?nap = "vs_app s" let ?p = "drop_bit NACL_PAGESHIFT (break_addr ?nap - 1)"
  obtain ix m h where f: "NaClVmmapFindPageIter (vs_map s) ?p (ref_counts (vs_descs s)) = Returns (ix, m, h)"
      "\<not> NaClVmmapIterAtEnd ix m" and u: "\<exists>x. NaClUserToSys ?nap (break_addr ?nap) = Returns x"
    using run unfolding grow_break_def Let_def by (auto split: if_splits)
  obtain ent where e: "NaClVmmapIterStar ix m = Returns ent" using run f u unfolding grow_break_def Let_def by auto
  have "bsearch_entries (vmentry m) ?p 0 (nvalid m) = Returns (Some ix)"
    using f by (auto simp: NaClVmmapFindPageIter_def NaClVmmapIterAtEnd_def split: option.splits)
  from bsearch_hit [OF this] have hit: "?p < page_num ent + npages ent" using e by (auto simp: NaClVmmapIterStar_def)
  let ?e = "page_num ent + npages ent" let ?l = "drop_bit NACL_PAGESHIFT (NaClRoundAllocPage nb - 1)"
  let ?sz = "push_bit NACL_PAGESHIFT (?l + 1) - push_bit NACL_PAGESHIFT ?e" let ?a = "push_bit NACL_PAGESHIFT ?e + mem_start ?nap"
  show "vs_app s' = vs_app s \<or> vs_app s' = (vs_app s)\<lparr>break_addr := nb\<rparr>"
    using run f e unfolding grow_break_def Let_def by (auto split: if_splits)
  show "data_part (vs_app s) (vs_host s) (vs_host s')"
  proof (cases "vs_host s' = vs_host s")
    case False
    then have far: "\<not> drop_bit NACL_PAGESHIFT (nb - 1) < ?e" and a: "NaClUserToSys ?nap (push_bit NACL_PAGESHIFT ?e) = Returns ?a"
        and h': "vs_host s' = map_pages (vs_host s) ?a ?sz 3"
      using run f e unfolding grow_break_def Let_def by (auto simp: NaClUserToSys_def split: if_splits)
    have sp: "space_ok ?nap" "16 \<le> unat (addr_bits ?nap)" "unat (addr_bits ?nap) < 32" "4096 dvd unat (mem_start ?nap)"
      using ok by (simp_all add: call_ok_def space_ok_def)
    note b = break_region [OF nb(1) sp(2,3) nb(2) hit far]
    have ua: "unat ?a = unat (mem_start ?nap) + unat (push_bit NACL_PAGESHIFT ?e)"
    proof -
      have "unat (push_bit NACL_PAGESHIFT ?e) + unat (mem_start ?nap) < 2 ^ 32" using sp(1) b(2) unfolding space_ok_def by linarith
      then have "unat ?a = unat (push_bit NACL_PAGESHIFT ?e) + unat (mem_start ?nap)" by (intro unat_add_no_wrap) simp
      then show ?thesis unfolding add.commute [of "unat (mem_start ?nap)"] .
    qed
    have al: "4096 dvd unat ?a" unfolding ua using sp(4) b(3) by (rule dvd_add)
    have "touches (unat ?a) (unat ?a + unat ?sz) (vs_host s) (vs_host s')"
      unfolding h' by (rule touches_map_pages [OF al]) (simp add: NACL_ABI_PROT_EXEC_def)
    then have "touches (unat (mem_start ?nap) + unat (push_bit NACL_PAGESHIFT ?e))
        (unat (mem_start ?nap) + (unat (push_bit NACL_PAGESHIFT ?e) + unat ?sz)) (vs_host s) (vs_host s')" unfolding ua add.assoc .
    then show ?thesis
      by (rule data_part_range) (use ok b(1,2) in \<open>simp_all add: call_ok_def word_le_nat_alt\<close>)
  qed (simp add: data_part_def)
qed

text \<open>What a call keeps: everything of the module but its break, which stays after the data.\<close>

definition call_keeps :: "vm_state \<Rightarrow> vm_state \<Rightarrow> bool" where
  "call_keeps s s' \<longleftrightarrow> (\<exists>b. vs_app s' = (vs_app s)\<lparr>break_addr := b\<rparr>) \<and> data_end (vs_app s) \<le> break_addr (vs_app s') \<and>
     data_part (vs_app s) (vs_host s) (vs_host s')"

lemma call_keepsI:
  "call_ok (vs_app s) \<Longrightarrow> vs_app s' = vs_app s \<and> data_part (vs_app s) (vs_host s) (vs_host s') \<Longrightarrow> call_keeps s s'"
  unfolding call_keeps_def call_ok_def by (auto intro: exI [of _ "break_addr (vs_app s)"])

lemma NaClSetBreak_keeps:
  assumes ok: "call_ok (vs_app s)" and run: "NaClSetBreak mo nb s = Returns (r, s')"
  shows "call_keeps s s'"
proof (cases "s' = s")
  case True
  then show ?thesis using ok by (intro call_keepsI) (simp_all add: data_part_def)
next
  case False
  have nb: "nb \<noteq> 0" "\<not> push_bit (unat (addr_bits (vs_app s))) 1 \<le> nb" "\<not> nb < data_end (vs_app s)"
    using run False unfolding NaClSetBreak_def Let_def NaClUserToSysAddr_def by (auto split: if_splits)
  show ?thesis
  proof (cases "nb \<le> break_addr (vs_app s)")
    case True
    then have "s' = s\<lparr>vs_app := (vs_app s)\<lparr>break_addr := nb\<rparr>\<rparr>"
      using run nb False unfolding NaClSetBreak_def Let_def by (auto split: if_splits)
    then show ?thesis using nb(3) by (auto simp: call_keeps_def data_part_def)
  next
    case f: False
    then obtain g where g: "grow_break mo nb s = Returns (g, s')"
      using run nb False unfolding NaClSetBreak_def Let_def by (auto split: if_splits)
    have "unat nb < 2 ^ unat (addr_bits (vs_app s))" using nb(2) ok space_limit [of "vs_app s" nb] by (simp add: call_ok_def)
    note t = grow_break_touches [OF ok this nb(1) g]
    from t(2) show ?thesis
    proof
      assume "vs_app s' = vs_app s"
      then show ?thesis using t(1) by (intro call_keepsI [OF ok]) simp
    next
      assume "vs_app s' = (vs_app s)\<lparr>break_addr := nb\<rparr>"
      then show ?thesis using t(1) nb(3) by (auto simp: call_keeps_def)
    qed
  qed
qed

text \<open>A module that runs: any \<open>mmap\<close>, \<open>munmap\<close> and \<open>brk\<close> calls, with any arguments, results of the host and descriptors.\<close>

inductive map_step :: "vm_state \<Rightarrow> vm_state \<Rightarrow> bool" where
  mmap: "mmap_law mo \<Longrightarrow> NaClCommonSysMmap mo vt start n prt flags d off s = Returns (r, s') \<Longrightarrow> map_step s s'"
| munmap: "mmap_law mo \<Longrightarrow> NaClSysMunmap mo start n s = Returns (r, s') \<Longrightarrow> map_step s s'"

lemma map_step_touches:
  assumes "map_step s s'" and ok: "space_ok (vs_app s)" "4096 dvd unat (mem_start (vs_app s))"
  shows "vs_app s' = vs_app s \<and> data_part (vs_app s) (vs_host s) (vs_host s')"
  using assms(1)
proof cases
  case mmap
  show ?thesis by (rule NaClCommonSysMmap_touches [OF mmap(1) ok mmap(2)])
next
  case munmap
  show ?thesis by (rule NaClSysMunmap_touches [OF munmap(1) ok munmap(2)])
qed

lemma map_steps_touch:
  assumes "map_step\<^sup>*\<^sup>* s s'" and ok: "space_ok (vs_app s)" "4096 dvd unat (mem_start (vs_app s))"
  shows "vs_app s' = vs_app s \<and> data_part (vs_app s) (vs_host s) (vs_host s')"
  using assms(1)
proof induction
  case (step s1 s2)
  then have a: "vs_app s1 = vs_app s" "data_part (vs_app s) (vs_host s) (vs_host s1)" by simp_all
  have b: "vs_app s2 = vs_app s1" "data_part (vs_app s1) (vs_host s1) (vs_host s2)"
    using map_step_touches [OF step(2)] ok unfolding a(1) by simp_all
  have "data_part (vs_app s) (vs_host s) (vs_host s2)"
    using a(2) b(2) [unfolded a(1)] unfolding data_part_def by (rule touches_trans)
  then show ?case using a(1) b(1) by simp
qed (simp add: data_part_def)

inductive mem_step :: "vm_state \<Rightarrow> vm_state \<Rightarrow> bool" where
  map_call: "map_step s s' \<Longrightarrow> mem_step s s'"
| set_break: "NaClSetBreak mo new_break s = Returns (r, s') \<Longrightarrow> mem_step s s'"

lemma mem_step_keeps:
  assumes "mem_step s s'" and ok: "call_ok (vs_app s)"
  shows "call_keeps s s'"
  using assms(1)
proof cases
  case map_call
  show ?thesis by (rule call_keepsI [OF ok map_step_touches [OF map_call]]) (use ok in \<open>simp_all add: call_ok_def\<close>)
next
  case set_break
  show ?thesis by (rule NaClSetBreak_keeps [OF ok set_break])
qed

lemma call_keeps_ok: "call_keeps s s' \<Longrightarrow> call_ok (vs_app s) \<Longrightarrow> call_ok (vs_app s')"
  by (auto simp: call_keeps_def call_ok_def space_ok_def)

lemma call_keeps_trans:
  assumes "call_keeps s s1" "call_keeps s1 s2"
  shows "call_keeps s s2"
proof -
  obtain b b' where b: "vs_app s1 = (vs_app s)\<lparr>break_addr := b\<rparr>" "vs_app s2 = (vs_app s1)\<lparr>break_addr := b'\<rparr>"
    using assms by (auto simp: call_keeps_def)
  have t: "data_part (vs_app s) (vs_host s) (vs_host s1)" "data_part (vs_app s) (vs_host s1) (vs_host s2)"
    using assms b(1) by (auto simp: call_keeps_def data_part_def)
  show ?thesis using assms(2) b t(1) touches_trans [OF t [unfolded data_part_def]] by (auto simp: call_keeps_def data_part_def)
qed

text \<open>
  C13: no sequence of \<open>mmap\<close>, \<open>munmap\<close> and \<open>brk\<close> calls reaches the code. The module has data behind its code and its break is not
  below the end of the data (\<open>call_ok\<close>: \<open>dynamic_text_end \<le> data_end \<le> break_addr\<close>; a module that is nothing but text is excluded, as
  \<open>brk\<close> would start from the end of its text). Whatever the arguments are, every page of the host that was
  mapped and lies below the end of the module's code, or outside its address space, keeps its protection; a page that changes is mapped and not
  executable afterwards; and nothing of the module's layout changes but the break, which stays at or above the end of its data.
\<close>

theorem memory_calls_keep_code:
  assumes "call_ok (vs_app s)" "mem_step\<^sup>*\<^sup>* s s'"
  shows "(\<exists>b. vs_app s' = (vs_app s)\<lparr>break_addr := b\<rparr>) \<and> data_end (vs_app s) \<le> break_addr (vs_app s') \<and>
    (\<forall>pg. vs_host s' pg \<noteq> vs_host s pg \<longrightarrow>
       (vs_host s pg = None \<or> unat (mem_start (vs_app s)) + unat (dynamic_text_end (vs_app s)) \<le> pg * 4096 \<and>
          pg * 4096 < unat (mem_start (vs_app s)) + 2 ^ unat (addr_bits (vs_app s))) \<and>
       (\<exists>p. vs_host s' pg = Some p \<and> p AND NACL_ABI_PROT_EXEC = 0))"
proof -
  have "call_keeps s s'"
    using assms(2)
  proof induction
    case base
    show ?case using assms(1) by (intro call_keepsI) (simp_all add: data_part_def)
  next
    case (step s1 s2)
    show ?case by (rule call_keeps_trans [OF step.IH mem_step_keeps [OF step(2) call_keeps_ok [OF step.IH assms(1)]]])
  qed
  then show ?thesis unfolding call_keeps_def data_part_def touches_def .
qed

text \<open>A module whose break moves from \<open>0x48000\<close> to \<open>0x50001\<close>, so that the pages up to \<open>0x60000\<close> become writable, or that unmaps the 64K after that.\<close>

definition sample_running :: vm_state where
  "sample_running = \<lparr>vs_app = sample_space\<lparr>data_end := 0x40000, break_addr := 0x48000\<rparr>,
     vs_map = \<lparr>vmentry = [Some \<lparr>page_num = 0x40, npages = 8, prot = 3, nmop = None, removed = False\<rparr>], nvalid = 1, vm_size = 1, is_sorted = True\<rparr>,
     vs_descs = \<lparr>desc_tbl = \<lparr>num_entries = 0, ptr_array = [], ptr_array_space = 0, available = [], avail_ix = 0\<rparr>, ref_counts = Map.empty\<rparr>,
     vs_host = (\<lambda>pg. Some (if pg < 0x10040 then 5 else if pg < 0x10060 then 0 else 3))\<rparr>"

definition sample_mem_os :: mem_os where
  "sample_mem_os = \<lparr>mo_mmap = (\<lambda>d a n p fl off host. if fl AND 0x10 = 0 then Inl 12 else Inr a), mo_mprotect = (\<lambda>a n p. True),
     mo_munmap = (\<lambda>a n. True), mo_shmat = (\<lambda>d a fl. None), mo_allocs = (\<lambda>k i. True)\<rparr>"

lemma sample_break:
  "\<exists>s'. NaClSetBreak sample_mem_os 0x50001 sample_running = Returns (0x50001, s') \<and> vs_host s' 0x10048 = Some 3 \<and> break_addr (vs_app s') = 0x50001"
proof -
  have "drop_bit 12 (0x47fff :: u32) = 0x47" "drop_bit 12 (0x50000 :: u32) = 0x50" "drop_bit 12 (0x5ffff :: u32) = 0x5f"
      "push_bit 12 (0x48 :: u32) = 0x48000" "push_bit 12 (0x60 :: u32) = 0x60000" "(0x60000 AND NOT 0xffff :: u32) = 0x60000"
    by simp_all
  moreover have "bsearch_entries [Some \<lparr>page_num = 0x40, npages = 8, prot = 3, nmop = None, removed = False\<rparr>] 0x47 0 1 = Returns (Some 0)"
    by (subst bsearch_entries.simps) (simp add: entry_at_def NaClVmmapContainCmpEntries_def)
  ultimately show ?thesis
    by (auto simp: NaClSetBreak_def grow_break_def sample_running_def sample_mem_os_def sample_space_def NaClUserToSysAddr_def NaClUserToSys_def
      kNaClBadAddress_def NACL_PAGESHIFT_def NaClRoundAllocPage_def MAP_PAGESIZE_val NaClVmmapFindPageIter_def NaClVmmapMakeSorted_def
      NaClVmmapIterAtEnd_def NaClVmmapIterStar_def NaClVmmapIterIncr_def entry_at_def map_pages_def NaClVmmapContainCmpEntries_def Let_def)
qed

lemma sample_unmap:
  "\<exists>s'. NaClSysMunmap sample_mem_os 0x60000 0x10000 sample_running = Returns (0, s') \<and> vs_host s' 0x10060 = Some 0"
proof -
  have w: "drop_bit 12 (0x60000 :: u32) = 0x60" "drop_bit 12 (0x10000 :: u32) = 0x10" "(0x1ffff AND NOT 0xffff :: u32) = 0x10000"
      "(0x60000 AND NOT 0xffff :: u32) = 0x60000" "(0xffff AND 0x60000 :: u32) = 0" by simp_all
  let ?m = "vs_map sample_running"
  have sorted: "NaClVmmapMakeSorted ?m h = Returns (?m, h)" for h by (simp add: NaClVmmapMakeSorted_def sample_running_def)
  have "NaClVmmapUpdate (\<lambda>k. True) ?m 0x60 0x10 0 None True Map.empty = NaClVmmapRemoveMarked ?m Map.empty"
    unfolding NaClVmmapUpdate_def sorted
    by (simp add: sample_running_def entry_at_def NaClVmmapUpdate_loop.simps Let_def)
  moreover have "\<exists>m h. NaClVmmapRemoveMarked ?m Map.empty = Returns (m, h)"
    by (simp add: NaClVmmapRemoveMarked_def sample_running_def entry_at_def Let_def)
  ultimately obtain m h where u: "NaClVmmapUpdate (\<lambda>k. True) ?m 0x60 0x10 0 None True Map.empty = Returns (m, h)" by auto
  show ?thesis
    using u w by (simp add: NaClSysMunmap_def sample_running_def sample_mem_os_def sample_space_def NaClIsAllocPageMultiple_def NaClRoundAllocPage_def
      NaClTruncAllocPage_def MAP_PAGESIZE_val NaClUserToSysAddrRange_def NaClSysToUser_def kNaClBadAddress_def NACL_PAGESHIFT_def
      NaClSysCommonAddrRangeContainsExecutablePages_mu_def map_pages_def Let_def)
qed

lemma sample_law: "mmap_law sample_mem_os"
  by (simp add: mmap_law_def sample_mem_os_def)

theorem memory_calls_keep_code_witness:
  "\<exists>s1 s2. mem_step\<^sup>*\<^sup>* sample_running s1 \<and> vs_host s1 0x10048 = Some 3 \<and> vs_host s1 0x1003f = Some 5 \<and> break_addr (vs_app s1) = 0x50001 \<and>
    mem_step\<^sup>*\<^sup>* sample_running s2 \<and> vs_host s2 0x10060 = Some 0 \<and> vs_host s2 0x1003f = Some 5"
proof -
  obtain s1 where s1: "NaClSetBreak sample_mem_os 0x50001 sample_running = Returns (0x50001, s1)" "vs_host s1 0x10048 = Some 3" "break_addr (vs_app s1) = 0x50001"
    using sample_break by blast
  obtain s2 where s2: "NaClSysMunmap sample_mem_os 0x60000 0x10000 sample_running = Returns (0, s2)" "vs_host s2 0x10060 = Some 0"
    using sample_unmap by blast
  have st: "mem_step\<^sup>*\<^sup>* sample_running s1" "mem_step\<^sup>*\<^sup>* sample_running s2"
    using set_break [OF s1(1)] map_call [OF munmap [OF sample_law s2(1)]] by blast+
  have ok: "call_ok (vs_app sample_running)" by (simp add: call_ok_def space_ok_def sample_running_def sample_space_def)
  have "vs_host s' 0x1003f = Some 5" if "mem_step\<^sup>*\<^sup>* sample_running s'" for s'
    using memory_calls_keep_code [OF ok that, THEN conjunct2, THEN conjunct2, rule_format, of "0x1003f"]
    by (auto simp: sample_running_def sample_space_def)
  then show ?thesis using st s1 s2 by blast
qed

subsection \<open>The parts of a mapping\<close>

lemma up_to_twice: "up_to 65536 (up_to 4096 n) = up_to 65536 n"
proof -
  have d: "x div 65536 = x div 4096 div 16" for x :: nat using div_mult2_eq [of x 4096 16] by simp
  define q where "q = (n + 4095) div 4096"
  have "(up_to 4096 n + 65535) div 4096 = q + 15" by (simp add: up_to_def q_def)
  moreover have "(n + 65535) div 4096 = q + 15" using div_mult_self1 [of 4096 "n + 4095" 15] by (simp add: q_def add.assoc)
  ultimately have "(up_to 4096 n + 65535) div 65536 = (n + 65535) div 65536" unfolding d by simp
  then show ?thesis by (simp add: up_to_def)
qed

lemma min_word: "unat a = x \<Longrightarrow> unat b = y \<Longrightarrow> size_min a b = word_of_nat (min x y)"
  by (auto simp: size_min_def min_def word_less_nat_alt)

text \<open>
  C35: the sizes that \<open>mmap\<close> computes for a file with rounding on 32-bit words are those of plain arithmetic. Of a request of \<open>n\<close> bytes at an
  offset inside the file, rounded up to 64K, the part that holds the rest of the file rounded up to 4K is mapped from it, the part up to the end of the
  file's last 64K is zero filled and what remains is inaccessible; a file whose rest is within 4K of 2G ends the process.
\<close>

theorem mmap_sizes_reference:
  assumes st: "v_Fstat vt a = Inr st" and sizes: "sint st = int file_size" "sint off = int offset" "offset \<le> file_size"
    and n: "unat n \<le> 0xffff0000"
  shows "mmap_sizes vt (Some a) n off =
    (let rest = file_size - offset; request = up_to 65536 (unat n)
     in if rest > 0x7ffff000 then Aborts
        else Returns (Inr (word_of_nat (min request (up_to 4096 rest)), word_of_nat (min request (up_to 65536 rest)), word_of_nat request, int file_size)))"
proof -
  define f where "f = file_size - offset"
  have lt: "file_size < 2 ^ 31" using sizes(1) sint_lt [of st] by simp
  then have f: "f < 2 ^ 31" by (simp add: f_def)
  have diff: "sint st - sint off = int f" using sizes by (simp add: f_def)
  have nl: "\<not> sint st < sint off" using sizes by simp
  let ?w = "word_of_int (int f) :: u32"
  have uw: "unat ?w = f" using f take_bit_nat_eq_self [of f 32] by (simp add: unsigned_of_nat)
  have H: "unat (NaClRoundHostAllocPage ?w) = up_to 4096 f" using round_host_up [of ?w] f unfolding uw by simp
  let ?h = "NaClRoundHostAllocPage ?w"
  have arl: "unat (NaClRoundAllocPage n) = up_to 65536 (unat n)" using n by (intro round_alloc_up) simp
  have arlw: "NaClRoundAllocPage n = word_of_nat (up_to 65536 (unat n))" by (simp flip: arl)
  have small: "\<not> uint kMaxUsableFileSize < int f" using f by (simp add: nacl_consts)
  have le: "up_to 4096 f \<le> 0x7fffffff \<longleftrightarrow> f \<le> 0x7ffff000"
  proof -
    define q where "q = (f + 4095) div 4096"
    have "q < 0x80000 \<longleftrightarrow> f + 4095 < 0x80000 * 4096" unfolding q_def by (rule div_less_iff_less_mult) simp
    moreover have "up_to 4096 f = q * 4096" by (simp add: up_to_def q_def)
    ultimately show ?thesis by auto
  qed
  then have asserted: "uint ?h \<le> uint kMaxUsableFileSize \<longleftrightarrow> \<not> f > 0x7ffff000"
    using H by (simp add: nacl_consts uint_nat not_less)
  have hw: "word_of_int (uint ?h) = ?h" by simp
  show ?thesis
  proof (cases "f > 0x7ffff000")
    case True
    then show ?thesis using st nl small asserted by (simp add: mmap_sizes_def Let_def diff f_def [symmetric])
  next
    case False
    have "up_to 4096 f \<le> 0x7fffffff" using False le by linarith
    then have A: "unat (NaClRoundAllocPage ?h) = up_to 65536 f" using round_alloc_up [of ?h] H by (simp add: up_to_twice)
    have z: "\<not> (0 = NaClRoundAllocPage ?h \<and> 0 \<noteq> uint ?h)"
    proof
      assume z: "0 = NaClRoundAllocPage ?h \<and> 0 \<noteq> uint ?h"
      then have "up_to 65536 f = 0" using A by simp
      then have "f = 0" by (simp add: up_to_def div_eq_0_iff)
      then have "up_to 4096 f = 0" by (simp add: up_to_def)
      then have "?h = 0" using H by (simp add: unat_eq_zero)
      then show False using z by (metis unsigned_0)
    qed
    show ?thesis
      unfolding sizes(1) [symmetric] using st nl small asserted z False min_word [OF arl H] min_word [OF arl A] arlw
      by (simp add: mmap_sizes_def Let_def diff f_def [symmetric] hw)
  qed
qed

theorem mmap_sizes_reference_witness:
  "mmap_sizes \<lparr>v_Fstat = (\<lambda>a. Inr 0x1234), v_desc = (\<lambda>a. NaClDescIoDesc 3)\<rparr> (Some 7) 0x18000 0 = Returns (Inr (0x2000, 0x10000, 0x20000, 0x1234))"
  using mmap_sizes_reference [of "\<lparr>v_Fstat = (\<lambda>a. Inr 0x1234), v_desc = (\<lambda>a. NaClDescIoDesc 3)\<rparr>" 7 "0x1234" "0x1234" 0 0 "0x18000"]
  by (simp add: up_to_def)

end
