(* ===== verification/Run_Safe.thy ===== *)
theory Run_Safe
  imports Load_Safe Mem_Calls
begin

text \<open>Loading and running together: what the memory calls of a running module keep of what loading has established.\<close>

text \<open>The state in which a module starts that was loaded: its layout, and the protection of every page of its address space.\<close>

definition starts :: "loader \<Rightarrow> vm_state \<Rightarrow> bool" where
  "starts s v \<longleftrightarrow> vs_app v = ld_app s \<and>
     (\<forall>pg. unat (mem_start (ld_app s)) \<le> pg * 4096 \<and> pg * 4096 < unat (mem_start (ld_app s)) + 2 ^ unat (addr_bits (ld_app s)) \<longrightarrow>
        vs_host v pg = Some (ld_prot s pg))"

text \<open>
  C10: code stays as it was loaded. Whatever \<open>mmap\<close> and \<open>munmap\<close> calls a module makes after \<open>NaClAppLoadFile\<close> succeeded, every page of
  its code segment can still be read and executed and not written, its first 64K are still inaccessible, and its layout is the one it was loaded with.
\<close>

theorem loaded_code_stays:
  assumes os: "os_ok os ts" and ts: "templates_ok ts (ld_mem s)" and gp: "gio_ok gp" and fr: "fresh s"
    and load: "NaClAppLoadFile T cpu valloc os ts al gp s = Returns (LOAD_OK, s')"
    and st: "starts s' v" and run: "map_step\<^sup>*\<^sup>* v v'" and u: "u < unat (dynamic_text_end (ld_app s'))"
  shows "vs_app v' = ld_app s' \<and> vs_host v' ((unat (mem_start (ld_app s')) + u) div 4096) =
    Some (if u < 0x10000 then NACL_ABI_PROT_NONE else NACL_ABI_PROT_READ OR NACL_ABI_PROT_EXEC)"
proof -
  let ?nap = "ld_app s'" let ?pg = "(unat (mem_start ?nap) + u) div 4096"
  note ld = NaClAppLoadFile_ok [OF os ts gp fr load]
  have sp: "space_ok ?nap" "4096 dvd unat (mem_start ?nap)" "unat (dynamic_text_end ?nap) \<le> 2 ^ unat (addr_bits ?nap)"
    using ld by (simp_all add: loaded_def)
  have app: "vs_app v = ?nap" using st by (simp add: starts_def)
  obtain k where "unat (mem_start ?nap) = 4096 * k" using sp(2) by (elim dvdE)
  then have pg: "unat (mem_start ?nap) \<le> ?pg * 4096" "?pg * 4096 \<le> unat (mem_start ?nap) + u" by simp_all
  then have "vs_host v ?pg = Some (ld_prot s' ?pg)" using st u sp(3) by (simp add: starts_def)
  moreover have t: "vs_app v' = ?nap" "data_part ?nap (vs_host v) (vs_host v')" using map_steps_touch [OF run] sp(1,2) by (simp_all add: app)
  moreover have "vs_host v' ?pg = vs_host v ?pg" using t(2) pg(2) u calculation(1) unfolding data_part_def touches_def by fastforce
  ultimately show ?thesis using loaded_page [OF ld u] by simp
qed

text \<open>The sample module tries to unmap its own code.\<close>

theorem loaded_code_stays_witness:
  "\<exists>s' v. NaClAppLoadFile sample_tables sample_cpu (\<lambda>_ _. True) load_sample_os sample_templates True (GioMemoryFileCtor sample_elf 89) load_sample =
     Returns (LOAD_OK, s') \<and> starts s' v \<and> NaClSysMunmap sample_mem_os 0x20000 0x10000 v = Returns (neg_errno NACL_ABI_EINVAL, v) \<and>
     vs_host v 0x10020 = Some (NACL_ABI_PROT_READ OR NACL_ABI_PROT_EXEC)"
proof -
  obtain s' where l: "NaClAppLoadFile sample_tables sample_cpu (\<lambda>_ _. True) load_sample_os sample_templates True (GioMemoryFileCtor sample_elf 89) load_sample =
     Returns (LOAD_OK, s')" and app: "mem_start (ld_app s') = 0x10000000" "addr_bits (ld_app s') = 28" "dynamic_text_end (ld_app s') = 0x30000"
    using sample_loads by blast
  define v where w_def: "v = sample_running\<lparr>vs_app := ld_app s', vs_host := (\<lambda>pg. Some (ld_prot s' pg))\<rparr>"
  have s: "starts s' v" by (simp add: starts_def w_def)
  have w: "(0xffff AND 0x20000 :: u32) = 0" "(0x1ffff AND NOT 0xffff :: u32) = 0x10000" "(0x20000 AND NOT 0xffff :: u32) = 0x20000" by simp_all
  have m: "NaClSysMunmap sample_mem_os 0x20000 0x10000 v = Returns (neg_errno NACL_ABI_EINVAL, v)"
    using w by (simp add: NaClSysMunmap_def w_def app NaClIsAllocPageMultiple_def NaClRoundAllocPage_def NaClTruncAllocPage_def MAP_PAGESIZE_val
      NaClUserToSysAddrRange_def kNaClBadAddress_def NaClSysCommonAddrRangeContainsExecutablePages_mu_def Let_def)
  from loaded_code_stays [OF load_sample_ok(1,2) sample_elf_gio load_sample_ok(3) l s r_into_rtranclp [of map_step, OF munmap [OF sample_law m]], of "0x20000"]
  have "vs_host v 0x10020 = Some (NACL_ABI_PROT_READ OR NACL_ABI_PROT_EXEC)" by (simp add: app)
  then show ?thesis using l s m by blast
qed

end
