(* ===== verification/Spec2Isabelle.thy ===== *)
theory Spec2Isabelle
  imports Run_Safe
begin

text \<open>
  Native Client's service runtime for 32-bit x86 and its code validator: the C code under
  \<open>src/chrome/native_client/src/\<close> (paths below are relative to it) that makes it safe to run an
  untrusted program in the address space of the browser. The repository is a checkout of a browser; the Native Client
  directory is its part written in C, and the part whose correctness the sandbox rests on.

  \<^bold>\<open>The program.\<close> A module is an ELF file. The runtime reads it from a memory file (\<open>shared/gio\<close>), checks its headers
  (\<open>elf_util.c\<close>), allocates an address space for it and loads the segments (\<open>sel_ldr_standard.c\<close>, \<open>sel_addrspace.c\<close>), disassembles
  and validates the code (\<open>trusted/validator_x86\<close>), installs the trampolines through which the module calls the runtime
  (\<open>sel_ldr.c\<close>, \<open>arch/x86_32\<close>), protects the pages and records them in a map of the address space (\<open>sel_mem.c\<close>). While the module runs, its
  system calls use tables of descriptors and threads (\<open>dyn_array.c\<close>, \<open>sel_ldr.c\<close>), the map, and may add code to a region kept for it
  (\<open>nacl_text.c\<close>), which goes through the validator again. \<open>service_runtime/\<close> is the directory of the files named without one.

  \<^bold>\<open>The build modelled\<close> is the 32-bit one for Linux without assertions: \<open>uintptr_t\<close>, \<open>size_t\<close> and pointers are \<open>32 word\<close>, \<open>off_t\<close> has 32
  bits, \<open>assert\<close> is compiled out (but not in the generator of the decoder's tables, a program of the build whose asserts are
  modelled), \<open>CHECK\<close> and \<open>ASSERT\<close> are not. A \<open>CHECK\<close> or \<open>ASSERT\<close> that fails and \<open>LOG_FATAL\<close> are the outcome \<open>Aborts\<close>, an access through a
  null pointer or beyond an allocated block or to a page that cannot be written is \<open>Faults\<close>, a loop that never ends is \<open>Diverges\<close>, and
  everything else is \<open>Returns\<close> (theory \<open>Runtime_Prelude\<close>). Error codes are values. Machine integers keep their width, so every wrap-around
  of the source is one of the model. Logging and printing are left out.

  \<^bold>\<open>Theories.\<close> In the order of their imports:

  \<^item> \<open>NaCl_Prelude\<close>, \<open>Runtime_Prelude\<close>: types, memory as a function from addresses to bytes, outcomes, the collections of rules, and the
    lemmas on words, lists and loops the components share.
  \<^item> \<open>NC_Decode\<close>: \<open>ncdecode.c\<close>. Each stage of the decoder is a function of the decoder state; the ring of decoded instructions and
    the loop over a segment follow the code. Lemmas: every stage keeps what the later ones rely on, an instruction has 1 to 19 bytes and
    depends on its own bytes only.
  \<^item> \<open>NC_Validate\<close>: \<open>ncvalidate.c\<close>. The validator's state, its tables of instruction starts and jump targets, the check of every type of
    instruction, and the final pass. An invariant ties the tables to the instructions decoded so far; the tables have a locale of their own.
    In every state the validator can be in, \<open>validator_state\<close>, all accesses to the tables are in bounds.
  \<^item> \<open>NaCl_App\<close>, \<open>Validate_Image\<close>, \<open>Image_Flow\<close>: \<open>sel_validate_image.c\<close>, with a relation for the control flow of the code, and that code
    that was accepted cannot leave the permitted instructions.
  \<^item> \<open>NC_Decode_Table\<close>, \<open>NC_Tables_Safe\<close>: \<open>ncdecode_table.c\<close>, the generator of the decoder's tables, from its command line
    to the files it writes, call by call: none of its asserts can fail, its tables have the
    properties the other theories ask of theirs, and they permit none of the instructions listed as forbidden. The sections of the
    generator are checked one at a time, through a locale that is the induction principle of the generator.
  \<^item> \<open>Plain_Code\<close>, \<open>Sample_Image\<close>: regions of one-byte instructions are accepted, and a small image for the witnesses.
  \<^item> \<open>Dyn_Array\<close>, \<open>Desc_Table\<close>: \<open>dyn_array.c\<close>; the tables of descriptors and threads, reference counts (\<open>trusted/desc/nacl_desc_base.c\<close>) and
    the \<open>close\<close> system call. The array refines a partial map; a step relation of the table operations keeps the counts exact.
  \<^item> \<open>Vmmap\<close>, \<open>Vmmap_Entries\<close>, \<open>Vmmap_Spec\<close>, \<open>Vmmap_Find\<close>: \<open>sel_mem.c\<close> and \<open>nacl_memory_object.c\<close>, the map of the address space. The array of entries
    refines a map from pages to protection and backing; searches return what the map says.
  \<^item> \<open>Gio_Mem\<close>, \<open>Elf_Image\<close>: memory files behind a locale for sequential files, and ELF files on top of it.
  \<^item> \<open>Addr_Space\<close>: \<open>sel_ldr-inl.h\<close>, translation of addresses.
  \<^item> \<open>Imc_Shm\<close>, \<open>Dyncode\<close>: shared memory objects (\<open>trusted/desc/nacl_desc_imc_shm.c\<close>) and the system call that adds code (\<open>nacl_text.c\<close>), with
    the stores other threads can see one by one.
  \<^item> \<open>Trampoline\<close>, \<open>Load_Space\<close>, \<open>Load_File\<close>, \<open>Load_Safe\<close>: patching of templates, the address space while it is set up, \<open>NaClAppLoadFile\<close>
    as the composition of all of the above, and what a loaded module can reach.
  \<^item> \<open>Mem_Calls\<close>, \<open>Run_Safe\<close>: the \<open>mmap\<close> and \<open>brk\<close> calls (\<open>nacl_syscall_common.c\<close>), \<open>munmap\<close> (\<open>linux/nacl_syscall_impl.c\<close>) and the functions of
    descriptors that map host files and shared memory, on the map of the address space and the page protections of the host. A step relation of the three
    calls keeps the code as it is, and so a loaded module keeps its code as it was loaded.

  \<^bold>\<open>What is shown.\<close> The main line is the sandbox: the tables of the generator describe jumps correctly and never permit the
  instructions that leave the sandbox; code that the validator accepts stays inside its permitted instructions; a module
  that was loaded can only ever reach inaccessible pages, halts, whole trampolines, validated code, or the end of its code segment;
  its code cannot be written; loading and adding code touch nothing else; and code added later is validated (unless the runtime is told to ignore the verdict), becomes
  visible to other threads bundle by bundle, and is never left writable; and no sequence of memory calls changes the protection of code or
  maps anything executable. Beside it stand the functional properties of each component: refinement
  of maps, searches that return the best answer, exact reference counts, round trips, error results, termination of the loops, and
  progress on inputs that should succeed. Properties that need tables, an operating system or templates of assembler code take them as
  parameters with named hypotheses (\<open>tables_ok\<close>, \<open>os_ok\<close>, \<open>templates_ok\<close>, \<open>mmap_ok\<close>, \<open>map_error_apart\<close>,
  \<open>mmap_law\<close>), and each has a witness on a concrete instance. \<open>map_error_apart\<close>, and its counterpart in \<open>os_ok\<close>, is needed because a failed mapping of
  shared memory reports an error number that the runtime takes for the address 0xc0000000: mapping must not fail, or that address must
  not lie in the room the host gives.

  \<^bold>\<open>Bounds and fuel.\<close> The loop of the decoder gets one unit of fuel for every byte of the segment and one more; each turn consumes at least
  one byte, and \<open>NaClValidateImage_returns\<close> shows that it is enough. The loops over shared memory objects step by \<open>2 ^ 16\<close> through 32-bit counters: with
  \<open>2 ^ 16 + 1\<close> units a loop that has not ended has repeated a counter and never ends, which is the outcome \<open>Diverges\<close>. The doubling loop of the
  dynamic array ends within 33 turns. All other recursions terminate by a measure.

  \<^bold>\<open>Parameters.\<close> Code that is not in the repository, or not C: the host's memory management (\<open>mmap\<close>, \<open>munmap\<close>, \<open>mprotect\<close>,
  \<open>madvise\<close>, \<open>shmat\<close>, \<open>malloc\<close>) and the sizes of its files, the
  processor's feature bits, and the assembler templates of trampolines and springboard. The library's \<open>qsort\<close> and \<open>bsearch\<close> are modelled by what the C
  standard says of them.

  \<^bold>\<open>Not modelled:\<close> the iterator based validator for 64-bit x86 and the 64-bit and ARM runtimes, which are other programs with the same purpose; threads,
  context switches and signals, which are assembler code and host calls; the start of the main thread with its arguments on the stack; the system calls not named above, most of which hand their arguments to the
  host after the checks of addresses modelled in \<open>Addr_Space\<close>; the unmapping of shared memory that keeps the address range; and the rest of the browser,
  which is C++.
\<close>

section \<open>The validator\<close>

text \<open>
  C1: control flow integrity of a validated image. When \<open>NaClValidateImage\<close> accepts the image (and
  its verdict is not overridden), execution that starts at a bundle boundary only ever is at the
  start of an instruction of the region that is a halt or has a permitted type and permitted
  prefixes, at the end of the region, or at a bundle boundary outside the region. The tables
  may be any with the operands of jumps inside their instructions.
\<close>

theorem image_control_flow:
  assumes ok: "NaClValidateImage T cpu alloc inited nap mem = Some (mem', inited', LOAD_OK)"
    and use: "\<not> ignore_validator_result nap" and T: "tables_ok T"
    and nowrap: "unat (static_text_end nap) + 32 \<le> 2 ^ 32"
    and start: "pc0 AND bundle_mask nap = 0"
    and run: "(cf_step T mem' (text_mem nap) NACL_TRAMPOLINE_END (static_text_end nap))\<^sup>*\<^sup>* (pc0, regs0) (pc, regs)"
  defines "p \<equiv> text_mem nap + unat (pc - NACL_TRAMPOLINE_END)"
  defines "d \<equiv> decode_at T mem' pc p"
  shows "if NACL_TRAMPOLINE_END \<le> pc \<and> pc < static_text_end nap
    then mem' p = kNaClFullStop \<or> legal_type (insttype (opinfo d)) \<and> prefix_usage_ok d
    else pc = static_text_end nap \<or> pc AND bundle_mask nap = 0"
  unfolding d_def p_def by (rule image_flow [OF ok use T nowrap agrees_from_refl start run])

text \<open>The sample image, and that it is accepted.\<close>

lemma sample_facts:
  "\<not> ignore_validator_result sample_nap" "unat (static_text_end sample_nap) + 32 \<le> 2 ^ 32"
  "static_text_end sample_nap = 0x20005" "text_mem sample_nap = 0" "bundle_mask sample_nap = 15"
  "validator_stub_out_mode sample_nap = False"
  by (simp_all add: sample_nap_def text_mem_def bundle_mask_def nacl_consts)

lemma sample_accepted:
  obtains mem' i where
    "NaClValidateImage sample_tables sample_cpu (\<lambda>_ _. True) False sample_nap sample_mem = Some (mem', i, LOAD_OK)"
  using sample_validates by (auto split: option.splits prod.splits)

theorem image_control_flow_witness:
  "\<exists>mem' i. NaClValidateImage sample_tables sample_cpu (\<lambda>_ _. True) False sample_nap sample_mem = Some (mem', i, LOAD_OK) \<and>
     (mem' 0 = kNaClFullStop \<or> legal_type (insttype (opinfo (decode_at sample_tables mem' 0x20000 0))))"
proof -
  obtain mem' i where r: "NaClValidateImage sample_tables sample_cpu (\<lambda>_ _. True) False sample_nap sample_mem = Some (mem', i, LOAD_OK)"
    by (rule sample_accepted)
  have s: "(0x20000 :: u32) AND bundle_mask sample_nap = 0" by (simp add: sample_facts)
  from image_control_flow [OF r sample_facts(1) entries_ok_tables_ok [OF entries_ok_sample] sample_facts(2) s rtranclp.rtrancl_refl]
  have "mem' 0 = kNaClFullStop \<or> legal_type (insttype (opinfo (decode_at sample_tables mem' 0x20000 0)))"
    by (auto simp: sample_facts NACL_TRAMPOLINE_END_val)
  with r show ?thesis by blast
qed

text \<open>
  C5: the validator is sound. An accepted image is a sequence of instructions that tile the
  region, all permitted; direct jumps and bundle boundaries hit instruction starts that are not
  the jump of a masked pair, every indirect jump follows its mask. In stub-out mode this holds of
  the code after the first pass, which differs from the loaded code in halts only.
\<close>

theorem NaClValidateImage_sound:
  assumes "NaClValidateImage T cpu alloc inited nap mem = Some (mem', inited', LOAD_OK)"
    and "\<not> ignore_validator_result nap" and "unat (static_text_end nap) + 32 \<le> 2 ^ 32"
  shows "\<exists>mem1 ms. validated T mem1 (text_mem nap) NACL_TRAMPOLINE_END (static_text_end nap) (bundle_mask nap) ms mem' \<and>
      stubbed (validator_stub_out_mode nap) mem mem1"
  by (rule image_validated(1) [OF assms])

theorem NaClValidateImage_sound_witness:
  "\<exists>mem' ms. validated sample_tables sample_mem 0 NACL_TRAMPOLINE_END 0x20005 15 ms mem'"
proof -
  obtain mem' i where r: "NaClValidateImage sample_tables sample_cpu (\<lambda>_ _. True) False sample_nap sample_mem = Some (mem', i, LOAD_OK)"
    by (rule sample_accepted)
  show ?thesis
    using NaClValidateImage_sound [OF r sample_facts(1,2)] by (auto simp: sample_facts stubbed_def)
qed

text \<open>
  C6: the validator returns on every image whose text ends below the last 32 bytes of the address
  range, in both modes, whatever the code, the tables and the allocator do; and it returns one of
  three verdicts.
\<close>

theorem NaClValidateImage_returns:
  assumes nowrap: "unat (static_text_end nap) + 32 \<le> 2 ^ 32"
  shows "\<exists>mem' inited' rc. NaClValidateImage T cpu alloc inited nap mem = Some (mem', inited', rc) \<and>
    rc \<in> {LOAD_OK, LOAD_NO_MEMORY, LOAD_VALIDATION_FAILED}"
proof -
  let ?sz = "mem_start nap + static_text_end nap - (mem_start nap + NACL_TRAMPOLINE_END)"
  have "\<exists>r. NaClValidateCode T cpu alloc inited nap NACL_TRAMPOLINE_END p ?sz mem = Some r" for p
  proof (cases "static_text_end nap \<le> NACL_TRAMPOLINE_END")
    case True
    show ?thesis by (simp add: NaClValidateCode_small [OF True])
  next
    case False
    then show ?thesis by (intro NaClValidateCode_returns region_size(2) [OF nowrap]) simp
  qed
  from this [of "unat (mem_start nap + NACL_TRAMPOLINE_END)"] show ?thesis
    by (auto simp: NaClValidateImage_def Let_def split: prod.splits)
qed

theorem NaClValidateImage_returns_witness:
  "\<exists>mem' inited' rc. NaClValidateImage nacl_tables sample_cpu (\<lambda>_ _. True) False sample_nap (\<lambda>_. 0xc3) = Some (mem', inited', rc) \<and>
    rc \<in> {LOAD_OK, LOAD_NO_MEMORY, LOAD_VALIDATION_FAILED}"
  by (rule NaClValidateImage_returns [OF sample_facts(2)])

text \<open>
  C7: the validator changes the code region only, and only by writing halts: a byte that differs
  after the run, accepted or not, in stub-out mode or not, lies in the region and is a halt.
\<close>

theorem NaClValidateImage_writes_halts:
  assumes run: "NaClValidateImage T cpu alloc inited nap mem = Some (mem', inited', rc)"
    and nowrap: "unat (static_text_end nap) + 32 \<le> 2 ^ 32"
  shows "mem' a = mem a \<or> text_mem nap \<le> a \<and> a < text_mem nap + (unat (static_text_end nap) - unat NACL_TRAMPOLINE_END) \<and>
    mem' a = kNaClFullStop"
  by (rule NaClValidateImage_mem [OF run nowrap])

theorem NaClValidateImage_writes_halts_witness:
  "\<exists>mem' i. NaClValidateImage sample_tables sample_cpu (\<lambda>_ _. True) False sample_nap sample_mem = Some (mem', i, LOAD_OK) \<and>
     mem' 5 = sample_mem 5"
proof -
  obtain mem' i where r: "NaClValidateImage sample_tables sample_cpu (\<lambda>_ _. True) False sample_nap sample_mem = Some (mem', i, LOAD_OK)"
    by (rule sample_accepted)
  have "mem' 5 = sample_mem 5"
    using NaClValidateImage_writes_halts [OF r sample_facts(2), of 5]
    by (simp add: sample_facts NACL_TRAMPOLINE_END_val)
  with r show ?thesis by blast
qed

end
